(* ===== verification/Prelude.thy ===== *)
theory Prelude
  imports
    Main
    "HOL-Library.Word"
    "HOL-Library.Sublist"
    "HOL-Library.Multiset"
    "HOL-Library.Mapping"
    "HOL-Library.AList_Mapping"
    "HOL-Library.Char_ord"
    "HOL-Library.List_Lexorder"
    "HOL-Library.Product_Lexorder"
begin

text \<open>
  Shared vocabulary of the development.

  A Rust \<open>str\<close> is a sequence of UTF-8 bytes; a HOL \<open>string\<close> is a list of 8-bit characters, so a
  string here is the byte sequence of the Rust value and \<open>length\<close> is \<open>str::len\<close>.
  The ordering of \<open>String\<close> is bytewise lexicographic, which is the \<open>linorder\<close> instance of
  \<open>List_Lexorder\<close> over \<open>Char_ord\<close>. A \<open>BTreeMap<String, _>\<close> is a \<open>mapping\<close>, a \<open>BTreeSet<_>\<close> a
  \<open>set\<close>, a \<open>Vec<_>\<close> a list, \<open>Option<_>\<close> is \<open>option\<close>, and \<open>Result<T, E>\<close> is the sum \<open>E + T\<close> with
  \<open>Inl\<close> for \<open>Err\<close> and \<open>Inr\<close> for \<open>Ok\<close>. A type erased to its wire form (the validated string
  newtypes) is a \<open>type_synonym\<close> of \<open>string\<close>; its validity predicate is in theory \<open>Names\<close>.
\<close>

section \<open>Types\<close>

type_synonym u16 = "16 word"
type_synonym u32 = "32 word"
type_synonym u64 = "64 word"

type_synonym application_id = string
type_synonym environment_id = string
type_synonym instance_id = string
type_synonym logical_name = string
type_synonym labels = "(string, string) mapping"

section \<open>Fact collections\<close>

text \<open>
  \<open>scope_simps\<close> collects the membership laws of application scopes, \<open>plan_simps\<close> what each
  planner step leaves in a plan, \<open>label_simps\<close> the lookups in label maps.
\<close>

named_theorems scope_simps
named_theorems plan_simps
named_theorems label_simps
named_theorems char_simps

section \<open>ASCII bytes\<close>

definition is_ascii_digit :: "char \<Rightarrow> bool" where
  "is_ascii_digit c \<longleftrightarrow> CHR ''0'' \<le> c \<and> c \<le> CHR ''9''"

definition is_ascii_lowercase :: "char \<Rightarrow> bool" where
  "is_ascii_lowercase c \<longleftrightarrow> CHR ''a'' \<le> c \<and> c \<le> CHR ''z''"

definition is_ascii_uppercase :: "char \<Rightarrow> bool" where
  "is_ascii_uppercase c \<longleftrightarrow> CHR ''A'' \<le> c \<and> c \<le> CHR ''Z''"

definition is_ascii_alphabetic :: "char \<Rightarrow> bool" where
  "is_ascii_alphabetic c \<longleftrightarrow> is_ascii_lowercase c \<or> is_ascii_uppercase c"

definition is_ascii_alphanumeric :: "char \<Rightarrow> bool" where
  "is_ascii_alphanumeric c \<longleftrightarrow> is_ascii_alphabetic c \<or> is_ascii_digit c"

definition to_ascii_lowercase :: "char \<Rightarrow> char" where
  "to_ascii_lowercase c = (if is_ascii_uppercase c then char_of ((of_char c :: nat) + 32) else c)"

definition is_hex_digit :: "char \<Rightarrow> bool" where
  "is_hex_digit c \<longleftrightarrow> is_ascii_digit c \<or> (CHR ''a'' \<le> c \<and> c \<le> CHR ''f'')"

lemmas ascii_defs =
  is_ascii_digit_def is_ascii_lowercase_def is_ascii_uppercase_def is_ascii_alphabetic_def
  is_ascii_alphanumeric_def to_ascii_lowercase_def is_hex_digit_def

text \<open>The byte of a character, and the classes as byte ranges.\<close>

abbreviation byte :: "char \<Rightarrow> nat" where
  "byte c \<equiv> of_char c"

lemma ascii_bytes [char_simps]:
  "is_ascii_digit c \<longleftrightarrow> 48 \<le> byte c \<and> byte c \<le> 57"
  "is_ascii_lowercase c \<longleftrightarrow> 97 \<le> byte c \<and> byte c \<le> 122"
  "is_ascii_uppercase c \<longleftrightarrow> 65 \<le> byte c \<and> byte c \<le> 90"
  "is_hex_digit c \<longleftrightarrow> 48 \<le> byte c \<and> byte c \<le> 57 \<or> 97 \<le> byte c \<and> byte c \<le> 102"
  by (simp_all add: ascii_defs less_eq_char_def)

lemma byte_less_256: "byte c < 256"
  by (rule nat_of_char_less_256)

lemma byte_to_ascii_lowercase [char_simps]:
  "byte (to_ascii_lowercase c) = (if is_ascii_uppercase c then byte c + 32 else byte c)"
proof (cases "is_ascii_uppercase c")
  case True
  then have "byte c + 32 < 256" by (simp add: ascii_bytes)
  with True show ?thesis by (simp add: to_ascii_lowercase_def of_char_of)
next
  case False
  then show ?thesis by (simp add: to_ascii_lowercase_def)
qed

lemma lowercase_not_uppercase [simp]: "\<not> is_ascii_uppercase (to_ascii_lowercase c)"
  by (simp add: ascii_bytes byte_to_ascii_lowercase)

lemma to_ascii_lowercase_id [simp]: "\<not> is_ascii_uppercase c \<Longrightarrow> to_ascii_lowercase c = c"
  by (simp add: to_ascii_lowercase_def)

lemma hex_digit_alphanumeric: "is_hex_digit c \<Longrightarrow> is_ascii_alphanumeric c \<and> \<not> is_ascii_uppercase c"
  by (auto simp: is_ascii_alphanumeric_def is_ascii_alphabetic_def ascii_bytes)

lemma hyphen_class [simp]:
  "\<not> is_ascii_alphanumeric (CHR ''-'')" "\<not> is_ascii_uppercase (CHR ''-'')"
  by (simp_all add: ascii_defs)

section \<open>Operations of str used by the code\<close>

text \<open>\<open>str::trim_start_matches\<close>, \<open>trim_end_matches\<close> and \<open>trim_matches\<close> with a single character.\<close>

definition trim_start_matches :: "char \<Rightarrow> string \<Rightarrow> string" where
  "trim_start_matches c s = dropWhile (\<lambda>x. x = c) s"

definition trim_end_matches :: "char \<Rightarrow> string \<Rightarrow> string" where
  "trim_end_matches c s = rev (dropWhile (\<lambda>x. x = c) (rev s))"

definition trim_matches :: "char \<Rightarrow> string \<Rightarrow> string" where
  "trim_matches c s = trim_start_matches c (trim_end_matches c s)"

text \<open>\<open>slice::join\<close>.\<close>

fun join :: "string \<Rightarrow> string list \<Rightarrow> string" where
  "join sep [] = []"
| "join sep [p] = p"
| "join sep (p # q # ps) = p @ sep @ join sep (q # ps)"

lemma set_trim_end_matches: "set (trim_end_matches c s) \<subseteq> set s"
  unfolding trim_end_matches_def using set_dropWhileD by fastforce

lemma length_trim_end_matches: "length (trim_end_matches c s) \<le> length s"
  by (simp add: trim_end_matches_def) (metis length_dropWhile_le length_rev)

lemma trim_end_matches_prefix: "prefix (trim_end_matches c s) s"
proof -
  have "suffix (dropWhile (\<lambda>x. x = c) (rev s)) (rev s)"
    by (rule suffix_dropWhile)
  then show ?thesis
    by (metis trim_end_matches_def rev_rev_ident suffix_to_prefix)
qed

lemma trim_end_matches_last:
  assumes "trim_end_matches c s \<noteq> []"
  shows "last (trim_end_matches c s) \<noteq> c"
proof -
  have "dropWhile (\<lambda>x. x = c) (rev s) \<noteq> []"
    using assms by (simp add: trim_end_matches_def)
  from hd_dropWhile [OF this] show ?thesis
    by (simp add: trim_end_matches_def last_rev)
qed

lemma trim_end_matches_id: "s = [] \<or> last s \<noteq> c \<Longrightarrow> trim_end_matches c s = s"
  by (cases s rule: rev_cases) (auto simp: trim_end_matches_def)

lemma trim_end_matches_hd:
  "s \<noteq> [] \<Longrightarrow> hd s \<noteq> c \<Longrightarrow> trim_end_matches c s \<noteq> [] \<and> hd (trim_end_matches c s) = hd s"
proof -
  assume "s \<noteq> []" and "hd s \<noteq> c"
  then obtain x xs where s: "s = x # xs" and x: "x \<noteq> c" by (cases s) auto
  have "trim_end_matches c s = x # trim_end_matches c xs"
    using x by (simp add: s trim_end_matches_def dropWhile_append)
  then show ?thesis by (simp add: s)
qed

lemma trim_end_matches_append_keep:
  "t \<noteq> [] \<Longrightarrow> last t \<noteq> c \<Longrightarrow> trim_end_matches c (s @ t) = s @ t"
  by (rule trim_end_matches_id) simp

lemma trim_end_matches_snoc [simp]: "trim_end_matches c (s @ [c]) = trim_end_matches c s"
  by (simp add: trim_end_matches_def)

text \<open>Decimal digits of an unsigned integer (\<open>ToString\<close>).\<close>

fun show_nat :: "nat \<Rightarrow> string" where
  "show_nat n = (if n < 10 then [char_of (48 + n)] else show_nat (n div 10) @ [char_of (48 + n mod 10)])"

declare show_nat.simps [simp del]

section \<open>Lists\<close>

text \<open>\<open>Iterator::find_map\<close> and the first index satisfying a predicate (\<open>Iterator::position\<close>).\<close>

fun position :: "('a \<Rightarrow> bool) \<Rightarrow> 'a list \<Rightarrow> nat option" where
  "position P [] = None"
| "position P (x # xs) = (if P x then Some 0 else map_option Suc (position P xs))"

lemma find_mem: "List.find P xs = Some x \<Longrightarrow> x \<in> set xs \<and> P x"
  by (induction xs) (auto split: if_splits)

lemma find_none: "List.find P xs = None \<longleftrightarrow> (\<forall>x\<in>set xs. \<not> P x)"
  by (auto simp: find_None_iff)

lemma in_set_map_filter: "y \<in> set (List.map_filter f xs) \<longleftrightarrow> (\<exists>x\<in>set xs. f x = Some y)"
  by (induction xs) (auto simp: map_filter_simps split: option.splits)

lemma list_all_set_mono: "set xs \<subseteq> set ys \<Longrightarrow> list_all P ys \<Longrightarrow> list_all P xs"
  by (auto simp: list_all_iff)

text \<open>\<open>string_enum!\<close>: \<open>parse\<close> matches the forms of \<open>ALL\<close> in order.\<close>

definition string_enum_parse :: "'a list \<Rightarrow> ('a \<Rightarrow> string) \<Rightarrow> string \<Rightarrow> 'a option" where
  "string_enum_parse variants as_str s = List.find (\<lambda>v. as_str v = s) variants"

section \<open>Results\<close>

text \<open>The \<open>?\<close> operator.\<close>

fun and_then :: "'e + 'a \<Rightarrow> ('a \<Rightarrow> 'e + 'b) \<Rightarrow> 'e + 'b" where
  "and_then (Inl e) f = Inl e"
| "and_then (Inr x) f = f x"

lemma and_then_Inr: "and_then r f = Inr y \<longleftrightarrow> (\<exists>x. r = Inr x \<and> f x = Inr y)"
  by (cases r) auto

section \<open>Maps\<close>

lemma mapping_keys_iff: "k \<in> Mapping.keys m \<longleftrightarrow> (\<exists>v. Mapping.lookup m k = Some v)"
  by (simp add: keys_dom_lookup domIff)

lemma lookup_update_if [label_simps]:
  "Mapping.lookup (Mapping.update k v m) k' = (if k = k' then Some v else Mapping.lookup m k')"
  by (rule lookup_update')

end
