(* ===== verification/Access.thy ===== *)
theory Access
  imports Prelude
begin

text \<open>
  Authorization: \<open>crates/piqueld-core/src/access.rs\<close>.

  Permissions and their inclusion, application scopes, the canonical grant set \<open>Grants\<close> with
  every operation that changes it, the checks that refuse a request, the wire list and presets.
  A \<open>BTreeMap<AppPermission, Scope>\<close> is a function into \<open>option\<close>: iterating it in key order is
  iterating \<open>app_permission_all\<close>, the declaration order \<open>AppPermission\<close> derives \<open>Ord\<close> from.
  A \<open>BTreeSet<ApplicationId>\<close> is a \<open>set\<close>, which the code only ever holds finite
  (\<open>wf_scope\<close>).

  The contract the grant operations rely on is the locale \<open>scope_algebra\<close>, interpreted on \<open>scope\<close>.
\<close>

section \<open>Permissions\<close>

datatype app_permission =
    Read | Write | Deploy | Delete | PreviewsDeploy | PreviewsDelete
  | SecretsWrite | LogsRead | Exec | EventsRead

definition app_permission_all :: "app_permission list" where
  "app_permission_all =
     [Read, Write, Deploy, Delete, PreviewsDeploy, PreviewsDelete,
      SecretsWrite, LogsRead, Exec, EventsRead]"

fun app_permission_as_str :: "app_permission \<Rightarrow> string" where
  "app_permission_as_str Read = ''apps:read''"
| "app_permission_as_str Write = ''apps:write''"
| "app_permission_as_str Deploy = ''apps:deploy''"
| "app_permission_as_str Delete = ''apps:delete''"
| "app_permission_as_str PreviewsDeploy = ''previews:deploy''"
| "app_permission_as_str PreviewsDelete = ''previews:delete''"
| "app_permission_as_str SecretsWrite = ''secrets:write''"
| "app_permission_as_str LogsRead = ''logs:read''"
| "app_permission_as_str Exec = ''apps:exec''"
| "app_permission_as_str EventsRead = ''events:read''"

definition app_permission_parse :: "string \<Rightarrow> app_permission option" where
  "app_permission_parse = string_enum_parse app_permission_all app_permission_as_str"

fun included_in :: "app_permission \<Rightarrow> app_permission option" where
  "included_in PreviewsDeploy = Some Deploy"
| "included_in PreviewsDelete = Some Delete"
| "included_in _ = None"

fun on_previews :: "app_permission \<Rightarrow> app_permission option" where
  "on_previews LogsRead = Some PreviewsDeploy"
| "on_previews _ = None"

definition perm_includes :: "app_permission \<Rightarrow> app_permission \<Rightarrow> bool" where
  "perm_includes held wanted \<longleftrightarrow>
     held = wanted \<or> wanted = Read \<or> included_in wanted = Some held"

datatype global_permission =
    AppsCreate | SystemRead | SystemOperate | AccountsManage
  | AuditRead | TelemetryGrant | NotificationsManage

definition global_permission_all :: "global_permission list" where
  "global_permission_all =
     [AppsCreate, SystemRead, SystemOperate, AccountsManage,
      AuditRead, TelemetryGrant, NotificationsManage]"

fun global_permission_as_str :: "global_permission \<Rightarrow> string" where
  "global_permission_as_str AppsCreate = ''apps:create''"
| "global_permission_as_str SystemRead = ''system:read''"
| "global_permission_as_str SystemOperate = ''system:operate''"
| "global_permission_as_str AccountsManage = ''accounts:manage''"
| "global_permission_as_str AuditRead = ''audit:read''"
| "global_permission_as_str TelemetryGrant = ''telemetry:grant''"
| "global_permission_as_str NotificationsManage = ''notifications:manage''"

definition global_permission_parse :: "string \<Rightarrow> global_permission option" where
  "global_permission_parse = string_enum_parse global_permission_all global_permission_as_str"

datatype permission = Admin | App app_permission | Global global_permission

definition ADMIN :: string where "ADMIN = ''admin''"

definition permission_all :: "permission list" where
  "permission_all = Admin # map App app_permission_all @ map Global global_permission_all"

fun permission_as_str :: "permission \<Rightarrow> string" where
  "permission_as_str Admin = ADMIN"
| "permission_as_str (App p) = app_permission_as_str p"
| "permission_as_str (Global p) = global_permission_as_str p"

definition permission_parse :: "string \<Rightarrow> permission option" where
  "permission_parse s =
     (if s = ADMIN then Some Admin
      else case map_option App (app_permission_parse s) of
          Some p \<Rightarrow> Some p
        | None \<Rightarrow> map_option Global (global_permission_parse s))"

fun scopable :: "permission \<Rightarrow> bool" where
  "scopable (Global _) = False"
| "scopable _ = True"

section \<open>Scopes\<close>

datatype scope = All_Apps | Only "application_id set"

definition scope_none :: scope where
  "scope_none = Only {}"

definition scope_one :: "application_id \<Rightarrow> scope" where
  "scope_one i = Only {i}"

fun scope_contains :: "scope \<Rightarrow> application_id \<Rightarrow> bool" where
  "scope_contains All_Apps i = True"
| "scope_contains (Only ids) i = (i \<in> ids)"

fun scope_is_empty :: "scope \<Rightarrow> bool" where
  "scope_is_empty (Only ids) = (ids = {})"
| "scope_is_empty All_Apps = False"

fun scope_covers :: "scope \<Rightarrow> scope \<Rightarrow> bool" where
  "scope_covers All_Apps other = True"
| "scope_covers (Only ours) All_Apps = False"
| "scope_covers (Only ours) (Only theirs) = (theirs \<subseteq> ours)"

fun scope_extend :: "scope \<Rightarrow> scope \<Rightarrow> scope" where
  "scope_extend All_Apps other = All_Apps"
| "scope_extend (Only ours) All_Apps = All_Apps"
| "scope_extend (Only ours) (Only theirs) = Only (ours \<union> theirs)"

fun scope_intersection :: "scope \<Rightarrow> scope \<Rightarrow> scope" where
  "scope_intersection All_Apps other = other"
| "scope_intersection (Only ours) All_Apps = Only ours"
| "scope_intersection (Only ours) (Only theirs) = Only (ours \<inter> theirs)"

fun scope_without :: "scope \<Rightarrow> scope \<Rightarrow> scope" where
  "scope_without s All_Apps = scope_none"
| "scope_without All_Apps (Only theirs) = All_Apps"
| "scope_without (Only ours) (Only theirs) = Only (ours - theirs)"

fun scope_applications :: "scope \<Rightarrow> application_id set option" where
  "scope_applications All_Apps = None"
| "scope_applications (Only ids) = Some ids"

section \<open>Grants\<close>

record grant =
  grant_permission :: permission
  grant_applications :: "application_id set option"

datatype grant_error = Unknown_Permission string | Unscopable permission | EmptyScope permission

datatype denied = Hidden | Missing permission | Exceeds | Scoped

datatype target =
    Target_Id application_id | Target_Preview application_id | Target_Named application_id
  | Target_New | Target_Unknown

record grants =
  g_admin :: "scope option"
  g_apps :: "app_permission \<Rightarrow> scope option"
  g_global :: "global_permission set"

definition grants_default :: grants where
  "grants_default = \<lparr>g_admin = None, g_apps = Map.empty, g_global = {}\<rparr>"

definition grants_admin :: grants where
  "grants_admin = grants_default\<lparr>g_admin := Some All_Apps\<rparr>"

definition admin_scope :: "grants \<Rightarrow> scope" where
  "admin_scope g = (case g_admin g of None \<Rightarrow> scope_none | Some s \<Rightarrow> s)"

definition is_superuser :: "grants \<Rightarrow> bool" where
  "is_superuser g \<longleftrightarrow> g_admin g = Some All_Apps"

definition grants_is_empty :: "grants \<Rightarrow> bool" where
  "grants_is_empty g \<longleftrightarrow>
     g_admin g = None \<and> list_all (\<lambda>p. g_apps g p = None) app_permission_all \<and> g_global g = {}"

definition app_scope :: "grants \<Rightarrow> app_permission \<Rightarrow> scope" where
  "app_scope g permission =
     fold (\<lambda>held scope. case g_apps g held of
             None \<Rightarrow> scope
           | Some held_scope \<Rightarrow>
               if perm_includes held permission then scope_extend scope held_scope else scope)
       app_permission_all (admin_scope g)"

definition has_global :: "grants \<Rightarrow> global_permission \<Rightarrow> bool" where
  "has_global g permission \<longleftrightarrow> is_superuser g \<or> permission \<in> g_global g"

text \<open>\<open>insert_within\<close> and \<open>insert\<close> do not restore the canonical form.\<close>

fun insert_within :: "grants \<Rightarrow> permission \<Rightarrow> scope \<Rightarrow> grants" where
  "insert_within g (Global permission) scope = g\<lparr>g_global := insert permission (g_global g)\<rparr>"
| "insert_within g Admin scope =
     (if scope_is_empty scope then g
      else g\<lparr>g_admin := Some (scope_extend (admin_scope g) scope)\<rparr>)"
| "insert_within g (App permission) scope =
     (if scope_is_empty scope then g
      else g\<lparr>g_apps := (g_apps g)(permission \<mapsto>
             scope_extend (case g_apps g permission of None \<Rightarrow> scope_none | Some s \<Rightarrow> s) scope)\<rparr>)"

definition grants_insert :: "grants \<Rightarrow> permission \<Rightarrow> scope \<Rightarrow> grant_error + grants" where
  "grants_insert g permission scope =
     (if scope_is_empty scope then Inr g
      else if \<not> scopable permission \<and> scope \<noteq> All_Apps then Inl (Unscopable permission)
      else Inr (insert_within g permission scope))"

text \<open>The three passes of \<open>normalize\<close> over \<open>apps\<close>, in the order the code runs them.\<close>

definition remove_admin_pass ::
    "scope \<Rightarrow> (app_permission \<Rightarrow> scope option) \<Rightarrow> (app_permission \<Rightarrow> scope option) \<times> scope" where
  "remove_admin_pass admin apps0 =
     fold (\<lambda>p (apps, readable). case apps p of
             None \<Rightarrow> (apps, readable)
           | Some scope \<Rightarrow>
               let scope = scope_without scope admin
               in (apps(p \<mapsto> scope), scope_extend readable scope))
       app_permission_all (apps0, scope_none)"

definition remove_included_pass ::
    "(app_permission \<Rightarrow> scope option) \<Rightarrow> (app_permission \<Rightarrow> scope option)" where
  "remove_included_pass apps0 =
     fold (\<lambda>permission apps.
             case Option.bind (included_in permission) apps of
               None \<Rightarrow> apps
             | Some including \<Rightarrow>
                 (case apps permission of
                    None \<Rightarrow> apps
                  | Some scope \<Rightarrow> apps(permission \<mapsto> scope_without scope including)))
       app_permission_all apps0"

definition retain_nonempty ::
    "(app_permission \<Rightarrow> scope option) \<Rightarrow> (app_permission \<Rightarrow> scope option)" where
  "retain_nonempty apps p =
     (case apps p of None \<Rightarrow> None | Some scope \<Rightarrow> if scope_is_empty scope then None else Some scope)"

definition grants_normalize :: "grants \<Rightarrow> grants" where
  "grants_normalize g =
     (let admin = admin_scope g in
      if admin = All_Apps then g\<lparr>g_apps := Map.empty, g_global := {}\<rparr>
      else
        let (apps, readable) = remove_admin_pass admin (g_apps g);
            apps = apps(Read \<mapsto> readable);
            apps = remove_included_pass apps;
            apps = retain_nonempty apps
        in g\<lparr>g_apps := apps, g_admin := (if scope_is_empty admin then None else g_admin g)\<rparr>)"

definition grants_grant :: "grants \<Rightarrow> permission \<Rightarrow> scope \<Rightarrow> grant_error + grants" where
  "grants_grant g permission scope =
     (case grants_insert g permission scope of Inl e \<Rightarrow> Inl e | Inr g' \<Rightarrow> Inr (grants_normalize g'))"

definition grant_within :: "grants \<Rightarrow> permission \<Rightarrow> scope \<Rightarrow> grants" where
  "grant_within g permission scope = grants_normalize (insert_within g permission scope)"

definition grants_extend :: "grants \<Rightarrow> grants \<Rightarrow> grants" where
  "grants_extend g other =
     (let g = (case g_admin other of None \<Rightarrow> g | Some scope \<Rightarrow> insert_within g Admin scope);
          g = fold (\<lambda>p g. case g_apps other p of
                      None \<Rightarrow> g | Some scope \<Rightarrow> insert_within g (App p) scope)
                app_permission_all g;
          g = g\<lparr>g_global := g_global g \<union> g_global other\<rparr>
      in grants_normalize g)"

section \<open>Checks\<close>

definition require_app :: "grants \<Rightarrow> app_permission \<Rightarrow> application_id \<Rightarrow> denied + unit" where
  "require_app g permission i =
     (if \<not> scope_contains (app_scope g Read) i then Inl Hidden
      else if \<not> scope_contains (app_scope g permission) i then Inl (Missing (App permission))
      else Inr ())"

definition require :: "grants \<Rightarrow> permission \<Rightarrow> denied + unit" where
  "require g permission =
     (let held = (case permission of
          Admin \<Rightarrow> is_superuser g
        | App p \<Rightarrow> \<not> scope_is_empty (app_scope g p)
        | Global p \<Rightarrow> has_global g p)
      in if held then Inr () else Inl (Missing permission))"

definition grants_covers :: "grants \<Rightarrow> grants \<Rightarrow> bool" where
  "grants_covers g other \<longleftrightarrow>
     (case g_admin other of None \<Rightarrow> True | Some scope \<Rightarrow> scope_covers (admin_scope g) scope)
     \<and> list_all (\<lambda>p. case g_apps other p of
           None \<Rightarrow> True | Some scope \<Rightarrow> scope_covers (app_scope g p) scope) app_permission_all
     \<and> list_all (\<lambda>p. p \<in> g_global other \<longrightarrow> has_global g p) global_permission_all"

definition may_grant :: "grants \<Rightarrow> grants \<Rightarrow> denied + unit" where
  "may_grant g other = (if grants_covers g other then Inr () else Inl Exceeds)"

definition may_change_account :: "grants \<Rightarrow> bool \<Rightarrow> grants \<Rightarrow> denied + unit" where
  "may_change_account g own target =
     (if own then Inr ()
      else case require g (Global AccountsManage) of
          Inl e \<Rightarrow> Inl e
        | Inr _ \<Rightarrow> may_grant g target)"

text \<open>\<open>Iterator::try_for_each\<close>: stops at the first error.\<close>

fun try_for_each :: "('a \<Rightarrow> 'e + unit) \<Rightarrow> 'a list \<Rightarrow> 'e + unit" where
  "try_for_each f [] = Inr ()"
| "try_for_each f (x # xs) = (case f x of Inl e \<Rightarrow> Inl e | Inr _ \<Rightarrow> try_for_each f xs)"

definition require_create :: "grants \<Rightarrow> app_permission list \<Rightarrow> denied + unit" where
  "require_create g required =
     try_for_each (\<lambda>permission. case permission of
         Write \<Rightarrow> require g (Global AppsCreate)
       | permission \<Rightarrow> require g (App permission)) required"

definition require_preview ::
    "grants \<Rightarrow> app_permission list \<Rightarrow> application_id \<Rightarrow> denied + unit" where
  "require_preview g required i =
     try_for_each (\<lambda>permission. case require_app g permission i of
         Inr u \<Rightarrow> Inr u
       | Inl denied \<Rightarrow>
           (case (denied, on_previews permission) of
              (Missing _, Some previews) \<Rightarrow>
                (case require_app g previews i of Inr u \<Rightarrow> Inr u | Inl _ \<Rightarrow> Inl denied)
            | _ \<Rightarrow> Inl denied)) required"

definition require_change :: "grants \<Rightarrow> app_permission list \<Rightarrow> target \<Rightarrow> denied + unit" where
  "require_change g required target =
     (case target of
        Target_New \<Rightarrow> require_create g required
      | Target_Id i \<Rightarrow> try_for_each (\<lambda>permission. require_app g permission i) required
      | Target_Preview i \<Rightarrow> require_preview g required i
      | Target_Unknown \<Rightarrow>
          try_for_each (\<lambda>permission.
            if app_scope g permission = All_Apps then Inr () else Inl Hidden) required
      | Target_Named i \<Rightarrow>
          if \<not> scope_contains (app_scope g Read) i
          then (case require_create g required of
                  Inl e \<Rightarrow> Inl e | Inr _ \<Rightarrow> Inl (Missing (App Write)))
          else try_for_each (\<lambda>permission. require_app g permission i) required)"

section \<open>Combining grant sets\<close>

definition grants_intersection :: "grants \<Rightarrow> grants \<Rightarrow> grants" where
  "grants_intersection g other =
     grants_normalize
       \<lparr>g_admin = Some (scope_intersection (admin_scope g) (admin_scope other)),
        g_apps = (\<lambda>permission.
          Some (scope_intersection (app_scope g permission) (app_scope other permission))),
        g_global = set (filter (\<lambda>p. has_global g p \<and> has_global other p) global_permission_all)\<rparr>"

definition for_created_application :: "grants \<Rightarrow> application_id \<Rightarrow> grants" where
  "for_created_application g i =
     (let scope = scope_one i;
          result = grants_default;
          result = (case g_admin g of
              Some admin \<Rightarrow> if admin \<noteq> All_Apps then result\<lparr>g_admin := Some scope\<rparr> else result
            | None \<Rightarrow> result);
          result = fold (\<lambda>p r. case g_apps g p of
              Some held \<Rightarrow> if held \<noteq> All_Apps then r\<lparr>g_apps := (g_apps r)(p \<mapsto> scope)\<rparr> else r
            | None \<Rightarrow> r) app_permission_all result
      in grants_normalize result)"

section \<open>The wire list\<close>

definition to_list :: "grants \<Rightarrow> grant list" where
  "to_list g =
     (let scoped = (\<lambda>permission scope.
            \<lparr>grant_permission = permission, grant_applications = scope_applications scope\<rparr>)
      in (case g_admin g of None \<Rightarrow> [] | Some scope \<Rightarrow> [scoped Admin scope])
         @ List.map_filter (\<lambda>p. map_option (scoped (App p)) (g_apps g p)) app_permission_all
         @ map (\<lambda>p. \<lparr>grant_permission = Global p, grant_applications = None\<rparr>)
             (filter (\<lambda>p. p \<in> g_global g) global_permission_all))"

fun insert_list :: "grants \<Rightarrow> grant list \<Rightarrow> grant_error + grants" where
  "insert_list g [] = Inr g"
| "insert_list g (x # xs) =
     (case (case grant_applications x of
              None \<Rightarrow> Inr All_Apps
            | Some ids \<Rightarrow>
                if ids = {} then Inl (EmptyScope (grant_permission x)) else Inr (Only ids)) of
        Inl e \<Rightarrow> Inl e
      | Inr scope \<Rightarrow>
          (case grants_insert g (grant_permission x) scope of
             Inl e \<Rightarrow> Inl e
           | Inr g' \<Rightarrow> insert_list g' xs))"

definition try_from_list :: "grant list \<Rightarrow> grant_error + grants" where
  "try_from_list xs =
     (case insert_list grants_default xs of Inl e \<Rightarrow> Inl e | Inr g \<Rightarrow> Inr (grants_normalize g))"

section \<open>Presets\<close>

datatype preset = Preset_ReadOnly | Preset_Deploy | Preset_Developer | Preset_Admin

fun preset_apps :: "preset \<Rightarrow> app_permission list" where
  "preset_apps Preset_ReadOnly = [Read, LogsRead, EventsRead]"
| "preset_apps Preset_Deploy = [Read, Deploy]"
| "preset_apps Preset_Developer = [Read, Write, Deploy, SecretsWrite, LogsRead, EventsRead, Exec]"
| "preset_apps Preset_Admin = []"

definition preset_permissions :: "preset \<Rightarrow> bool \<Rightarrow> permission list" where
  "preset_permissions preset everywhere =
     (if preset = Preset_Admin then [Admin] else [])
     @ map App (preset_apps preset)
     @ (if everywhere \<and> preset \<in> {Preset_ReadOnly, Preset_Developer}
        then [Global SystemRead] else [])"

definition preset_grants :: "preset \<Rightarrow> scope \<Rightarrow> grants" where
  "preset_grants preset scope =
     fold (\<lambda>permission g. grant_within g permission scope)
       (preset_permissions preset (scope = All_Apps)) grants_default"

section \<open>What a scope covers\<close>

text \<open>
  The abstract value of a scope: the applications it covers, with \<open>None\<close> standing for the
  applications created later, which only \<open>All_Apps\<close> covers. Scopes and their values are in
  bijection with the operations below acting as set operations.
\<close>

fun points :: "scope \<Rightarrow> application_id option set" where
  "points All_Apps = UNIV"
| "points (Only ids) = Some ` ids"

text \<open>
  What the grant operations use of scopes. Clients reason about \<open>pts\<close> only.
\<close>

locale scope_algebra =
  fixes pts :: "'s \<Rightarrow> 'i option set"
    and bot :: 's
    and top :: 's
    and ext :: "'s \<Rightarrow> 's \<Rightarrow> 's"
    and meet :: "'s \<Rightarrow> 's \<Rightarrow> 's"
    and minus :: "'s \<Rightarrow> 's \<Rightarrow> 's"
    and cov :: "'s \<Rightarrow> 's \<Rightarrow> bool"
    and emp :: "'s \<Rightarrow> bool"
  assumes pts_inj: "pts s = pts t \<Longrightarrow> s = t"
    and pts_bot: "pts bot = {}"
    and pts_top: "pts top = UNIV"
    and pts_later: "None \<in> pts s \<Longrightarrow> s = top"
    and pts_ext: "pts (ext s t) = pts s \<union> pts t"
    and pts_meet: "pts (meet s t) = pts s \<inter> pts t"
    and pts_minus: "pts (minus s t) =
      (if None \<in> pts t then {} else if None \<in> pts s then UNIV else pts s - pts t)"
    and cov_iff: "cov s t \<longleftrightarrow> pts t \<subseteq> pts s"
    and emp_iff: "emp s \<longleftrightarrow> pts s = {}"
begin

lemma minus_keeps: "pts t \<union> pts (minus s t) = pts t \<union> pts s"
proof -
  have "None \<in> pts x \<Longrightarrow> pts x = UNIV" for x
    using pts_later pts_top by metis
  then show ?thesis unfolding pts_minus by auto
qed

lemma minus_subset: "pts (minus s t) \<subseteq> pts s"
  using pts_later pts_top unfolding pts_minus by (metis Diff_subset empty_subsetI order_refl)

text \<open>Reading the scopes a map holds, for the keys selected by \<open>Q\<close>.\<close>

lemma pts_fold:
  "pts (fold (\<lambda>p scope. case m p of
           None \<Rightarrow> scope | Some s \<Rightarrow> if Q p then ext scope s else scope) ps s0)
   = pts s0 \<union> (\<Union>p \<in> {p \<in> set ps. Q p}. case m p of None \<Rightarrow> {} | Some s \<Rightarrow> pts s)"
  by (induction ps arbitrary: s0) (auto simp: pts_ext split: option.splits)

text \<open>
  A scope is separate from a base when nothing of the base is listed again: the form
  normalization leaves. Separate scopes are determined by what they add to the base.
\<close>

lemma separate_unique:
  assumes "minus s b = s" and "minus t b = t" and "pts b \<union> pts s = pts b \<union> pts t"
  shows "s = t"
proof (rule pts_inj)
  show "pts s = pts t"
    using assms pts_minus [of s b] pts_minus [of t b]
    by (cases "None \<in> pts b"; cases "None \<in> pts s"; cases "None \<in> pts t") auto
qed

lemma minus_minus: "minus (minus s t) t = minus s t"
  by (rule pts_inj) (simp add: pts_minus pts_later [THEN arg_cong [of _ _ pts]] pts_top)

end

lemma later_iff [scope_simps]: "None \<in> points s \<longleftrightarrow> s = All_Apps"
  by (cases s) auto

lemma contains_points [scope_simps]: "scope_contains s i \<longleftrightarrow> Some i \<in> points s"
  by (cases s) auto

lemma points_without [scope_simps]:
  "points (scope_without s t) =
     (if t = All_Apps then {} else if s = All_Apps then UNIV else points s - points t)"
  by (cases s; cases t) (auto simp: scope_none_def)

lemma points_extend [scope_simps]: "points (scope_extend s t) = points s \<union> points t"
  by (cases s; cases t) auto

lemma points_inter [scope_simps]: "points (scope_intersection s t) = points s \<inter> points t"
  by (cases s; cases t) auto

lemma points_none [scope_simps]: "points scope_none = {}"
  by (simp add: scope_none_def)

lemma points_one [scope_simps]: "points (scope_one i) = {Some i}"
  by (simp add: scope_one_def)

lemma points_inj: "points s = points t \<Longrightarrow> s = t"
  by (cases s; cases t) (auto simp: inj_image_eq_iff dest: arg_cong [of _ _ "\<lambda>A. None \<in> A"])

lemma covers_points [scope_simps]: "scope_covers s t \<longleftrightarrow> points t \<subseteq> points s"
  by (cases s; cases t) (auto dest: subsetD [of _ _ None])

lemma empty_points [scope_simps]: "scope_is_empty s \<longleftrightarrow> points s = {}"
  by (cases s) auto

interpretation sc: scope_algebra points scope_none All_Apps scope_extend scope_intersection
    scope_without scope_covers scope_is_empty
  by unfold_locales (auto simp: scope_simps dest: points_inj)

section \<open>What a grant set allows\<close>

lemma app_permission_all_UNIV [simp]: "set app_permission_all = UNIV"
proof -
  have "p \<in> set app_permission_all" for p
    by (cases p) (simp_all add: app_permission_all_def)
  then show ?thesis by auto
qed

lemma app_permission_all_distinct [simp]: "distinct app_permission_all"
  by (simp add: app_permission_all_def)

lemma global_permission_all_UNIV [simp]: "set global_permission_all = UNIV"
proof -
  have "p \<in> set global_permission_all" for p
    by (cases p) (simp_all add: global_permission_all_def)
  then show ?thesis by auto
qed

definition held_points :: "(app_permission \<Rightarrow> scope option) \<Rightarrow> app_permission \<Rightarrow> application_id option set" where
  "held_points m p = (case m p of None \<Rightarrow> {} | Some s \<Rightarrow> points s)"

lemma app_scope_points:
  "points (app_scope g p) =
     points (admin_scope g) \<union> (\<Union>q \<in> {q. perm_includes q p}. held_points (g_apps g) q)"
proof -
  have "app_scope g p =
      fold (\<lambda>q scope. case g_apps g q of
          None \<Rightarrow> scope | Some s \<Rightarrow> if perm_includes q p then scope_extend scope s else scope)
        app_permission_all (admin_scope g)"
    by (simp add: app_scope_def)
  then show ?thesis by (simp add: sc.pts_fold held_points_def [abs_def])
qed

text \<open>Which permissions give which.\<close>

lemma perm_includes_Read [simp]: "perm_includes q Read"
  by (simp add: perm_includes_def)

lemma perm_includes_iff:
  "perm_includes q p \<longleftrightarrow>
     q = p \<or> p = Read \<or> p = PreviewsDeploy \<and> q = Deploy \<or> p = PreviewsDelete \<and> q = Delete"
  by (cases p) (auto simp: perm_includes_def)

lemma perm_includes_trans: "perm_includes r q \<Longrightarrow> perm_includes q p \<Longrightarrow> perm_includes r p"
  by (auto simp: perm_includes_iff)

lemma app_scope_mono:
  "perm_includes q p \<Longrightarrow> points (app_scope g q) \<subseteq> points (app_scope g p)"
  unfolding app_scope_points using perm_includes_trans by blast

lemma admin_in_app_scope: "points (admin_scope g) \<subseteq> points (app_scope g p)"
  by (simp add: app_scope_points)

lemma superuser_iff: "is_superuser g \<longleftrightarrow> admin_scope g = All_Apps"
  by (auto simp: is_superuser_def admin_scope_def scope_none_def split: option.splits)

definition same_access :: "grants \<Rightarrow> grants \<Rightarrow> bool" where
  "same_access g h \<longleftrightarrow>
     admin_scope g = admin_scope h
     \<and> list_all (\<lambda>p. app_scope g p = app_scope h p) app_permission_all
     \<and> list_all (\<lambda>p. has_global g p = has_global h p) global_permission_all"

lemma same_access_iff:
  "same_access g h \<longleftrightarrow>
     admin_scope g = admin_scope h \<and> (\<forall>p. app_scope g p = app_scope h p)
     \<and> (\<forall>p. has_global g p = has_global h p)"
  by (simp add: same_access_def list_all_iff)

section \<open>Normalization\<close>

text \<open>The passes in closed form.\<close>

lemma remove_admin_pass_aux:
  assumes "distinct ps"
  shows "fold (\<lambda>p (apps, readable). case apps p of
             None \<Rightarrow> (apps, readable)
           | Some scope \<Rightarrow>
               let scope = scope_without scope admin
               in (apps(p \<mapsto> scope), scope_extend readable scope)) ps (m, r)
     = ((\<lambda>p. if p \<in> set ps then map_option (\<lambda>s. scope_without s admin) (m p) else m p),
        fold (\<lambda>p r. case m p of
            None \<Rightarrow> r | Some s \<Rightarrow> if True then scope_extend r (scope_without s admin) else r) ps r)"
  using assms
proof (induction ps arbitrary: m r)
  case (Cons p ps)
  show ?case
  proof (cases "m p")
    case None
    with Cons show ?thesis by (auto simp: fun_eq_iff)
  next
    case (Some s)
    have same: "fold (\<lambda>q r. case (m(p \<mapsto> scope_without s admin)) q of None \<Rightarrow> r
            | Some s \<Rightarrow> if True then scope_extend r (scope_without s admin) else r) ps x
        = fold (\<lambda>q r. case m q of None \<Rightarrow> r
            | Some s \<Rightarrow> if True then scope_extend r (scope_without s admin) else r) ps x" for x
      using Cons.prems by (intro fold_cong) auto
    from Some Cons same show ?thesis
      by (auto simp: Let_def fun_eq_iff)
  qed
qed simp

definition apps_outside :: "scope \<Rightarrow> (app_permission \<Rightarrow> scope option) \<Rightarrow> app_permission \<Rightarrow> scope option" where
  "apps_outside admin m p = map_option (\<lambda>s. scope_without s admin) (m p)"

lemma remove_admin_pass_apps: "fst (remove_admin_pass admin m) = apps_outside admin m"
  unfolding remove_admin_pass_def
  by (simp add: remove_admin_pass_aux apps_outside_def fun_eq_iff)

lemma remove_admin_pass_readable:
  "points (snd (remove_admin_pass admin m)) = (\<Union>p. held_points (apps_outside admin m) p)"
proof -
  have shift: "(case m p of None \<Rightarrow> r | Some s \<Rightarrow> if True then scope_extend r (scope_without s admin) else r)
     = (case apps_outside admin m p of None \<Rightarrow> r | Some s \<Rightarrow> if True then scope_extend r s else r)" for p r
    by (simp add: apps_outside_def split: option.splits)
  show ?thesis
    unfolding remove_admin_pass_def
    by (simp only: remove_admin_pass_aux [OF app_permission_all_distinct] snd_conv shift
        sc.pts_fold) (simp add: scope_simps held_points_def [abs_def])
qed

lemma remove_included_pass_eq:
  "remove_included_pass m p =
     (case Option.bind (included_in p) m of
        None \<Rightarrow> m p
      | Some including \<Rightarrow> map_option (\<lambda>s. scope_without s including) (m p))"
  by (cases p) (auto simp: remove_included_pass_def app_permission_all_def split: option.splits)

lemma held_retain: "held_points (retain_nonempty m) p = held_points m p"
  by (simp add: held_points_def retain_nonempty_def scope_simps split: option.splits)

lemma retain_nonempty_Some:
  "retain_nonempty m p = Some s \<longleftrightarrow> m p = Some s \<and> points s \<noteq> {}"
  by (auto simp: retain_nonempty_def scope_simps split: option.splits)

definition normal_apps :: "scope \<Rightarrow> (app_permission \<Rightarrow> scope option) \<Rightarrow> app_permission \<Rightarrow> scope option" where
  "normal_apps admin m =
     remove_included_pass ((apps_outside admin m)(Read \<mapsto> snd (remove_admin_pass admin m)))"

lemma grants_normalize_cases:
  "grants_normalize g =
     (if admin_scope g = All_Apps then g\<lparr>g_apps := Map.empty, g_global := {}\<rparr>
      else g\<lparr>g_apps := retain_nonempty (normal_apps (admin_scope g) (g_apps g)),
             g_admin := (if scope_is_empty (admin_scope g) then None else g_admin g)\<rparr>)"
  by (auto simp: grants_normalize_def normal_apps_def Let_def case_prod_beta remove_admin_pass_apps)

lemma admin_scope_normalize [simp]: "admin_scope (grants_normalize g) = admin_scope g"
  by (auto simp: grants_normalize_cases admin_scope_def scope_none_def split: option.splits)
    (auto simp: scope_simps intro: points_inj)

text \<open>What normalization leaves at each permission, over the admin scope.\<close>

lemma outside_points:
  "points admin \<union> held_points (apps_outside admin m) p = points admin \<union> held_points m p"
proof (cases "m p")
  case None
  then show ?thesis by (simp add: held_points_def apps_outside_def)
next
  case (Some s)
  then show ?thesis
    using sc.minus_keeps [of admin s] by (simp add: held_points_def apps_outside_def)
qed

lemma outside_subset: "held_points (apps_outside admin m) p \<subseteq> held_points m p"
  using sc.minus_subset [of _ admin]
  by (simp add: held_points_def apps_outside_def split: option.splits)

lemma normal_apps_other:
  "p \<noteq> Read \<Longrightarrow> included_in p = None \<Longrightarrow> normal_apps admin m p = apps_outside admin m p"
  by (simp add: normal_apps_def remove_included_pass_eq)

lemma normal_apps_Read:
  "held_points (normal_apps admin m) Read = (\<Union>p. held_points (apps_outside admin m) p)"
  by (simp add: normal_apps_def remove_included_pass_eq held_points_def [of _ Read]
      remove_admin_pass_readable)

lemma included_plain: "included_in p = Some q \<Longrightarrow> p \<noteq> Read \<and> q \<noteq> Read \<and> included_in q = None"
  by (cases p) auto

lemma normal_apps_included:
  assumes "included_in p = Some q"
  shows "held_points (normal_apps admin m) q \<union> held_points (normal_apps admin m) p
       = held_points (apps_outside admin m) q \<union> held_points (apps_outside admin m) p"
proof -
  note pq = included_plain [OF assms]
  then have q: "normal_apps admin m q = apps_outside admin m q"
    by (simp add: normal_apps_other)
  show ?thesis
  proof (cases "apps_outside admin m q")
    case None
    then have "normal_apps admin m p = apps_outside admin m p"
      using assms pq by (simp add: normal_apps_def remove_included_pass_eq)
    then show ?thesis by (simp add: held_points_def q)
  next
    case (Some d)
    then have "normal_apps admin m p = map_option (\<lambda>s. scope_without s d) (apps_outside admin m p)"
      using assms pq by (simp add: normal_apps_def remove_included_pass_eq)
    then show ?thesis
      using Some q sc.minus_keeps [of d] by (auto simp: held_points_def split: option.splits)
  qed
qed

lemma normal_apps_readable:
  "held_points (normal_apps admin m) p \<subseteq> held_points (normal_apps admin m) Read"
proof (cases "included_in p")
  case None
  show ?thesis
  proof (cases "p = Read")
    case False
    with None have "normal_apps admin m p = apps_outside admin m p"
      by (rule normal_apps_other [rotated])
    then have "held_points (normal_apps admin m) p = held_points (apps_outside admin m) p"
      by (simp add: held_points_def)
    then show ?thesis unfolding normal_apps_Read by blast
  qed simp
next
  case (Some q)
  show ?thesis using normal_apps_included [OF Some, of admin m] unfolding normal_apps_Read by blast
qed

lemma normal_apps_access:
  "(\<Union>q \<in> {q. perm_includes q p}. held_points (normal_apps admin m) q)
   = (\<Union>q \<in> {q. perm_includes q p}. held_points (apps_outside admin m) q)"
proof (cases "p = Read")
  case True
  then have all: "{q. perm_includes q p} = UNIV" by auto
  have "(\<Union>q. held_points (normal_apps admin m) q) = held_points (normal_apps admin m) Read"
    using normal_apps_readable [of admin m] by (intro equalityI UN_least UN_upper) auto
  then show ?thesis unfolding all normal_apps_Read by simp
next
  case False
  show ?thesis
  proof (cases "included_in p")
    case None
    with False have "{q. perm_includes q p} = {p}" by (auto simp: perm_includes_def)
    with normal_apps_other [OF False None] show ?thesis by (simp add: held_points_def)
  next
    case (Some q)
    with False have "{q. perm_includes q p} = {q, p}" by (auto simp: perm_includes_def)
    with normal_apps_included [OF Some] show ?thesis by simp
  qed
qed

lemma app_scope_normalize [simp]: "app_scope (grants_normalize g) p = app_scope g p"
proof (rule points_inj)
  show "points (app_scope (grants_normalize g) p) = points (app_scope g p)"
  proof (cases "admin_scope g = All_Apps")
    case True
    then show ?thesis by (simp add: app_scope_points)
  next
    case False
    then have "held_points (g_apps (grants_normalize g)) = held_points (normal_apps (admin_scope g) (g_apps g))"
      by (simp add: grants_normalize_cases held_retain fun_eq_iff)
    then have "points (app_scope (grants_normalize g) p) = points (admin_scope g)
        \<union> (\<Union>q \<in> {q. perm_includes q p}. held_points (apps_outside (admin_scope g) (g_apps g)) q)"
      by (simp add: app_scope_points normal_apps_access)
    also have "\<dots> = points (app_scope g p)"
    proof -
      have u: "points (admin_scope g) \<union> held_points (apps_outside (admin_scope g) (g_apps g)) q
          = points (admin_scope g) \<union> held_points (g_apps g) q" for q
        by (rule outside_points)
      have "A \<union> (\<Union>q\<in>Q. f q) = A \<union> (\<Union>q\<in>Q. h q)"
        if "\<And>q. A \<union> f q = A \<union> h q" for A :: "application_id option set" and Q f h
        using that by blast
      from this [OF u] show ?thesis by (simp add: app_scope_points)
    qed
    finally show ?thesis .
  qed
qed

lemma has_global_normalize [simp]: "has_global (grants_normalize g) p = has_global g p"
  unfolding has_global_def superuser_iff admin_scope_normalize
  by (auto simp: grants_normalize_cases)

lemma same_access_normalize: "same_access (grants_normalize g) g"
  by (simp add: same_access_iff)

section \<open>The canonical form\<close>

definition held_scope :: "grants \<Rightarrow> app_permission \<Rightarrow> scope" where
  "held_scope g p = (case g_apps g p of None \<Rightarrow> scope_none | Some s \<Rightarrow> s)"

text \<open>What a permission's own scope must not list again: \<open>admin\<close> and the including permission.\<close>

definition base_scope :: "grants \<Rightarrow> app_permission \<Rightarrow> scope" where
  "base_scope g p = scope_extend (admin_scope g)
     (case included_in p of None \<Rightarrow> scope_none | Some q \<Rightarrow> held_scope g q)"

definition canonical :: "grants \<Rightarrow> bool" where
  "canonical g \<longleftrightarrow>
     (case g_admin g of None \<Rightarrow> True | Some s \<Rightarrow> \<not> scope_is_empty s)
     \<and> (admin_scope g = All_Apps \<longrightarrow>
          list_all (\<lambda>p. g_apps g p = None) app_permission_all \<and> g_global g = {})
     \<and> list_all (\<lambda>p. case g_apps g p of
           None \<Rightarrow> True
         | Some s \<Rightarrow> \<not> scope_is_empty s \<and> scope_without s (base_scope g p) = s) app_permission_all
     \<and> list_all (\<lambda>p. scope_covers (held_scope g Read) (held_scope g p)) app_permission_all"

lemma held_scope_points [scope_simps]: "points (held_scope g p) = held_points (g_apps g) p"
  by (simp add: held_scope_def held_points_def scope_simps split: option.splits)

lemma separate_iff:
  "scope_without s b = s \<longleftrightarrow>
     points s = {} \<or> b \<noteq> All_Apps \<and> (s = All_Apps \<or> points s \<inter> points b = {})"
  by (cases s; cases b) (auto simp: scope_none_def)

lemma not_all_points: "s \<noteq> All_Apps \<longleftrightarrow> None \<notin> points s"
  by (simp add: later_iff)

lemma separate_extend:
  assumes "scope_without s a = s" and "scope_without s b = s"
  shows "scope_without s (scope_extend a b) = s"
  using assms by (cases s; cases a; cases b) (auto simp: scope_none_def)

lemma separate_shrink:
  assumes "scope_without s a = s"
  shows "scope_without (scope_without s b) a = scope_without s b"
  using assms by (cases s; cases a; cases b) (auto simp: scope_none_def)

lemma base_scope_plain: "included_in p = None \<Longrightarrow> base_scope g p = admin_scope g"
  by (rule points_inj) (simp add: base_scope_def scope_simps)

lemma grants_normalize_separate:
  assumes "admin_scope g \<noteq> All_Apps" and "normal_apps (admin_scope g) (g_apps g) p = Some s"
  shows "scope_without s (base_scope (grants_normalize g) p) = s"
proof -
  let ?A = "admin_scope g" and ?m = "g_apps g"
  have out: "scope_without t ?A = t" if "apps_outside ?A ?m q = Some t" for t q
    using that sc.minus_minus [of _ ?A] by (auto simp: apps_outside_def)
  show ?thesis
  proof (cases "included_in p")
    case None
    have "scope_without s ?A = s"
    proof (cases "p = Read")
      case False
      then show ?thesis using assms(2) out normal_apps_other [OF False None] by simp
    next
      case True
      have s: "points s = (\<Union>q. held_points (apps_outside ?A ?m) q)"
        using normal_apps_Read [of ?A ?m] assms(2) True by (simp add: held_points_def [of _ Read])
      have each: "apps_outside ?A ?m q = Some All_Apps \<or> held_points (apps_outside ?A ?m) q \<inter> points ?A = {}" for q
        using out [of q] unfolding separate_iff
        by (auto simp: held_points_def split: option.splits)
      have "s = All_Apps" if "apps_outside ?A ?m q = Some All_Apps" for q
      proof -
        have "points All_Apps = held_points (apps_outside ?A ?m) q"
          using that by (simp add: held_points_def)
        then have "None \<in> points s" unfolding s by auto
        then show ?thesis by (simp add: later_iff)
      qed
      then show ?thesis
        unfolding separate_iff using assms(1) each s by blast
    qed
    then show ?thesis by (simp add: base_scope_plain [OF None])
  next
    case (Some q)
    note pq = included_plain [OF Some]
    then have q: "normal_apps ?A ?m q = apps_outside ?A ?m q" by (simp add: normal_apps_other)
    have hq: "points (held_scope (grants_normalize g) q) = held_points (apps_outside ?A ?m) q"
      using assms(1) by (simp add: held_scope_points grants_normalize_cases held_retain) (simp add: held_points_def q)
    have p: "normal_apps ?A ?m p = (case apps_outside ?A ?m q of
          None \<Rightarrow> apps_outside ?A ?m p
        | Some d \<Rightarrow> map_option (\<lambda>s. scope_without s d) (apps_outside ?A ?m p))"
      using Some pq by (simp add: normal_apps_def remove_included_pass_eq split: option.splits)
    have "scope_without s ?A = s"
      using p assms(2) out [of p] separate_shrink
      by (cases "apps_outside ?A ?m p") (auto split: option.splits)
    moreover have "scope_without s (held_scope (grants_normalize g) q) = s"
    proof (cases "apps_outside ?A ?m q")
      case None
      then show ?thesis using hq by (simp add: separate_iff held_points_def) (auto simp: not_all_points)
    next
      case (Some d)
      then have "held_scope (grants_normalize g) q = d"
        using hq by (intro points_inj) (simp add: held_points_def)
      with Some p assms(2) show ?thesis
        by (cases "apps_outside ?A ?m p") (auto simp: sc.minus_minus)
    qed
    ultimately show ?thesis
      unfolding base_scope_def Some by (simp add: separate_extend)
  qed
qed

lemma canonical_normalize: "canonical (grants_normalize g)"
proof (cases "admin_scope g = All_Apps")
  case True
  then have "g_admin (grants_normalize g) = Some All_Apps"
    by (auto simp: grants_normalize_cases admin_scope_def scope_none_def split: option.splits)
  moreover have "g_apps (grants_normalize g) = Map.empty" "g_global (grants_normalize g) = {}"
    using True by (simp_all add: grants_normalize_cases)
  ultimately show ?thesis
    by (simp add: canonical_def list_all_iff held_scope_def scope_simps)
next
  case False
  have adm: "case g_admin (grants_normalize g) of None \<Rightarrow> True | Some s \<Rightarrow> \<not> scope_is_empty s"
    using False by (auto simp: grants_normalize_cases admin_scope_def split: option.splits)
  have apps: "g_apps (grants_normalize g) = retain_nonempty (normal_apps (admin_scope g) (g_apps g))"
    using False by (simp add: grants_normalize_cases)
  have "points s \<noteq> {} \<and> scope_without s (base_scope (grants_normalize g) p) = s"
    if "g_apps (grants_normalize g) p = Some s" for p s
    using that grants_normalize_separate [OF False] by (simp add: apps retain_nonempty_Some)
  moreover have "points (held_scope (grants_normalize g) p) \<subseteq> points (held_scope (grants_normalize g) Read)" for p
    by (simp add: held_scope_points apps held_retain normal_apps_readable)
  ultimately show ?thesis
    using adm False by (auto simp: canonical_def list_all_iff scope_simps split: option.splits)
qed

lemma canonicalD:
  assumes "canonical g" and "g_apps g p = Some s"
  shows "points s \<noteq> {}" "scope_without s (base_scope g p) = s" "admin_scope g \<noteq> All_Apps"
  using assms by (auto simp: canonical_def list_all_iff scope_simps split: option.splits)

lemma canonical_held_separate:
  assumes "canonical g"
  shows "scope_without (held_scope g p) (base_scope g p) = held_scope g p"
  using canonicalD [OF assms]
  by (cases "g_apps g p") (auto simp: held_scope_def, auto simp: separate_iff scope_simps)

lemma canonical_readable:
  "canonical g \<Longrightarrow> points (held_scope g p) \<subseteq> points (held_scope g Read)"
  by (simp add: canonical_def list_all_iff scope_simps)

text \<open>In canonical form a permission's reach is its base plus its own scope.\<close>

lemma canonical_app_scope:
  assumes "canonical g"
  shows "points (app_scope g p) = points (base_scope g p) \<union> points (held_scope g p)"
proof (cases "p = Read")
  case True
  have "points (app_scope g Read) = points (admin_scope g) \<union> (\<Union>q. points (held_scope g q))"
    by (simp add: app_scope_points held_scope_points)
  then show ?thesis
    using canonical_readable [OF assms] True by (auto simp: base_scope_plain)
next
  case False
  show ?thesis
  proof (cases "included_in p")
    case None
    with False have "{q. perm_includes q p} = {p}" by (auto simp: perm_includes_def)
    with None show ?thesis by (simp add: app_scope_points base_scope_plain held_scope_points)
  next
    case (Some q)
    with False have "{q. perm_includes q p} = {q, p}" by (auto simp: perm_includes_def)
    with Some show ?thesis by (auto simp: app_scope_points base_scope_def scope_simps)
  qed
qed

lemma canonical_held_unique:
  assumes "canonical g" and "canonical h" and "app_scope g p = app_scope h p"
    and "base_scope g p = base_scope h p"
  shows "held_scope g p = held_scope h p"
proof (rule sc.separate_unique)
  show "scope_without (held_scope g p) (base_scope g p) = held_scope g p"
    by (rule canonical_held_separate [OF assms(1)])
  show "scope_without (held_scope h p) (base_scope g p) = held_scope h p"
    using canonical_held_separate [OF assms(2)] assms(4) by simp
  show "points (base_scope g p) \<union> points (held_scope g p)
      = points (base_scope g p) \<union> points (held_scope h p)"
    using canonical_app_scope [OF assms(1), of p] canonical_app_scope [OF assms(2), of p] assms(3,4)
    by simp
qed

lemma held_scope_determines:
  assumes "canonical g" and "canonical h" and "held_scope g p = held_scope h p"
  shows "g_apps g p = g_apps h p"
  using canonicalD(1) [OF assms(1), of p] canonicalD(1) [OF assms(2), of p] assms(3)
  by (auto simp: held_scope_def scope_none_def split: option.splits)

lemma canonical_unique:
  assumes g: "canonical g" and h: "canonical h" and same: "same_access g h"
  shows "g = h"
proof -
  from same have adm: "admin_scope g = admin_scope h" and app: "app_scope g p = app_scope h p"
    and glob: "has_global g x = has_global h x" for p x
    by (simp_all add: same_access_iff)
  have plain: "held_scope g p = held_scope h p" if "included_in p = None" for p
    using canonical_held_unique [OF g h app] that adm by (simp add: base_scope_plain)
  have "held_scope g p = held_scope h p" for p
  proof (cases "included_in p")
    case (Some q)
    with included_plain have "held_scope g q = held_scope h q" by (intro plain) auto
    with Some adm show ?thesis
      by (intro canonical_held_unique [OF g h app]) (simp add: base_scope_def)
  qed (rule plain)
  then have apps: "g_apps g = g_apps h"
    using held_scope_determines [OF g h] by (simp add: fun_eq_iff)
  have gadm: "g_admin g = g_admin h"
    using adm g h
    by (auto simp: admin_scope_def canonical_def scope_none_def split: option.splits)
  have "g_global g = g_global h"
  proof (cases "admin_scope g = All_Apps")
    case True
    with adm g h show ?thesis by (simp add: canonical_def)
  next
    case False
    with glob adm show ?thesis by (auto simp: has_global_def superuser_iff)
  qed
  with apps gadm show ?thesis by (intro grants.equality) simp_all
qed

lemma grants_normalize_canonical: "canonical g \<Longrightarrow> grants_normalize g = g"
  by (rule canonical_unique [OF canonical_normalize _ same_access_normalize])

end
