(* ===== verification/Access_Checks.thy ===== *)
theory Access_Checks
  imports Access
begin

text \<open>
  What the grant operations of \<open>crates/piqueld-core/src/access.rs\<close> mean: every operation is
  described by the access it leaves (\<open>admin_scope\<close>, \<open>app_scope\<close>, \<open>has_global\<close>), handing out
  access never exceeds one's own, the wire list is a faithful canonical form, and requests on
  applications the caller cannot see do not reveal whether they exist.
\<close>

section \<open>Adding grants\<close>

lemma held_points_upd:
  "held_points (m(q \<mapsto> s)) p = (if p = q then points s else held_points m p)"
  by (simp add: held_points_def)

lemma held_points_none [simp]: "held_points Map.empty p = {}"
  by (simp add: held_points_def)

lemma admin_scope_cong: "g_admin g = g_admin h \<Longrightarrow> admin_scope g = admin_scope h"
  by (simp add: admin_scope_def)

lemma admin_scope_upd [simp]:
  "admin_scope (g\<lparr>g_apps := a\<rparr>) = admin_scope g"
  "admin_scope (g\<lparr>g_global := b\<rparr>) = admin_scope g"
  "admin_scope (g\<lparr>g_admin := Some s\<rparr>) = s"
  by (simp_all add: admin_scope_def)

lemma insert_within_admin [scope_simps]:
  "points (admin_scope (insert_within g permission s)) =
     points (admin_scope g) \<union> (if permission = Admin then points s else {})"
  by (cases permission) (auto simp: scope_simps)

lemma insert_within_held:
  "held_points (g_apps (insert_within g permission s)) q =
     held_points (g_apps g) q \<union> (if permission = App q then points s else {})"
  by (cases permission)
    (auto simp: scope_simps held_points_upd held_points_def split: option.splits)

lemma insert_within_app [scope_simps]:
  "points (app_scope (insert_within g permission s) p) =
     points (app_scope g p) \<union>
       (case permission of
          Admin \<Rightarrow> points s
        | App q \<Rightarrow> if perm_includes q p then points s else {}
        | Global _ \<Rightarrow> {})"
  unfolding app_scope_points insert_within_held
  by (cases permission) (auto simp: scope_simps split: if_splits)

lemma insert_within_global:
  "g_global (insert_within g permission s) =
     g_global g \<union> (case permission of Global p \<Rightarrow> {p} | _ \<Rightarrow> {})"
  by (cases permission) auto

declare insert_within.simps [simp del]

text \<open>Adding every grant of another set, in the order \<open>extend\<close> adds them.\<close>

lemma insert_apps_fold:
  fixes m :: "app_permission \<Rightarrow> scope option"
  defines "step \<equiv> \<lambda>p g. case m p of None \<Rightarrow> g | Some scope \<Rightarrow> insert_within g (App p) scope"
  shows "admin_scope (fold step ps g) = admin_scope g"
    and "g_global (fold step ps g) = g_global g"
    and "points (app_scope (fold step ps g) p) =
      points (app_scope g p) \<union> (\<Union>q \<in> {q \<in> set ps. perm_includes q p}. held_points m q)"
proof (induction ps arbitrary: g)
  case (Cons x ps)
  { case 1
    have "admin_scope (step x g) = admin_scope g"
      by (rule points_inj) (simp add: step_def scope_simps split: option.splits)
    with Cons.IH(1) show ?case by simp
  next
    case 2
    have "g_global (step x g) = g_global g"
      by (auto simp: step_def insert_within_global split: option.splits)
    with Cons.IH(2) show ?case by simp
  next
    case 3
    have "points (app_scope (step x g) p) =
        points (app_scope g p) \<union> (if perm_includes x p then held_points m x else {})"
      by (simp add: step_def scope_simps held_points_def split: option.splits)
    with Cons.IH(3) show ?case by auto }
qed simp_all

lemma grants_extend_access:
  "points (admin_scope (grants_extend g h)) = points (admin_scope g) \<union> points (admin_scope h)"
  "points (app_scope (grants_extend g h) p) = points (app_scope g p) \<union> points (app_scope h p)"
  "has_global (grants_extend g h) x \<longleftrightarrow>
     scope_extend (admin_scope g) (admin_scope h) = All_Apps \<or> x \<in> g_global g \<or> x \<in> g_global h"
proof -
  let ?g1 = "case g_admin h of None \<Rightarrow> g | Some scope \<Rightarrow> insert_within g Admin scope"
  let ?g2 = "fold (\<lambda>p g. case g_apps h p of None \<Rightarrow> g | Some scope \<Rightarrow> insert_within g (App p) scope)
      app_permission_all ?g1"
  let ?g3 = "?g2\<lparr>g_global := g_global ?g2 \<union> g_global h\<rparr>"
  have e: "grants_extend g h = grants_normalize ?g3"
    by (simp add: grants_extend_def Let_def)
  have a1: "points (admin_scope ?g1) = points (admin_scope g) \<union> points (admin_scope h)"
    by (simp add: admin_scope_def [of h] scope_simps split: option.splits)
  have p1: "points (app_scope ?g1 p) = points (app_scope g p) \<union> points (admin_scope h)" for p
    by (simp add: admin_scope_def [of h] scope_simps split: option.splits)
  have app3: "app_scope ?g3 p = app_scope ?g2 p" for p
    by (rule points_inj) (simp add: app_scope_points)
  show adm: "points (admin_scope (grants_extend g h)) = points (admin_scope g) \<union> points (admin_scope h)"
    by (simp add: e insert_apps_fold(1) a1)
  show "points (app_scope (grants_extend g h) p) = points (app_scope g p) \<union> points (app_scope h p)"
    by (auto simp: e app3 insert_apps_fold(3) p1 app_scope_points [of h])
  have "g_global ?g1 = g_global g" by (simp add: insert_within_global split: option.splits)
  then have glob: "g_global ?g3 = g_global g \<union> g_global h"
    by (simp add: insert_apps_fold(2))
  have "admin_scope ?g3 = scope_extend (admin_scope g) (admin_scope h)"
    by (rule points_inj) (simp add: insert_apps_fold(1) a1 scope_simps)
  then show "has_global (grants_extend g h) x \<longleftrightarrow>
      scope_extend (admin_scope g) (admin_scope h) = All_Apps \<or> x \<in> g_global g \<or> x \<in> g_global h"
    by (simp add: e has_global_def [of ?g3] superuser_iff glob)
qed

section \<open>Covering\<close>

lemma grants_covers_iff:
  "grants_covers g h \<longleftrightarrow>
     points (admin_scope h) \<subseteq> points (admin_scope g)
     \<and> (\<forall>p. points (app_scope h p) \<subseteq> points (app_scope g p))
     \<and> (\<forall>x. has_global h x \<longrightarrow> has_global g x)"
proof -
  have adm: "(case g_admin h of None \<Rightarrow> True | Some s \<Rightarrow> scope_covers (admin_scope g) s)
      \<longleftrightarrow> points (admin_scope h) \<subseteq> points (admin_scope g)"
    by (simp add: admin_scope_def [of h] scope_simps split: option.splits)
  have app: "(\<forall>p. case g_apps h p of None \<Rightarrow> True | Some s \<Rightarrow> scope_covers (app_scope g p) s)
      \<longleftrightarrow> (\<forall>p. held_points (g_apps h) p \<subseteq> points (app_scope g p))"
    by (simp add: held_points_def scope_simps split: option.splits)
  have whole: "(\<forall>p. points (app_scope h p) \<subseteq> points (app_scope g p))
      \<longleftrightarrow> (\<forall>p. held_points (g_apps h) p \<subseteq> points (app_scope g p))"
    if "points (admin_scope h) \<subseteq> points (admin_scope g)"
  proof
    assume "\<forall>p. points (app_scope h p) \<subseteq> points (app_scope g p)"
    then show "\<forall>p. held_points (g_apps h) p \<subseteq> points (app_scope g p)"
      unfolding app_scope_points [of h] by (auto simp: perm_includes_def)
  next
    assume *: "\<forall>p. held_points (g_apps h) p \<subseteq> points (app_scope g p)"
    have "held_points (g_apps h) q \<subseteq> points (app_scope g p)" if "perm_includes q p" for p q
      using * app_scope_mono [OF that] by blast
    moreover have "points (admin_scope h) \<subseteq> points (app_scope g p)" for p
      using that admin_in_app_scope [of g p] by blast
    ultimately show "\<forall>p. points (app_scope h p) \<subseteq> points (app_scope g p)"
      unfolding app_scope_points [of h] by blast
  qed
  have super: "is_superuser h \<Longrightarrow> has_global g x"
    if "points (admin_scope h) \<subseteq> points (admin_scope g)" for x
    using that unfolding has_global_def superuser_iff later_iff [symmetric] by blast
  show ?thesis
    unfolding grants_covers_def list_all_iff app_permission_all_UNIV global_permission_all_UNIV
    using adm app whole super by (auto simp: has_global_def [of h])
qed

lemma grants_covers_refl: "grants_covers g g"
  by (simp add: grants_covers_iff)

lemma grants_covers_trans: "grants_covers g h \<Longrightarrow> grants_covers h k \<Longrightarrow> grants_covers g k"
  unfolding grants_covers_iff by blast

lemma grants_covers_antisym:
  assumes "canonical g" and "canonical h" and "grants_covers g h" and "grants_covers h g"
  shows "g = h"
proof (rule canonical_unique [OF assms(1,2)])
  show "same_access g h"
    using assms(3,4) unfolding grants_covers_iff same_access_iff
    by (auto intro!: points_inj)
qed

section \<open>Intersection\<close>

lemma grants_intersection_access:
  "points (admin_scope (grants_intersection g h)) = points (admin_scope g) \<inter> points (admin_scope h)"
  "points (app_scope (grants_intersection g h) p) = points (app_scope g p) \<inter> points (app_scope h p)"
  "has_global (grants_intersection g h) x \<longleftrightarrow> has_global g x \<and> has_global h x"
proof -
  define r where "r = \<lparr>g_admin = Some (scope_intersection (admin_scope g) (admin_scope h)),
        g_apps = (\<lambda>p. Some (scope_intersection (app_scope g p) (app_scope h p))),
        g_global = set (filter (\<lambda>p. has_global g p \<and> has_global h p) global_permission_all)\<rparr>"
  have n: "grants_intersection g h = grants_normalize r"
    by (simp add: grants_intersection_def r_def)
  have adm: "admin_scope r = scope_intersection (admin_scope g) (admin_scope h)"
    by (simp add: admin_scope_def r_def)
  show "points (admin_scope (grants_intersection g h)) = points (admin_scope g) \<inter> points (admin_scope h)"
    by (simp add: n adm scope_simps)
  have held: "held_points (g_apps r) q = points (app_scope g q) \<inter> points (app_scope h q)" for q
    by (simp add: r_def held_points_def scope_simps)
  show "points (app_scope (grants_intersection g h) p) = points (app_scope g p) \<inter> points (app_scope h p)"
  proof -
    have "points (app_scope g q) \<inter> points (app_scope h q) \<subseteq> points (app_scope g p) \<inter> points (app_scope h p)"
      if "perm_includes q p" for q
      using app_scope_mono [OF that] by blast
    moreover have "perm_includes p p" by (simp add: perm_includes_def)
    moreover have "points (admin_scope g) \<inter> points (admin_scope h)
        \<subseteq> points (app_scope g p) \<inter> points (app_scope h p)"
      using admin_in_app_scope by blast
    ultimately show ?thesis
      unfolding n app_scope_normalize app_scope_points [of r] adm held points_inter by blast
  qed
  have "has_global r x \<longleftrightarrow> has_global g x \<and> has_global h x"
  proof -
    have "admin_scope r = All_Apps \<longleftrightarrow> admin_scope g = All_Apps \<and> admin_scope h = All_Apps"
      unfolding adm by (simp add: points_inter flip: later_iff)
    moreover have "x \<in> g_global r \<longleftrightarrow> has_global g x \<and> has_global h x"
      by (simp add: r_def global_permission_all_UNIV)
    ultimately show ?thesis by (auto simp: has_global_def superuser_iff)
  qed
  then show "has_global (grants_intersection g h) x \<longleftrightarrow> has_global g x \<and> has_global h x"
    by (simp add: n)
qed

lemma grants_intersection_greatest:
  "grants_covers (grants_intersection g h) k \<longleftrightarrow> grants_covers g k \<and> grants_covers h k"
  unfolding grants_covers_iff grants_intersection_access by blast

lemma canonical_intersection: "canonical (grants_intersection g h)"
  by (simp add: grants_intersection_def canonical_normalize)

section \<open>Creating an application\<close>

lemma created_fold:
  fixes m :: "app_permission \<Rightarrow> scope option" and scope :: scope
  defines "step \<equiv> \<lambda>p r. case m p of
      Some held \<Rightarrow> if held \<noteq> All_Apps then r\<lparr>g_apps := (g_apps r)(p \<mapsto> scope)\<rparr> else r
    | None \<Rightarrow> r"
  shows "g_admin (fold step ps r) = g_admin r"
    and "g_global (fold step ps r) = g_global r"
    and "g_apps (fold step ps r) q =
      (if q \<in> set ps \<and> m q \<noteq> None \<and> m q \<noteq> Some All_Apps then Some scope else g_apps r q)"
proof (induction ps arbitrary: r)
  case (Cons x ps)
  { case 1 show ?case using Cons.IH(1) [of "step x r"] by (simp add: step_def split: option.splits)
  next
    case 2 show ?case using Cons.IH(2) [of "step x r"] by (simp add: step_def split: option.splits)
  next
    case 3 show ?case using Cons.IH(3) [of "step x r"] by (auto simp: step_def split: option.splits) }
qed simp_all

text \<open>The application permissions of the creator, on the new application only.\<close>

lemma created_access:
  fixes g i
  defines "h \<equiv> for_created_application g i"
  shows "points (admin_scope h) =
      (if g_admin g = None \<or> is_superuser g then {} else {Some i})"
    and "points (app_scope h p) =
      (if (g_admin g = None \<or> is_superuser g)
          \<and> (\<forall>q. perm_includes q p \<longrightarrow> g_apps g q = None \<or> g_apps g q = Some All_Apps)
       then {} else {Some i})"
    and "\<not> has_global h x"
proof -
  define r where "r = (case g_admin g of
      Some admin \<Rightarrow> if admin \<noteq> All_Apps then grants_default\<lparr>g_admin := Some (scope_one i)\<rparr> else grants_default
    | None \<Rightarrow> grants_default)"
  define f where "f = fold (\<lambda>p r. case g_apps g p of
      Some held \<Rightarrow> if held \<noteq> All_Apps then r\<lparr>g_apps := (g_apps r)(p \<mapsto> scope_one i)\<rparr> else r
    | None \<Rightarrow> r) app_permission_all r"
  have h: "h = grants_normalize f"
    by (simp add: h_def for_created_application_def Let_def r_def f_def)
  have r: "g_admin r = (if g_admin g = None \<or> is_superuser g then None else Some (scope_one i))"
    "g_apps r = Map.empty" "g_global r = {}"
    by (auto simp: r_def grants_default_def is_superuser_def split: option.splits)
  have f: "g_admin f = g_admin r" "g_global f = {}"
    "g_apps f q = (if g_apps g q \<noteq> None \<and> g_apps g q \<noteq> Some All_Apps then Some (scope_one i) else None)" for q
    unfolding f_def by (simp_all add: created_fold r)
  have adm: "points (admin_scope f) = (if g_admin g = None \<or> is_superuser g then {} else {Some i})"
    by (simp add: admin_scope_def f(1) r scope_simps)
  then show "points (admin_scope h) = (if g_admin g = None \<or> is_superuser g then {} else {Some i})"
    by (simp add: h)
  have held: "held_points (g_apps f) q
      = (if g_apps g q = None \<or> g_apps g q = Some All_Apps then {} else {Some i})" for q
    by (simp add: held_points_def f(3) scope_simps)
  show "points (app_scope h p) =
      (if (g_admin g = None \<or> is_superuser g)
          \<and> (\<forall>q. perm_includes q p \<longrightarrow> g_apps g q = None \<or> g_apps g q = Some All_Apps)
       then {} else {Some i})"
    unfolding h app_scope_normalize app_scope_points adm held by auto
  have "admin_scope f \<noteq> All_Apps"
    by (rule notI) (use adm in \<open>auto split: if_splits\<close>)
  then show "\<not> has_global h x"
    unfolding h has_global_normalize by (simp add: has_global_def superuser_iff f(2))
qed

lemma app_scope_empty_iff:
  assumes "canonical g"
  shows "points (app_scope g p) = {} \<longleftrightarrow> g_admin g = None \<and> (\<forall>q. perm_includes q p \<longrightarrow> g_apps g q = None)"
proof -
  have "held_points (g_apps g) q = {} \<longleftrightarrow> g_apps g q = None" for q
    using canonicalD(1) [OF assms] by (auto simp: held_points_def split: option.splits)
  moreover have "points (admin_scope g) = {} \<longleftrightarrow> g_admin g = None"
    using assms by (auto simp: admin_scope_def canonical_def scope_simps split: option.splits)
  ultimately show ?thesis unfolding app_scope_points by auto
qed

text \<open>With the new grants, each application permission held anywhere also covers the application.\<close>

lemma creator_access:
  assumes "canonical g"
  shows "points (app_scope (grants_extend g (for_created_application g i)) p) =
    (if points (app_scope g p) = {} then {} else insert (Some i) (points (app_scope g p)))"
proof -
  have in_all: "Some i \<in> points (app_scope g p)"
    if "is_superuser g \<or> (\<exists>q. perm_includes q p \<and> g_apps g q = Some All_Apps)"
    using that unfolding app_scope_points superuser_iff held_points_def by auto
  show ?thesis
  proof (cases "Some i \<in> points (app_scope g p)")
    case True
    then have "points (app_scope g p) \<noteq> {}" by auto
    with True show ?thesis
      unfolding grants_extend_access created_access(2) by auto
  next
    case False
    with in_all have "\<not> is_superuser g" "perm_includes q p \<Longrightarrow> g_apps g q \<noteq> Some All_Apps" for q
      by blast+
    then show ?thesis
      using app_scope_empty_iff [OF assms, of p]
      unfolding grants_extend_access created_access(2) by auto
  qed
qed

section \<open>Requests\<close>

lemma require_app_ok:
  "require_app g p i = Inr () \<longleftrightarrow> scope_contains (app_scope g p) i"
  using app_scope_mono [of p Read g] by (auto simp: require_app_def scope_simps)

lemma require_app_hidden:
  "require_app g p i = Inl Hidden \<longleftrightarrow> \<not> scope_contains (app_scope g Read) i"
  by (simp add: require_app_def)

lemma try_for_each_ok: "try_for_each f xs = Inr () \<longleftrightarrow> (\<forall>x\<in>set xs. f x = Inr ())"
  by (induction xs) (auto split: sum.splits)

lemma try_for_each_error:
  "try_for_each f xs = Inl e \<Longrightarrow> \<exists>ys x zs. xs = ys @ x # zs \<and> f x = Inl e \<and> (\<forall>y\<in>set ys. f y = Inr ())"
proof (induction xs)
  case (Cons x xs)
  then show ?case
  proof (cases "f x")
    case (Inl d)
    with Cons.prems show ?thesis by (intro exI [of _ "[]"]) auto
  next
    case (Inr u)
    with Cons obtain ys y zs where "xs = ys @ y # zs" "f y = Inl e" "\<forall>y\<in>set ys. f y = Inr ()" by auto
    with Inr show ?thesis by (intro exI [of _ "x # ys"]) auto
  qed
qed simp

lemma try_for_each_cong:
  "(\<And>x. x \<in> set xs \<Longrightarrow> f x = h x) \<Longrightarrow> try_for_each f xs = try_for_each h xs"
  by (induction xs) (auto split: sum.splits)

lemma require_ok:
  "require g permission = Inr () \<longleftrightarrow> (case permission of
      Admin \<Rightarrow> is_superuser g
    | App p \<Rightarrow> points (app_scope g p) \<noteq> {}
    | Global x \<Rightarrow> has_global g x)"
  by (simp add: require_def Let_def scope_simps split: permission.splits)

lemma require_create_ok:
  "require_create g ps = Inr () \<longleftrightarrow>
     (\<forall>p\<in>set ps. if p = Write then has_global g AppsCreate else points (app_scope g p) \<noteq> {})"
proof -
  have "(case p of Write \<Rightarrow> require g (Global AppsCreate) | permission \<Rightarrow> require g (App permission))
      = require g (if p = Write then Global AppsCreate else App p)" for p
    by (cases p) simp_all
  then show ?thesis
    by (simp add: require_create_def try_for_each_ok require_ok)
qed

text \<open>A caller that may create, then acts with the grants creation gives.\<close>

lemma creator_may_act:
  assumes "canonical g" and "require_create g ps = Inr ()" and "p \<in> set ps" and "p \<noteq> Write"
  shows "require_app (grants_extend g (for_created_application g i)) p i = Inr ()"
  using assms by (simp add: require_app_ok contains_points creator_access require_create_ok)

lemma named_unreadable:
  assumes "\<not> scope_contains (app_scope g Read) i"
  shows "require_change g ps (Target_Named i) =
    (case require_change g ps Target_New of Inl e \<Rightarrow> Inl e | Inr _ \<Rightarrow> Inl (Missing (App Write)))"
  using assms by (simp add: require_change_def)

lemma require_change_ok:
  "require_change g ps target = Inr () \<longleftrightarrow> (case target of
      Target_New \<Rightarrow> (\<forall>p\<in>set ps. if p = Write then has_global g AppsCreate else points (app_scope g p) \<noteq> {})
    | Target_Id i \<Rightarrow> (\<forall>p\<in>set ps. scope_contains (app_scope g p) i)
    | Target_Named i \<Rightarrow> scope_contains (app_scope g Read) i \<and> (\<forall>p\<in>set ps. scope_contains (app_scope g p) i)
    | Target_Preview i \<Rightarrow> (\<forall>p\<in>set ps. scope_contains (app_scope g p) i
        \<or> p = LogsRead \<and> scope_contains (app_scope g PreviewsDeploy) i)
    | Target_Unknown \<Rightarrow> (\<forall>p\<in>set ps. app_scope g p = All_Apps))"
proof (cases target)
  case (Target_Preview i)
  have "(case require_app g p i of Inr u \<Rightarrow> Inr u
       | Inl denied \<Rightarrow>
           (case (denied, on_previews p) of
              (Missing _, Some previews) \<Rightarrow>
                (case require_app g previews i of Inr u \<Rightarrow> Inr u | Inl _ \<Rightarrow> Inl denied)
            | _ \<Rightarrow> Inl denied)) = Inr ()
     \<longleftrightarrow> scope_contains (app_scope g p) i \<or> p = LogsRead \<and> scope_contains (app_scope g PreviewsDeploy) i" for p
  proof -
    have read: "scope_contains (app_scope g Read) i" if "scope_contains (app_scope g PreviewsDeploy) i"
      using that app_scope_mono [of PreviewsDeploy Read g] by (auto simp: scope_simps)
    have below: "scope_contains (app_scope g Read) i" if "scope_contains (app_scope g p) i"
      using that app_scope_mono [of p Read g] by (auto simp: scope_simps)
    have op: "on_previews p = (if p = LogsRead then Some PreviewsDeploy else None)"
      by (cases p) simp_all
    show ?thesis
      using read below by (cases "require_app g p i")
        (auto simp: op require_app_def split: if_splits)
  qed
  with Target_Preview show ?thesis
    by (simp add: require_change_def require_preview_def try_for_each_ok)
qed (auto simp: require_change_def require_create_ok try_for_each_ok require_app_ok split: sum.splits)

section \<open>The wire list\<close>

text \<open>\<open>try_from_list\<close> of entries it accepts: every entry, added to the empty set.\<close>

definition entry_scope :: "grant \<Rightarrow> scope" where
  "entry_scope x = (case grant_applications x of None \<Rightarrow> All_Apps | Some ids \<Rightarrow> Only ids)"

definition valid_entry :: "grant \<Rightarrow> bool" where
  "valid_entry x \<longleftrightarrow>
     grant_applications x \<noteq> Some {}
     \<and> (scopable (grant_permission x) \<or> grant_applications x = None)"

definition add_entry :: "grant \<Rightarrow> grants \<Rightarrow> grants" where
  "add_entry x g = insert_within g (grant_permission x) (entry_scope x)"

lemma insert_list_valid:
  "list_all valid_entry xs \<Longrightarrow> insert_list g xs = Inr (fold add_entry xs g)"
proof (induction xs arbitrary: g)
  case (Cons x xs)
  then have "grants_insert g (grant_permission x) (entry_scope x) = Inr (add_entry x g)"
    by (auto simp: grants_insert_def add_entry_def entry_scope_def valid_entry_def split: option.splits)
  with Cons show ?case
    by (auto simp: valid_entry_def entry_scope_def split: option.splits)
qed simp

lemma insert_list_invalid:
  "\<not> list_all valid_entry xs \<Longrightarrow> \<exists>e. insert_list g xs = Inl e"
proof (induction xs arbitrary: g)
  case (Cons x xs)
  show ?case
  proof (cases "valid_entry x")
    case True
    with Cons.prems have "\<not> list_all valid_entry xs" by simp
    with Cons.IH show ?thesis by (auto split: option.splits sum.splits)
  next
    case False
    then show ?thesis
      by (auto simp: valid_entry_def grants_insert_def split: option.splits)
  qed
qed simp

lemma try_from_list_eq:
  "list_all valid_entry xs \<Longrightarrow> try_from_list xs = Inr (grants_normalize (fold add_entry xs grants_default))"
  by (simp add: try_from_list_def insert_list_valid)

lemma try_from_list_ok: "(\<exists>g. try_from_list xs = Inr g) \<longleftrightarrow> list_all valid_entry xs"
  using insert_list_invalid [of xs grants_default]
  by (cases "list_all valid_entry xs") (simp add: try_from_list_eq, auto simp: try_from_list_def)

lemma entries_access:
  "points (admin_scope (fold add_entry xs g)) =
     points (admin_scope g) \<union> (\<Union>x \<in> {x \<in> set xs. grant_permission x = Admin}. points (entry_scope x))"
  "held_points (g_apps (fold add_entry xs g)) p =
     held_points (g_apps g) p \<union> (\<Union>x \<in> {x \<in> set xs. grant_permission x = App p}. points (entry_scope x))"
  "y \<in> g_global (fold add_entry xs g) \<longleftrightarrow>
     y \<in> g_global g \<or> (\<exists>x \<in> set xs. grant_permission x = Global y)"
proof (induction xs arbitrary: g)
  case (Cons x xs)
  { case 1 show ?case using Cons.IH(1) by (auto simp: add_entry_def insert_within_admin)
  next
    case 2 show ?case using Cons.IH(2) by (auto simp: add_entry_def insert_within_held)
  next
    case 3 show ?case using Cons.IH(3)
      by (auto simp: add_entry_def insert_within_global split: permission.splits) }
qed simp_all

abbreviation wire_entry :: "permission \<Rightarrow> scope \<Rightarrow> grant" where
  "wire_entry p s \<equiv> \<lparr>grant_permission = p, grant_applications = scope_applications s\<rparr>"

lemma to_list_set:
  "x \<in> set (to_list g) \<longleftrightarrow>
     (\<exists>s. g_admin g = Some s \<and> x = wire_entry Admin s)
     \<or> (\<exists>p s. g_apps g p = Some s \<and> x = wire_entry (App p) s)
     \<or> (\<exists>y \<in> g_global g. x = wire_entry (Global y) All_Apps)"
  by (cases "g_admin g") (auto simp: to_list_def Let_def in_set_map_filter)

lemma entry_scope_wire [simp]: "entry_scope (wire_entry p s) = s"
  by (cases s) (simp_all add: entry_scope_def)

lemma to_list_entries:
  "(\<Union>x \<in> {x \<in> set (to_list g). grant_permission x = Admin}. points (entry_scope x)) = points (admin_scope g)"
  "(\<Union>x \<in> {x \<in> set (to_list g). grant_permission x = App p}. points (entry_scope x)) = held_points (g_apps g) p"
  "(\<exists>x \<in> set (to_list g). grant_permission x = Global y) \<longleftrightarrow> y \<in> g_global g"
proof -
  have "{x \<in> set (to_list g). grant_permission x = Admin}
      = (case g_admin g of None \<Rightarrow> {} | Some s \<Rightarrow> {wire_entry Admin s})"
    by (auto simp: to_list_set split: option.splits)
  then show "(\<Union>x \<in> {x \<in> set (to_list g). grant_permission x = Admin}. points (entry_scope x)) = points (admin_scope g)"
    by (simp add: admin_scope_def scope_simps split: option.splits)
  have "{x \<in> set (to_list g). grant_permission x = App p}
      = (case g_apps g p of None \<Rightarrow> {} | Some s \<Rightarrow> {wire_entry (App p) s})"
    by (auto simp: to_list_set split: option.splits)
  then show "(\<Union>x \<in> {x \<in> set (to_list g). grant_permission x = App p}. points (entry_scope x)) = held_points (g_apps g) p"
    by (simp add: held_points_def split: option.splits)
  show "(\<exists>x \<in> set (to_list g). grant_permission x = Global y) \<longleftrightarrow> y \<in> g_global g"
    by (auto simp: to_list_set intro!: bexI [of _ "wire_entry (Global y) All_Apps"])
qed

lemma to_list_valid:
  assumes "canonical g"
  shows "list_all valid_entry (to_list g)"
proof -
  have ne: "scope_applications s \<noteq> Some {}" if "points s \<noteq> {}" for s
    using that by (cases s) auto
  have adm: "points s \<noteq> {}" if "g_admin g = Some s" for s
    using that assms by (simp add: canonical_def scope_simps)
  show ?thesis
    unfolding list_all_iff
    using ne [OF adm] ne [OF canonicalD(1) [OF assms]]
    by (auto simp: to_list_set valid_entry_def)
qed

text \<open>Reading back the list of a canonical set gives the set.\<close>

lemma wire_round_trip:
  assumes "canonical g"
  shows "try_from_list (to_list g) = Inr g"
proof -
  let ?f = "fold add_entry (to_list g) grants_default"
  have def0: "points (admin_scope grants_default) = {}" "g_apps grants_default = Map.empty"
    "g_global grants_default = {}"
    by (simp_all add: grants_default_def admin_scope_def scope_simps)
  have adm: "admin_scope ?f = admin_scope g"
    by (rule points_inj) (simp add: entries_access(1) to_list_entries def0)
  have held: "held_points (g_apps ?f) p = held_points (g_apps g) p" for p
    by (simp add: entries_access(2) to_list_entries def0)
  have app: "app_scope ?f p = app_scope g p" for p
    by (rule points_inj) (simp add: app_scope_points adm held)
  have "g_global ?f = g_global g"
    using entries_access(3) [of _ "to_list g" grants_default] to_list_entries(3) [of g]
    by (auto simp: def0)
  then have "has_global ?f x = has_global g x" for x
    by (simp add: has_global_def superuser_iff adm)
  then have "same_access (grants_normalize ?f) g"
    by (simp add: same_access_iff adm app)
  with canonical_unique [OF canonical_normalize assms] have "grants_normalize ?f = g" by blast
  then show ?thesis by (simp add: try_from_list_eq to_list_valid [OF assms])
qed

section \<open>Properties\<close>

text \<open>C35: Two grant sets are stored as the same value exactly when they allow the same: the same
  reach of \<open>admin\<close> and of every application permission, and the same installation-wide
  permissions. (\<open>normalize\<close> keeps every access and is a normal form.)\<close>

theorem equal_access_compares_equal:
  "grants_normalize g = grants_normalize h \<longleftrightarrow> same_access g h"
proof
  assume "grants_normalize g = grants_normalize h"
  then show "same_access g h"
    using same_access_normalize [of g] same_access_normalize [of h] by (simp add: same_access_iff)
next
  assume "same_access g h"
  then have "same_access (grants_normalize g) (grants_normalize h)" by (simp add: same_access_iff)
  then show "grants_normalize g = grants_normalize h"
    by (rule canonical_unique [OF canonical_normalize canonical_normalize])
qed

text \<open>C13: A holder can only hand out what it has: \<open>may_grant\<close> accepts a grant set exactly when
  every application reached by \<open>admin\<close> or by any application permission of it, applications
  created later included, is reached by the same permission of the holder, and every
  installation-wide permission it gives is held.\<close>

theorem may_grant_no_escalation:
  "may_grant g h = Inr () \<longleftrightarrow>
     points (admin_scope h) \<subseteq> points (admin_scope g)
     \<and> (\<forall>p. points (app_scope h p) \<subseteq> points (app_scope g p))
     \<and> {x. has_global h x} \<subseteq> {x. has_global g x}"
  by (auto simp: may_grant_def grants_covers_iff)

text \<open>The intersection of two grant sets (a token limited by its owner) is canonical and is the
  most access that both sets allow: it covers a third set exactly when both cover it.\<close>

theorem intersection_is_greatest_common_access:
  "canonical (grants_intersection g h)
   \<and> (grants_covers (grants_intersection g h) k \<longleftrightarrow> grants_covers g k \<and> grants_covers h k)"
  by (simp add: canonical_intersection grants_intersection_greatest)

text \<open>Creating an application. A caller that passes the check for creating it with the
  required permissions passes each of them (other than \<open>apps:write\<close>, which \<open>apps:create\<close>
  stands for) on the new application, once extended with the grants creation gives; these
  grants reach no other application and no installation-wide permission.\<close>

theorem creators_receive_matching_grants:
  assumes "canonical g" and "require_create g ps = Inr ()" and "p \<in> set ps" and "p \<noteq> Write"
  shows "require_app (grants_extend g (for_created_application g i)) p i = Inr ()
    \<and> points (app_scope (for_created_application g i) q) \<subseteq> {Some i}
    \<and> \<not> has_global (for_created_application g i) x"
  using creator_may_act [OF assms] created_access(2,3) by auto

theorem creators_receive_matching_grants_witness:
  "let g = \<lparr>g_admin = None,
        g_apps = [Read \<mapsto> Only {''app-one1''}, Deploy \<mapsto> Only {''app-one1''}],
        g_global = {AppsCreate}\<rparr>
   in require_app (grants_extend g (for_created_application g ''app-two2'')) Deploy ''app-two2'' = Inr ()
      \<and> require_app g Deploy ''app-two2'' = Inl Hidden"
proof -
  define g where "g = \<lparr>g_admin = None,
        g_apps = [Read \<mapsto> Only {''app-one1''}, Deploy \<mapsto> Only {''app-one1''}],
        g_global = {AppsCreate}\<rparr>"
  have c: "canonical g"
    by (simp add: canonical_def g_def app_permission_all_def admin_scope_def base_scope_def
        held_scope_def scope_none_def)
  have r: "require_create g [Write, Deploy] = Inr ()"
    by (simp add: require_create_ok g_def has_global_def app_scope_points held_points_def)
      (auto simp: perm_includes_def)
  have "require_app g Deploy ''app-two2'' = Inl Hidden"
    by (simp add: require_app_def g_def app_scope_def app_permission_all_def admin_scope_def
        scope_none_def perm_includes_def)
  with creators_receive_matching_grants [OF c r, where p = Deploy and i = "''app-two2''"] show ?thesis
    by (simp add: Let_def flip: g_def)
qed

text \<open>What each request requires: every permission on the named application, with log access
  also given by deploying previews when the target is a preview; for a new application,
  \<open>apps:create\<close> and each other permission somewhere; for an unknown application, each permission
  on every application. A named application must also be readable.\<close>

theorem require_change_accepts:
  "require_change g ps target = Inr () \<longleftrightarrow> (case target of
      Target_New \<Rightarrow> list_all (\<lambda>p. if p = Write then has_global g AppsCreate
                                   else points (app_scope g p) \<noteq> {}) ps
    | Target_Id i \<Rightarrow> list_all (\<lambda>p. scope_contains (app_scope g p) i) ps
    | Target_Named i \<Rightarrow> list_all (\<lambda>p. scope_contains (app_scope g p) i) (Read # ps)
    | Target_Preview i \<Rightarrow> list_all (\<lambda>p. scope_contains (app_scope g p) i
        \<or> p = LogsRead \<and> scope_contains (app_scope g PreviewsDeploy) i) ps
    | Target_Unknown \<Rightarrow> list_all (\<lambda>p. app_scope g p = All_Apps) ps)"
  by (simp add: require_change_ok list_all_iff split: target.splits)

text \<open>C36: Applications the caller cannot read do not show. On an unreadable application every check
  answers \<open>Hidden\<close>: of one permission, and of a change to the application or to one of its previews
  that needs at least one permission, exactly as the same change on an application that does not exist.
  Naming one is refused whatever the caller holds, and refused exactly as creating a new application is
  when the caller may not create.\<close>

theorem unreadable_applications_stay_hidden:
  assumes "\<not> scope_contains (app_scope g Read) i"
  shows "require_app g p i = Inl Hidden
    \<and> require_change g (p # ps) (Target_Id i) = Inl Hidden
    \<and> require_change g (p # ps) (Target_Preview i) = Inl Hidden
    \<and> require_change g (p # ps) Target_Unknown = Inl Hidden
    \<and> require_change g ps (Target_Named i) \<noteq> Inr ()
    \<and> (require_change g ps Target_New = Inr ()
       \<or> require_change g ps (Target_Named i) = require_change g ps Target_New)"
proof -
  have hidden: "require_app g q i = Inl Hidden" for q using assms by (simp add: require_app_hidden)
  have "app_scope g p \<noteq> All_Apps"
    using assms require_app_ok [of g p i] hidden [of p] by auto
  then show ?thesis
    using assms hidden
    by (auto simp: named_unreadable require_change_def [of g "p # ps"] require_preview_def split: sum.splits)
qed

theorem unreadable_applications_stay_hidden_witness:
  "require_change (grants_default\<lparr>g_apps := [Deploy \<mapsto> Only {''app-one1''}]\<rparr>) [Write]
     (Target_Named ''app-two2'') \<noteq> Inr ()
   \<and> require_change (grants_default\<lparr>g_apps := [Deploy \<mapsto> Only {''app-one1''}]\<rparr>) [Deploy]
     (Target_Preview ''app-two2'') = Inl Hidden"
proof -
  let ?g = "grants_default\<lparr>g_apps := [Deploy \<mapsto> Only {''app-one1''}]\<rparr>"
  have "\<not> scope_contains (app_scope ?g Read) ''app-two2''"
    by (simp add: app_scope_def app_permission_all_def admin_scope_def grants_default_def
        scope_none_def)
  from unreadable_applications_stay_hidden [OF this] show ?thesis by blast
qed

text \<open>The wire list is faithful: a canonical grant set is read back from its list unchanged, and
  a list is accepted exactly when no entry has an empty scope and no installation-wide
  permission is scoped.\<close>

theorem wire_list_round_trip:
  assumes "canonical g"
  shows "try_from_list (to_list g) = Inr g
    \<and> ((\<exists>h. try_from_list xs = Inr h) \<longleftrightarrow> list_all valid_entry xs)"
  by (simp add: wire_round_trip [OF assms] try_from_list_ok)

theorem wire_list_round_trip_witness:
  "try_from_list (to_list \<lparr>g_admin = Some (Only {''app-one1''}),
        g_apps = [Read \<mapsto> Only {''app-two2''}], g_global = {AuditRead}\<rparr>)
   = Inr \<lparr>g_admin = Some (Only {''app-one1''}),
        g_apps = [Read \<mapsto> Only {''app-two2''}], g_global = {AuditRead}\<rparr>"
proof -
  have "canonical \<lparr>g_admin = Some (Only {''app-one1''}),
        g_apps = [Read \<mapsto> Only {''app-two2''}], g_global = {AuditRead}\<rparr>"
    by (simp add: canonical_def app_permission_all_def admin_scope_def base_scope_def
        held_scope_def scope_none_def)
  from wire_list_round_trip [OF this] show ?thesis by blast
qed

end
