(* ===== verification/Names.thy ===== *)
theory Names
  imports Prelude
begin

text \<open>
  Validated names and deterministic Docker resource names:
  \<open>crates/piqueld-core/src/names.rs\<close>, \<open>identity.rs\<close>, \<open>docker_names.rs\<close>, the name validators of
  \<open>resource.rs\<close> and \<open>PreviewSlug::derive\<close> of \<open>environment.rs\<close>.

  Rust iterates over \<open>chars\<close> (Unicode scalar values) in \<open>sanitize\<close>; the model iterates over bytes.
  Every byte of a non-ASCII scalar is not alphanumeric, and a run of such characters collapses to
  one hyphen, so both loops give the same out.

  SHA-256 comes from the \<open>sha2\<close> crate: the hexadecimal digest (\<open>format!("{:x}", ...)\<close>) is the
  parameter \<open>sha\<close> of the definitions that use it. What the code relies on is \<open>hex_digest sha\<close>.
\<close>

section \<open>Labels (names.rs)\<close>

definition dns_label :: "nat \<times> nat" where
  "dns_label = (1, 63)"

definition is_label :: "string \<Rightarrow> nat \<times> nat \<Rightarrow> bool" where
  "is_label value lengths \<longleftrightarrow>
     fst lengths \<le> length value \<and> length value \<le> snd lengths
     \<and> \<not> prefix ''-'' value
     \<and> \<not> suffix ''-'' value
     \<and> list_all (\<lambda>b. is_ascii_alphanumeric b \<or> b = CHR ''-'') value"

definition is_lowercase_label :: "string \<Rightarrow> nat \<times> nat \<Rightarrow> bool" where
  "is_lowercase_label value lengths \<longleftrightarrow>
     is_label value lengths \<and> \<not> list_ex is_ascii_uppercase value"

definition valid_logical_name :: "string \<Rightarrow> bool" where
  "valid_logical_name value \<longleftrightarrow>
     is_lowercase_label value dns_label
     \<and> (case value of [] \<Rightarrow> False | c # _ \<Rightarrow> is_ascii_lowercase c)"

text \<open>
  \<open>validated_string!\<close>: every such type is built by \<open>parse\<close> only, with the type's \<open>$validate\<close>.
  The unit error type is \<open>None\<close>.
\<close>

definition validated_parse :: "(string \<Rightarrow> bool) \<Rightarrow> string \<Rightarrow> string option" where
  "validated_parse validate value = (if validate value then Some value else None)"

definition valid_id :: "string \<Rightarrow> bool" where
  "valid_id value \<longleftrightarrow> is_lowercase_label value (8, 64)"

definition valid_instance_id :: "string \<Rightarrow> bool" where
  "valid_instance_id value \<longleftrightarrow> is_lowercase_label value (1, 64)"

definition parse_environment_id :: "string \<Rightarrow> environment_id option" where
  "parse_environment_id = validated_parse valid_id"

definition parse_instance_id :: "string \<Rightarrow> instance_id option" where
  "parse_instance_id = validated_parse valid_instance_id"

definition parse_logical_name :: "string \<Rightarrow> logical_name option" where
  "parse_logical_name = validated_parse valid_logical_name"

definition valid_sha256 :: "string \<Rightarrow> bool" where
  "valid_sha256 value \<longleftrightarrow>
     (if prefix ''sha256:'' value
      then length (drop 7 value) = 64 \<and> list_all is_hex_digit (drop 7 value)
      else False)"

section \<open>Docker resource names (identity.rs)\<close>

datatype resource_kind = Network | Service | Volume | Job | File

fun token :: "resource_kind \<Rightarrow> string" where
  "token Network = ''network''"
| "token Service = ''service''"
| "token Volume = ''volume''"
| "token Job = ''job''"
| "token File = ''file''"

definition NAME_PREFIX :: string where "NAME_PREFIX = ''piqueld''"
definition NAME_LIMIT :: nat where "NAME_LIMIT = 63"
definition NAME_SUFFIX_LEN :: nat where "NAME_SUFFIX_LEN = 12"

definition NAME_HEAD_LEN :: nat where
  "NAME_HEAD_LEN = NAME_LIMIT - length NAME_PREFIX - NAME_SUFFIX_LEN - 2"

lemma NAME_HEAD_LEN_eq: "NAME_HEAD_LEN = 42"
  by (simp add: NAME_HEAD_LEN_def NAME_LIMIT_def NAME_PREFIX_def NAME_SUFFIX_LEN_def)

definition nul :: char where "nul = char_of (0::nat)"

fun sanitize_loop :: "string \<Rightarrow> string \<Rightarrow> string" where
  "sanitize_loop out [] = out"
| "sanitize_loop out (c # cs) =
     (let c = to_ascii_lowercase c in
      if is_ascii_alphanumeric c then sanitize_loop (out @ [c]) cs
      else if \<not> suffix ''-'' out then sanitize_loop (out @ ''-'') cs
      else sanitize_loop out cs)"

definition sanitize :: "string \<Rightarrow> string" where
  "sanitize value = trim_matches (CHR ''-'') (sanitize_loop [] value)"

definition readable_head :: "string \<Rightarrow> string" where
  "readable_head readable = trim_end_matches (CHR ''-'') (take NAME_HEAD_LEN readable)"

definition name_parts :: "environment_id \<Rightarrow> resource_kind \<Rightarrow> string option \<Rightarrow> string list" where
  "name_parts eid kind logical_name =
     [eid, token kind, (case logical_name of None \<Rightarrow> [] | Some l \<Rightarrow> l)]"

definition docker_resource_name ::
    "(string \<Rightarrow> string) \<Rightarrow> environment_id \<Rightarrow> resource_kind \<Rightarrow> string option \<Rightarrow> string" where
  "docker_resource_name sha eid kind logical_name =
     (let parts = name_parts eid kind logical_name;
          digest = sha (join [nul] parts);
          readable = join ''-'' (map sanitize (filter (\<lambda>part. part \<noteq> []) parts))
      in NAME_PREFIX @ ''-'' @ readable_head readable @ ''-'' @ take NAME_SUFFIX_LEN digest)"

definition docker_resource_readable_prefix :: "environment_id \<Rightarrow> string" where
  "docker_resource_readable_prefix eid =
     NAME_PREFIX @ ''-'' @ readable_head (sanitize eid) @ ''-''"

section \<open>Names by kind (docker_names.rs)\<close>

definition network_for_application :: "(string \<Rightarrow> string) \<Rightarrow> environment_id \<Rightarrow> string" where
  "network_for_application sha eid = docker_resource_name sha eid Network None"

definition network_for_ingress :: "(string \<Rightarrow> string) \<Rightarrow> environment_id \<Rightarrow> string" where
  "network_for_ingress sha eid = docker_resource_name sha eid Network (Some ''ingress'')"

definition network_for_link ::
    "(string \<Rightarrow> string) \<Rightarrow> environment_id \<Rightarrow> environment_id \<Rightarrow> string" where
  "network_for_link sha importer exporter =
     docker_resource_name sha importer Network (Some (''link-'' @ exporter))"

definition service_name_for ::
    "(string \<Rightarrow> string) \<Rightarrow> environment_id \<Rightarrow> logical_name \<Rightarrow> string" where
  "service_name_for sha eid service = docker_resource_name sha eid Service (Some service)"

definition job_name_for ::
    "(string \<Rightarrow> string) \<Rightarrow> environment_id \<Rightarrow> logical_name \<Rightarrow> string" where
  "job_name_for sha eid job = docker_resource_name sha eid Job (Some job)"

definition volume_name_for ::
    "(string \<Rightarrow> string) \<Rightarrow> environment_id \<Rightarrow> logical_name \<Rightarrow> string" where
  "volume_name_for sha eid volume = docker_resource_name sha eid Volume (Some volume)"

definition LINK_LABEL :: string where "LINK_LABEL = ''io.piqueld.link''"

definition is_for_application :: "(string \<Rightarrow> string) \<Rightarrow> string \<Rightarrow> environment_id \<Rightarrow> bool" where
  "is_for_application sha name eid \<longleftrightarrow>
     name = network_for_application sha eid \<or> name = network_for_ingress sha eid"

definition is_canonical ::
    "(string \<Rightarrow> string) \<Rightarrow> string \<Rightarrow> environment_id \<Rightarrow> labels \<Rightarrow> bool" where
  "is_canonical sha name owner labels \<longleftrightarrow>
     is_for_application sha name owner
     \<or> (case Option.bind (Mapping.lookup labels LINK_LABEL) parse_environment_id of
          None \<Rightarrow> False
        | Some exporter \<Rightarrow> name = network_for_link sha owner exporter)"

section \<open>Preview slugs (environment.rs)\<close>

definition SLUG_MAX_LEN :: nat where "SLUG_MAX_LEN = 40"
definition SLUG_HASH_LEN :: nat where "SLUG_HASH_LEN = 6"

definition valid_preview_slug :: "string \<Rightarrow> bool" where
  "valid_preview_slug value \<longleftrightarrow> length value \<le> SLUG_MAX_LEN \<and> valid_logical_name value"

definition slug_key :: "string \<Rightarrow> string \<Rightarrow> string option \<Rightarrow> string" where
  "slug_key application branch slot =
     application @ [nul] @ branch @ (case slot of None \<Rightarrow> [] | Some s \<Rightarrow> nul # s)"

text \<open>\<open>None\<close> is the panic of the final \<open>expect\<close>; \<open>slug_derive_valid\<close> shows it never happens.\<close>

definition preview_slug_derive ::
    "(string \<Rightarrow> string) \<Rightarrow> string \<Rightarrow> string \<Rightarrow> string option \<Rightarrow> string option" where
  "preview_slug_derive sha application branch slot =
     (let hash = sha (slug_key application branch slot);
          parts = [application, branch] @ (case slot of None \<Rightarrow> [] | Some s \<Rightarrow> [s]);
          readable = take (SLUG_MAX_LEN - SLUG_HASH_LEN - 1) (sanitize (join ''-'' parts));
          readable = trim_end_matches (CHR ''-'') readable
      in validated_parse valid_preview_slug (readable @ ''-'' @ take SLUG_HASH_LEN hash))"

section \<open>Characters of generated names\<close>

definition hex_digest :: "(string \<Rightarrow> string) \<Rightarrow> bool" where
  "hex_digest sha \<longleftrightarrow> (\<forall>x. length (sha x) = 64 \<and> list_all is_hex_digit (sha x))"

definition name_char :: "char \<Rightarrow> bool" where
  "name_char c \<longleftrightarrow> (is_ascii_alphanumeric c \<and> \<not> is_ascii_uppercase c) \<or> c = CHR ''-''"

lemma name_char_hyphen [simp]: "name_char (CHR ''-'')"
  by (simp add: name_char_def)

lemma name_char_hex: "is_hex_digit c \<Longrightarrow> name_char c"
  by (simp add: name_char_def hex_digit_alphanumeric)

lemma hex_not_hyphen: "is_hex_digit c \<Longrightarrow> c \<noteq> CHR ''-''"
  using hex_digit_alphanumeric hyphen_class(1) by blast

lemma is_lowercase_label_iff:
  "is_lowercase_label value lengths \<longleftrightarrow>
     fst lengths \<le> length value \<and> length value \<le> snd lengths
     \<and> (value \<noteq> [] \<longrightarrow> hd value \<noteq> CHR ''-'' \<and> last value \<noteq> CHR ''-'')
     \<and> list_all name_char value"
proof -
  have p: "prefix ''-'' value \<longleftrightarrow> value \<noteq> [] \<and> hd value = CHR ''-''"
    by (cases "value") auto
  have s: "suffix ''-'' value \<longleftrightarrow> value \<noteq> [] \<and> last value = CHR ''-''"
    by (cases "value" rule: rev_cases) auto
  have c: "list_all (\<lambda>b. is_ascii_alphanumeric b \<or> b = CHR ''-'') value
      \<and> \<not> list_ex is_ascii_uppercase value \<longleftrightarrow> list_all name_char value"
    using hyphen_class(2) unfolding list_all_iff list_ex_iff name_char_def by blast
  show ?thesis
    unfolding is_lowercase_label_def is_label_def p s using c by blast
qed

lemma valid_logical_name_iff:
  "valid_logical_name value \<longleftrightarrow>
     value \<noteq> [] \<and> length value \<le> 63 \<and> is_ascii_lowercase (hd value)
     \<and> last value \<noteq> CHR ''-'' \<and> list_all name_char value"
  by (cases "value")
    (auto simp: valid_logical_name_def is_lowercase_label_iff dns_label_def ascii_bytes)

lemma valid_id_facts:
  assumes "valid_id i"
  shows "i \<noteq> []" "list_all name_char i" "hd i \<noteq> CHR ''-''" "last i \<noteq> CHR ''-''"
    "8 \<le> length i" "length i \<le> 64"
  using assms by (auto simp: valid_id_def is_lowercase_label_iff)

section \<open>Sanitizing\<close>

fun no_double_hyphen :: "string \<Rightarrow> bool" where
  "no_double_hyphen (a # b # s) \<longleftrightarrow>
     \<not> (a = CHR ''-'' \<and> b = CHR ''-'') \<and> no_double_hyphen (b # s)"
| "no_double_hyphen _ \<longleftrightarrow> True"

definition sanitized :: "string \<Rightarrow> bool" where
  "sanitized s \<longleftrightarrow> list_all name_char s \<and> no_double_hyphen s
     \<and> (s \<noteq> [] \<longrightarrow> hd s \<noteq> CHR ''-'' \<and> last s \<noteq> CHR ''-'')"

lemma no_double_hyphen_append:
  "no_double_hyphen (xs @ ys) \<longleftrightarrow>
     no_double_hyphen xs \<and> no_double_hyphen ys
     \<and> \<not> (xs \<noteq> [] \<and> ys \<noteq> [] \<and> last xs = CHR ''-'' \<and> hd ys = CHR ''-'')"
proof (induction xs)
  case (Cons x xs)
  then show ?case by (cases xs; cases ys) auto
qed simp

lemma no_double_hyphen_infix: "no_double_hyphen (xs @ ys @ zs) \<Longrightarrow> no_double_hyphen ys"
  by (simp add: no_double_hyphen_append)

lemma suffix_hyphen_iff: "suffix ''-'' s \<longleftrightarrow> s \<noteq> [] \<and> last s = CHR ''-''"
  by (cases s rule: rev_cases) auto

lemma sanitize_loop_name_chars:
  "list_all name_char out \<Longrightarrow> list_all name_char (sanitize_loop out cs)"
  by (induction out cs rule: sanitize_loop.induct)
    (auto simp: Let_def name_char_def)

lemma sanitize_loop_no_double:
  "no_double_hyphen out \<Longrightarrow> no_double_hyphen (sanitize_loop out cs)"
proof (induction out cs rule: sanitize_loop.induct)
  case (2 out c cs)
  have "no_double_hyphen (out @ [d])" if "d \<noteq> CHR ''-'' \<or> \<not> suffix ''-'' out" for d
    using that "2.prems" by (auto simp: no_double_hyphen_append suffix_hyphen_iff)
  moreover have "to_ascii_lowercase c \<noteq> CHR ''-''" if "is_ascii_alphanumeric (to_ascii_lowercase c)"
    using that by auto
  ultimately show ?case using 2 by (simp add: Let_def)
qed simp

lemma sanitize_loop_stable:
  assumes "list_all name_char cs" and "no_double_hyphen (out @ cs)"
  shows "sanitize_loop out cs = out @ cs"
  using assms
proof (induction cs arbitrary: out)
  case (Cons c cs)
  show ?case
  proof (cases "c = CHR ''-''")
    case True
    with Cons.prems have "\<not> suffix ''-'' out"
      by (auto simp: no_double_hyphen_append suffix_hyphen_iff)
    with True Cons.prems Cons.IH [of "out @ ''-''"] show ?thesis by simp
  next
    case False
    with Cons.prems have "is_ascii_alphanumeric c" "to_ascii_lowercase c = c"
      by (auto simp: name_char_def)
    with Cons.prems Cons.IH [of "out @ [c]"] show ?thesis by simp
  qed
qed simp

lemma trim_matches_decompose: "\<exists>xs zs. s = xs @ trim_matches c s @ zs"
proof -
  obtain zs where "s = trim_end_matches c s @ zs"
    using trim_end_matches_prefix [of c s] by (auto elim: prefixE)
  moreover obtain xs where "trim_end_matches c s = xs @ trim_matches c s"
    unfolding trim_matches_def trim_start_matches_def
    by (metis takeWhile_dropWhile_id)
  ultimately show ?thesis by (metis append.assoc)
qed

lemma trim_matches_ends:
  assumes "trim_matches c s \<noteq> []"
  shows "hd (trim_matches c s) \<noteq> c" "last (trim_matches c s) \<noteq> c"
proof -
  let ?t = "trim_end_matches c s"
  have ne: "dropWhile (\<lambda>x. x = c) ?t \<noteq> []"
    using assms by (simp add: trim_matches_def trim_start_matches_def)
  from hd_dropWhile [OF ne] show "hd (trim_matches c s) \<noteq> c"
    by (simp add: trim_matches_def trim_start_matches_def)
  have "?t \<noteq> []" using ne by auto
  moreover have "last (dropWhile (\<lambda>x. x = c) ?t) = last ?t"
    using ne by (metis last_appendR takeWhile_dropWhile_id)
  ultimately show "last (trim_matches c s) \<noteq> c"
    using trim_end_matches_last [of c s]
    by (simp add: trim_matches_def trim_start_matches_def)
qed

lemma sanitize_sanitized: "sanitized (sanitize value)"
proof -
  let ?s = "sanitize_loop [] value"
  obtain xs zs where s: "?s = xs @ sanitize value @ zs"
    unfolding sanitize_def using trim_matches_decompose by blast
  have "list_all name_char ?s" "no_double_hyphen ?s"
    by (simp_all add: sanitize_loop_name_chars sanitize_loop_no_double)
  then have "list_all name_char (sanitize value)" "no_double_hyphen (sanitize value)"
    unfolding s by (simp_all add: no_double_hyphen_append)
  then show ?thesis
    using trim_matches_ends [of "CHR ''-''" ?s] by (simp add: sanitized_def sanitize_def)
qed

lemma trim_matches_id:
  assumes "s \<noteq> [] \<longrightarrow> hd s \<noteq> c \<and> last s \<noteq> c"
  shows "trim_matches c s = s"
proof -
  have "trim_end_matches c s = s" using assms by (intro trim_end_matches_id) auto
  then show ?thesis
    using assms by (cases s) (simp_all add: trim_matches_def trim_start_matches_def)
qed

lemma sanitize_id: "sanitized s \<Longrightarrow> sanitize s = s"
  by (simp add: sanitized_def sanitize_def sanitize_loop_stable trim_matches_id)

lemma sanitize_name_chars: "list_all name_char (sanitize value)"
  using sanitize_sanitized by (simp add: sanitized_def)

section \<open>Generated names are valid, bounded and identify their inputs\<close>

lemma join_name_chars:
  "list_all name_char sep \<Longrightarrow> list_all (list_all name_char) ps \<Longrightarrow> list_all name_char (join sep ps)"
  by (induction sep ps rule: join.induct) auto

lemma readable_head_name_chars: "list_all name_char r \<Longrightarrow> list_all name_char (readable_head r)"
  unfolding readable_head_def
  by (rule list_all_set_mono [of _ r])
    (use set_trim_end_matches [of "CHR ''-''" "take NAME_HEAD_LEN r"] set_take_subset in fastforce)

lemma length_readable_head: "length (readable_head r) \<le> NAME_HEAD_LEN"
  unfolding readable_head_def
  using length_trim_end_matches [of "CHR ''-''" "take NAME_HEAD_LEN r"] by simp

lemma hex_digest_take:
  assumes "hex_digest sha" and "n \<le> 64" and "0 < n"
  shows "length (take n (sha x)) = n" "list_all name_char (take n (sha x))"
    "take n (sha x) \<noteq> []" "last (take n (sha x)) \<noteq> CHR ''-''"
proof -
  from assms(1) have l: "length (sha x) = 64" and h: "list_all is_hex_digit (sha x)"
    by (simp_all add: hex_digest_def)
  show "length (take n (sha x)) = n" using l assms by simp
  have t: "list_all is_hex_digit (take n (sha x))"
    using h by (auto simp: list_all_iff dest: in_set_takeD)
  then show "list_all name_char (take n (sha x))"
    by (auto simp: list_all_iff name_char_hex)
  show ne: "take n (sha x) \<noteq> []" using l assms by auto
  from t have "is_hex_digit (last (take n (sha x)))"
    using ne last_in_set unfolding list_all_iff by blast
  then show "last (take n (sha x)) \<noteq> CHR ''-''"
    by (rule hex_not_hyphen)
qed

lemma docker_name_shape:
  assumes "list_all name_char r" and "hex_digest sha"
  shows "valid_logical_name
    (NAME_PREFIX @ ''-'' @ readable_head r @ ''-'' @ take NAME_SUFFIX_LEN (sha x))"
proof -
  have p: "list_all name_char NAME_PREFIX"
    by (simp add: NAME_PREFIX_def name_char_def ascii_defs)
  note t = hex_digest_take [OF assms(2), of NAME_SUFFIX_LEN x]
  show ?thesis
    unfolding valid_logical_name_iff
    using p readable_head_name_chars [OF assms(1)] t length_readable_head [of r]
    by (simp add: NAME_PREFIX_def NAME_SUFFIX_LEN_def NAME_HEAD_LEN_eq ascii_bytes)
qed

lemma docker_resource_name_valid:
  assumes "hex_digest sha"
  shows "valid_logical_name (docker_resource_name sha eid kind logical)"
  unfolding docker_resource_name_def Let_def
proof (rule docker_name_shape [OF _ assms])
  show "list_all name_char (join ''-''
      (map sanitize (filter (\<lambda>part. part \<noteq> []) (name_parts eid kind logical))))"
    by (rule join_name_chars)
      (simp_all add: list.pred_set sanitize_name_chars [unfolded list.pred_set])
qed

text \<open>The hashed key determines the identity, kind and logical name.\<close>

lemma token_no_nul: "nul \<notin> set (token kind)"
  by (cases kind) (simp_all add: nul_def char_of_def)

lemma token_inj [simp]: "token k = token k' \<longleftrightarrow> k = k'"
  by (cases k; cases k') simp_all

lemma split_at_nul:
  assumes "xs @ c # ys = xs' @ c # ys'" and "c \<notin> set xs" and "c \<notin> set xs'"
  shows "xs = xs' \<and> ys = ys'"
  using assms by (auto simp: append_eq_append_conv2 append_eq_Cons_conv Cons_eq_append_conv)

lemma nul_not_name_char: "\<not> name_char nul"
  by (simp add: name_char_def nul_def ascii_defs char_of_def)

lemma name_chars_no_nul: "list_all name_char s \<Longrightarrow> nul \<notin> set s"
  using nul_not_name_char by (auto simp: list_all_iff)

lemma key_injective:
  assumes "join [nul] (name_parts i k l) = join [nul] (name_parts i' k' l')"
    and "valid_id i" and "valid_id i'"
  shows "i = i' \<and> k = k' \<and> (case l of None \<Rightarrow> [] | Some x \<Rightarrow> x) = (case l' of None \<Rightarrow> [] | Some x \<Rightarrow> x)"
proof -
  have "nul \<notin> set i" "nul \<notin> set i'"
    using assms valid_id_facts(2) name_chars_no_nul by blast+
  with split_at_nul [of i nul _ i'] assms(1) token_no_nul
  show ?thesis
    by (simp add: name_parts_def) (metis split_at_nul token_inj)
qed

text \<open>The readable prefix of an environment starts every name of its resources.\<close>

lemma trim_end_prefix_mono:
  assumes "b \<noteq> []" and "hd b \<noteq> c"
  shows "prefix (a @ [hd b]) (trim_end_matches c (a @ b))"
proof -
  obtain d where d: "trim_end_matches c b = hd b # d"
    using trim_end_matches_hd [OF assms] by (cases "trim_end_matches c b") auto
  have "trim_end_matches c (a @ b) = a @ trim_end_matches c b"
  proof -
    have "dropWhile (\<lambda>x. x = c) (rev b) \<noteq> []"
      using d by (simp add: trim_end_matches_def)
    then show ?thesis
      by (auto simp: trim_end_matches_def dropWhile_append)
  qed
  with d show ?thesis by simp
qed

lemma readable_head_short: "sanitized s \<Longrightarrow> length s \<le> NAME_HEAD_LEN \<Longrightarrow> readable_head s = s"
  unfolding readable_head_def sanitized_def using trim_end_matches_id [of s] by auto

lemma readable_head_extends:
  assumes s: "sanitized s" and t: "t \<noteq> []" "hd t \<noteq> CHR ''-''"
  shows "prefix (readable_head s @ ''-'') (readable_head (s @ ''-'' @ t) @ ''-'' @ d)"
proof -
  consider "NAME_HEAD_LEN \<le> length s" | "Suc (length s) = NAME_HEAD_LEN"
    | "Suc (length s) < NAME_HEAD_LEN" by linarith
  then show ?thesis
  proof cases
    case 1
    then have "readable_head (s @ ''-'' @ t) = readable_head s"
      by (simp add: readable_head_def)
    then show ?thesis by simp
  next
    case 2
    then have "take NAME_HEAD_LEN (s @ ''-'' @ t) = s @ ''-''"
      by (simp flip: 2)
    then have "readable_head (s @ ''-'' @ t) = trim_end_matches (CHR ''-'') s"
      by (simp add: readable_head_def)
    moreover have "readable_head s = trim_end_matches (CHR ''-'') s"
      using 2 by (simp add: readable_head_def)
    ultimately show ?thesis by simp
  next
    case 3
    define u where "u = take (NAME_HEAD_LEN - Suc (length s)) t"
    have u: "u \<noteq> []" "hd u \<noteq> CHR ''-''"
      using 3 t by (auto simp: u_def hd_take)
    have "take NAME_HEAD_LEN (s @ ''-'' @ t) = (s @ ''-'') @ u"
      using 3 by (simp add: u_def take_Cons')
    then have "readable_head (s @ ''-'' @ t) = trim_end_matches (CHR ''-'') ((s @ ''-'') @ u)"
      by (simp add: readable_head_def)
    with trim_end_prefix_mono [OF u, of "s @ ''-''"]
    have "prefix (s @ ''-'') (readable_head (s @ ''-'' @ t))"
      by (metis append.assoc append_prefixD)
    with readable_head_short [OF s] 3 show ?thesis
      by (metis Suc_leD less_imp_le prefix_prefix append.assoc)
  qed
qed

lemma token_sanitized: "sanitized (token kind)"
  by (cases kind) (simp_all add: sanitized_def name_char_def ascii_defs)

lemma readable_prefix_of_name:
  assumes "valid_id eid"
  shows "prefix (docker_resource_readable_prefix eid) (docker_resource_name sha eid kind logical)"
proof -
  let ?l = "case logical of None \<Rightarrow> [] | Some x \<Rightarrow> x"
  let ?d = "take NAME_SUFFIX_LEN (sha (join [nul] (name_parts eid kind logical)))"
  define t where "t = (if ?l = [] then token kind else token kind @ ''-'' @ sanitize ?l)"
  have tok: "token kind \<noteq> []" "hd (token kind) \<noteq> CHR ''-''" by (cases kind; simp)+
  then have t: "t \<noteq> []" "hd t \<noteq> CHR ''-''" by (auto simp: t_def)
  have "docker_resource_name sha eid kind logical
      = NAME_PREFIX @ ''-'' @ readable_head (sanitize eid @ ''-'' @ t) @ ''-'' @ ?d"
    using valid_id_facts(1) [OF assms] tok(1)
    by (auto simp: docker_resource_name_def Let_def name_parts_def t_def
        sanitize_id [OF token_sanitized])
  then show ?thesis
    using readable_head_extends [OF sanitize_sanitized t, of eid ?d]
    by (simp add: docker_resource_readable_prefix_def)
qed

section \<open>Preview slugs never panic\<close>

lemma sanitize_lower_start:
  assumes "is_ascii_lowercase c"
  shows "\<exists>r. sanitize (c # cs) = c # r"
proof -
  have c: "is_ascii_alphanumeric c" "\<not> is_ascii_uppercase c" "c \<noteq> CHR ''-''"
    using assms by (auto simp: is_ascii_alphanumeric_def is_ascii_alphabetic_def ascii_bytes)
  have keep: "prefix out (sanitize_loop out xs)" for out xs
    by (induction out xs rule: sanitize_loop.induct) (auto simp: Let_def intro: append_prefixD)
  obtain r where r: "sanitize_loop [] (c # cs) = c # r"
    using c keep [of "[c]" cs] by (auto simp: prefix_def)
  have "trim_end_matches (CHR ''-'') (c # r) \<noteq> []
      \<and> hd (trim_end_matches (CHR ''-'') (c # r)) = c"
    using trim_end_matches_hd [of "c # r" "CHR ''-''"] c by simp
  with r c show ?thesis
    by (cases "trim_end_matches (CHR ''-'') (c # r)")
      (auto simp: sanitize_def trim_matches_def trim_start_matches_def)
qed

lemma slug_derive_valid:
  assumes "valid_logical_name application" and "hex_digest sha"
  shows "\<exists>slug. preview_slug_derive sha application branch slot = Some slug
    \<and> valid_preview_slug slug"
proof -
  let ?n = "SLUG_MAX_LEN - SLUG_HASH_LEN - 1"
  let ?parts = "[application, branch] @ (case slot of None \<Rightarrow> [] | Some s \<Rightarrow> [s])"
  let ?san = "sanitize (join ''-'' ?parts)"
  let ?r = "trim_end_matches (CHR ''-'') (take ?n ?san)"
  obtain c a where ca: "application = c # a" "is_ascii_lowercase c"
    using assms(1) by (cases application) (auto simp: valid_logical_name_iff)
  obtain r where san: "?san = c # r"
    using sanitize_lower_start [OF ca(2)] by (auto simp: ca)
  have c: "c \<noteq> CHR ''-''" using ca(2) by (auto simp: ascii_bytes)
  have hd: "?r \<noteq> [] \<and> hd ?r = c"
    using trim_end_matches_hd [of "take ?n ?san" "CHR ''-''"] c
    unfolding san by (simp add: SLUG_MAX_LEN_def SLUG_HASH_LEN_def)
  have len: "length ?r \<le> 33"
    using length_trim_end_matches [of "CHR ''-''" "take ?n ?san"]
    by (simp add: SLUG_MAX_LEN_def SLUG_HASH_LEN_def)
  have ch: "list_all name_char ?r"
    by (rule list_all_set_mono [OF _ sanitize_name_chars [of "join ''-'' ?parts"]])
      (use set_trim_end_matches set_take_subset in fastforce)
  note h = hex_digest_take [OF assms(2), of SLUG_HASH_LEN]
  let ?slug = "?r @ ''-'' @ take SLUG_HASH_LEN (sha (slug_key application branch slot))"
  have "valid_preview_slug ?slug"
    unfolding valid_preview_slug_def valid_logical_name_iff
    using hd len ch h ca(2) by (simp add: SLUG_MAX_LEN_def SLUG_HASH_LEN_def)
  then show ?thesis
    by (simp add: preview_slug_derive_def validated_parse_def Let_def)
qed

section \<open>Properties\<close>

lemma sha_const: "hex_digest (\<lambda>_. replicate 64 (CHR ''a''))"
  by (simp add: hex_digest_def is_hex_digit_def list_all_iff less_eq_char_def)

text \<open>Every generated Docker resource name is a valid DNS label (1 to 63 lowercase letters,
  digits and inner hyphens, starting with a letter) and starts with the readable prefix of its
  environment, whatever the logical name.\<close>

theorem generated_names_are_valid:
  assumes "hex_digest sha" and "valid_id eid"
  shows "valid_logical_name (docker_resource_name sha eid kind logical)
    \<and> prefix (docker_resource_readable_prefix eid) (docker_resource_name sha eid kind logical)"
  using docker_resource_name_valid [OF assms(1)] readable_prefix_of_name [OF assms(2)] by blast

theorem generated_names_are_valid_witness:
  "valid_logical_name (docker_resource_name (\<lambda>_. replicate 64 (CHR ''a'')) ''env-0001'' Service (Some ''web''))"
proof -
  have "valid_id ''env-0001''"
    by (simp add: valid_id_def is_lowercase_label_def is_label_def suffix_hyphen_iff ascii_defs less_eq_char_def)
  from generated_names_are_valid [OF sha_const this] show ?thesis by blast
qed

text \<open>Names identify what they name: when the digests used as suffixes do not collide on the
  two hashed keys, two generated names are equal exactly when environment, kind and logical
  name (none counting as the empty name) are.\<close>

theorem generated_names_identify:
  assumes "valid_id i" and "valid_id i'" and "hex_digest sha"
    and no_collision: "take NAME_SUFFIX_LEN (sha (join [nul] (name_parts i k l)))
        = take NAME_SUFFIX_LEN (sha (join [nul] (name_parts i' k' l')))
      \<Longrightarrow> join [nul] (name_parts i k l) = join [nul] (name_parts i' k' l')"
  shows "docker_resource_name sha i k l = docker_resource_name sha i' k' l'
    \<longleftrightarrow> name_parts i k l = name_parts i' k' l'"
proof
  let ?s = "\<lambda>i k l. take NAME_SUFFIX_LEN (sha (join [nul] (name_parts i k l)))"
  assume "docker_resource_name sha i k l = docker_resource_name sha i' k' l'"
  then obtain a b where "a @ ?s i k l = b @ ?s i' k' l'"
    unfolding docker_resource_name_def Let_def by (metis append.assoc)
  moreover have "length (?s i k l) = length (?s i' k' l')"
    using hex_digest_take(1) [OF assms(3)] by (simp add: NAME_SUFFIX_LEN_def)
  ultimately have "?s i k l = ?s i' k' l'" by simp
  with no_collision key_injective [OF _ assms(1,2)] show "name_parts i k l = name_parts i' k' l'"
    unfolding name_parts_def by blast
next
  assume "name_parts i k l = name_parts i' k' l'"
  then show "docker_resource_name sha i k l = docker_resource_name sha i' k' l'"
    by (simp add: docker_resource_name_def)
qed

definition witness_sha :: "string \<Rightarrow> string" where
  "witness_sha x = replicate 64 (if CHR ''w'' \<in> set x then CHR ''b'' else CHR ''a'')"

theorem generated_names_identify_witness:
  "docker_resource_name witness_sha ''env-0001'' Service (Some ''web'')
   \<noteq> docker_resource_name witness_sha ''env-0001'' Job (Some ''api'')"
proof -
  have v: "valid_id ''env-0001''"
    by (simp add: valid_id_def is_lowercase_label_def is_label_def suffix_hyphen_iff ascii_defs less_eq_char_def)
  have h: "hex_digest witness_sha"
    by (simp add: hex_digest_def witness_sha_def list_all_iff is_hex_digit_def ascii_defs less_eq_char_def)
  have "docker_resource_name witness_sha ''env-0001'' Service (Some ''web'')
      = docker_resource_name witness_sha ''env-0001'' Job (Some ''api'')
    \<longleftrightarrow> name_parts ''env-0001'' Service (Some ''web'') = name_parts ''env-0001'' Job (Some ''api'')"
    by (rule generated_names_identify [OF v v h])
      (simp add: witness_sha_def name_parts_def nul_def NAME_SUFFIX_LEN_def char_of_def)
  then show ?thesis by (simp add: name_parts_def)
qed

text \<open>Deriving a preview slug never panics: for a valid application name the result is a valid
  name of at most 40 bytes, for every branch and slot.\<close>

theorem preview_slugs_never_panic:
  assumes "valid_logical_name application" and "hex_digest sha"
  shows "\<exists>slug. preview_slug_derive sha application branch slot = Some slug
    \<and> length slug \<le> 40 \<and> valid_logical_name slug"
  using slug_derive_valid [OF assms, of branch slot]
  by (auto simp: valid_preview_slug_def SLUG_MAX_LEN_def)

theorem preview_slugs_never_panic_witness:
  "\<exists>slug. preview_slug_derive (\<lambda>_. replicate 64 (CHR ''a'')) ''shop'' ''feature/Cart'' None = Some slug
    \<and> length slug \<le> 40 \<and> valid_logical_name slug"
  by (rule preview_slugs_never_panic [OF _ sha_const])
    (simp add: valid_logical_name_def is_lowercase_label_def is_label_def suffix_hyphen_iff dns_label_def ascii_defs
      less_eq_char_def)

end
