(* ===== verification/Rollout.thy ===== *)
theory Rollout
  imports Prelude
begin

text \<open>
  Rollout settings and the update policy they resolve to:
  \<open>crates/piqueld-core/src/manifest/rollout.rs\<close>.
\<close>

datatype rollout_order = StopFirst | StartFirst

datatype rollout_order_source = Derived | Explicit

datatype rollback = Automatic | Manual

record validated_rollout =
  ro_order :: "rollout_order option"
  ro_monitor_seconds :: "u32 option"

record rollout_policy =
  rp_order :: rollout_order
  rp_monitor_seconds :: u32

definition DEFAULT_MONITOR_SECONDS :: u32 where "DEFAULT_MONITOR_SECONDS = 30"

definition MAX_MONITOR_SECONDS :: u32 where "MAX_MONITOR_SECONDS = 3600"

definition rollout_default :: validated_rollout where
  "rollout_default = \<lparr>ro_order = None, ro_monitor_seconds = None\<rparr>"

definition rollout_is_default :: "validated_rollout \<Rightarrow> bool" where
  "rollout_is_default r \<longleftrightarrow> r = rollout_default"

definition derived_order :: "bool list \<Rightarrow> rollout_order" where
  "derived_order read_only =
     (if list_ex (\<lambda>ro. \<not> ro) read_only then StopFirst else StartFirst)"

definition policy :: "validated_rollout \<Rightarrow> bool list \<Rightarrow> rollout_policy" where
  "policy r read_only =
     \<lparr>rp_order = (case ro_order r of None \<Rightarrow> derived_order read_only | Some order \<Rightarrow> order),
      rp_monitor_seconds =
        (case ro_monitor_seconds r of None \<Rightarrow> DEFAULT_MONITOR_SECONDS | Some seconds \<Rightarrow> seconds)\<rparr>"

fun order_source :: "validated_rollout \<Rightarrow> rollout_order_source" where
  "order_source r = (case ro_order r of Some _ \<Rightarrow> Explicit | None \<Rightarrow> Derived)"

definition overlaps_writable_volume :: "validated_rollout \<Rightarrow> bool list \<Rightarrow> bool" where
  "overlaps_writable_volume r read_only \<longleftrightarrow>
     ro_order r = Some StartFirst \<and> derived_order read_only = StopFirst"

definition rollback_effective :: "rollback option \<Rightarrow> bool \<Rightarrow> rollback" where
  "rollback_effective setting promoted =
     (case setting of Some r \<Rightarrow> r | None \<Rightarrow> if promoted then Automatic else Manual)"

section \<open>Tasks sharing a writable mount\<close>

lemma derived_order_iff:
  "derived_order read_only = StopFirst \<longleftrightarrow> False \<in> set read_only"
  "derived_order read_only = StartFirst \<longleftrightarrow> False \<notin> set read_only"
  by (auto simp: derived_order_def list_ex_iff)

text \<open>Mounting the same volumes in another order or twice does not change the policy.\<close>

lemma policy_mounts: "set a = set b \<Longrightarrow> policy r a = policy r b"
proof -
  assume "set a = set b"
  then have "derived_order a = derived_order b"
    by (simp add: derived_order_def list_ex_iff)
  then show "policy r a = policy r b" by (simp add: policy_def cong: option.case_cong)
qed

section \<open>Properties\<close>

text \<open>Old and new tasks run side by side on a writable mount exactly when the manifest asks for
  start-first explicitly, and that is exactly what the rollout warning reports; without an
  explicit order, a writable mount always gives stop-first.\<close>

theorem tasks_share_writable_mount_only_when_asked:
  "(rp_order (policy r read_only) = StartFirst \<and> False \<in> set read_only
      \<longleftrightarrow> overlaps_writable_volume r read_only)
   \<and> (order_source r = Explicit \<or>
      (rp_order (policy r read_only) = StopFirst \<longleftrightarrow> False \<in> set read_only))"
  by (cases "ro_order r") (auto simp: policy_def overlaps_writable_volume_def derived_order_iff)

end
