(* ===== verification/Domain.thy ===== *)
theory Domain
  imports Names Rollout
begin

text \<open>
  Validated manifest values: \<open>crates/piqueld-core/src/manifest/domain.rs\<close>, with the value types of
  \<open>input.rs\<close>, \<open>files.rs\<close>, \<open>routes.rs\<close> and \<open>links.rs\<close> they are made of, and the probe command of
  \<open>crates/piqueld-probe/src/lib.rs\<close> an HTTP health check runs.
\<close>

section \<open>Sources (domain.rs, input.rs)\<close>

record git_repository =
  gr_url :: string
  gr_branch :: string
  gr_commit :: "string option"

datatype source_repository = Source_Manifest | Source_Git git_repository

datatype validated_build =
  Build_Docker (bd_dockerfile: string) (bd_context: string)
    (bd_args: "(string, string) mapping") (bd_target: "string option")

datatype validated_source =
    Source_Image string
  | Source_Build source_repository validated_build

fun resolve_manifest :: "git_repository \<Rightarrow> source_repository \<Rightarrow> source_repository" where
  "resolve_manifest manifest Source_Manifest = Source_Git manifest"
| "resolve_manifest manifest (Source_Git r) = Source_Git r"

fun resolve_manifest_repository :: "git_repository \<Rightarrow> validated_source \<Rightarrow> validated_source" where
  "resolve_manifest_repository manifest (Source_Image i) = Source_Image i"
| "resolve_manifest_repository manifest (Source_Build repository build) =
     Source_Build (resolve_manifest manifest repository) build"

datatype manifest_revision = Revision_Branch string | Revision_Commit string

fun repository_at :: "git_repository \<Rightarrow> manifest_revision \<Rightarrow> git_repository" where
  "repository_at repository (Revision_Branch branch) =
     repository\<lparr>gr_branch := branch, gr_commit := None\<rparr>"
| "repository_at repository (Revision_Commit commit) = repository\<lparr>gr_commit := Some commit\<rparr>"

datatype repository_sync = Sync_Off | Sync_Poll u32 | Sync_Webhook

record repository_manifest =
  rm_repository :: git_repository
  rm_path :: string
  rm_sync :: repository_sync

section \<open>Health checks (domain.rs)\<close>

record health_timing =
  ht_interval_seconds :: u32
  ht_timeout_seconds :: u32
  ht_start_period_seconds :: u32
  ht_retries :: u32

datatype health_check =
    Health_Http (hc_port: u16) (hc_path: string) (hc_interval: u32) (hc_timeout: u32)
      (hc_start_period: u32) (hc_retries: u32)
  | Health_Command (hc_command: "string list") (hc_interval: u32) (hc_timeout: u32)
      (hc_start_period: u32) (hc_retries: u32)

record health_execution =
  he_command :: "string list"
  he_timing :: health_timing

definition PROBE_CONTAINER_PATH :: string where
  "PROBE_CONTAINER_PATH = ''/run/piqueld/probe''"

text \<open>\<open>HttpProbe::command\<close>\<close>

definition probe_command :: "u16 \<Rightarrow> string \<Rightarrow> u32 \<Rightarrow> string list" where
  "probe_command port path timeout_seconds =
     [PROBE_CONTAINER_PATH, ''http'', ''--port'', show_nat (unat port), ''--path'', path,
      ''--timeout'', show_nat (unat timeout_seconds)]"

definition health_timing_of :: "health_check \<Rightarrow> health_timing" where
  "health_timing_of check =
     \<lparr>ht_interval_seconds = hc_interval check, ht_timeout_seconds = hc_timeout check,
      ht_start_period_seconds = hc_start_period check, ht_retries = hc_retries check\<rparr>"

definition health_execution_of :: "health_check \<Rightarrow> health_execution" where
  "health_execution_of check =
     (let timing = health_timing_of check;
          command = (case check of
              Health_Command command _ _ _ _ \<Rightarrow> command
            | Health_Http port path _ _ _ _ \<Rightarrow> probe_command port path (ht_timeout_seconds timing))
      in \<lparr>he_command = command, he_timing = timing\<rparr>)"

definition runs_probe :: "health_execution \<Rightarrow> bool" where
  "runs_probe e \<longleftrightarrow> (case he_command e of [] \<Rightarrow> False | c # _ \<Rightarrow> c = PROBE_CONTAINER_PATH)"

section \<open>Files and limits (files.rs, domain.rs)\<close>

record resource_limits =
  rl_cpu_millis :: "u32 option"
  rl_memory_bytes :: "u64 option"

datatype file_source = File_Path string | File_Content string

type_synonym file_mode = u32

text \<open>\<open>FileMode::READ_ONLY\<close> is \<open>0o444\<close>.\<close>

definition FILE_MODE_READ_ONLY :: file_mode where "FILE_MODE_READ_ONLY = 292"

record service_file =
  sf_target :: string
  sf_source :: file_source
  sf_mode :: file_mode

definition file_inside :: "string \<Rightarrow> string \<Rightarrow> bool" where
  "file_inside path directory \<longleftrightarrow>
     prefix directory path \<and> prefix ''/'' (drop (length directory) path)"

definition RESERVED_DIRECTORIES :: "string list" where
  "RESERVED_DIRECTORIES = [''/run/secrets'', ''/run/piqueld'']"

definition reserved_target :: "service_file \<Rightarrow> bool" where
  "reserved_target file \<longleftrightarrow>
     list_ex (\<lambda>directory. directory = sf_target file
         \<or> file_inside (sf_target file) directory
         \<or> file_inside directory (sf_target file)) RESERVED_DIRECTORIES"

definition file_contains :: "service_file \<Rightarrow> string \<Rightarrow> bool" where
  "file_contains file other \<longleftrightarrow> file_inside other (sf_target file)"

text \<open>\<open>FileMode::from_str\<close>: \<open>None\<close> is \<open>FileModeError\<close>.\<close>

definition parse_file_mode :: "string \<Rightarrow> file_mode option" where
  "parse_file_mode text =
     (case (if length text = 4 then (if prefix ''0'' text then Some (drop 1 text) else None)
            else Some text) of
        None \<Rightarrow> None
      | Some digits \<Rightarrow>
          if length digits \<noteq> 3
             \<or> \<not> list_all (\<lambda>d. CHR ''0'' \<le> d \<and> d \<le> CHR ''7'') digits then None
          else Some (of_nat (foldl (\<lambda>n d. 8 * n + (of_char d - 48)) (0 :: nat) digits)))"

section \<open>Services and jobs (domain.rs)\<close>

record secret_mount =
  sm_name :: string
  sm_target :: string

record validated_mount =
  vm_volume :: logical_name
  vm_target :: string
  vm_read_only :: bool

record validated_service =
  vs_name :: logical_name
  vs_source :: validated_source
  vs_replicas :: u16
  vs_environment :: "(string, string) mapping"
  vs_command :: "string list"
  vs_arguments :: "string list"
  vs_mounts :: "validated_mount list"
  vs_secrets :: "secret_mount list"
  vs_files :: "service_file list"
  vs_healthcheck :: "health_check option"
  vs_resources :: "resource_limits option"
  vs_depends_on :: "logical_name list"
  vs_rollout :: validated_rollout
  vs_receives_telemetry :: bool

definition read_only_mounts :: "validated_service \<Rightarrow> bool list" where
  "read_only_mounts s =
     map vm_read_only (vs_mounts s) @ (if vs_receives_telemetry s then [False] else [])"

definition service_rollout_policy :: "validated_service \<Rightarrow> rollout_policy" where
  "service_rollout_policy s = policy (vs_rollout s) (read_only_mounts s)"

definition rollout_overlaps_writable_volume :: "validated_service \<Rightarrow> bool" where
  "rollout_overlaps_writable_volume s =
     overlaps_writable_volume (vs_rollout s) (read_only_mounts s)"

datatype job_run = BeforeRollout

datatype job_volume_access = Access_ReadOnly | Access_Exclusive

record validated_job =
  vj_name :: logical_name
  vj_service :: logical_name
  vj_command :: "string list"
  vj_environment :: "(string, string) mapping"
  vj_secrets :: "secret_mount list"
  vj_run :: job_run
  vj_timeout_seconds :: u32
  vj_volume_access :: job_volume_access
  vj_stop_service :: bool

section \<open>Routes (routes.rs)\<close>

datatype visibility = Public | Private

fun capped :: "visibility \<Rightarrow> visibility \<Rightarrow> visibility" where
  "capped Public ceiling = ceiling"
| "capped Private ceiling = Private"

datatype redirect_status =
    MovedPermanently | Found | SeeOther | TemporaryRedirect | PermanentRedirect

fun redirect_status_code :: "redirect_status \<Rightarrow> u16" where
  "redirect_status_code MovedPermanently = 301"
| "redirect_status_code Found = 302"
| "redirect_status_code SeeOther = 303"
| "redirect_status_code TemporaryRedirect = 307"
| "redirect_status_code PermanentRedirect = 308"

definition redirect_status_all :: "redirect_status list" where
  "redirect_status_all = [MovedPermanently, Found, SeeOther, TemporaryRedirect, PermanentRedirect]"

definition redirect_status_of :: "u16 \<Rightarrow> redirect_status option" where
  "redirect_status_of code = List.find (\<lambda>status. redirect_status_code status = code) redirect_status_all"

record validated_redirect =
  vrd_to :: string
  vrd_status :: redirect_status
  vrd_preserve_path :: bool

definition redirect_location :: "validated_redirect \<Rightarrow> string" where
  "redirect_location r =
     (if vrd_preserve_path r
      then trim_end_matches (CHR ''/'') (vrd_to r) @ ''{http.request.uri}''
      else vrd_to r)"

datatype route_target = Route_Service logical_name u16 | Route_Redirect validated_redirect

fun target_service :: "route_target \<Rightarrow> logical_name option" where
  "target_service (Route_Service service _) = Some service"
| "target_service (Route_Redirect _) = None"

record validated_route =
  vr_hostname :: string
  vr_name :: "string option"
  vr_visibility :: visibility
  vr_target :: route_target

section \<open>Links (manifest/links.rs)\<close>

record validated_export =
  ve_service :: logical_name
  ve_applications :: "logical_name set"
  ve_previews :: bool

record validated_import =
  vi_application :: logical_name
  vi_service :: logical_name
  vi_environment :: "string option"

definition link_alias :: "logical_name \<Rightarrow> logical_name \<Rightarrow> string" where
  "link_alias service application = service @ ''.'' @ application"

definition import_alias :: "validated_import \<Rightarrow> string" where
  "import_alias i = link_alias (vi_service i) (vi_application i)"

section \<open>The specification (domain.rs)\<close>

datatype secret_encoding = Encoding_Hex | Encoding_Base64url

datatype secret_generator = Generate_Random u16 secret_encoding | Generate_Rsa u16

record secret_declaration =
  sd_name :: string
  sd_generate :: secret_generator

record validated_spec =
  sp_manifest :: "repository_manifest option"
  sp_services :: "validated_service list"
  sp_volumes :: "logical_name list"
  sp_routes :: "validated_route list"
  sp_secrets :: "secret_declaration list"
  sp_jobs :: "validated_job list"
  sp_exports :: "validated_export list"
  sp_imports :: "validated_import list"

datatype secret_source = Generated | Stored

definition secret_source_of :: "validated_spec \<Rightarrow> string \<Rightarrow> secret_source" where
  "secret_source_of spec name =
     (if list_ex (\<lambda>secret. sd_name secret = name) (sp_secrets spec) then Generated else Stored)"

definition mounted_secret_names :: "validated_spec \<Rightarrow> string set" where
  "mounted_secret_names spec =
     set (map sm_name (concat (map vs_secrets (sp_services spec))
                       @ concat (map vj_secrets (sp_jobs spec))))"

section \<open>Facts about the values\<close>

text \<open>Health checks that run the same never differ in timing.\<close>

lemma health_execution_timing:
  "health_execution_of a = health_execution_of b \<Longrightarrow> health_timing_of a = health_timing_of b"
  by (simp add: health_execution_of_def Let_def)

lemma http_runs_probe: "runs_probe (health_execution_of (Health_Http port path i t s r))"
  by (simp add: runs_probe_def health_execution_of_def Let_def probe_command_def)

lemma capped_private: "capped v c = Public \<longleftrightarrow> v = Public \<and> c = Public"
  by (cases v; cases c) simp_all

lemma redirect_status_round_trip: "redirect_status_of (redirect_status_code s) = Some s"
  by (cases s) (simp_all add: redirect_status_of_def redirect_status_all_def)

lemma file_inside_iff: "file_inside path directory \<longleftrightarrow> (\<exists>u. path = directory @ CHR ''/'' # u)"
  by (auto simp: file_inside_def prefix_def)

lemma append_separator:
  assumes "a @ c # u = b @ c # v"
  shows "a = b \<or> (\<exists>w. a = b @ c # w) \<or> (\<exists>w. b = a @ c # w)"
proof -
  have split: "us = [] \<or> (\<exists>w. us = c # w)" if "us @ c # x = c # y" for us x y
    using that by (cases us) auto
  from assms obtain us where
    "a = b @ us \<and> us @ c # u = c # v \<or> a @ us = b \<and> c # u = us @ c # v"
    by (auto simp: append_eq_append_conv2)
  then show ?thesis
  proof
    assume "a = b @ us \<and> us @ c # u = c # v"
    with split [of us u v] show ?thesis by auto
  next
    assume "a @ us = b \<and> c # u = us @ c # v"
    with split [of us v u] show ?thesis by auto
  qed
qed

lemma file_inside_trans: "file_inside a b \<Longrightarrow> file_inside b c \<Longrightarrow> file_inside a c"
  by (auto simp: file_inside_def prefix_def)

lemma file_inside_irrefl: "\<not> file_inside a a"
  by (simp add: file_inside_def)

text \<open>A file outside the reserved directories shadows nothing piqueld mounts inside them.\<close>

lemma unreserved_keeps_reserved:
  assumes "\<not> reserved_target file" and "directory \<in> set RESERVED_DIRECTORIES"
    and "path = directory \<or> file_inside path directory"
  shows "\<not> file_contains file path \<and> sf_target file \<noteq> path"
proof -
  have "\<not> file_inside directory (sf_target file)" "sf_target file \<noteq> directory"
    "\<not> file_inside (sf_target file) directory"
    using assms(1,2) by (auto simp: reserved_target_def list_ex_iff)
  moreover have "file_inside directory (sf_target file) \<or> directory = sf_target file
      \<or> file_inside (sf_target file) directory"
    if "file_inside path directory" "file_inside path (sf_target file)"
  proof -
    from that(1) obtain u where "path = directory @ CHR ''/'' # u" by (auto simp: file_inside_iff)
    moreover from that(2) obtain v where "path = sf_target file @ CHR ''/'' # v"
      by (auto simp: file_inside_iff)
    ultimately have "directory @ (CHR ''/'' # u) = sf_target file @ (CHR ''/'' # v)" by simp
    from append_separator [OF this] show ?thesis by (auto simp: file_inside_iff)
  qed
  ultimately show ?thesis
    using assms(3) by (auto simp: file_contains_def)
qed

end
