(* ===== verification/Ownership.thy ===== *)
theory Ownership
  imports Domain
begin

text \<open>
  Ownership of Docker resources: the labels of \<open>crates/piqueld-core/src/resource.rs\<close>, how they are
  written (\<open>Ownership::labels\<close>) and how observed labels are classified (\<open>OwnershipState\<close>).
  \<open>sha\<close> is the hexadecimal SHA-256 digest (see theory \<open>Names\<close>).
\<close>

section \<open>Labels\<close>

definition MANAGED_LABEL :: string where "MANAGED_LABEL = ''io.piqueld.managed''"
definition INSTANCE_LABEL :: string where "INSTANCE_LABEL = ''io.piqueld.instance''"
definition APPLICATION_LABEL :: string where "APPLICATION_LABEL = ''io.piqueld.application''"
definition SERVICE_LABEL :: string where "SERVICE_LABEL = ''io.piqueld.service''"
definition SPEC_HASH_LABEL :: string where "SPEC_HASH_LABEL = ''io.piqueld.spec-hash''"
definition JOB_LABEL :: string where "JOB_LABEL = ''io.piqueld.job''"
definition JOB_OPERATION_LABEL :: string where "JOB_OPERATION_LABEL = ''io.piqueld.job-operation''"
definition OWN_LABEL_PREFIX :: string where "OWN_LABEL_PREFIX = ''io.piqueld.''"

lemmas label_names =
  MANAGED_LABEL_def INSTANCE_LABEL_def APPLICATION_LABEL_def SERVICE_LABEL_def SPEC_HASH_LABEL_def
  JOB_LABEL_def JOB_OPERATION_LABEL_def LINK_LABEL_def

text \<open>The label names are distinct, so looking one up sees only its own insertions.\<close>

lemma label_names_distinct:
  "distinct [MANAGED_LABEL, INSTANCE_LABEL, APPLICATION_LABEL, SERVICE_LABEL, SPEC_HASH_LABEL,
     JOB_LABEL, JOB_OPERATION_LABEL, LINK_LABEL]"
  by (simp add: label_names)

lemma label_names_neq [label_simps]:
  "MANAGED_LABEL \<noteq> INSTANCE_LABEL" "MANAGED_LABEL \<noteq> APPLICATION_LABEL"
  "MANAGED_LABEL \<noteq> SERVICE_LABEL" "MANAGED_LABEL \<noteq> SPEC_HASH_LABEL"
  "MANAGED_LABEL \<noteq> JOB_LABEL" "MANAGED_LABEL \<noteq> JOB_OPERATION_LABEL" "MANAGED_LABEL \<noteq> LINK_LABEL"
  "INSTANCE_LABEL \<noteq> APPLICATION_LABEL" "INSTANCE_LABEL \<noteq> SERVICE_LABEL"
  "INSTANCE_LABEL \<noteq> SPEC_HASH_LABEL" "INSTANCE_LABEL \<noteq> JOB_LABEL"
  "INSTANCE_LABEL \<noteq> JOB_OPERATION_LABEL" "INSTANCE_LABEL \<noteq> LINK_LABEL"
  "APPLICATION_LABEL \<noteq> SERVICE_LABEL" "APPLICATION_LABEL \<noteq> SPEC_HASH_LABEL"
  "APPLICATION_LABEL \<noteq> JOB_LABEL" "APPLICATION_LABEL \<noteq> JOB_OPERATION_LABEL"
  "APPLICATION_LABEL \<noteq> LINK_LABEL" "SERVICE_LABEL \<noteq> SPEC_HASH_LABEL" "SERVICE_LABEL \<noteq> JOB_LABEL"
  "SERVICE_LABEL \<noteq> JOB_OPERATION_LABEL" "SERVICE_LABEL \<noteq> LINK_LABEL"
  "SPEC_HASH_LABEL \<noteq> JOB_LABEL" "SPEC_HASH_LABEL \<noteq> JOB_OPERATION_LABEL"
  "SPEC_HASH_LABEL \<noteq> LINK_LABEL" "JOB_LABEL \<noteq> JOB_OPERATION_LABEL" "JOB_LABEL \<noteq> LINK_LABEL"
  "JOB_OPERATION_LABEL \<noteq> LINK_LABEL"
  using label_names_distinct by auto

lemmas label_names_neq_sym [label_simps] = label_names_neq [symmetric]

section \<open>Ownership\<close>

record ownership =
  ow_instance_id :: instance_id
  ow_environment_id :: environment_id
  ow_service :: "logical_name option"
  ow_spec_hash :: string

definition ownership_scope :: "instance_id \<Rightarrow> environment_id \<Rightarrow> labels" where
  "ownership_scope inst eid =
     Mapping.update APPLICATION_LABEL eid
       (Mapping.update INSTANCE_LABEL inst
         (Mapping.update MANAGED_LABEL ''true'' Mapping.empty))"

definition ownership_labels :: "ownership \<Rightarrow> labels" where
  "ownership_labels o' =
     (let labels = ownership_scope (ow_instance_id o') (ow_environment_id o');
          labels = Mapping.update SPEC_HASH_LABEL (ow_spec_hash o') labels
      in case ow_service o' of
           None \<Rightarrow> labels
         | Some service \<Rightarrow> Mapping.update SERVICE_LABEL service labels)"

definition managed_hash_invalid :: "labels \<Rightarrow> bool" where
  "managed_hash_invalid labels \<longleftrightarrow>
     Mapping.lookup labels MANAGED_LABEL \<noteq> Some ''true''
     \<or> (case Mapping.lookup labels SPEC_HASH_LABEL of
          None \<Rightarrow> True | Some hash \<Rightarrow> \<not> valid_sha256 hash)"

definition labelled_environment :: "labels \<Rightarrow> environment_id option" where
  "labelled_environment labels =
     (if managed_hash_invalid labels then None
      else case Option.bind (Mapping.lookup labels INSTANCE_LABEL) parse_instance_id of
          None \<Rightarrow> None
        | Some _ \<Rightarrow> Option.bind (Mapping.lookup labels APPLICATION_LABEL) parse_environment_id)"

datatype ownership_state = Owned | Foreign | Invalid

definition from_labels :: "labels \<Rightarrow> instance_id \<Rightarrow> environment_id \<Rightarrow> ownership_state" where
  "from_labels labels inst application =
     (if managed_hash_invalid labels then Invalid
      else if Mapping.lookup labels INSTANCE_LABEL \<noteq> Some inst
         \<or> Mapping.lookup labels APPLICATION_LABEL \<noteq> Some application then Foreign
      else Owned)"

definition has_label :: "labels \<Rightarrow> string \<Rightarrow> bool" where
  "has_label labels key \<longleftrightarrow> Mapping.lookup labels key \<noteq> None"

definition valid_role ::
    "(string \<Rightarrow> string) \<Rightarrow> labels \<Rightarrow> environment_id \<Rightarrow> resource_kind \<Rightarrow> string \<Rightarrow> bool" where
  "valid_role sha labels application kind name =
     (case kind of
        Service \<Rightarrow>
          (case Mapping.lookup labels SERVICE_LABEL of
             None \<Rightarrow> False
           | Some service \<Rightarrow> parse_logical_name service \<noteq> None
               \<and> name = docker_resource_name sha application kind (Some service))
      | Network \<Rightarrow> \<not> has_label labels SERVICE_LABEL
          \<and> (case parse_logical_name name of
               None \<Rightarrow> False | Some name \<Rightarrow> is_canonical sha name application labels)
      | Volume \<Rightarrow> \<not> has_label labels SERVICE_LABEL
      | File \<Rightarrow> \<not> has_label labels SERVICE_LABEL
      | Job \<Rightarrow> \<not> has_label labels SERVICE_LABEL
          \<and> (case Mapping.lookup labels JOB_LABEL of
               None \<Rightarrow> False
             | Some job \<Rightarrow> parse_logical_name job \<noteq> None
                 \<and> name = docker_resource_name sha application kind (Some job)))"

definition for_resource ::
    "(string \<Rightarrow> string) \<Rightarrow> labels \<Rightarrow> instance_id \<Rightarrow> environment_id \<Rightarrow> resource_kind \<Rightarrow> string
     \<Rightarrow> ownership_state" where
  "for_resource sha labels inst application kind name =
     (let shared = from_labels labels inst application in
      if shared \<noteq> Owned then shared
      else if valid_role sha labels application kind name then Owned else Invalid)"

text \<open>Labels of the code are read back as the owner that wrote them, and no other.\<close>

lemma lookup_ownership_scope [label_simps]:
  "Mapping.lookup (ownership_scope inst eid) k =
     (if k = APPLICATION_LABEL then Some eid else if k = INSTANCE_LABEL then Some inst
      else if k = MANAGED_LABEL then Some ''true'' else None)"
  by (simp add: ownership_scope_def lookup_update_if)

lemma lookup_ownership_labels [label_simps]:
  "Mapping.lookup (ownership_labels o') k =
     (if k = SERVICE_LABEL then ow_service o' else if k = SPEC_HASH_LABEL then Some (ow_spec_hash o')
      else if k = APPLICATION_LABEL then Some (ow_environment_id o')
      else if k = INSTANCE_LABEL then Some (ow_instance_id o')
      else if k = MANAGED_LABEL then Some ''true'' else None)"
  by (auto simp: ownership_labels_def Let_def label_simps split: option.splits)

lemma ownership_labels_managed:
  "managed_hash_invalid (ownership_labels o') \<longleftrightarrow> \<not> valid_sha256 (ow_spec_hash o')"
  by (simp add: managed_hash_invalid_def label_simps)

lemma from_ownership_labels:
  assumes "valid_sha256 (ow_spec_hash o')"
  shows "from_labels (ownership_labels o') inst eid =
    (if inst = ow_instance_id o' \<and> eid = ow_environment_id o' then Owned else Foreign)"
  using assms by (simp add: from_labels_def ownership_labels_managed label_simps)

lemma labelled_environment_labels:
  assumes "valid_sha256 (ow_spec_hash o')" and "valid_instance_id (ow_instance_id o')"
    and "valid_id (ow_environment_id o')"
  shows "labelled_environment (ownership_labels o') = Some (ow_environment_id o')"
  using assms
  by (simp add: labelled_environment_def ownership_labels_managed label_simps
      parse_instance_id_def parse_environment_id_def validated_parse_def)

lemma for_resource_owned:
  "for_resource sha labels inst eid kind name = Owned \<longleftrightarrow>
     from_labels labels inst eid = Owned \<and> valid_role sha labels eid kind name"
  by (simp add: for_resource_def Let_def)

text \<open>At most one environment of one instance owns a resource.\<close>

lemma from_labels_unique:
  "from_labels labels inst eid = Owned \<Longrightarrow> from_labels labels inst' eid' = Owned \<Longrightarrow> inst = inst' \<and> eid = eid'"
  by (auto simp: from_labels_def split: if_splits)

section \<open>Properties\<close>

text \<open>C32: A service created with the labels and the name piqueld derives for it is recognized as owned
  by its own instance and environment, and as foreign by every other one; without a valid spec
  hash or the managed marker a resource is never owned, whatever its name and kind.\<close>

theorem labels_identify_the_owner:
  assumes "valid_sha256 hash" and "valid_logical_name service"
  shows "for_resource sha
      (ownership_labels \<lparr>ow_instance_id = inst, ow_environment_id = eid, ow_service = Some service,
        ow_spec_hash = hash\<rparr>)
      inst' eid' Service (service_name_for sha eid service)
    = (if inst' = inst \<and> eid' = eid then Owned else Foreign)
    \<and> (for_resource sha labels inst' eid' kind name = Owned \<longrightarrow>
        Mapping.lookup labels MANAGED_LABEL = Some ''true''
        \<and> (\<exists>h. Mapping.lookup labels SPEC_HASH_LABEL = Some h \<and> valid_sha256 h))"
proof
  let ?o = "\<lparr>ow_instance_id = inst, ow_environment_id = eid, ow_service = Some service, ow_spec_hash = hash\<rparr>"
  have "valid_role sha (ownership_labels ?o) eid Service (service_name_for sha eid service)"
    using assms(2) by (simp add: valid_role_def label_simps service_name_for_def
        parse_logical_name_def validated_parse_def)
  then show "for_resource sha (ownership_labels ?o) inst' eid' Service (service_name_for sha eid service)
    = (if inst' = inst \<and> eid' = eid then Owned else Foreign)"
    using from_ownership_labels [of ?o inst' eid'] assms(1) by (auto simp: for_resource_def Let_def)
  show "for_resource sha labels inst' eid' kind name = Owned \<longrightarrow>
        Mapping.lookup labels MANAGED_LABEL = Some ''true''
        \<and> (\<exists>h. Mapping.lookup labels SPEC_HASH_LABEL = Some h \<and> valid_sha256 h)"
    by (auto simp: for_resource_owned from_labels_def managed_hash_invalid_def
        split: if_splits option.splits)
qed

definition example_hash :: string where
  "example_hash = ''sha256:'' @ replicate 64 (CHR ''0'')"

lemma example_hash_valid: "valid_sha256 example_hash"
  by (simp add: valid_sha256_def example_hash_def list_all_iff is_hex_digit_def ascii_defs less_eq_char_def)

lemma example_name_valid: "valid_logical_name ''web''"
  by (simp add: valid_logical_name_def is_lowercase_label_def is_label_def suffix_hyphen_iff
      dns_label_def ascii_defs less_eq_char_def)

theorem labels_identify_the_owner_witness:
  "for_resource (\<lambda>_. replicate 64 (CHR ''a''))
      (ownership_labels \<lparr>ow_instance_id = ''main'', ow_environment_id = ''env-0001'',
        ow_service = Some ''web'', ow_spec_hash = example_hash\<rparr>)
      ''main'' ''env-0002'' Service (service_name_for (\<lambda>_. replicate 64 (CHR ''a'')) ''env-0001'' ''web'')
    = Foreign"
  by (simp add: labels_identify_the_owner [OF example_hash_valid example_name_valid])

end
