(* ===== verification/Dependencies.thy ===== *)
theory Dependencies
  imports Prelude
begin

text \<open>
  Startup ordering between the services of one application:
  \<open>crates/piqueld-core/src/manifest/dependencies.rs\<close>.

  The trait \<open>Dependent\<close> is the pair of arguments \<open>name\<close> and \<open>deps\<close>. \<open>dependencies_of\<close> is the
  loop over the stack \<open>pending\<close> (\<open>pop\<close> takes the last element), \<open>startup_order\<close> the repeated
  \<open>retain\<close> passes. Both loops are total, with explicit measures.

  What clients rely on is the locale \<open>service_order\<close>, interpreted at the end on \<open>startup_order\<close>.
\<close>

section \<open>Transitive dependencies\<close>

definition find_service :: "('a \<Rightarrow> string) \<Rightarrow> 'a list \<Rightarrow> string \<Rightarrow> 'a option" where
  "find_service name services n = List.find (\<lambda>service. name service = n) services"

lemma find_service_mem: "find_service name services n = Some s \<Longrightarrow> s \<in> set services \<and> name s = n"
  unfolding find_service_def by (rule find_mem)

function (sequential) dependencies_loop ::
    "('a \<Rightarrow> string) \<Rightarrow> ('a \<Rightarrow> string list) \<Rightarrow> 'a list \<Rightarrow> string list \<Rightarrow> string set \<Rightarrow> string set" where
  "dependencies_loop name deps services pending dependencies =
     (if pending = [] then dependencies
      else
        let n = last pending; pending = butlast pending in
        if n \<in> dependencies then dependencies_loop name deps services pending dependencies
        else case find_service name services n of
            Some service \<Rightarrow>
              dependencies_loop name deps services (pending @ deps service) (insert n dependencies)
          | None \<Rightarrow> dependencies_loop name deps services pending (insert n dependencies))"
  by pat_completeness auto

text \<open>Names that may still be visited.\<close>

definition universe :: "('a \<Rightarrow> string list) \<Rightarrow> 'a list \<Rightarrow> string list \<Rightarrow> string set" where
  "universe deps services pending = set pending \<union> (\<Union>s \<in> set services. set (deps s))"

lemma finite_universe [simp]: "finite (universe deps services pending)"
  by (simp add: universe_def)

lemma universe_step:
  assumes "pending \<noteq> []" and "set new \<subseteq> set (butlast pending) \<union> (\<Union>s \<in> set services. set (deps s))"
  shows "universe deps services new \<subseteq> universe deps services pending"
    and "last pending \<in> universe deps services pending"
  using assms by (auto simp: universe_def dest: in_set_butlastD)

lemma universe_shrinks:
  assumes "pending \<noteq> []" and "last pending \<notin> D"
    and "set new \<subseteq> set (butlast pending) \<union> (\<Union>s \<in> set services. set (deps s))"
  shows "card (universe deps services new - insert (last pending) D)
    < card (universe deps services pending - D)"
proof (rule psubset_card_mono)
  show "universe deps services new - insert (last pending) D \<subset> universe deps services pending - D"
    using universe_step [OF assms(1,3)] assms(2) by blast
qed simp

termination dependencies_loop
proof (relation "measures [\<lambda>(name, deps, services, pending, D). card (universe deps services pending - D),
    \<lambda>(name, deps, services, pending, D). length pending]")
  fix name :: "'a \<Rightarrow> string" and deps and services :: "'a list" and pending :: "string list"
    and D :: "string set" and n p
  assume ne: "pending \<noteq> []" and n: "n = last pending" and p: "p = butlast pending"
  { assume "n \<in> D"
    have "card (universe deps services p - D) \<le> card (universe deps services pending - D)"
      using universe_step(1) [OF ne, where new = p and services = services and deps = deps] p by (intro card_mono) auto
    with ne p show "((name, deps, services, p, D), (name, deps, services, pending, D))
        \<in> measures [\<lambda>(name, deps, services, pending, D). card (universe deps services pending - D),
          \<lambda>(name, deps, services, pending, D). length pending]"
      by auto }
  { assume "n \<notin> D"
    with ne n p show "((name, deps, services, p, insert n D), (name, deps, services, pending, D))
        \<in> measures [\<lambda>(name, deps, services, pending, D). card (universe deps services pending - D),
          \<lambda>(name, deps, services, pending, D). length pending]"
      using universe_shrinks [where pending = pending and D = D and new = p
          and services = services and deps = deps] by simp }
  { fix s assume "n \<notin> D" and "find_service name services n = Some s"
    with ne n p show "((name, deps, services, p @ deps s, insert n D), (name, deps, services, pending, D))
        \<in> measures [\<lambda>(name, deps, services, pending, D). card (universe deps services pending - D),
          \<lambda>(name, deps, services, pending, D). length pending]"
      using universe_shrinks [where pending = pending and D = D and new = "p @ deps s"
          and services = services and deps = deps] find_service_mem by force }
qed simp

declare dependencies_loop.simps [simp del]

definition dependencies_of ::
    "('a \<Rightarrow> string) \<Rightarrow> ('a \<Rightarrow> string list) \<Rightarrow> 'a list \<Rightarrow> string \<Rightarrow> string set" where
  "dependencies_of name deps services n =
     dependencies_loop name deps services
       (case find_service name services n of None \<Rightarrow> [] | Some service \<Rightarrow> deps service) {}"

text \<open>The direct dependency relation between names: the first service of a name counts.\<close>

definition depends ::
    "('a \<Rightarrow> string) \<Rightarrow> ('a \<Rightarrow> string list) \<Rightarrow> 'a list \<Rightarrow> (string \<times> string) set" where
  "depends name deps services =
     {(a, b). \<exists>s. find_service name services a = Some s \<and> b \<in> set (deps s)}"

lemma depends_Image:
  "depends name deps services `` {n} =
     (case find_service name services n of None \<Rightarrow> {} | Some s \<Rightarrow> set (deps s))"
  by (auto simp: depends_def split: option.splits)

lemma dependencies_loop_reach:
  assumes "depends name deps services `` D \<subseteq> D \<union> set pending"
  shows "dependencies_loop name deps services pending D
    = D \<union> (depends name deps services)\<^sup>* `` set pending"
  using assms
proof (induction name deps services pending D rule: dependencies_loop.induct)
  case (1 name deps services pending D)
  let ?r = "depends name deps services"
  show ?case
  proof (cases "pending = []")
    case True
    then show ?thesis by (simp add: dependencies_loop.simps)
  next
    case False
    define n p where "n = last pending" and "p = butlast pending"
    have pending: "pending = p @ [n]" using False by (simp add: n_def p_def)
    have closed: "?r\<^sup>* `` A \<subseteq> A \<union> B" if "?r `` (A \<union> B) \<subseteq> A \<union> B" for A B
      using Image_closed_trancl [OF that] by auto
    have unfold: "?r\<^sup>* `` {n} = insert n (?r\<^sup>* `` (?r `` {n}))"
      by (auto elim: converse_rtranclE intro: converse_rtrancl_into_rtrancl)
    show ?thesis
    proof (cases "n \<in> D")
      case True
      then have sub: "?r `` D \<subseteq> D \<union> set p" using "1.prems" by (auto simp: pending)
      have "?r\<^sup>* `` {n} \<subseteq> D \<union> ?r\<^sup>* `` set p"
      proof -
        have "?r `` (?r\<^sup>* `` set p) \<subseteq> ?r\<^sup>* `` set p"
          by (auto intro: rtrancl_into_rtrancl)
        moreover have "set p \<subseteq> ?r\<^sup>* `` set p" by auto
        ultimately have "?r `` (D \<union> ?r\<^sup>* `` set p) \<subseteq> D \<union> ?r\<^sup>* `` set p"
          using sub by (simp add: Image_Un) blast
        from Image_closed_trancl [OF this] True show ?thesis by auto
      qed
      moreover have "dependencies_loop name deps services pending D
          = dependencies_loop name deps services p D"
        using False True by (subst dependencies_loop.simps) (simp add: n_def p_def)
      moreover have "dependencies_loop name deps services p D = D \<union> ?r\<^sup>* `` set p"
        using "1.IH"(1) [OF False n_def p_def True] sub by simp
      ultimately show ?thesis by (auto simp: pending)
    next
      case nD: False
      define new where "new = (case find_service name services n of None \<Rightarrow> p | Some s \<Rightarrow> p @ deps s)"
      have setnew: "set new = set p \<union> ?r `` {n}"
        by (auto simp: new_def depends_Image split: option.splits)
      have sub: "?r `` insert n D \<subseteq> insert n D \<union> set new"
        using "1.prems" setnew by (auto simp: pending)
      have "dependencies_loop name deps services pending D
          = dependencies_loop name deps services new (insert n D)"
        using False nD by (subst dependencies_loop.simps)
          (simp add: n_def [symmetric] p_def [symmetric] new_def split: option.splits)
      moreover have "dependencies_loop name deps services new (insert n D)
          = insert n D \<union> ?r\<^sup>* `` set new"
      proof (cases "find_service name services n")
        case None
        then show ?thesis
          using "1.IH"(2) [OF False n_def p_def nD None] sub by (simp add: new_def)
      next
        case (Some s)
        then show ?thesis
          using "1.IH"(3) [OF False n_def p_def nD Some] sub by (simp add: new_def)
      qed
      moreover have "?r\<^sup>* `` set pending = ?r\<^sup>* `` set p \<union> ?r\<^sup>* `` {n}"
        by (auto simp: pending)
      ultimately show ?thesis
        by (simp only: setnew Image_Un unfold) auto
    qed
  qed
qed

lemma dependencies_of_trancl:
  "dependencies_of name deps services n = (depends name deps services)\<^sup>+ `` {n}"
proof -
  have "set (case find_service name services n of None \<Rightarrow> [] | Some s \<Rightarrow> deps s)
      = depends name deps services `` {n}"
    by (auto simp: depends_Image split: option.splits)
  then show ?thesis
    by (simp add: dependencies_of_def dependencies_loop_reach trancl_unfold_left relcomp_Image)
qed

section \<open>Startup order\<close>

definition ready :: "('a \<Rightarrow> string list) \<Rightarrow> string set \<Rightarrow> string set \<Rightarrow> 'a \<Rightarrow> bool" where
  "ready deps known started service \<longleftrightarrow>
     list_all (\<lambda>dependency. dependency \<in> started \<or> dependency \<notin> known) (deps service)"

text \<open>One \<open>pending.retain\<close>: the services started and ordered by it, and those kept pending.\<close>

fun startup_pass ::
    "('a \<Rightarrow> string) \<Rightarrow> ('a \<Rightarrow> string list) \<Rightarrow> string set \<Rightarrow> string set \<Rightarrow> 'a list \<Rightarrow> 'a list
     \<Rightarrow> string set \<times> 'a list \<times> 'a list" where
  "startup_pass name deps known started ordered [] = (started, ordered, [])"
| "startup_pass name deps known started ordered (service # pending) =
     (if ready deps known started service
      then startup_pass name deps known (insert (name service) started) (ordered @ [service]) pending
      else
        let (started, ordered, kept) = startup_pass name deps known started ordered pending
        in (started, ordered, service # kept))"

lemma startup_pass_length:
  "length (snd (snd (startup_pass name deps known started ordered pending))) \<le> length pending"
  by (induction pending arbitrary: started ordered) (auto simp: Let_def case_prod_beta le_SucI)

function startup_loop ::
    "('a \<Rightarrow> string) \<Rightarrow> ('a \<Rightarrow> string list) \<Rightarrow> string set \<Rightarrow> string set \<Rightarrow> 'a list \<Rightarrow> 'a list
     \<Rightarrow> 'a list \<times> 'a list" where
  "startup_loop name deps known started ordered pending =
     (case startup_pass name deps known started ordered pending of
        (started', ordered', pending') \<Rightarrow>
          if length pending' = length pending then (ordered', pending')
          else startup_loop name deps known started' ordered' pending')"
  by pat_completeness auto

termination startup_loop
proof (relation "measure (\<lambda>(name, deps, known, started, ordered, pending). length pending)")
  fix name :: "'a \<Rightarrow> string" and deps known started ordered and pending :: "'a list"
    and st' y o' p'
  assume "(st', y) = startup_pass name deps known started ordered pending"
    and "(o', p') = y" and "length p' \<noteq> length pending"
  then show "((name, deps, known, st', o', p'), (name, deps, known, started, ordered, pending))
      \<in> measure (\<lambda>(name, deps, known, started, ordered, pending). length pending)"
    using startup_pass_length [of name deps known started ordered pending]
    by (metis (no_types, lifting) case_prod_conv in_measure le_neq_implies_less snd_conv)
qed simp

declare startup_loop.simps [simp del]

definition startup_order ::
    "('a \<Rightarrow> string) \<Rightarrow> ('a \<Rightarrow> string list) \<Rightarrow> 'a list \<Rightarrow> 'a list \<times> 'a list" where
  "startup_order name deps services =
     startup_loop name deps (set (map name services)) {} [] services"

text \<open>The order of a list of started services, given what was started before it.\<close>

fun ordered_after :: "('a \<Rightarrow> string) \<Rightarrow> ('a \<Rightarrow> string list) \<Rightarrow> string set \<Rightarrow> string set \<Rightarrow> 'a list \<Rightarrow> bool" where
  "ordered_after name deps known before [] \<longleftrightarrow> True"
| "ordered_after name deps known before (s # ss) \<longleftrightarrow>
     ready deps known before s \<and> ordered_after name deps known (insert (name s) before) ss"

lemma ready_mono: "ready deps known a s \<Longrightarrow> a \<subseteq> b \<Longrightarrow> ready deps known b s"
  by (auto simp: ready_def list_all_iff)

lemma ordered_after_snoc:
  "ordered_after name deps known before (ss @ [s]) \<longleftrightarrow>
     ordered_after name deps known before ss \<and> ready deps known (before \<union> name ` set ss) s"
  by (induction ss arbitrary: before) (auto simp: Un_commute insert_commute)

lemma startup_pass_spec:
  assumes "startup_pass name deps known started ordered pending = (started', ordered', pending')"
    and "ordered_after name deps known {} ordered" and "started = name ` set ordered"
  shows "mset ordered' + mset pending' = mset ordered + mset pending"
    and "ordered_after name deps known {} ordered'" and "started' = name ` set ordered'"
    and "prefix ordered ordered'" and "subseq pending' pending"
    and "length pending' = length pending \<Longrightarrow> pending' = pending \<and> ordered' = ordered
      \<and> (\<forall>s\<in>set pending. \<not> ready deps known started s)"
proof -
  have "mset ordered' + mset pending' = mset ordered + mset pending
    \<and> ordered_after name deps known {} ordered' \<and> started' = name ` set ordered'
    \<and> prefix ordered ordered' \<and> subseq pending' pending
    \<and> (length pending' = length pending \<longrightarrow> pending' = pending \<and> ordered' = ordered
      \<and> (\<forall>s\<in>set pending. \<not> ready deps known started s))"
    using assms
  proof (induction pending arbitrary: started ordered pending')
    case (Cons s ss)
    show ?case
    proof (cases "ready deps known started s")
      case True
      have "length pending' \<le> length ss"
        using startup_pass_length [of name deps known "insert (name s) started" "ordered @ [s]" ss]
          Cons.prems(1) True by simp
      with True Cons.prems Cons.IH [of "insert (name s) started" "ordered @ [s]" pending']
      show ?thesis
        by (auto simp: ordered_after_snoc ac_simps dest: append_prefixD)
    next
      case False
      then obtain p where p: "startup_pass name deps known started ordered ss = (started', ordered', p)"
        and "pending' = s # p"
        using Cons.prems(1) by (auto simp: Let_def split: prod.splits)
      with False Cons.prems(2,3) Cons.IH [OF p] show ?thesis by auto
    qed
  qed simp
  then show "mset ordered' + mset pending' = mset ordered + mset pending"
    and "ordered_after name deps known {} ordered'" and "started' = name ` set ordered'"
    and "prefix ordered ordered'" and "subseq pending' pending"
    and "length pending' = length pending \<Longrightarrow> pending' = pending \<and> ordered' = ordered
      \<and> (\<forall>s\<in>set pending. \<not> ready deps known started s)"
    by blast+
qed

lemma startup_loop_spec:
  assumes "startup_loop name deps known started ordered pending = (ordered', pending')"
    and "ordered_after name deps known {} ordered" and "started = name ` set ordered"
  shows "mset ordered' + mset pending' = mset ordered + mset pending
    \<and> ordered_after name deps known {} ordered' \<and> subseq pending' pending
    \<and> (\<forall>s\<in>set pending'. \<not> ready deps known (name ` set ordered') s)"
  using assms
proof (induction name deps known started ordered pending rule: startup_loop.induct)
  case (1 name deps known started ordered pending)
  obtain st o' p where pass: "startup_pass name deps known started ordered pending = (st, o', p)"
    using prod_cases3 by blast
  note spec = startup_pass_spec [OF pass "1.prems"(2,3)]
  show ?case
  proof (cases "length p = length pending")
    case True
    with "1.prems"(1) pass have "ordered' = o'" "pending' = p"
      by (simp_all add: startup_loop.simps)
    with spec(6) [OF True] "1.prems"(2,3) show ?thesis by simp
  next
    case False
    with "1.prems"(1) pass have "startup_loop name deps known st o' p = (ordered', pending')"
      by (simp add: startup_loop.simps [of _ _ _ started])
    from "1.IH" [OF pass [symmetric] refl False this spec(2,3)] spec(1,5)
    show ?thesis by (metis subseq_order.trans)
  qed
qed

lemma startup_order_spec:
  assumes "startup_order name deps services = (ordered, pending)"
  shows "mset ordered + mset pending = mset services"
    and "ordered_after name deps (name ` set services) {} ordered"
    and "subseq pending services"
    and "\<forall>s\<in>set pending. \<not> ready deps (name ` set services) (name ` set ordered) s"
  using startup_loop_spec [OF assms [unfolded startup_order_def]] by simp_all

section \<open>What clients rely on\<close>

text \<open>
  The contract of \<open>StartupOrder::startup_order\<close>: the two lists are the services, the first one
  starts every service after the known services it depends on, and every service of the second
  one waits for a known service that is not in the first.
\<close>

locale service_order =
  fixes name :: "'s \<Rightarrow> string"
    and deps :: "'s \<Rightarrow> string list"
    and order :: "'s list \<Rightarrow> 's list \<times> 's list"
  assumes order_mset: "order services = (a, b) \<Longrightarrow> mset a + mset b = mset services"
    and order_after: "order services = (a, b) \<Longrightarrow> ordered_after name deps (name ` set services) {} a"
    and order_stuck: "order services = (a, b) \<Longrightarrow> s \<in> set b \<Longrightarrow>
      \<not> ready deps (name ` set services) (name ` set a) s"
begin

lemma sequence_mset: "mset (fst (order services) @ snd (order services)) = mset services"
  using order_mset [of services "fst (order services)" "snd (order services)"] by simp

lemma sequence_set: "set (fst (order services)) \<union> set (snd (order services)) = set services"
  using sequence_mset [of services] by (metis set_append set_mset_mset)

lemma sequence_distinct:
  assumes "distinct (map f services)"
  shows "distinct (map f (fst (order services) @ snd (order services)))"
  using assms sequence_mset [of services] by (metis mset_eq_imp_distinct_iff mset_map)

lemma ordered_after_at:
  "ordered_after name deps known before (pre @ s # post) \<Longrightarrow> ready deps known (before \<union> name ` set pre) s"
proof (induction pre arbitrary: before)
  case (Cons x pre)
  then have "ordered_after name deps known (insert (name x) before) (pre @ s # post)" by simp
  from Cons.IH [OF this] show ?case by simp
qed simp

text \<open>A service of the first list follows its dependencies.\<close>

lemma dependency_before:
  assumes "fst (order services) = pre @ s # post" and "d \<in> set (deps s)" and "d \<in> name ` set services"
  shows "d \<in> name ` set pre"
proof -
  have "ordered_after name deps (name ` set services) {} (pre @ s # post)"
    using order_after [of services "pre @ s # post" "snd (order services)"] assms(1)
    by (metis prod.collapse)
  from ordered_after_at [OF this] assms(2,3) show ?thesis
    by (auto simp: ready_def list_all_iff)
qed

text \<open>Without a cycle nothing is left behind.\<close>

lemma acyclic_complete:
  assumes "distinct (map name services)" and "acyclic (depends name deps services)"
  shows "snd (order services) = []"
proof (rule ccontr)
  let ?r = "depends name deps services" and ?b = "snd (order services)"
  assume "?b \<noteq> []"
  then obtain x where x: "x \<in> name ` set ?b" by fastforce
  have first: "find_service name services (name s) = Some s" if "s \<in> set services" for s
    unfolding find_service_def using that assms(1)
    by (induction services) (auto simp: image_iff)
  have "finite ?r"
  proof (rule finite_subset)
    show "?r \<subseteq> name ` set services \<times> universe deps services []"
      using find_service_mem by (fastforce simp: depends_def universe_def)
  qed simp
  with assms(2) have "wf (?r\<inverse>)" by (simp add: finite_acyclic_wf_converse)
  then obtain z where z: "z \<in> name ` set ?b" "\<And>y. (y, z) \<in> ?r\<inverse> \<Longrightarrow> y \<notin> name ` set ?b"
    using x by (rule wfE_min) blast
  then obtain s where s: "s \<in> set ?b" "z = name s" by auto
  then have "\<not> ready deps (name ` set services) (name ` set (fst (order services))) s"
    by (intro order_stuck [of services _ ?b]) simp_all
  then obtain d where d: "d \<in> set (deps s)" "d \<in> name ` set services"
    "d \<notin> name ` set (fst (order services))"
    by (auto simp: ready_def list_all_iff)
  then have "d \<in> name ` set ?b" using sequence_set [of services] by auto
  moreover have "(d, z) \<in> ?r\<inverse>"
    using first [of s] s d(1) sequence_set [of services] by (auto simp: depends_def)
  ultimately show False using z(2) by blast
qed

end

interpretation startup: service_order name deps "startup_order name deps" for name deps
proof unfold_locales
  fix name :: "'a \<Rightarrow> string" and deps and services a b :: "'a list" and s
  assume o: "startup_order name deps services = (a, b)"
  show "mset a + mset b = mset services" by (rule startup_order_spec(1) [OF o])
  show "ordered_after name deps (name ` set services) {} a" by (rule startup_order_spec(2) [OF o])
  assume "s \<in> set b"
  then show "\<not> ready deps (name ` set services) (name ` set a) s"
    using startup_order_spec(4) [OF o] by blast
qed

section \<open>Properties\<close>

text \<open>\<open>dependencies_of\<close> returns exactly the direct and transitive dependencies of a service,
  and it returns for every input, cycles included.\<close>

theorem dependencies_are_transitive_closure:
  "dependencies_of name deps services n = (depends name deps services)\<^sup>+ `` {n}"
  by (rule dependencies_of_trancl)

text \<open>The startup order loses and repeats no service, starts each service only after every
  known service it depends on, and leaves nothing behind when names are distinct and the
  dependencies have no cycle.\<close>

theorem startup_order_respects_dependencies:
  assumes "startup_order name deps services = (ordered, pending)"
  shows "mset ordered + mset pending = mset services
    \<and> (ordered = pre @ s # post \<longrightarrow> set (deps s) \<inter> name ` set services \<subseteq> name ` set pre)
    \<and> (distinct (map name services) \<and> acyclic (depends name deps services) \<longrightarrow> pending = [])"
  using assms startup.order_mset startup.dependency_before [of name deps services pre s post]
    startup.acyclic_complete [of name services deps]
  by auto

theorem startup_order_respects_dependencies_witness:
  "startup_order fst snd [(''web'', [''db'']), (''db'', []), (''a'', [''b'']), (''b'', [''a''])]
     = ([(''db'', []), (''web'', [''db''])], [(''a'', [''b'']), (''b'', [''a''])])
   \<and> set [''db''] \<inter> fst ` set [(''web'', [''db'']), (''db'', []), (''a'', [''b'']), (''b'', [''a''])]
      \<subseteq> fst ` set [(''db'', [] :: string list)]"
proof -
  have e: "startup_order fst snd [(''web'', [''db'']), (''db'', []), (''a'', [''b'']), (''b'', [''a''])]
     = ([(''db'', []), (''web'', [''db''])], [(''a'', [''b'']), (''b'', [''a''])])"
    by (simp add: startup_order_def startup_loop.simps ready_def)
  from startup_order_respects_dependencies [OF e, where pre = "[(''db'', [])]" and s = "(''web'', [''db''])" and post = "[]"] e
  show ?thesis by simp
qed

end
