(* ===== verification/Links.thy ===== *)
theory Links
  imports Access Domain
begin

text \<open>
  Private links between environments: \<open>crates/piqueld-core/src/links.rs\<close>.

  A \<open>BTreeMap\<close> is a \<open>mapping\<close>; \<open>into_values\<close> reads it in key order (\<open>values_in_order\<close>). The state
  of the loop of \<open>links\<close> is the pair of its two maps: the links by importer and exporter, and the
  number of importers of each exporter.
\<close>

definition MAX_IMPORTERS :: nat where "MAX_IMPORTERS = 64"

type_synonym bindings = "(logical_name, application_id) mapping"

record link_party =
  lp_environment :: environment_id
  lp_application_id :: application_id
  lp_application :: logical_name
  lp_name :: string
  lp_preview :: bool
  lp_exports :: "validated_export list"
  lp_imports :: "validated_import list"
  lp_bindings :: bindings

record link =
  lk_importer :: environment_id
  lk_exporter :: environment_id
  lk_exporter_application :: logical_name
  lk_services :: "logical_name set"

section \<open>Binding names to applications\<close>

definition map_values_set :: "('k, 'v) mapping \<Rightarrow> 'v set" where
  "map_values_set m = (\<lambda>k. the (Mapping.lookup m k)) ` Mapping.keys m"

definition bind_name :: "bindings \<Rightarrow> bindings \<Rightarrow> logical_name \<Rightarrow> application_id option" where
  "bind_name previous applications name =
     (case Mapping.lookup previous name of
        Some i \<Rightarrow>
          if i \<in> map_values_set applications then Some i else Mapping.lookup applications name
      | None \<Rightarrow> Mapping.lookup applications name)"

definition bind_names ::
    "validated_export list \<Rightarrow> validated_import list \<Rightarrow> bindings \<Rightarrow> bindings \<Rightarrow> bindings" where
  "bind_names exports imports previous applications =
     fold (\<lambda>name m. case bind_name previous applications name of
             None \<Rightarrow> m | Some i \<Rightarrow> Mapping.update name i m)
       (concat (map (\<lambda>e. sorted_list_of_set (ve_applications e)) exports)
        @ map vi_application imports)
       Mapping.empty"

section \<open>Resolving imports\<close>

definition import_target :: "link_party \<Rightarrow> validated_import \<Rightarrow> string" where
  "import_target party i =
     (case vi_environment i of None \<Rightarrow> lp_name party | Some environment \<Rightarrow> environment)"

definition party_names :: "link_party \<Rightarrow> logical_name \<Rightarrow> link_party \<Rightarrow> bool" where
  "party_names party name other =
     (case Mapping.lookup (lp_bindings party) name of
        None \<Rightarrow> name = lp_application other
      | Some i \<Rightarrow> i = lp_application_id other)"

definition exports_to :: "link_party \<Rightarrow> logical_name \<Rightarrow> link_party \<Rightarrow> bool" where
  "exports_to party service importer \<longleftrightarrow>
     list_ex (\<lambda>export. ve_service export = service
         \<and> (\<exists>name \<in> ve_applications export. party_names party name importer)
         \<and> (\<not> lp_preview importer \<or> ve_previews export)) (lp_exports party)"

definition resolve_import ::
    "link_party \<Rightarrow> validated_import \<Rightarrow> link_party list \<Rightarrow> link_party option" where
  "resolve_import self i parties =
     List.find (\<lambda>party. \<not> lp_preview party
         \<and> party_names self (vi_application i) party
         \<and> lp_name party = import_target self i
         \<and> lp_environment party \<noteq> lp_environment self
         \<and> exports_to party (vi_service i) self) parties"

section \<open>All links\<close>

type_synonym link_map = "(environment_id \<times> environment_id, link) mapping"

definition values_in_order :: "('k::linorder, 'v) mapping \<Rightarrow> 'v list" where
  "values_in_order m = map (\<lambda>k. the (Mapping.lookup m k)) (Mapping.ordered_keys m)"

text \<open>\<open>entry(key).or_insert_with(...).services.insert(service)\<close>\<close>

definition add_link_service :: "link_party \<Rightarrow> link_party \<Rightarrow> logical_name \<Rightarrow> link_map \<Rightarrow> link_map" where
  "add_link_service importer exporter service links =
     (let key = (lp_environment importer, lp_environment exporter);
          entry = (case Mapping.lookup links key of
              Some l \<Rightarrow> l
            | None \<Rightarrow> \<lparr>lk_importer = lp_environment importer, lk_exporter = lp_environment exporter,
                lk_exporter_application = lp_application exporter, lk_services = {}\<rparr>)
      in Mapping.update key (entry\<lparr>lk_services := insert service (lk_services entry)\<rparr>) links)"

definition link_step ::
    "link_party list \<Rightarrow> link_party \<Rightarrow> validated_import
     \<Rightarrow> link_map \<times> (environment_id, nat) mapping \<Rightarrow> link_map \<times> (environment_id, nat) mapping" where
  "link_step parties importer i st =
     (let (links, importers) = st in
      case resolve_import importer i parties of
        None \<Rightarrow> (links, importers)
      | Some exporter \<Rightarrow>
          if Mapping.lookup links (lp_environment importer, lp_environment exporter) = None then
            let count = Mapping.lookup_default 0 importers (lp_environment exporter) in
            if count = MAX_IMPORTERS
            then (links, Mapping.update (lp_environment exporter) count importers)
            else (add_link_service importer exporter (vi_service i) links,
                  Mapping.update (lp_environment exporter) (count + 1) importers)
          else (add_link_service importer exporter (vi_service i) links, importers))"

definition link_maps :: "link_party list \<Rightarrow> link_map \<times> (environment_id, nat) mapping" where
  "link_maps parties =
     fold (\<lambda>importer st. fold (\<lambda>i st. link_step parties importer i st) (lp_imports importer) st)
       parties (Mapping.empty, Mapping.empty)"

definition links :: "link_party list \<Rightarrow> link list" where
  "links parties = values_in_order (fst (link_maps parties))"

section \<open>Reports\<close>

datatype import_state = Connected | Unavailable | Full

record import_status =
  is_application :: logical_name
  is_service :: logical_name
  is_environment :: string
  is_alias :: string
  is_state :: import_state

text \<open>\<open>Importer\<close> as its fields in declaration order, which \<open>derive(Ord)\<close> compares: application,
  environment, service.\<close>

type_synonym importer = "logical_name \<times> string \<times> logical_name"

record link_report =
  lr_imports :: "import_status list"
  lr_importers :: "importer list"

definition import_status_of ::
    "link_party list \<Rightarrow> link list \<Rightarrow> link_party \<Rightarrow> validated_import \<Rightarrow> import_status" where
  "import_status_of parties ls party i =
     (let exporter = resolve_import party i parties;
          state = (case exporter of
              None \<Rightarrow> Unavailable
            | Some exporter \<Rightarrow>
                if list_ex (\<lambda>link. lk_importer link = lp_environment party
                    \<and> lk_exporter link = lp_environment exporter) ls
                then Connected else Full);
          application = (case exporter of
              None \<Rightarrow> vi_application i | Some exporter \<Rightarrow> lp_application exporter)
      in \<lparr>is_application = application, is_service = vi_service i,
          is_environment = import_target party i,
          is_alias = link_alias (vi_service i) application, is_state = state\<rparr>)"

definition readable_importer ::
    "link_party list \<Rightarrow> scope \<Rightarrow> link \<Rightarrow> (link_party \<times> link) option" where
  "readable_importer parties readable link =
     (case List.find (\<lambda>party. lp_environment party = lk_importer link) parties of
        None \<Rightarrow> None
      | Some importer \<Rightarrow>
          if scope_contains readable (lp_application_id importer) then Some (importer, link) else None)"

definition link_report_of ::
    "environment_id \<Rightarrow> link_party list \<Rightarrow> scope \<Rightarrow> link_report" where
  "link_report_of environment parties readable =
     (case List.find (\<lambda>party. lp_environment party = environment) parties of
        None \<Rightarrow> \<lparr>lr_imports = [], lr_importers = []\<rparr>
      | Some party \<Rightarrow>
          let ls = links parties;
              imports = map (import_status_of parties ls party) (lp_imports party);
              importers = concat (map (\<lambda>(importer, link).
                  map (\<lambda>service. (lp_application importer, lp_name importer, service))
                    (sorted_list_of_set (lk_services link)))
                (List.map_filter (readable_importer parties readable)
                  (filter (\<lambda>link. lk_exporter link = environment) ls)))
          in \<lparr>lr_imports = imports, lr_importers = sort importers\<rparr>)"

section \<open>Invariants of the loop\<close>

text \<open>
  Both sides agree on a service: the importer imports it from the party it resolves to, a
  different environment that is no preview and exports the service to it.
\<close>

definition agreed :: "link_party list \<Rightarrow> environment_id \<Rightarrow> environment_id \<Rightarrow> logical_name \<Rightarrow> bool" where
  "agreed parties i e service \<longleftrightarrow>
     (\<exists>importer \<in> set parties. \<exists>import \<in> set (lp_imports importer). \<exists>exporter \<in> set parties.
        resolve_import importer import parties = Some exporter
        \<and> lp_environment importer = i \<and> lp_environment exporter = e \<and> vi_service import = service)"

definition map_agreed :: "link_party list \<Rightarrow> link_map \<Rightarrow> bool" where
  "map_agreed parties m \<longleftrightarrow>
     (\<forall>i e l. Mapping.lookup m (i, e) = Some l \<longrightarrow>
        lk_importer l = i \<and> lk_exporter l = e \<and> finite (lk_services l) \<and> lk_services l \<noteq> {}
        \<and> (\<forall>s \<in> lk_services l. agreed parties i e s))"

definition map_counted :: "link_map \<Rightarrow> (environment_id, nat) mapping \<Rightarrow> bool" where
  "map_counted m counts \<longleftrightarrow>
     finite (Mapping.keys m)
     \<and> (\<forall>e. Mapping.lookup_default 0 counts e = card {k \<in> Mapping.keys m. snd k = e})
     \<and> (\<forall>e. card {k \<in> Mapping.keys m. snd k = e} \<le> MAX_IMPORTERS)"

lemma resolve_import_facts:
  assumes "resolve_import self i parties = Some p"
  shows "p \<in> set parties" "\<not> lp_preview p" "party_names self (vi_application i) p"
    "lp_name p = import_target self i" "lp_environment p \<noteq> lp_environment self"
    "exports_to p (vi_service i) self"
  using find_mem [OF assms [unfolded resolve_import_def]] by blast+

lemma lookup_add_link_service:
  "Mapping.lookup (add_link_service importer exporter s m) k =
     (if k = (lp_environment importer, lp_environment exporter)
      then Some (case Mapping.lookup m k of
          Some l \<Rightarrow> l\<lparr>lk_services := insert s (lk_services l)\<rparr>
        | None \<Rightarrow> \<lparr>lk_importer = lp_environment importer, lk_exporter = lp_environment exporter,
            lk_exporter_application = lp_application exporter, lk_services = {s}\<rparr>)
      else Mapping.lookup m k)"
  by (auto simp: add_link_service_def Let_def label_simps split: option.splits)

lemma keys_add_link_service:
  "Mapping.keys (add_link_service importer exporter s m) =
     insert (lp_environment importer, lp_environment exporter) (Mapping.keys m)"
  by (auto simp: mapping_keys_iff lookup_add_link_service split: if_splits)

lemma lookup_default_update:
  "Mapping.lookup_default d (Mapping.update k v m) x = (if x = k then v else Mapping.lookup_default d m x)"
  by (simp add: Mapping.lookup_default_def label_simps)

lemma map_agreed_add:
  assumes "map_agreed parties m" and "agreed parties (lp_environment importer) (lp_environment exporter) s"
  shows "map_agreed parties (add_link_service importer exporter s m)"
  using assms unfolding map_agreed_def lookup_add_link_service
  by (auto split: option.splits if_splits)

lemma map_counted_add_old:
  assumes "map_counted m counts"
    and "Mapping.lookup m (lp_environment importer, lp_environment exporter) \<noteq> None"
  shows "map_counted (add_link_service importer exporter s m) counts"
proof -
  have "Mapping.keys (add_link_service importer exporter s m) = Mapping.keys m"
    using assms(2) by (auto simp: keys_add_link_service mapping_keys_iff)
  with assms(1) show ?thesis by (simp add: map_counted_def)
qed

lemma map_counted_add_new:
  fixes importer exporter
  defines "k \<equiv> (lp_environment importer, lp_environment exporter)"
  assumes "map_counted m counts" and "Mapping.lookup m k = None"
    and "Mapping.lookup_default 0 counts (snd k) \<noteq> MAX_IMPORTERS"
  shows "map_counted (add_link_service importer exporter s m)
    (Mapping.update (snd k) (Mapping.lookup_default 0 counts (snd k) + 1) counts)"
proof -
  let ?K = "Mapping.keys m"
  have new: "k \<notin> ?K" using assms(3) by (simp add: mapping_keys_iff)
  have fin: "finite ?K" and cnt: "Mapping.lookup_default 0 counts e = card {x \<in> ?K. snd x = e}"
    and le: "card {x \<in> ?K. snd x = e} \<le> MAX_IMPORTERS" for e
    using assms(2) by (simp_all add: map_counted_def)
  have "{x \<in> insert k ?K. snd x = e} = (if e = snd k then insert k {x \<in> ?K. snd x = e} else {x \<in> ?K. snd x = e})" for e
    by auto
  then have "card {x \<in> insert k ?K. snd x = e} = (if e = snd k then 1 else 0) + card {x \<in> ?K. snd x = e}" for e
    using new fin by simp
  moreover have "Suc (card {x \<in> ?K. snd x = snd k}) \<le> MAX_IMPORTERS"
    using le [of "snd k"] assms(4) by (simp add: cnt Suc_le_eq)
  ultimately show ?thesis
    using fin cnt le by (auto simp: map_counted_def keys_add_link_service lookup_default_update simp flip: k_def)
qed

lemma link_step_keeps:
  assumes "map_agreed parties m" and "map_counted m counts"
    and "importer \<in> set parties" and "i \<in> set (lp_imports importer)"
    and "link_step parties importer i (m, counts) = (m', counts')"
  shows "map_agreed parties m' \<and> map_counted m' counts' \<and> Mapping.keys m \<subseteq> Mapping.keys m'"
proof (cases "resolve_import importer i parties")
  case None
  with assms show ?thesis by (simp add: link_step_def)
next
  case (Some exporter)
  let ?k = "(lp_environment importer, lp_environment exporter)"
  have agreed: "agreed parties (lp_environment importer) (lp_environment exporter) (vi_service i)"
    using assms(3,4) Some resolve_import_facts(1) [OF Some] unfolding agreed_def by blast
  have same: "map_counted m (Mapping.update e n counts)" if "Mapping.lookup_default 0 counts e = n" for e n
    using assms(2) that by (auto simp: map_counted_def lookup_default_update)
  note added = map_agreed_add [OF assms(1) agreed] keys_add_link_service
  show ?thesis
  proof (cases "Mapping.lookup m ?k")
    case (Some l)
    with \<open>resolve_import importer i parties = Some exporter\<close> assms(5)
    have "m' = add_link_service importer exporter (vi_service i) m" "counts' = counts"
      by (auto simp: link_step_def)
    with added map_counted_add_old [OF assms(2), of importer exporter] Some show ?thesis by auto
  next
    case None
    let ?n = "Mapping.lookup_default 0 counts (lp_environment exporter)"
    show ?thesis
    proof (cases "?n = MAX_IMPORTERS")
      case True
      with None \<open>resolve_import importer i parties = Some exporter\<close> assms(5)
      have "m' = m" "counts' = Mapping.update (lp_environment exporter) ?n counts"
        by (auto simp: link_step_def)
      with same [of "lp_environment exporter"] assms(1) show ?thesis by simp
    next
      case False
      with None \<open>resolve_import importer i parties = Some exporter\<close> assms(5)
      have "m' = add_link_service importer exporter (vi_service i) m"
        "counts' = Mapping.update (lp_environment exporter) (?n + 1) counts"
        by (auto simp: link_step_def Let_def)
      with added map_counted_add_new [OF assms(2), of importer exporter] None False
      show ?thesis by auto
    qed
  qed
qed

text \<open>The loop, as one fold over the imports of every party in order.\<close>

definition all_imports :: "link_party list \<Rightarrow> (link_party \<times> validated_import) list" where
  "all_imports parties = concat (map (\<lambda>p. map (Pair p) (lp_imports p)) parties)"

lemma link_maps_fold:
  "link_maps parties = fold (\<lambda>(p, i). link_step parties p i) (all_imports parties) (Mapping.empty, Mapping.empty)"
proof -
  have inner: "fold (\<lambda>i st. link_step all p i st) is st = fold (\<lambda>(p, i). link_step all p i) (map (Pair p) is) st"
    for p "is" all st
    by (induction "is" arbitrary: st) auto
  have "fold (\<lambda>p st. fold (\<lambda>i st. link_step all p i st) (lp_imports p) st) ps st
      = fold (\<lambda>(p, i). link_step all p i) (all_imports ps) st" for all ps st
    by (induction ps arbitrary: st) (simp_all add: all_imports_def inner)
  then show ?thesis unfolding link_maps_def by blast
qed

lemma all_imports_mem: "(p, i) \<in> set (all_imports parties) \<longleftrightarrow> p \<in> set parties \<and> i \<in> set (lp_imports p)"
  by (auto simp: all_imports_def)

lemma link_fold_keeps:
  assumes "map_agreed parties m" and "map_counted m counts"
    and "set pis \<subseteq> set (all_imports parties)"
    and "fold (\<lambda>(p, i). link_step parties p i) pis (m, counts) = (m', counts')"
  shows "map_agreed parties m' \<and> map_counted m' counts' \<and> Mapping.keys m \<subseteq> Mapping.keys m'"
  using assms
proof (induction pis arbitrary: m counts)
  case (Cons pi pis)
  obtain p i where pi: "pi = (p, i)" by (cases pi)
  obtain m1 c1 where st: "link_step parties p i (m, counts) = (m1, c1)" by fastforce
  have "map_agreed parties m1 \<and> map_counted m1 c1 \<and> Mapping.keys m \<subseteq> Mapping.keys m1"
    by (rule link_step_keeps [OF Cons.prems(1,2) _ _ st])
      (use Cons.prems(3) in \<open>simp_all add: pi all_imports_mem\<close>)
  with Cons.IH [of m1 c1] Cons.prems(3,4) st show ?case by (auto simp: pi)
qed auto

lemma link_maps_invariants:
  "map_agreed parties (fst (link_maps parties))"
  "map_counted (fst (link_maps parties)) (snd (link_maps parties))"
proof -
  have "map_agreed parties Mapping.empty" "map_counted (Mapping.empty :: link_map) Mapping.empty"
    by (simp_all add: map_agreed_def map_counted_def Mapping.lookup_default_def)
  from link_fold_keeps [OF this order_refl, of "fst (link_maps parties)" "snd (link_maps parties)"]
  show "map_agreed parties (fst (link_maps parties))"
    "map_counted (fst (link_maps parties)) (snd (link_maps parties))"
    by (simp_all add: link_maps_fold)
qed

text \<open>Every import that resolves is linked, or its exporter is full.\<close>

lemma link_step_links:
  assumes "map_counted m counts" and "resolve_import importer i parties = Some exporter"
    and "link_step parties importer i (m, counts) = (m', counts')"
  shows "(\<exists>l. Mapping.lookup m' (lp_environment importer, lp_environment exporter) = Some l
      \<and> vi_service i \<in> lk_services l)
    \<or> card {k \<in> Mapping.keys m'. snd k = lp_environment exporter} = MAX_IMPORTERS
      \<and> Mapping.lookup m' (lp_environment importer, lp_environment exporter) = None"
  using assms
  by (auto simp: link_step_def Let_def lookup_add_link_service map_counted_def split: if_splits option.splits)

lemma link_step_grows:
  assumes "link_step parties importer i (m, counts) = (m', counts')"
    and "Mapping.lookup m k = Some l"
  shows "\<exists>l'. Mapping.lookup m' k = Some l' \<and> lk_services l \<subseteq> lk_services l'"
  using assms
  by (auto simp: link_step_def Let_def lookup_add_link_service split: if_splits option.splits)

text \<open>The result in terms of the final map.\<close>

lemma set_values_in_order:
  assumes "finite (Mapping.keys m)"
  shows "set (values_in_order m) = {v. \<exists>k. Mapping.lookup m k = Some v}"
proof -
  have "set (values_in_order m) = (\<lambda>k. the (Mapping.lookup m k)) ` Mapping.keys m"
    using assms by (simp add: values_in_order_def)
  also have "\<dots> = {v. \<exists>k. Mapping.lookup m k = Some v}"
    by (force simp: mapping_keys_iff image_iff)
  finally show ?thesis .
qed

lemma links_set: "l \<in> set (links parties) \<longleftrightarrow> (\<exists>k. Mapping.lookup (fst (link_maps parties)) k = Some l)"
  using link_maps_invariants(2) [of parties]
  by (simp add: links_def set_values_in_order map_counted_def)

lemma links_agreed:
  assumes "l \<in> set (links parties)" and "s \<in> lk_services l"
  shows "agreed parties (lk_importer l) (lk_exporter l) s"
proof -
  obtain i e where "Mapping.lookup (fst (link_maps parties)) (i, e) = Some l"
    using assms(1) by (auto simp: links_set)
  with link_maps_invariants(1) assms(2) show ?thesis
    unfolding map_agreed_def by metis
qed

text \<open>One link per pair, in key order.\<close>

lemma links_keys:
  "map (\<lambda>l. (lk_importer l, lk_exporter l)) (links parties) = Mapping.ordered_keys (fst (link_maps parties))"
proof -
  let ?m = "fst (link_maps parties)"
  have "(\<lambda>l. (lk_importer l, lk_exporter l)) (the (Mapping.lookup ?m k)) = k" if "k \<in> Mapping.keys ?m" for k
  proof -
    obtain i e where k: "k = (i, e)" by (cases k)
    with that obtain l where "Mapping.lookup ?m (i, e) = Some l" by (auto simp: mapping_keys_iff)
    with link_maps_invariants(1) [of parties] k show ?thesis by (auto simp: map_agreed_def)
  qed
  then have "map ((\<lambda>l. (lk_importer l, lk_exporter l)) \<circ> (\<lambda>k. the (Mapping.lookup ?m k)))
      (Mapping.ordered_keys ?m) = Mapping.ordered_keys ?m"
    using link_maps_invariants(2) [of parties] by (intro map_idI) (simp add: map_counted_def)
  then show ?thesis by (simp add: links_def values_in_order_def)
qed

lemma links_count:
  "length (filter (\<lambda>l. lk_exporter l = e) (links parties))
   = card {k \<in> Mapping.keys (fst (link_maps parties)). snd k = e}"
proof -
  let ?m = "fst (link_maps parties)"
  have fin: "finite (Mapping.keys ?m)"
    using link_maps_invariants(2) [of parties] by (simp add: map_counted_def)
  have "length (filter (\<lambda>l. lk_exporter l = e) (links parties))
      = length (filter (\<lambda>k. snd k = e) (map (\<lambda>l. (lk_importer l, lk_exporter l)) (links parties)))"
    by (simp add: filter_map o_def)
  also have "\<dots> = card (set (filter (\<lambda>k. snd k = e) (Mapping.ordered_keys ?m)))"
    unfolding links_keys by (rule distinct_card [symmetric]) simp
  finally show ?thesis using fin by simp
qed

lemma links_per_exporter: "length (filter (\<lambda>l. lk_exporter l = e) (links parties)) \<le> MAX_IMPORTERS"
  using link_maps_invariants(2) [of parties] by (simp add: links_count map_counted_def)

lemma link_fold_links:
  assumes "map_agreed parties m" and "map_counted m counts"
    and "set pis \<subseteq> set (all_imports parties)" and "(p, i) \<in> set pis"
    and "resolve_import p i parties = Some exporter"
    and "fold (\<lambda>(p, i). link_step parties p i) pis (m, counts) = (m', counts')"
  shows "(\<exists>l. Mapping.lookup m' (lp_environment p, lp_environment exporter) = Some l
      \<and> vi_service i \<in> lk_services l)
    \<or> card {k \<in> Mapping.keys m'. snd k = lp_environment exporter} = MAX_IMPORTERS
      \<and> Mapping.lookup m' (lp_environment p, lp_environment exporter) = None"
  using assms
proof (induction pis arbitrary: m counts)
  case (Cons pi pis)
  obtain q j where pi: "pi = (q, j)" by (cases pi)
  obtain m1 c1 where st: "link_step parties q j (m, counts) = (m1, c1)" by fastforce
  have keeps: "map_agreed parties m1 \<and> map_counted m1 c1"
    using link_step_keeps [OF Cons.prems(1,2) _ _ st] Cons.prems(3)
    by (simp add: pi all_imports_mem)
  have rest: "fold (\<lambda>(p, i). link_step parties p i) pis (m1, c1) = (m', counts')"
    using Cons.prems(6) st by (simp add: pi)
  show ?case
  proof (cases "(p, i) = pi")
    case False
    then show ?thesis
      using Cons.IH [of m1 c1] keeps rest Cons.prems by auto
  next
    case True
    have sub: "set pis \<subseteq> set (all_imports parties)" using Cons.prems(3) by simp
    note final = link_fold_keeps [OF keeps [THEN conjunct1] keeps [THEN conjunct2] sub rest]
    have grows: "\<exists>l'. Mapping.lookup m' k = Some l' \<and> lk_services l \<subseteq> lk_services l'"
      if "Mapping.lookup m1 k = Some l" for k l
    proof -
      have "\<exists>l'. Mapping.lookup (fst (fold (\<lambda>(p, i). link_step parties p i) is (a, b))) k = Some l'
          \<and> lk_services l \<subseteq> lk_services l'" if "Mapping.lookup a k = Some l" for "is" a b l
        using that
      proof (induction "is" arbitrary: a b l)
        case (Cons x xs)
        obtain x1 x2 where x: "x = (x1, x2)" by (cases x)
        obtain a' b' where s: "link_step parties x1 x2 (a, b) = (a', b')" by fastforce
        obtain l1 where "Mapping.lookup a' k = Some l1" "lk_services l \<subseteq> lk_services l1"
          using link_step_grows [OF s Cons.prems] by blast
        with Cons.IH [of a' l1 b'] s show ?case by (auto simp: x)
      qed auto
      from this [OF that, of pis c1] rest show ?thesis by simp
    qed
    let ?k = "(lp_environment p, lp_environment exporter)"
    have "card {k \<in> Mapping.keys m'. snd k = lp_environment exporter} = MAX_IMPORTERS
        \<and> Mapping.lookup m' ?k = None"
      if full: "card {k \<in> Mapping.keys m1. snd k = lp_environment exporter} = MAX_IMPORTERS"
        and none: "Mapping.lookup m1 ?k = None"
    proof -
      let ?old = "{k \<in> Mapping.keys m1. snd k = lp_environment exporter}"
      let ?new = "{k \<in> Mapping.keys m'. snd k = lp_environment exporter}"
      have fin: "finite ?new" and le: "card ?new \<le> MAX_IMPORTERS" and sub: "?old \<subseteq> ?new"
        using final by (auto simp: map_counted_def)
      then have "?old = ?new"
        using full card_seteq [OF fin sub] by simp
      moreover have "?k \<notin> ?old" using none by (simp add: mapping_keys_iff)
      ultimately have "?k \<notin> Mapping.keys m'" by auto
      then show ?thesis using full \<open>?old = ?new\<close> by (simp add: mapping_keys_iff)
    qed
    note kept = this
    have "link_step parties p i (m, counts) = (m1, c1)" using st True pi by simp
    from link_step_links [OF Cons.prems(2,5) this] show ?thesis
    proof (elim disjE exE conjE)
      fix l assume "Mapping.lookup m1 ?k = Some l" and s: "vi_service i \<in> lk_services l"
      from grows [OF this(1)] s show ?thesis by auto
    qed (simp add: kept)
  qed
qed simp

lemma resolved_import_linked_or_full:
  assumes "p \<in> set parties" and "i \<in> set (lp_imports p)"
    and "resolve_import p i parties = Some exporter"
  shows "(\<exists>l \<in> set (links parties). lk_importer l = lp_environment p
        \<and> lk_exporter l = lp_environment exporter \<and> vi_service i \<in> lk_services l)
    \<or> length (filter (\<lambda>l. lk_exporter l = lp_environment exporter) (links parties)) = MAX_IMPORTERS
      \<and> \<not> (\<exists>l \<in> set (links parties). lk_importer l = lp_environment p
            \<and> lk_exporter l = lp_environment exporter)"
proof -
  let ?m = "fst (link_maps parties)"
  have init: "map_agreed parties Mapping.empty" "map_counted (Mapping.empty :: link_map) Mapping.empty"
    by (simp_all add: map_agreed_def map_counted_def Mapping.lookup_default_def)
  have mem: "(p, i) \<in> set (all_imports parties)" using assms by (simp add: all_imports_mem)
  have linked: "\<exists>l \<in> set (links parties). lk_importer l = lp_environment p
        \<and> lk_exporter l = lp_environment exporter \<and> vi_service i \<in> lk_services l"
    if "Mapping.lookup ?m (lp_environment p, lp_environment exporter) = Some l" "vi_service i \<in> lk_services l" for l
  proof -
    have "lk_importer l = lp_environment p" "lk_exporter l = lp_environment exporter"
      using link_maps_invariants(1) [of parties] that(1) by (auto simp: map_agreed_def)
    with that show ?thesis unfolding links_set Bex_def by blast
  qed
  have key: "Mapping.lookup ?m (lk_importer l, lk_exporter l) = Some l" if "l \<in> set (links parties)" for l
  proof -
    from that obtain i' e' where l: "Mapping.lookup ?m (i', e') = Some l" by (auto simp: links_set)
    then show ?thesis using link_maps_invariants(1) [of parties] by (auto simp: map_agreed_def)
  qed
  have "fold (\<lambda>(p, i). link_step parties p i) (all_imports parties) (Mapping.empty, Mapping.empty)
      = (?m, snd (link_maps parties))"
    by (simp add: link_maps_fold)
  from link_fold_links [OF init order_refl mem assms(3) this] show ?thesis
  proof (elim disjE exE conjE)
    fix l assume "Mapping.lookup ?m (lp_environment p, lp_environment exporter) = Some l"
      and "vi_service i \<in> lk_services l"
    from linked [OF this] show ?thesis by blast
  next
    assume full: "card {k \<in> Mapping.keys ?m. snd k = lp_environment exporter} = MAX_IMPORTERS"
      and none: "Mapping.lookup ?m (lp_environment p, lp_environment exporter) = None"
    have "\<not> (lk_importer l = lp_environment p \<and> lk_exporter l = lp_environment exporter)"
      if "l \<in> set (links parties)" for l
      using key [OF that] none by auto
    with full show ?thesis by (simp add: links_count)
  qed
qed

section \<open>Properties\<close>

text \<open>C33: A private link exists only while both sides agree: for each service of a link the importing
  environment imports it from the exporting one, which is another environment, is no preview,
  has the name the import asks for, and exports the service to the importer's application (and
  to previews when the importer is one).\<close>

theorem links_need_both_sides:
  assumes "l \<in> set (links parties)" and "service \<in> lk_services l"
  shows "\<exists>importer \<in> set parties. \<exists>exporter \<in> set parties. \<exists>i \<in> set (lp_imports importer).
    lk_importer l = lp_environment importer \<and> lk_exporter l = lp_environment exporter
    \<and> lk_importer l \<noteq> lk_exporter l \<and> vi_service i = service
    \<and> \<not> lp_preview exporter \<and> lp_name exporter = import_target importer i
    \<and> party_names importer (vi_application i) exporter \<and> exports_to exporter service importer"
proof -
  from links_agreed [OF assms] obtain importer i exporter
    where p: "importer \<in> set parties" "i \<in> set (lp_imports importer)" "exporter \<in> set parties"
      and r: "resolve_import importer i parties = Some exporter"
      and l: "lp_environment importer = lk_importer l" "lp_environment exporter = lk_exporter l" "vi_service i = service"
    unfolding agreed_def by blast
  have "lk_importer l \<noteq> lk_exporter l" using resolve_import_facts(5) [OF r] l by auto
  with l resolve_import_facts(2,3,4,6) [OF r] show ?thesis
    by (intro bexI [OF _ p(1)] bexI [OF _ p(3)] bexI [OF _ p(2)] conjI) simp_all
qed

definition example_parties :: "link_party list" where
  "example_parties =
     [\<lparr>lp_environment = ''env-shop'', lp_application_id = ''app-shop'', lp_application = ''shop'',
       lp_name = ''production'', lp_preview = False, lp_exports = [],
       lp_imports = [\<lparr>vi_application = ''db'', vi_service = ''pg'', vi_environment = None\<rparr>],
       lp_bindings = Mapping.empty\<rparr>,
      \<lparr>lp_environment = ''env-db01'', lp_application_id = ''app-db01'', lp_application = ''db'',
       lp_name = ''production'', lp_preview = False,
       lp_exports = [\<lparr>ve_service = ''pg'', ve_applications = {''shop''}, ve_previews = False\<rparr>],
       lp_imports = [], lp_bindings = Mapping.empty\<rparr>]"

lemma example_links:
  "map lk_services (links example_parties) = [{''pg''}]"
  by code_simp

theorem links_need_both_sides_witness:
  "\<exists>exporter \<in> set example_parties. \<not> lp_preview exporter
     \<and> (\<exists>importer \<in> set example_parties. exports_to exporter ''pg'' importer)"
proof -
  obtain l where "l \<in> set (links example_parties)" "''pg'' \<in> lk_services l"
    using example_links by (cases "links example_parties") auto
  from links_need_both_sides [OF this] show ?thesis by blast
qed

text \<open>No exporter has more than 64 importers, each importer and exporter pair has one link, and
  the report is exact: an import is reported connected exactly when the link to its exporter
  carries the service, and full only when the exporter has its 64 links and none of them is
  the importer's.\<close>

theorem links_bounded_and_reported:
  assumes "p \<in> set parties" and "i \<in> set (lp_imports p)"
  shows "distinct (map (\<lambda>l. (lk_importer l, lk_exporter l)) (links parties))
    \<and> length (filter (\<lambda>l. lk_exporter l = e) (links parties)) \<le> 64
    \<and> (case resolve_import p i parties of
         None \<Rightarrow> is_state (import_status_of parties (links parties) p i) = Unavailable
       | Some exporter \<Rightarrow>
           if is_state (import_status_of parties (links parties) p i) = Connected
           then \<exists>l \<in> set (links parties). lk_importer l = lp_environment p
             \<and> lk_exporter l = lp_environment exporter \<and> vi_service i \<in> lk_services l
           else is_state (import_status_of parties (links parties) p i) = Full
             \<and> length (filter (\<lambda>l. lk_exporter l = lp_environment exporter) (links parties)) = 64)"
proof (intro conjI)
  show "distinct (map (\<lambda>l. (lk_importer l, lk_exporter l)) (links parties))"
    by (simp add: links_keys)
  show "length (filter (\<lambda>l. lk_exporter l = e) (links parties)) \<le> 64"
    using links_per_exporter by (simp add: MAX_IMPORTERS_def)
  show "case resolve_import p i parties of
         None \<Rightarrow> is_state (import_status_of parties (links parties) p i) = Unavailable
       | Some exporter \<Rightarrow>
           if is_state (import_status_of parties (links parties) p i) = Connected
           then \<exists>l \<in> set (links parties). lk_importer l = lp_environment p
             \<and> lk_exporter l = lp_environment exporter \<and> vi_service i \<in> lk_services l
           else is_state (import_status_of parties (links parties) p i) = Full
             \<and> length (filter (\<lambda>l. lk_exporter l = lp_environment exporter) (links parties)) = 64"
  proof (cases "resolve_import p i parties")
    case None
    then show ?thesis by (simp add: import_status_of_def Let_def)
  next
    case (Some exporter)
    from resolved_import_linked_or_full [OF assms Some] show ?thesis
      by (auto simp: Some import_status_of_def Let_def list_ex_iff MAX_IMPORTERS_def)
  qed
qed

theorem links_bounded_and_reported_witness:
  "length (filter (\<lambda>l. lk_exporter l = ''env-db01'') (links example_parties)) \<le> 64"
proof -
  have "hd example_parties \<in> set example_parties" by (simp add: example_parties_def)
  moreover have "hd (lp_imports (hd example_parties)) \<in> set (lp_imports (hd example_parties))"
    by (simp add: example_parties_def)
  ultimately show ?thesis using links_bounded_and_reported by blast
qed

end
