(* ===== verification/Resources.thy ===== *)
theory Resources
  imports Ownership Dependencies Links
begin

text \<open>
  Desired and observed Docker resources: \<open>crates/piqueld-core/src/resource.rs\<close>.

  The desired and observed records, drift between them, and the projections of ingress, links,
  telemetry and stopping onto a target. Small structs the code sorts (\<open>derive(Ord)\<close>) are
  datatypes with the derived lexicographic \<open>linorder\<close>. \<open>sha\<close> is the hexadecimal SHA-256 digest
  (see theory \<open>Names\<close>).
\<close>

section \<open>Sorted structs\<close>

datatype secret_file = Secret_File (secret_file_name: string) (secret_file_target: string)

datatype observed_mount =
  Observed_Mount (om_volume_name: string) (om_target: string) (om_read_only: bool)

datatype observed_file =
  Observed_File (obf_config_name: string) (obf_target: string) (obf_mode: u32)

datatype network_attachment = Attachment (na_network: string) (na_aliases: "string list")

definition secret_file_key where
  "secret_file_key x = (secret_file_name x, secret_file_target x)"

definition observed_mount_key where
  "observed_mount_key x = (om_volume_name x, om_target x, om_read_only x)"

definition observed_file_key where
  "observed_file_key x = (obf_config_name x, obf_target x, obf_mode x)"

definition attachment_key where
  "attachment_key x = (na_network x, na_aliases x)"

lemma key_inject:
  "secret_file_key a = secret_file_key b \<Longrightarrow> a = b"
  "observed_mount_key c = observed_mount_key d \<Longrightarrow> c = d"
  "observed_file_key e = observed_file_key f \<Longrightarrow> e = f"
  "attachment_key g = attachment_key h \<Longrightarrow> g = h"
  by (simp_all add: secret_file_key_def observed_mount_key_def observed_file_key_def
      attachment_key_def secret_file.expand observed_mount.expand observed_file.expand
      network_attachment.expand)

instantiation secret_file :: linorder
begin
definition "a \<le> b \<longleftrightarrow> secret_file_key a \<le> secret_file_key b"
definition "a < b \<longleftrightarrow> secret_file_key a < secret_file_key b"
instance
  by standard (auto simp: less_eq_secret_file_def less_secret_file_def intro: key_inject)
end

instantiation observed_mount :: linorder
begin
definition "a \<le> b \<longleftrightarrow> observed_mount_key a \<le> observed_mount_key b"
definition "a < b \<longleftrightarrow> observed_mount_key a < observed_mount_key b"
instance
  by standard (auto simp: less_eq_observed_mount_def less_observed_mount_def intro: key_inject)
end

instantiation observed_file :: linorder
begin
definition "a \<le> b \<longleftrightarrow> observed_file_key a \<le> observed_file_key b"
definition "a < b \<longleftrightarrow> observed_file_key a < observed_file_key b"
instance
  by standard (auto simp: less_eq_observed_file_def less_observed_file_def intro: key_inject)
end

instantiation network_attachment :: linorder
begin
definition "a \<le> b \<longleftrightarrow> attachment_key a \<le> attachment_key b"
definition "a < b \<longleftrightarrow> attachment_key a < attachment_key b"
instance
  by standard (auto simp: less_eq_network_attachment_def less_network_attachment_def intro: key_inject)
end

definition unordered_eq :: "'a::linorder list \<Rightarrow> 'a list \<Rightarrow> bool" where
  "unordered_eq observed desired \<longleftrightarrow> sort observed = sort desired"

lemma unordered_eq_mset: "unordered_eq a b \<longleftrightarrow> mset a = mset b"
proof
  assume "unordered_eq a b"
  then show "mset a = mset b" unfolding unordered_eq_def by (metis mset_sort)
next
  assume "mset a = mset b"
  then show "unordered_eq a b"
    unfolding unordered_eq_def by (metis properties_for_sort mset_sort sorted_sort)
qed

section \<open>Desired resources\<close>

datatype resolved_source =
    Resolved_Image (rs_requested_image: string) (rs_digest: string)
  | Resolved_Git (rs_requested: validated_source) (rs_commit: string) (rs_image_id: string)

record desired_network =
  dn_name :: string
  dn_labels :: labels

record desired_volume =
  dv_logical_name :: logical_name
  dv_name :: string
  dv_labels :: labels

record desired_mount =
  dm_volume_name :: string
  dm_target :: string
  dm_read_only :: bool

record desired_file =
  df_config_name :: string
  df_target :: string
  df_mode :: file_mode
  df_content :: string

record telemetry_mount =
  tm_source :: string
  tm_user :: string

record desired_service =
  ds_logical_name :: logical_name
  ds_name :: string
  ds_source :: resolved_source
  ds_image :: string
  ds_replicas :: u16
  ds_environment :: "(string, string) mapping"
  ds_command :: "string list"
  ds_arguments :: "string list"
  ds_mounts :: "desired_mount list"
  ds_secrets :: "secret_file list"
  ds_files :: "desired_file list"
  ds_healthcheck :: "health_check option"
  ds_resources :: "resource_limits option"
  ds_networks :: "string list"
  ds_link_aliases :: "(string, string) mapping"
  ds_labels :: labels
  ds_depends_on :: "logical_name list"
  ds_rollout :: validated_rollout
  ds_receives_telemetry :: bool
  ds_telemetry :: "telemetry_mount option"

record desired_job =
  dj_logical_name :: logical_name
  dj_run :: job_run
  dj_timeout_seconds :: u32
  dj_volume_access :: job_volume_access
  dj_stop_service :: bool
  dj_container :: desired_service

record desired_job_run =
  djr_job :: desired_job
  djr_operation :: string

record resolved_application =
  ra_secret_names :: "(string, string) mapping"
  ra_id :: environment_id
  ra_name :: logical_name
  ra_instance_id :: instance_id
  ra_spec_hash :: string
  ra_networks :: "desired_network list"
  ra_volumes :: "desired_volume list"
  ra_services :: "desired_service list"
  ra_routes :: "validated_route list"
  ra_jobs :: "desired_job list"
  ra_exports :: "validated_export list"
  ra_imports :: "validated_import list"
  ra_bindings :: bindings

fun resolved_image :: "resolved_source \<Rightarrow> string" where
  "resolved_image (Resolved_Image _ digest) = digest"
| "resolved_image (Resolved_Git _ _ image_id) = image_id"

fun requested_source :: "resolved_source \<Rightarrow> validated_source" where
  "requested_source (Resolved_Image requested _) = Source_Image requested"
| "requested_source (Resolved_Git requested _ _) = requested"

fun resolved_commit :: "resolved_source \<Rightarrow> string option" where
  "resolved_commit (Resolved_Image _ _) = None"
| "resolved_commit (Resolved_Git _ commit _) = Some commit"

definition network_identity :: "(string \<Rightarrow> string) \<Rightarrow> desired_network \<Rightarrow> bool" where
  "network_identity sha n =
     (case labelled_environment (dn_labels n) of
        None \<Rightarrow> False
      | Some application \<Rightarrow> \<not> has_label (dn_labels n) SERVICE_LABEL
          \<and> is_canonical sha (dn_name n) application (dn_labels n))"

definition volume_identity :: "(string \<Rightarrow> string) \<Rightarrow> desired_volume \<Rightarrow> bool" where
  "volume_identity sha v =
     (case labelled_environment (dv_labels v) of
        None \<Rightarrow> False
      | Some application \<Rightarrow> valid_logical_name (dv_logical_name v)
          \<and> \<not> has_label (dv_labels v) SERVICE_LABEL
          \<and> dv_name v = volume_name_for sha application (dv_logical_name v))"

definition service_identity :: "(string \<Rightarrow> string) \<Rightarrow> desired_service \<Rightarrow> bool" where
  "service_identity sha s =
     (case labelled_environment (ds_labels s) of
        None \<Rightarrow> False
      | Some application \<Rightarrow> valid_logical_name (ds_logical_name s)
          \<and> Mapping.lookup (ds_labels s) SERVICE_LABEL = Some (ds_logical_name s)
          \<and> ds_name s = service_name_for sha application (ds_logical_name s))"

definition job_identity :: "(string \<Rightarrow> string) \<Rightarrow> desired_job \<Rightarrow> bool" where
  "job_identity sha j =
     (let labels = ds_labels (dj_container j) in
      case labelled_environment labels of
        None \<Rightarrow> False
      | Some application \<Rightarrow> \<not> has_label labels SERVICE_LABEL
          \<and> Mapping.lookup labels JOB_LABEL = Some (dj_logical_name j)
          \<and> ds_name (dj_container j) = job_name_for sha application (dj_logical_name j))"

definition desired_rollout_policy :: "desired_service \<Rightarrow> rollout_policy" where
  "desired_rollout_policy s =
     policy (ds_rollout s)
       (map dm_read_only (ds_mounts s) @ (if ds_receives_telemetry s then [False] else []))"

definition network_attachments :: "(string \<Rightarrow> string) \<Rightarrow> desired_service \<Rightarrow> network_attachment list" where
  "network_attachments sha s =
     (let private = map_option (network_for_application sha) (labelled_environment (ds_labels s))
      in map (\<lambda>network. Attachment network
           (if private = Some network then [ds_logical_name s]
            else case Mapping.lookup (ds_link_aliases s) network of
                None \<Rightarrow> [] | Some alias \<Rightarrow> [alias])) (ds_networks s))"

definition service_ingress_network :: "(string \<Rightarrow> string) \<Rightarrow> desired_service \<Rightarrow> string option" where
  "service_ingress_network sha s =
     (case labelled_environment (ds_labels s) of
        None \<Rightarrow> None
      | Some application \<Rightarrow>
          List.find (\<lambda>network. network = network_for_ingress sha application) (ds_networks s))"

section \<open>Jobs\<close>

definition exclusive_volumes :: "desired_job \<Rightarrow> string list" where
  "exclusive_volumes j =
     map dm_volume_name
       (filter (\<lambda>mount. dj_volume_access j = Access_Exclusive \<and> \<not> dm_read_only mount)
         (ds_mounts (dj_container j)))"

definition holds_volume :: "desired_job \<Rightarrow> string \<Rightarrow> bool" where
  "holds_volume j volume \<longleftrightarrow> list_ex (\<lambda>exclusive. exclusive = volume) (exclusive_volumes j)"

definition stopped_service :: "(string \<Rightarrow> string) \<Rightarrow> desired_job \<Rightarrow> string option" where
  "stopped_service sha j =
     (case labelled_environment (ds_labels (dj_container j)) of
        None \<Rightarrow> None
      | Some environment \<Rightarrow>
          if dj_stop_service j
          then Some (service_name_for sha environment (ds_logical_name (dj_container j))) else None)"

definition stops_services :: "desired_job \<Rightarrow> bool" where
  "stops_services j \<longleftrightarrow> dj_stop_service j \<or> exclusive_volumes j \<noteq> []"

definition job_stops :: "(string \<Rightarrow> string) \<Rightarrow> desired_job \<Rightarrow> string \<Rightarrow> string list \<Rightarrow> bool" where
  "job_stops sha j name volumes \<longleftrightarrow>
     stopped_service sha j = Some name \<or> list_ex (holds_volume j) volumes"

definition for_operation :: "desired_job \<Rightarrow> string \<Rightarrow> desired_job_run" where
  "for_operation j operation =
     (let container = dj_container j;
          container = (if dj_volume_access j = Access_ReadOnly
            then container\<lparr>ds_mounts := map (\<lambda>m. m\<lparr>dm_read_only := True\<rparr>) (ds_mounts container)\<rparr>
            else container);
          container = container\<lparr>ds_labels :=
            Mapping.update JOB_OPERATION_LABEL operation (ds_labels container)\<rparr>
      in \<lparr>djr_job = j\<lparr>dj_container := container\<rparr>, djr_operation = operation\<rparr>)"

lemma labelled_environment_operation:
  "labelled_environment (Mapping.update JOB_OPERATION_LABEL operation l) = labelled_environment l"
  by (simp add: labelled_environment_def managed_hash_invalid_def label_simps cong: option.case_cong)

lemma run_exclusive_volumes: "exclusive_volumes (djr_job (for_operation j operation)) = exclusive_volumes j"
  by (cases "dj_volume_access j")
    (simp_all add: for_operation_def Let_def exclusive_volumes_def filter_map o_def)

lemma run_stopped_service: "stopped_service sha (djr_job (for_operation j operation)) = stopped_service sha j"
  by (cases "labelled_environment (ds_labels (dj_container j))")
    (simp_all add: for_operation_def Let_def stopped_service_def labelled_environment_operation)

lemma run_job_stops: "job_stops sha (djr_job (for_operation j operation)) name volumes = job_stops sha j name volumes"
  by (simp add: job_stops_def run_stopped_service holds_volume_def [abs_def] run_exclusive_volumes)

lemma run_mounts:
  "ds_mounts (dj_container (djr_job (for_operation j operation))) =
     (if dj_volume_access j = Access_ReadOnly then map (\<lambda>m. m\<lparr>dm_read_only := True\<rparr>) (ds_mounts (dj_container j))
      else ds_mounts (dj_container j))"
  by (simp add: for_operation_def Let_def)

lemma run_operation:
  "Mapping.lookup (ds_labels (dj_container (djr_job (for_operation j operation)))) JOB_OPERATION_LABEL = Some operation"
  by (simp add: for_operation_def Let_def label_simps)

lemma read_only_exclusive: "dj_volume_access j = Access_ReadOnly \<Longrightarrow> exclusive_volumes j = []"
  by (simp add: exclusive_volumes_def)

section \<open>Properties\<close>

text \<open>The run of a job that may only read volumes mounts every volume read-only, holds none
  exclusively and stops no service because of its volumes; the run of any job keeps the job's
  name, volumes and own service, and is labelled with its operation.\<close>

theorem read_only_jobs_never_write:
  "(let run = djr_job (for_operation j operation) in
      (dj_volume_access j = Access_Exclusive \<or>
         list_all dm_read_only (ds_mounts (dj_container run)) \<and> exclusive_volumes run = []
         \<and> list_all (\<lambda>v. \<not> holds_volume j v) volumes)
      \<and> map dm_volume_name (ds_mounts (dj_container run)) = map dm_volume_name (ds_mounts (dj_container j))
      \<and> exclusive_volumes run = exclusive_volumes j
      \<and> Mapping.lookup (ds_labels (dj_container run)) JOB_OPERATION_LABEL = Some operation
      \<and> job_stops sha run name volumes = job_stops sha j name volumes)"
proof (cases "dj_volume_access j")
  case Access_ReadOnly
  then show ?thesis
    by (simp add: Let_def run_exclusive_volumes run_job_stops run_mounts run_operation
        read_only_exclusive holds_volume_def list_all_iff o_def)
next
  case Access_Exclusive
  then show ?thesis
    by (simp add: Let_def run_exclusive_volumes run_job_stops run_mounts run_operation)
qed

end
