(* ===== verification/Observed.thy ===== *)
theory Observed
  imports Resources
begin

text \<open>
  Observed Docker resources and how they compare to the desired ones:
  \<open>ObservedNetwork\<close>, \<open>ObservedVolume\<close>, \<open>ObservedService\<close> and \<open>ObservedApplication\<close> of
  \<open>crates/piqueld-core/src/resource.rs\<close>.

  What classifying a resource by its labels promises is the locale \<open>owned_kind\<close>, interpreted for
  the three kinds of resources the planner cleans up.
\<close>

section \<open>Observations\<close>

datatype task_state =
    Task_New | Task_Pending | Task_Assigned | Task_Accepted | Task_Preparing | Task_Starting
  | Task_Running | Task_Complete | Task_Failed | Task_Rejected | Task_Shutdown | Task_Unknown

fun task_is_live :: "task_state \<Rightarrow> bool" where
  "task_is_live Task_Starting = True"
| "task_is_live Task_Running = True"
| "task_is_live _ = False"

datatype task_diagnostic = Diagnostic_Failed "int option" | Diagnostic_Rejected

record observed_task =
  ot_state :: task_state
  ot_healthy :: "bool option"
  ot_desired_running :: bool
  ot_diagnostic :: "task_diagnostic option"

datatype convergence = Converged | Updating | Degraded | Failed

record observed_network =
  on_name :: string
  on_runtime_configuration_matches :: bool
  on_labels :: labels
  on_in_use :: bool

record observed_volume =
  ov_name :: string
  ov_runtime_configuration_matches :: bool
  ov_labels :: labels

record observed_service =
  os_name :: string
  os_image :: string
  os_replicas :: u16
  os_environment :: "(string, string) mapping"
  os_command :: "string list"
  os_arguments :: "string list"
  os_mounts :: "observed_mount list"
  os_secrets :: "secret_file list"
  os_files :: "observed_file list"
  os_healthcheck :: "health_check option"
  os_healthcheck_configured :: bool
  os_resources :: "resource_limits option"
  os_networks :: "network_attachment list"
  os_labels :: labels
  os_rollout :: "rollout_policy option"
  os_telemetry :: "telemetry_mount option"
  os_runtime_configuration_matches :: bool
  os_tasks :: "observed_task list"
  os_convergence :: convergence

record observed_application =
  oa_networks :: "observed_network list"
  oa_volumes :: "observed_volume list"
  oa_services :: "observed_service list"
  oa_linked_networks :: "observed_network list"

section \<open>Ownership of observations\<close>

definition network_is_owned_by ::
    "(string \<Rightarrow> string) \<Rightarrow> observed_network \<Rightarrow> instance_id \<Rightarrow> environment_id \<Rightarrow> bool" where
  "network_is_owned_by sha n inst application \<longleftrightarrow>
     for_resource sha (on_labels n) inst application Network (on_name n) = Owned"

definition network_is_linked_in_use :: "observed_network \<Rightarrow> bool" where
  "network_is_linked_in_use n \<longleftrightarrow> on_in_use n \<and> has_label (on_labels n) LINK_LABEL"

definition network_matches_ownership ::
    "(string \<Rightarrow> string) \<Rightarrow> observed_network \<Rightarrow> desired_network \<Rightarrow> resolved_application \<Rightarrow> bool" where
  "network_matches_ownership sha n desired application \<longleftrightarrow>
     network_is_owned_by sha n (ra_instance_id application) (ra_id application)
     \<and> on_name n = dn_name desired"

definition volume_is_owned_by ::
    "(string \<Rightarrow> string) \<Rightarrow> observed_volume \<Rightarrow> instance_id \<Rightarrow> environment_id \<Rightarrow> bool" where
  "volume_is_owned_by sha v inst application \<longleftrightarrow>
     for_resource sha (ov_labels v) inst application Volume (ov_name v) = Owned"

definition service_is_owned_by ::
    "(string \<Rightarrow> string) \<Rightarrow> observed_service \<Rightarrow> instance_id \<Rightarrow> environment_id \<Rightarrow> bool" where
  "service_is_owned_by sha s inst application \<longleftrightarrow>
     for_resource sha (os_labels s) inst application Service (os_name s) = Owned"

definition service_matches_ownership ::
    "(string \<Rightarrow> string) \<Rightarrow> observed_service \<Rightarrow> desired_service \<Rightarrow> resolved_application \<Rightarrow> bool" where
  "service_matches_ownership sha s desired application \<longleftrightarrow>
     service_is_owned_by sha s (ra_instance_id application) (ra_id application)
     \<and> Mapping.lookup (os_labels s) SERVICE_LABEL = Some (ds_logical_name desired)
     \<and> os_name s = ds_name desired"

section \<open>Drift\<close>

definition observed_mount_of :: "desired_mount \<Rightarrow> observed_mount" where
  "observed_mount_of m = Observed_Mount (dm_volume_name m) (dm_target m) (dm_read_only m)"

definition observed_file_of :: "desired_file \<Rightarrow> observed_file" where
  "observed_file_of f = Observed_File (df_config_name f) (df_target f) (df_mode f)"

definition mounts_match :: "observed_service \<Rightarrow> desired_service \<Rightarrow> bool" where
  "mounts_match s desired \<longleftrightarrow> unordered_eq (os_mounts s) (map observed_mount_of (ds_mounts desired))"

definition networks_match :: "(string \<Rightarrow> string) \<Rightarrow> observed_service \<Rightarrow> desired_service \<Rightarrow> bool" where
  "networks_match sha s desired \<longleftrightarrow> unordered_eq (os_networks s) (network_attachments sha desired)"

definition healthcheck_matches :: "observed_service \<Rightarrow> desired_service \<Rightarrow> bool" where
  "healthcheck_matches s desired \<longleftrightarrow>
     map_option health_execution_of (os_healthcheck s)
       = map_option health_execution_of (ds_healthcheck desired)
     \<and> os_healthcheck_configured s = (ds_healthcheck desired \<noteq> None)"

definition owned_label_subset :: "labels \<Rightarrow> labels \<Rightarrow> bool" where
  "owned_label_subset observed desired \<longleftrightarrow>
     (\<forall>key \<in> Mapping.keys desired. Mapping.lookup observed key = Mapping.lookup desired key)
     \<and> (\<forall>key \<in> Mapping.keys observed. prefix OWN_LABEL_PREFIX key \<longrightarrow>
          Mapping.lookup desired key = Mapping.lookup observed key)"

definition drift_checks ::
    "(string \<Rightarrow> string) \<Rightarrow> observed_service \<Rightarrow> desired_service \<Rightarrow> (string \<times> bool) list" where
  "drift_checks sha s desired =
     [(''image'', os_image s = ds_image desired),
      (''replicas'', os_replicas s = ds_replicas desired),
      (''environment'', os_environment s = ds_environment desired),
      (''command'', os_command s = ds_command desired),
      (''arguments'', os_arguments s = ds_arguments desired),
      (''secrets'', unordered_eq (os_secrets s) (ds_secrets desired)),
      (''files'', unordered_eq (os_files s) (map observed_file_of (ds_files desired))),
      (''mounts'', mounts_match s desired),
      (''networks'', networks_match sha s desired),
      (''healthcheck'', healthcheck_matches s desired),
      (''resources'', os_resources s = ds_resources desired),
      (''rollout'', os_rollout s = Some (desired_rollout_policy desired)),
      (''telemetry'', os_telemetry s = ds_telemetry desired),
      (''runtime_policy'', os_runtime_configuration_matches s),
      (''labels'', owned_label_subset (os_labels s) (ds_labels desired))]"

definition drift :: "(string \<Rightarrow> string) \<Rightarrow> observed_service \<Rightarrow> desired_service \<Rightarrow> string list" where
  "drift sha s desired =
     List.map_filter (\<lambda>(field, matches). if \<not> matches then Some field else None)
       (drift_checks sha s desired)"

definition service_matches :: "(string \<Rightarrow> string) \<Rightarrow> observed_service \<Rightarrow> desired_service \<Rightarrow> bool" where
  "service_matches sha s desired \<longleftrightarrow> drift sha s desired = []"

section \<open>Applications\<close>

definition converged_in ::
    "(string \<Rightarrow> string) \<Rightarrow> resolved_application \<Rightarrow> observed_application \<Rightarrow> bool" where
  "converged_in sha a observed \<longleftrightarrow>
     list_all (\<lambda>desired. list_ex (\<lambda>s. os_name s = ds_name desired
         \<and> os_convergence s = Converged \<and> service_matches sha s desired) (oa_services observed))
       (ra_services a)"

definition job_dependencies :: "resolved_application \<Rightarrow> desired_job \<Rightarrow> string set" where
  "job_dependencies a j =
     dependencies_of ds_logical_name ds_depends_on (ra_services a)
       (ds_logical_name (dj_container j))"

definition link_network_names :: "observed_application \<Rightarrow> string set" where
  "link_network_names observed =
     set (map on_name (oa_linked_networks observed
       @ filter (\<lambda>n. has_label (on_labels n) LINK_LABEL) (oa_networks observed)))"

definition attachment_granted ::
    "resolved_application list \<Rightarrow> observed_service \<Rightarrow> network_attachment \<Rightarrow> bool" where
  "attachment_granted granted s attachment \<longleftrightarrow>
     list_ex (\<lambda>network. network = na_network attachment)
       (concat (map ds_networks
         (filter (\<lambda>desired. ds_name desired = os_name s) (concat (map ra_services granted)))))"

definition revoked_links ::
    "(string \<Rightarrow> string) \<Rightarrow> observed_application \<Rightarrow> instance_id \<Rightarrow> environment_id
     \<Rightarrow> resolved_application list \<Rightarrow> (string \<times> string) list" where
  "revoked_links sha observed inst environment granted =
     concat (map (\<lambda>s. map (\<lambda>attachment. (os_name s, na_network attachment))
         (filter (\<lambda>attachment. \<not> attachment_granted granted s attachment)
           (filter (\<lambda>attachment. na_network attachment \<in> link_network_names observed)
             (os_networks s))))
       (filter (\<lambda>s. service_is_owned_by sha s inst environment) (oa_services observed)))"

section \<open>Facts\<close>

lemma failed_checks:
  "field \<in> set (List.map_filter (\<lambda>(field, matches). if \<not> matches then Some field else None) xs)
     \<longleftrightarrow> (field, False) \<in> set xs"
  "List.map_filter (\<lambda>(field, matches). if \<not> matches then Some field else None) xs = []
     \<longleftrightarrow> list_all snd xs"
  by (induction xs) (auto simp: List.map_filter_simps split: option.splits if_splits)

lemma drift_field: "field \<in> set (drift sha s desired) \<longleftrightarrow> (field, False) \<in> set (drift_checks sha s desired)"
  unfolding drift_def by (rule failed_checks)

lemma service_matches_iff: "service_matches sha s desired \<longleftrightarrow> list_all snd (drift_checks sha s desired)"
  unfolding service_matches_def drift_def by (rule failed_checks)

lemma owned_label_subset_own:
  assumes "owned_label_subset observed desired" and "prefix OWN_LABEL_PREFIX key"
  shows "Mapping.lookup observed key = Mapping.lookup desired key"
proof (cases "key \<in> Mapping.keys desired \<or> key \<in> Mapping.keys observed")
  case True
  with assms show ?thesis unfolding owned_label_subset_def by metis
next
  case False
  then have "Mapping.lookup desired key = None" "Mapping.lookup observed key = None"
    unfolding mapping_keys_iff by auto
  then show ?thesis by simp
qed

text \<open>A service owned by an environment has the name of its service label.\<close>

lemma service_is_owned_by_iff:
  "service_is_owned_by sha s inst eid \<longleftrightarrow>
     from_labels (os_labels s) inst eid = Owned
     \<and> (\<exists>service. Mapping.lookup (os_labels s) SERVICE_LABEL = Some service
          \<and> valid_logical_name service \<and> os_name s = service_name_for sha eid service)"
  by (auto simp: service_is_owned_by_def for_resource_owned valid_role_def service_name_for_def
      parse_logical_name_def validated_parse_def split: option.splits if_splits)

lemma network_is_owned_by_iff:
  "network_is_owned_by sha n inst eid \<longleftrightarrow>
     from_labels (on_labels n) inst eid = Owned \<and> \<not> has_label (on_labels n) SERVICE_LABEL
     \<and> valid_logical_name (on_name n) \<and> is_canonical sha (on_name n) eid (on_labels n)"
  by (auto simp: network_is_owned_by_def for_resource_owned valid_role_def
      parse_logical_name_def validated_parse_def split: option.splits if_splits)

lemma volume_is_owned_by_iff:
  "volume_is_owned_by sha v inst eid \<longleftrightarrow>
     from_labels (ov_labels v) inst eid = Owned \<and> \<not> has_label (ov_labels v) SERVICE_LABEL"
  by (simp add: volume_is_owned_by_def for_resource_owned valid_role_def)

section \<open>What classification promises\<close>

text \<open>
  Observed resources of one kind: a name, labels and the ownership test. A resource has at most
  one owner, and none without the managed label.
\<close>

locale owned_kind =
  fixes nm :: "'r \<Rightarrow> string"
    and lbl :: "'r \<Rightarrow> labels"
    and own :: "'r \<Rightarrow> instance_id \<Rightarrow> environment_id \<Rightarrow> bool"
  assumes own_labels: "own r inst eid \<Longrightarrow> from_labels (lbl r) inst eid = Owned"
begin

lemma owner_unique: "own r i e \<Longrightarrow> own r i' e' \<Longrightarrow> i = i' \<and> e = e'"
  using own_labels from_labels_unique by blast

lemma unmanaged_unowned: "Mapping.lookup (lbl r) MANAGED_LABEL \<noteq> Some ''true'' \<Longrightarrow> \<not> own r inst eid"
  using own_labels [of r inst eid] by (auto simp: from_labels_def managed_hash_invalid_def)

lemma foreign_unowned: "Mapping.lookup (lbl r) APPLICATION_LABEL \<noteq> Some eid \<Longrightarrow> \<not> own r inst eid"
  using own_labels [of r inst eid] by (auto simp: from_labels_def split: if_splits)

end

interpretation nets: owned_kind on_name on_labels "network_is_owned_by sha" for sha
  by unfold_locales (simp add: network_is_owned_by_iff)

interpretation vols: owned_kind ov_name ov_labels "volume_is_owned_by sha" for sha
  by unfold_locales (simp add: volume_is_owned_by_iff)

interpretation svcs: owned_kind os_name os_labels "service_is_owned_by sha" for sha
  by unfold_locales (simp add: service_is_owned_by_iff)

section \<open>Properties\<close>

text \<open>Drift is insensitive to the order Docker reports mounts, secrets, files and network
  attachments in, but not to how often each occurs: an observation with the same other fields
  drifts in the same fields exactly when these lists are equal as multisets.\<close>

theorem drift_ignores_observed_order:
  assumes "mset ms = mset (os_mounts s)" and "mset ss = mset (os_secrets s)"
    and "mset fs = mset (os_files s)" and "mset ns = mset (os_networks s)"
  shows "drift sha (s\<lparr>os_mounts := ms, os_secrets := ss, os_files := fs, os_networks := ns\<rparr>) desired
      = drift sha s desired
    \<and> (''networks'' \<in> set (drift sha s desired) \<longleftrightarrow> mset ns \<noteq> mset (network_attachments sha desired))
    \<and> (''mounts'' \<in> set (drift sha s desired) \<longleftrightarrow> mset ms \<noteq> mset (map observed_mount_of (ds_mounts desired)))"
proof (intro conjI)
  let ?t = "s\<lparr>os_mounts := ms, os_secrets := ss, os_files := fs, os_networks := ns\<rparr>"
  have "drift_checks sha ?t desired = drift_checks sha s desired"
    using assms by (simp add: drift_checks_def mounts_match_def networks_match_def
        healthcheck_matches_def unordered_eq_mset)
  then show "drift sha ?t desired = drift sha s desired" by (simp add: drift_def)
  show "''networks'' \<in> set (drift sha s desired) \<longleftrightarrow> mset ns \<noteq> mset (network_attachments sha desired)"
    using assms(4) by (simp add: drift_field drift_checks_def networks_match_def unordered_eq_mset)
  show "''mounts'' \<in> set (drift sha s desired) \<longleftrightarrow> mset ms \<noteq> mset (map observed_mount_of (ds_mounts desired))"
    using assms(1) by (simp add: drift_field drift_checks_def mounts_match_def unordered_eq_mset)
qed

definition example_observed_service :: observed_service where
  "example_observed_service =
     \<lparr>os_name = ''piqueld-web'', os_image = ''sha256:0'', os_replicas = 1,
      os_environment = Mapping.empty, os_command = [], os_arguments = [],
      os_mounts = [Observed_Mount ''data'' ''/data'' False, Observed_Mount ''logs'' ''/logs'' True],
      os_secrets = [], os_files = [], os_healthcheck = None, os_healthcheck_configured = False,
      os_resources = None, os_networks = [], os_labels = Mapping.empty, os_rollout = None,
      os_telemetry = None, os_runtime_configuration_matches = True, os_tasks = [],
      os_convergence = Converged\<rparr>"

theorem drift_ignores_observed_order_witness:
  "\<forall>sha desired. drift sha (example_observed_service
      \<lparr>os_mounts := [Observed_Mount ''logs'' ''/logs'' True, Observed_Mount ''data'' ''/data'' False],
       os_secrets := [], os_files := [], os_networks := []\<rparr>) desired
   = drift sha example_observed_service desired"
proof (intro allI)
  fix sha desired
  show "drift sha (example_observed_service
      \<lparr>os_mounts := [Observed_Mount ''logs'' ''/logs'' True, Observed_Mount ''data'' ''/data'' False],
       os_secrets := [], os_files := [], os_networks := []\<rparr>) desired
   = drift sha example_observed_service desired"
    using drift_ignores_observed_order
      [of "[Observed_Mount ''logs'' ''/logs'' True, Observed_Mount ''data'' ''/data'' False]"
        example_observed_service "[]" "[]" "[]" sha desired]
    by (simp add: example_observed_service_def)
qed

end
