(* ===== verification/Projections.thy ===== *)
theory Projections
  imports Observed
begin

text \<open>
  What is projected onto a copy of a target each time it is planned: ingress, private links,
  telemetry and stopping (\<open>ResolvedApplication::with_*\<close> of \<open>crates/piqueld-core/src/resource.rs\<close>).
\<close>

definition target_ownership :: "resolved_application \<Rightarrow> ownership" where
  "target_ownership a =
     \<lparr>ow_instance_id = ra_instance_id a, ow_environment_id = ra_id a, ow_service = None,
      ow_spec_hash = ra_spec_hash a\<rparr>"

section \<open>Ingress\<close>

definition ingress_service ::
    "string \<Rightarrow> bool \<Rightarrow> validated_route list \<Rightarrow> desired_service \<Rightarrow> desired_service" where
  "ingress_service name enabled routes s =
     (let s = s\<lparr>ds_networks := filter (\<lambda>network. network \<noteq> name) (ds_networks s)\<rparr> in
      if enabled
         \<and> list_ex (\<lambda>route. target_service (vr_target route) = Some (ds_logical_name s)) routes
      then s\<lparr>ds_networks := sort (ds_networks s @ [name])\<rparr> else s)"

definition with_ingress_routes ::
    "(string \<Rightarrow> string) \<Rightarrow> bool \<Rightarrow> validated_route list \<Rightarrow> resolved_application \<Rightarrow> resolved_application" where
  "with_ingress_routes sha enabled accepted a =
     (let name = network_for_ingress sha (ra_id a);
          routes = ra_routes a @ accepted;
          a = a\<lparr>ra_networks := filter (\<lambda>network. dn_name network \<noteq> name) (ra_networks a)\<rparr>;
          a = a\<lparr>ra_services := map (ingress_service name enabled routes) (ra_services a)\<rparr>
      in if enabled \<and> list_ex (\<lambda>route. target_service (vr_target route) \<noteq> None) routes
         then a\<lparr>ra_networks := sort_key dn_name (ra_networks a
                @ [\<lparr>dn_name = name, dn_labels = ownership_labels (target_ownership a)\<rparr>])\<rparr>
         else a)"

definition with_ingress ::
    "(string \<Rightarrow> string) \<Rightarrow> bool \<Rightarrow> resolved_application \<Rightarrow> resolved_application" where
  "with_ingress sha enabled a = with_ingress_routes sha enabled [] a"

section \<open>Stopping and telemetry\<close>

definition with_stopped :: "bool \<Rightarrow> resolved_application \<Rightarrow> resolved_application" where
  "with_stopped stopped a =
     (if stopped then a\<lparr>ra_services := map (\<lambda>s. s\<lparr>ds_replicas := 0\<rparr>) (ra_services a)\<rparr> else a)"

definition telemetry_receiver :: "resolved_application \<Rightarrow> desired_service option" where
  "telemetry_receiver a = List.find ds_receives_telemetry (ra_services a)"

definition with_telemetry ::
    "telemetry_mount option \<Rightarrow> resolved_application \<Rightarrow> resolved_application" where
  "with_telemetry mount a =
     a\<lparr>ra_services := map (\<lambda>s. s\<lparr>ds_telemetry :=
          (if ds_receives_telemetry s then mount else None)\<rparr>) (ra_services a)\<rparr>"

section \<open>Links\<close>

definition has_links :: "resolved_application \<Rightarrow> bool" where
  "has_links a \<longleftrightarrow> ra_exports a \<noteq> [] \<or> ra_imports a \<noteq> []"

definition push_network :: "string \<Rightarrow> desired_service \<Rightarrow> desired_service" where
  "push_network name s = s\<lparr>ds_networks := ds_networks s @ [name]\<rparr>"

definition import_link ::
    "(string \<Rightarrow> string) \<Rightarrow> link \<Rightarrow> resolved_application \<Rightarrow> resolved_application" where
  "import_link sha link a =
     (let name = network_for_link sha (ra_id a) (lk_exporter link);
          labels = Mapping.update LINK_LABEL (lk_exporter link) (ownership_labels (target_ownership a))
      in a\<lparr>ra_services := map (push_network name) (ra_services a),
           ra_jobs := map (\<lambda>j. j\<lparr>dj_container := (dj_container j)
               \<lparr>ds_networks := sort (ds_networks (dj_container j) @ [name])\<rparr>\<rparr>) (ra_jobs a),
           ra_networks := ra_networks a @ [\<lparr>dn_name = name, dn_labels = labels\<rparr>]\<rparr>)"

definition link_network_exists ::
    "(string \<Rightarrow> string) \<Rightarrow> observed_application \<Rightarrow> link \<Rightarrow> resolved_application \<Rightarrow> bool" where
  "link_network_exists sha observed link a \<longleftrightarrow>
     list_ex (\<lambda>network. on_name network = network_for_link sha (lk_importer link) (ra_id a)
         \<and> network_is_owned_by sha network (ra_instance_id a) (lk_importer link)
         \<and> Mapping.lookup (on_labels network) LINK_LABEL = Some (ra_id a))
       (oa_linked_networks observed)"

definition export_service :: "string \<Rightarrow> link \<Rightarrow> desired_service \<Rightarrow> desired_service" where
  "export_service name link s =
     (if ds_logical_name s \<in> lk_services link
      then (push_network name s)\<lparr>ds_link_aliases :=
        Mapping.update name (link_alias (ds_logical_name s) (lk_exporter_application link))
          (ds_link_aliases s)\<rparr>
      else s)"

definition link_project ::
    "(string \<Rightarrow> string) \<Rightarrow> observed_application \<Rightarrow> link \<Rightarrow> resolved_application
     \<Rightarrow> resolved_application" where
  "link_project sha observed link a =
     (if lk_importer link = ra_id a \<and> ra_services a \<noteq> [] then import_link sha link a
      else if lk_exporter link = ra_id a then
        (if \<not> link_network_exists sha observed link a then a
         else a\<lparr>ra_services := map (export_service
                (network_for_link sha (lk_importer link) (ra_id a)) link) (ra_services a)\<rparr>)
      else a)"

definition with_links ::
    "(string \<Rightarrow> string) \<Rightarrow> link list \<Rightarrow> observed_application \<Rightarrow> resolved_application
     \<Rightarrow> resolved_application" where
  "with_links sha ls observed a =
     (let a = fold (link_project sha observed) ls a;
          a = a\<lparr>ra_services := map (\<lambda>s. s\<lparr>ds_networks := sort (ds_networks s)\<rparr>) (ra_services a)\<rparr>
      in a\<lparr>ra_networks := sort_key dn_name (ra_networks a)\<rparr>)"

section \<open>The ingress projection\<close>

abbreviation routed :: "validated_route list \<Rightarrow> logical_name \<Rightarrow> bool" where
  "routed routes name \<equiv> list_ex (\<lambda>route. target_service (vr_target route) = Some name) routes"

lemma ingress_service_fields [simp]:
  "ds_logical_name (ingress_service name enabled routes s) = ds_logical_name s"
  "ds_name (ingress_service name enabled routes s) = ds_name s"
  "ds_replicas (ingress_service name enabled routes s) = ds_replicas s"
  "ds_depends_on (ingress_service name enabled routes s) = ds_depends_on s"
  "ds_labels (ingress_service name enabled routes s) = ds_labels s"
  by (simp_all add: ingress_service_def Let_def)

lemma ingress_service_networks:
  "set (ds_networks (ingress_service name enabled routes s)) =
     set (ds_networks s) - {name} \<union>
       (if enabled \<and> routed routes (ds_logical_name s) then {name} else {})"
  by (auto simp: ingress_service_def Let_def)

text \<open>Sorting again after a stable sort and an insertion at the end is one sort.\<close>

lemma sort_key_resort: "sort_key f (sort_key f ys @ xs) = sort_key f (ys @ xs)"
proof (rule properties_for_sort_key)
  show "filter (\<lambda>x. f k = f x) (sort_key f (ys @ xs)) = filter (\<lambda>x. f k = f x) (sort_key f ys @ xs)" for k
    using sort_key_stable [of f "f k" "ys @ xs"] sort_key_stable [of f "f k" ys]
    by (simp add: eq_commute)
qed simp_all

lemma sort_key_readd:
  assumes "\<And>y. y \<in> set ys \<Longrightarrow> f y \<noteq> f x"
  shows "sort_key f (filter (\<lambda>y. f y \<noteq> f x) (sort_key f (ys @ [x])) @ [x]) = sort_key f (ys @ [x])"
proof -
  have "filter (\<lambda>y. f y \<noteq> f x) ys = ys" using assms by (simp add: filter_id_conv)
  then have "filter (\<lambda>y. f y \<noteq> f x) (sort_key f (ys @ [x])) = sort_key f ys"
    by (simp add: filter_sort)
  then show ?thesis by (simp add: sort_key_resort)
qed

lemma ingress_service_idem:
  "ingress_service name enabled routes (ingress_service name enabled routes s)
   = ingress_service name enabled routes s"
proof (cases "enabled \<and> routed routes (ds_logical_name s)")
  case True
  have "sort (filter (\<lambda>x. x \<noteq> name) (sort (filter (\<lambda>x. x \<noteq> name) (ds_networks s) @ [name])) @ [name])
      = sort (filter (\<lambda>x. x \<noteq> name) (ds_networks s) @ [name])"
    by (rule sort_key_readd) simp
  with True show ?thesis
    by (simp add: ingress_service_def Let_def)
next
  case False
  then have f: "ingress_service name enabled routes t = t\<lparr>ds_networks := filter (\<lambda>x. x \<noteq> name) (ds_networks t)\<rparr>"
    if "ds_logical_name t = ds_logical_name s" for t
    using that by (auto simp: ingress_service_def Let_def)
  show ?thesis by (simp add: f)
qed

lemma ingress_routes_simps [simp]:
  "ra_id (with_ingress_routes sha enabled accepted a) = ra_id a"
  "ra_routes (with_ingress_routes sha enabled accepted a) = ra_routes a"
  "ra_instance_id (with_ingress_routes sha enabled accepted a) = ra_instance_id a"
  "ra_spec_hash (with_ingress_routes sha enabled accepted a) = ra_spec_hash a"
  "ra_volumes (with_ingress_routes sha enabled accepted a) = ra_volumes a"
  "ra_jobs (with_ingress_routes sha enabled accepted a) = ra_jobs a"
  "ra_services (with_ingress_routes sha enabled accepted a) =
     map (ingress_service (network_for_ingress sha (ra_id a)) enabled (ra_routes a @ accepted))
       (ra_services a)"
  by (simp_all add: with_ingress_routes_def Let_def)

abbreviation proxied :: "validated_route list \<Rightarrow> bool" where
  "proxied routes \<equiv> list_ex (\<lambda>route. target_service (vr_target route) \<noteq> None) routes"

lemma target_ownership_updates [simp]:
  "target_ownership (a\<lparr>ra_networks := n\<rparr>) = target_ownership a"
  "target_ownership (a\<lparr>ra_services := ss\<rparr>) = target_ownership a"
  "target_ownership (a\<lparr>ra_jobs := js\<rparr>) = target_ownership a"
  by (simp_all add: target_ownership_def)

lemma ingress_routes_networks:
  "ra_networks (with_ingress_routes sha enabled accepted a) =
     (let name = network_for_ingress sha (ra_id a);
          others = filter (\<lambda>network. dn_name network \<noteq> name) (ra_networks a)
      in if enabled \<and> proxied (ra_routes a @ accepted)
         then sort_key dn_name (others
           @ [\<lparr>dn_name = name, dn_labels = ownership_labels (target_ownership a)\<rparr>])
         else others)"
  by (auto simp: with_ingress_routes_def Let_def)

lemma ingress_routes_idem:
  "with_ingress_routes sha enabled accepted (with_ingress_routes sha enabled accepted a)
   = with_ingress_routes sha enabled accepted a"
proof (rule resolved_application.equality)
  let ?p = "with_ingress_routes sha enabled accepted"
  have own: "target_ownership (with_ingress_routes sha e acc b) = target_ownership b" for e acc b
    by (simp add: target_ownership_def)
  show "ra_services (?p (?p a)) = ra_services (?p a)"
    by (simp add: ingress_service_idem)
  show "ra_networks (?p (?p a)) = ra_networks (?p a)"
  proof -
    let ?n = "\<lparr>dn_name = network_for_ingress sha (ra_id a), dn_labels = ownership_labels (target_ownership a)\<rparr>"
    have "sort_key dn_name (filter (\<lambda>y. dn_name y \<noteq> dn_name ?n) (sort_key dn_name
          (filter (\<lambda>y. dn_name y \<noteq> dn_name ?n) (ra_networks a) @ [?n])) @ [?n])
        = sort_key dn_name (filter (\<lambda>y. dn_name y \<noteq> dn_name ?n) (ra_networks a) @ [?n])"
      by (rule sort_key_readd) simp
    then show ?thesis
      unfolding ingress_routes_networks [of _ _ _ "?p a"]
      by (auto simp: own Let_def ingress_routes_networks [of _ _ _ a])
  qed
qed (simp_all add: with_ingress_routes_def Let_def)

section \<open>The link projection\<close>

lemma link_project_simps [simp]:
  "ra_id (link_project sha observed link a) = ra_id a"
  "ra_instance_id (link_project sha observed link a) = ra_instance_id a"
  "ra_spec_hash (link_project sha observed link a) = ra_spec_hash a"
  "ra_routes (link_project sha observed link a) = ra_routes a"
  by (simp_all add: link_project_def import_link_def Let_def)

lemma target_ownership_project [simp]:
  "target_ownership (link_project sha observed link a) = target_ownership a"
  by (simp add: target_ownership_def)

text \<open>What one link adds to one service, and to the networks of the target.\<close>

definition link_joins ::
    "(string \<Rightarrow> string) \<Rightarrow> observed_application \<Rightarrow> resolved_application \<Rightarrow> link \<Rightarrow> logical_name \<Rightarrow> string option" where
  "link_joins sha observed a link service =
     (if lk_importer link = ra_id a then Some (network_for_link sha (ra_id a) (lk_exporter link))
      else if lk_exporter link = ra_id a \<and> link_network_exists sha observed link a
        \<and> service \<in> lk_services link
      then Some (network_for_link sha (lk_importer link) (ra_id a)) else None)"

lemma link_exists_cong:
  "ra_id a = ra_id b \<Longrightarrow> ra_instance_id a = ra_instance_id b \<Longrightarrow>
     link_network_exists sha observed link a = link_network_exists sha observed link b"
  by (simp add: link_network_exists_def)

lemma link_joins_project [simp]:
  "link_joins sha observed (link_project sha observed l a) = link_joins sha observed a"
  by (simp add: link_joins_def fun_eq_iff link_exists_cong [of "link_project sha observed l a" a])

definition joined :: "desired_service \<Rightarrow> string option \<Rightarrow> desired_service \<Rightarrow> bool" where
  "joined s n s' \<longleftrightarrow> ds_logical_name s' = ds_logical_name s \<and> ds_name s' = ds_name s
     \<and> ds_networks s' = ds_networks s @ (case n of None \<Rightarrow> [] | Some n \<Rightarrow> [n])"

lemma link_project_services:
  "list_all2 (\<lambda>s s'. joined s (link_joins sha observed a link (ds_logical_name s)) s')
     (ra_services a) (ra_services (link_project sha observed link a))"
  by (auto simp: link_project_def import_link_def Let_def link_joins_def joined_def
      push_network_def export_service_def list.rel_map intro!: list.rel_refl_strong)

lemma link_fold_services:
  "list_all2 (\<lambda>s s'. ds_logical_name s' = ds_logical_name s \<and> ds_name s' = ds_name s
       \<and> ds_networks s' = ds_networks s @ List.map_filter (\<lambda>l. link_joins sha observed a l (ds_logical_name s)) ls)
     (ra_services a) (ra_services (fold (link_project sha observed) ls a))"
proof (induction ls arbitrary: a)
  case Nil
  show ?case by (simp add: List.map_filter_simps list.rel_refl_strong)
next
  case (Cons l ls)
  let ?a = "link_project sha observed l a"
  have rest: "list_all2 (\<lambda>s s'. ds_logical_name s' = ds_logical_name s \<and> ds_name s' = ds_name s
       \<and> ds_networks s' = ds_networks s @ List.map_filter (\<lambda>l. link_joins sha observed a l (ds_logical_name s)) ls)
     (ra_services ?a) (ra_services (fold (link_project sha observed) ls ?a))"
    using Cons.IH [of ?a] by simp
  have step: "ds_logical_name u = ds_logical_name s \<and> ds_name u = ds_name s
      \<and> ds_networks u = ds_networks s @ List.map_filter (\<lambda>l. link_joins sha observed a l (ds_logical_name s)) (l # ls)"
    if "joined s (link_joins sha observed a l (ds_logical_name s)) t"
      and "ds_logical_name u = ds_logical_name t \<and> ds_name u = ds_name t
       \<and> ds_networks u = ds_networks t @ List.map_filter (\<lambda>l. link_joins sha observed a l (ds_logical_name t)) ls"
    for s t u
    using that by (auto simp: joined_def List.map_filter_simps split: option.splits)
  show ?case
    using list_all2_trans [OF step link_project_services rest] by simp
qed

lemma with_links_services:
  "list_all2 (\<lambda>s s'. ds_logical_name s' = ds_logical_name s \<and> ds_name s' = ds_name s
       \<and> ds_networks s' = sort (ds_networks s
           @ List.map_filter (\<lambda>l. link_joins sha observed a l (ds_logical_name s)) ls))
     (ra_services a) (ra_services (with_links sha ls observed a))"
  unfolding with_links_def Let_def
  by (auto simp: list.rel_map intro: list_all2_mono [OF link_fold_services])

lemma link_joins_iff:
  "link_joins sha observed a l service = Some n \<longleftrightarrow>
     lk_importer l = ra_id a \<and> n = network_for_link sha (ra_id a) (lk_exporter l)
     \<or> lk_importer l \<noteq> ra_id a \<and> lk_exporter l = ra_id a \<and> service \<in> lk_services l
       \<and> link_network_exists sha observed l a \<and> n = network_for_link sha (lk_importer l) (ra_id a)"
  by (auto simp: link_joins_def)

section \<open>Properties\<close>

text \<open>Projecting ingress is idempotent and exact: a service is attached to the environment's ingress
  network exactly when ingress is enabled and a desired or still accepted route proxies to it,
  its other networks stay, and the target has the ingress network exactly when ingress is
  enabled and some route proxies to a service.\<close>

theorem ingress_projection_exact:
  "with_ingress_routes sha enabled accepted (with_ingress_routes sha enabled accepted a)
     = with_ingress_routes sha enabled accepted a
   \<and> list_all2 (\<lambda>s s'. set (ds_networks s') = set (ds_networks s) - {network_for_ingress sha (ra_id a)}
        \<union> (if enabled \<and> routed (ra_routes a @ accepted) (ds_logical_name s)
            then {network_for_ingress sha (ra_id a)} else {}))
      (ra_services a) (ra_services (with_ingress_routes sha enabled accepted a))
   \<and> (network_for_ingress sha (ra_id a) \<in> set (map dn_name (ra_networks (with_ingress_routes sha enabled accepted a)))
      \<longleftrightarrow> enabled \<and> proxied (ra_routes a @ accepted))"
proof (intro conjI)
  show "list_all2 (\<lambda>s s'. set (ds_networks s') = set (ds_networks s) - {network_for_ingress sha (ra_id a)}
        \<union> (if enabled \<and> routed (ra_routes a @ accepted) (ds_logical_name s)
            then {network_for_ingress sha (ra_id a)} else {}))
      (ra_services a) (ra_services (with_ingress_routes sha enabled accepted a))"
    by (simp add: list.rel_map ingress_service_networks list.rel_refl_strong del: list_ex_append)
  show "network_for_ingress sha (ra_id a) \<in> set (map dn_name (ra_networks (with_ingress_routes sha enabled accepted a)))
      \<longleftrightarrow> enabled \<and> proxied (ra_routes a @ accepted)"
    by (auto simp: ingress_routes_networks Let_def)
qed (rule ingress_routes_idem)

text \<open>Projecting links attaches exactly what the links grant: every service of the importer joins
  the importer's network to each exporter it links to; a service of the exporter joins a link
  network only when the link names that service and the importer's network was observed to
  exist with the importer as its owner. No other service and no other network is touched.\<close>

theorem link_projection_exact:
  "list_all2 (\<lambda>s s'. ds_name s' = ds_name s \<and> set (ds_networks s') = set (ds_networks s) \<union>
      {n. \<exists>l \<in> set ls.
          lk_importer l = ra_id a \<and> n = network_for_link sha (ra_id a) (lk_exporter l)
          \<or> lk_importer l \<noteq> ra_id a \<and> lk_exporter l = ra_id a
            \<and> ds_logical_name s \<in> lk_services l
            \<and> link_network_exists sha observed l a
            \<and> n = network_for_link sha (lk_importer l) (ra_id a)})
    (ra_services a) (ra_services (with_links sha ls observed a))"
proof (rule list_all2_mono [OF with_links_services [of sha observed a ls]])
  fix s s' :: desired_service
  assume "ds_logical_name s' = ds_logical_name s \<and> ds_name s' = ds_name s
       \<and> ds_networks s' = sort (ds_networks s
           @ List.map_filter (\<lambda>l. link_joins sha observed a l (ds_logical_name s)) ls)"
  then show "ds_name s' = ds_name s \<and> set (ds_networks s') = set (ds_networks s) \<union>
      {n. \<exists>l \<in> set ls.
          lk_importer l = ra_id a \<and> n = network_for_link sha (ra_id a) (lk_exporter l)
          \<or> lk_importer l \<noteq> ra_id a \<and> lk_exporter l = ra_id a
            \<and> ds_logical_name s \<in> lk_services l
            \<and> link_network_exists sha observed l a
            \<and> n = network_for_link sha (lk_importer l) (ra_id a)}"
    by (simp add: set_eq_iff in_set_map_filter link_joins_iff)
qed

end
