(* ===== verification/Plan.thy ===== *)
theory Plan
  imports Projections
begin

text \<open>
  Plans: \<open>crates/piqueld-core/src/planner.rs\<close>, its types and the operations on a single plan.

  Actions with their reasons, diagnostics, the counts of a plan, the next repair, and whether only
  cleanup is left. How a plan is computed is in theory \<open>Planner\<close>.
\<close>

section \<open>Actions\<close>

datatype action_risk = Risk_None | Risk_Availability | Risk_Data_Adjacent | Risk_Destructive

datatype action_reason =
    Reason_Missing
  | Reason_Drift "string list"
  | Reason_Obsolete
  | Reason_Convergence_Pending
  | Reason_Resolution_Required
  | Reason_Application_Deletion
  | Reason_Volume_Retention_Policy
  | Reason_Deployment_Job

datatype action_kind =
    Build_Git string
  | Resolve_Image string string
  | Ensure_Network desired_network
  | Ensure_Volume desired_volume
  | Ensure_Service desired_service
  | Wait_For_Service string
  | Wait_For_Service_Removal string
  | Remove_Service string
  | Remove_Network string
  | Retain_Volume string
  | Run_Job string

fun resource_name :: "action_kind \<Rightarrow> string" where
  "resource_name (Ensure_Network network) = dn_name network"
| "resource_name (Ensure_Volume volume) = dv_name volume"
| "resource_name (Ensure_Service service) = ds_name service"
| "resource_name (Remove_Service name) = name"
| "resource_name (Remove_Network name) = name"
| "resource_name (Retain_Volume name) = name"
| "resource_name (Wait_For_Service service) = service"
| "resource_name (Wait_For_Service_Removal service) = service"
| "resource_name (Resolve_Image service _) = service"
| "resource_name (Build_Git service) = service"
| "resource_name (Run_Job job) = job"

fun action_secrets :: "action_kind \<Rightarrow> secret_file list" where
  "action_secrets (Ensure_Service service) = ds_secrets service"
| "action_secrets _ = []"

fun risk :: "action_kind \<Rightarrow> action_risk" where
  "risk (Ensure_Volume _) = Risk_Data_Adjacent"
| "risk (Run_Job _) = Risk_Data_Adjacent"
| "risk (Ensure_Service _) = Risk_Availability"
| "risk (Remove_Service _) = Risk_Destructive"
| "risk (Remove_Network _) = Risk_Destructive"
| "risk (Build_Git _) = Risk_None"
| "risk (Resolve_Image _ _) = Risk_None"
| "risk (Ensure_Network _) = Risk_None"
| "risk (Wait_For_Service _) = Risk_None"
| "risk (Wait_For_Service_Removal _) = Risk_None"
| "risk (Retain_Volume _) = Risk_None"

fun mutates_runtime :: "action_kind \<Rightarrow> bool" where
  "mutates_runtime (Ensure_Network _) = True"
| "mutates_runtime (Ensure_Volume _) = True"
| "mutates_runtime (Ensure_Service _) = True"
| "mutates_runtime (Remove_Service _) = True"
| "mutates_runtime (Remove_Network _) = True"
| "mutates_runtime _ = False"

definition destructive :: "action_kind \<Rightarrow> bool" where
  "destructive kind \<longleftrightarrow> risk kind = Risk_Destructive"

fun action_name :: "action_kind \<Rightarrow> string" where
  "action_name (Build_Git _) = ''build_git''"
| "action_name (Resolve_Image _ _) = ''resolve_image''"
| "action_name (Ensure_Network _) = ''ensure_network''"
| "action_name (Ensure_Volume _) = ''ensure_volume''"
| "action_name (Ensure_Service _) = ''ensure_service''"
| "action_name (Wait_For_Service _) = ''wait_for_service''"
| "action_name (Wait_For_Service_Removal _) = ''wait_for_service_removal''"
| "action_name (Remove_Service _) = ''remove_service''"
| "action_name (Remove_Network _) = ''remove_network''"
| "action_name (Retain_Volume _) = ''retain_volume''"
| "action_name (Run_Job _) = ''run_job''"

text \<open>\<open>Display for ActionKind\<close>: the verb and the resource.\<close>

fun verb_and_resource :: "action_kind \<Rightarrow> string \<times> string" where
  "verb_and_resource (Build_Git service) = (''BUILD GIT'', service)"
| "verb_and_resource (Resolve_Image service _) = (''RESOLVE IMAGE'', service)"
| "verb_and_resource (Ensure_Network network) = (''ENSURE NETWORK'', dn_name network)"
| "verb_and_resource (Ensure_Volume volume) = (''ENSURE VOLUME'', dv_name volume)"
| "verb_and_resource (Ensure_Service service) = (''ENSURE SERVICE'', ds_logical_name service)"
| "verb_and_resource (Wait_For_Service service) = (''WAIT SERVICE'', service)"
| "verb_and_resource (Wait_For_Service_Removal service) = (''WAIT SERVICE REMOVAL'', service)"
| "verb_and_resource (Remove_Service name) = (''REMOVE SERVICE'', name)"
| "verb_and_resource (Remove_Network name) = (''REMOVE NETWORK'', name)"
| "verb_and_resource (Retain_Volume name) = (''RETAIN VOLUME'', name)"
| "verb_and_resource (Run_Job job) = (''RUN JOB'', job)"

definition show_action :: "action_kind \<Rightarrow> string" where
  "show_action kind = (let (verb, resource) = verb_and_resource kind in verb @ '' '' @ resource)"

record plan_action =
  pa_kind :: action_kind
  pa_reason :: action_reason

definition new_action :: "action_kind \<Rightarrow> action_reason \<Rightarrow> plan_action" where
  "new_action kind reason = \<lparr>pa_kind = kind, pa_reason = reason\<rparr>"

definition wait_for_service :: "string \<Rightarrow> plan_action" where
  "wait_for_service service = new_action (Wait_For_Service service) Reason_Convergence_Pending"

definition wait_for_service_removal :: "string \<Rightarrow> plan_action" where
  "wait_for_service_removal service =
     new_action (Wait_For_Service_Removal service) Reason_Convergence_Pending"

definition human_description :: "plan_action \<Rightarrow> string" where
  "human_description action = show_action (pa_kind action)"

section \<open>Diagnostics\<close>

datatype diagnostic_severity = Info | Warning | Error

record plan_diagnostic =
  pd_code :: string
  pd_severity :: diagnostic_severity
  pd_resource :: string
  pd_message :: string
  pd_blocking :: bool

definition new_diagnostic ::
    "string \<Rightarrow> diagnostic_severity \<Rightarrow> string \<Rightarrow> string \<Rightarrow> plan_diagnostic" where
  "new_diagnostic code severity resource message =
     \<lparr>pd_code = code, pd_severity = severity, pd_resource = resource, pd_message = message,
      pd_blocking = (severity = Error)\<rparr>"

section \<open>Plans\<close>

record plan =
  pl_actions :: "plan_action list"
  pl_diagnostics :: "plan_diagnostic list"

record plan_summary =
  ps_action_count :: nat
  ps_mutation_count :: nat
  ps_destructive_count :: nat
  ps_blocking_conflicts :: nat
  ps_by_action :: "(string, nat) mapping"

definition plan_default :: plan where
  "plan_default = \<lparr>pl_actions = [], pl_diagnostics = []\<rparr>"

definition push_action :: "action_kind \<Rightarrow> action_reason \<Rightarrow> plan \<Rightarrow> plan" where
  "push_action kind reason p = p\<lparr>pl_actions := pl_actions p @ [new_action kind reason]\<rparr>"

definition push_diagnostic :: "plan_diagnostic \<Rightarrow> plan \<Rightarrow> plan" where
  "push_diagnostic d p = p\<lparr>pl_diagnostics := pl_diagnostics p @ [d]\<rparr>"

definition is_blocked :: "plan \<Rightarrow> bool" where
  "is_blocked p \<longleftrightarrow> list_ex pd_blocking (pl_diagnostics p)"

definition has_mutations :: "plan \<Rightarrow> bool" where
  "has_mutations p \<longleftrightarrow> list_ex (\<lambda>action. mutates_runtime (pa_kind action)) (pl_actions p)"

definition sort_diagnostics :: "plan \<Rightarrow> plan" where
  "sort_diagnostics p =
     p\<lparr>pl_diagnostics := sort_key (\<lambda>d. (pd_resource d, pd_code d)) (pl_diagnostics p)\<rparr>"

definition count_action :: "plan_action \<Rightarrow> (string, nat) mapping \<Rightarrow> (string, nat) mapping" where
  "count_action action by_action =
     (let name = action_name (pa_kind action) in
      Mapping.update name (case Mapping.lookup by_action name of None \<Rightarrow> 1 | Some n \<Rightarrow> n + 1) by_action)"

definition plan_summary_of :: "plan \<Rightarrow> plan_summary" where
  "plan_summary_of p =
     \<lparr>ps_action_count = length (pl_actions p),
      ps_mutation_count = length (filter (\<lambda>a. mutates_runtime (pa_kind a)) (pl_actions p)),
      ps_destructive_count = length (filter (\<lambda>a. destructive (pa_kind a)) (pl_actions p)),
      ps_blocking_conflicts = length (filter pd_blocking (pl_diagnostics p)),
      ps_by_action = fold count_action (pl_actions p) Mapping.empty\<rparr>"

text \<open>The kinds \<open>next_repair\<close> stops at: the first mutation or convergence wait.\<close>

fun repair_stop :: "action_kind \<Rightarrow> bool" where
  "repair_stop (Wait_For_Service _) = True"
| "repair_stop kind = mutates_runtime kind"

definition next_repair :: "plan \<Rightarrow> plan_action option" where
  "next_repair p =
     (case List.find (\<lambda>action. repair_stop (pa_kind action)) (pl_actions p) of
        None \<Rightarrow> None
      | Some action \<Rightarrow> if mutates_runtime (pa_kind action) then Some action else None)"

fun cleanup_kind :: "action_kind \<Rightarrow> bool" where
  "cleanup_kind (Remove_Service _) = True"
| "cleanup_kind (Remove_Network _) = True"
| "cleanup_kind (Retain_Volume _) = True"
| "cleanup_kind (Wait_For_Service_Removal _) = True"
| "cleanup_kind _ = False"

definition desired_resources_ready :: "plan \<Rightarrow> bool" where
  "desired_resources_ready p \<longleftrightarrow>
     \<not> is_blocked p \<and> list_all (\<lambda>action. cleanup_kind (pa_kind action)) (pl_actions p)"

section \<open>Facts\<close>

lemma push_simps [plan_simps]:
  "pl_actions (push_action kind reason p) = pl_actions p @ [new_action kind reason]"
  "pl_diagnostics (push_action kind reason p) = pl_diagnostics p"
  "pl_actions (push_diagnostic d p) = pl_actions p"
  "pl_diagnostics (push_diagnostic d p) = pl_diagnostics p @ [d]"
  by (simp_all add: push_action_def push_diagnostic_def)

lemma action_simps [plan_simps]:
  "pa_kind (new_action kind reason) = kind" "pa_reason (new_action kind reason) = reason"
  "pa_kind (wait_for_service name) = Wait_For_Service name"
  "pa_kind (wait_for_service_removal name) = Wait_For_Service_Removal name"
  by (simp_all add: new_action_def wait_for_service_def wait_for_service_removal_def)

lemma diagnostic_simps [plan_simps]:
  "pd_blocking (new_diagnostic code severity resource message) \<longleftrightarrow> severity = Error"
  "pd_resource (new_diagnostic code severity resource message) = resource"
  "pd_code (new_diagnostic code severity resource message) = code"
  by (simp_all add: new_diagnostic_def)

lemma blocked_simps [plan_simps]:
  "\<not> is_blocked plan_default"
  "is_blocked (push_action kind reason p) \<longleftrightarrow> is_blocked p"
  "is_blocked (push_diagnostic d p) \<longleftrightarrow> is_blocked p \<or> pd_blocking d"
  "is_blocked (p\<lparr>pl_actions := as\<rparr>) \<longleftrightarrow> is_blocked p"
  "is_blocked (sort_diagnostics p) \<longleftrightarrow> is_blocked p"
  by (auto simp: is_blocked_def plan_default_def push_action_def push_diagnostic_def
      sort_diagnostics_def list_ex_iff)

lemma plan_default_simps [plan_simps]:
  "pl_actions plan_default = []" "pl_diagnostics plan_default = []"
  by (simp_all add: plan_default_def)

lemma sort_diagnostics_simps [plan_simps]:
  "pl_actions (sort_diagnostics p) = pl_actions p"
  "mset (pl_diagnostics (sort_diagnostics p)) = mset (pl_diagnostics p)"
  by (simp_all add: sort_diagnostics_def)

lemma kind_facts:
  "cleanup_kind k \<Longrightarrow> mutates_runtime k \<longleftrightarrow> destructive k"
  "destructive k \<Longrightarrow> mutates_runtime k"
  by (cases k; simp add: destructive_def)+

lemma count_action_lookup:
  "Mapping.lookup (count_action a m) name =
     (if action_name (pa_kind a) = name
      then Some (Suc (Mapping.lookup_default 0 m name)) else Mapping.lookup m name)"
  by (auto simp: count_action_def Let_def lookup_default_def lookup_update' split: option.splits)

lemma count_actions:
  "Mapping.lookup_default 0 (fold count_action as m) name =
     Mapping.lookup_default 0 m name + length (filter (\<lambda>a. action_name (pa_kind a) = name) as)"
  "Mapping.keys (fold count_action as m) = Mapping.keys m \<union> (action_name \<circ> pa_kind) ` set as"
proof (induction as arbitrary: m)
  case (Cons a as)
  { case 1
    show ?case by (simp add: Cons.IH(1)) (simp add: lookup_default_def count_action_lookup)
  next
    case 2
    show ?case by (simp add: Cons.IH(2)) (auto simp: mapping_keys_iff count_action_lookup) }
qed simp_all

text \<open>\<open>next_repair\<close> splits the plan at the action it returns.\<close>

lemma next_repair_split:
  assumes "next_repair p = Some action"
  obtains pre post where "pl_actions p = pre @ action # post"
    and "list_all (\<lambda>a. \<not> repair_stop (pa_kind a)) pre" and "mutates_runtime (pa_kind action)"
proof -
  from assms have f: "List.find (\<lambda>a. repair_stop (pa_kind a)) (pl_actions p) = Some action"
    and m: "mutates_runtime (pa_kind action)"
    by (auto simp: next_repair_def split: option.splits if_splits)
  from f obtain i where i: "i < length (pl_actions p)" "action = pl_actions p ! i"
    "\<forall>j<i. \<not> repair_stop (pa_kind (pl_actions p ! j))"
    by (auto simp: find_Some_iff)
  have "pl_actions p = take i (pl_actions p) @ action # drop (Suc i) (pl_actions p)"
    using i by (simp add: id_take_nth_drop)
  moreover have "list_all (\<lambda>a. \<not> repair_stop (pa_kind a)) (take i (pl_actions p))"
    using i by (auto simp: list_all_length)
  ultimately show ?thesis using m by (rule that)
qed

end
