(* ===== verification/Planner.thy ===== *)
theory Planner
  imports Plan
begin

text \<open>
  How a plan is computed: \<open>Plan::reconcile\<close>, \<open>Plan::deletion\<close> and \<open>Plan::from_request\<close> of
  \<open>crates/piqueld-core/src/planner.rs\<close>.

  \<open>&mut self\<close> is the plan threaded through every step, \<open>&mut BTreeSet\<close> the set \<open>seen\<close> threaded beside
  it, and each \<open>for\<close> loop a \<open>fold\<close> of its step.
\<close>

section \<open>Requests\<close>

datatype resolution_requirement =
    Require_Image logical_name string
  | Require_Build logical_name validated_source

datatype plan_request =
    Reconcile resolved_application
  | Delete environment_id instance_id
  | Preview "resolution_requirement list" "resolved_application option"

section \<open>Diagnostics of planning\<close>

definition collision :: "string \<Rightarrow> plan \<Rightarrow> string set \<Rightarrow> plan \<times> string set" where
  "collision name p seen =
     (if name \<in> seen then (p, seen)
      else (push_diagnostic (new_diagnostic ''unowned_name_collision'' Error name
          ''a same-name resource is not owned by this piqueld application and will not be changed'') p,
        insert name seen))"

definition immutable_drift :: "string \<Rightarrow> string \<Rightarrow> plan \<Rightarrow> plan" where
  "immutable_drift name resource =
     push_diagnostic (new_diagnostic ''immutable_configuration_drift'' Error name
       (''the '' @ resource @ '' configuration differs from the desired immutable settings and cannot be repaired in place''))"

definition ignored :: "string \<Rightarrow> plan \<Rightarrow> plan" where
  "ignored name =
     push_diagnostic (new_diagnostic ''foreign_resource_ignored'' Info name
       ''foreign or unowned resource is outside this plan'')"

definition cleanup_deferred :: "string \<Rightarrow> string \<Rightarrow> plan \<Rightarrow> plan" where
  "cleanup_deferred name resource =
     push_diagnostic (new_diagnostic ''cleanup_deferred'' Info name
       (''the '' @ resource @ '' remains until earlier desired changes converge; cleanup is deferred''))"

definition link_cleanup_deferred :: "string \<Rightarrow> plan \<Rightarrow> plan" where
  "link_cleanup_deferred name =
     push_diagnostic (new_diagnostic ''cleanup_deferred'' Info name
       ''the link network remains until the exporting environment's services leave it'')"

definition update_failed :: "string \<Rightarrow> plan \<Rightarrow> plan" where
  "update_failed name =
     push_diagnostic (new_diagnostic ''service_update_failed'' Error name
       ''service update failed; inspect the operation and Docker task state'')"

section \<open>Networks and volumes\<close>

definition relevant_network_labels :: "labels \<Rightarrow> labels" where
  "relevant_network_labels l =
     Mapping.filter (\<lambda>key value. prefix ''io.piqueld.'' key \<and> key \<noteq> SPEC_HASH_LABEL) l"

definition ensure_network ::
    "(string \<Rightarrow> string) \<Rightarrow> resolved_application \<Rightarrow> observed_application \<Rightarrow> desired_network
     \<Rightarrow> bool \<times> plan \<times> string set \<Rightarrow> bool \<times> plan \<times> string set" where
  "ensure_network sha desired observed network = (\<lambda>(is_ready, p, seen).
     (case List.find (\<lambda>found. on_name found = dn_name network) (oa_networks observed) of
        None \<Rightarrow> (False, push_action (Ensure_Network network) Reason_Missing p, seen)
      | Some found \<Rightarrow>
          if \<not> network_matches_ownership sha found network desired
          then (False, collision (dn_name network) p seen)
          else if \<not> on_runtime_configuration_matches found
             \<or> relevant_network_labels (on_labels found) \<noteq> relevant_network_labels (dn_labels network)
          then (False, immutable_drift (dn_name network) ''network'' p, seen)
          else (is_ready, p, seen)))"

definition ensure_networks ::
    "(string \<Rightarrow> string) \<Rightarrow> resolved_application \<Rightarrow> observed_application
     \<Rightarrow> plan \<Rightarrow> string set \<Rightarrow> bool \<times> plan \<times> string set" where
  "ensure_networks sha desired observed p seen =
     fold (ensure_network sha desired observed) (ra_networks desired) (True, p, seen)"

definition ensure_volume ::
    "(string \<Rightarrow> string) \<Rightarrow> resolved_application \<Rightarrow> observed_application \<Rightarrow> desired_volume
     \<Rightarrow> bool \<times> plan \<times> string set \<Rightarrow> bool \<times> plan \<times> string set" where
  "ensure_volume sha desired observed volume = (\<lambda>(is_ready, p, seen).
     (case List.find (\<lambda>found. ov_name found = dv_name volume) (oa_volumes observed) of
        None \<Rightarrow> (False, push_action (Ensure_Volume volume) Reason_Missing p, seen)
      | Some found \<Rightarrow>
          if \<not> volume_is_owned_by sha found (ra_instance_id desired) (ra_id desired)
          then (False, collision (dv_name volume) p seen)
          else if \<not> ov_runtime_configuration_matches found
          then (False, immutable_drift (dv_name volume) ''volume'' p, seen)
          else (is_ready, p, seen)))"

definition ensure_volumes ::
    "(string \<Rightarrow> string) \<Rightarrow> resolved_application \<Rightarrow> observed_application
     \<Rightarrow> plan \<Rightarrow> string set \<Rightarrow> bool \<times> plan \<times> string set" where
  "ensure_volumes sha desired observed p seen =
     fold (ensure_volume sha desired observed) (ra_volumes desired) (True, p, seen)"

definition obsolete :: "('r \<Rightarrow> string) \<Rightarrow> string set \<Rightarrow> 'r list \<Rightarrow> 'r list" where
  "obsolete name wanted rs = filter (\<lambda>r. name r \<notin> wanted) (sort_key name rs)"

definition retain_volume ::
    "(string \<Rightarrow> string) \<Rightarrow> resolved_application \<Rightarrow> observed_volume \<Rightarrow> plan \<Rightarrow> plan" where
  "retain_volume sha desired volume p =
     (if volume_is_owned_by sha volume (ra_instance_id desired) (ra_id desired)
      then push_action (Retain_Volume (ov_name volume)) Reason_Volume_Retention_Policy p
      else ignored (ov_name volume) p)"

definition retain_obsolete_volumes ::
    "(string \<Rightarrow> string) \<Rightarrow> resolved_application \<Rightarrow> observed_application \<Rightarrow> plan \<Rightarrow> plan" where
  "retain_obsolete_volumes sha desired observed =
     fold (retain_volume sha desired)
       (obsolete ov_name (set (map dv_name (ra_volumes desired))) (oa_volumes observed))"

section \<open>Services\<close>

text \<open>
  The locals of \<open>ensure_services\<close>: \<open>ready\<close>, the plan, the colliding names, the pending waits by
  logical name and the deferred ensures.
\<close>

record service_pass =
  sv_ready :: bool
  sv_plan :: plan
  sv_seen :: "string set"
  sv_waits :: "(string \<times> plan_action) list"
  sv_deferred :: "(desired_service \<times> plan_action) list"

definition service_wait :: "desired_service \<Rightarrow> string \<times> plan_action" where
  "service_wait service = (ds_logical_name service, wait_for_service (ds_name service))"

definition waits_on_dependency :: "desired_service \<Rightarrow> (string \<times> plan_action) list \<Rightarrow> bool" where
  "waits_on_dependency service waits \<longleftrightarrow>
     0 < ds_replicas service
     \<and> list_ex (\<lambda>dependency. list_ex (\<lambda>(name, _). name = dependency) waits) (ds_depends_on service)"

text \<open>The end of the loop body: the ensure for \<open>reason\<close>, deferred or not, and its wait.\<close>

definition roll_out :: "desired_service \<Rightarrow> action_reason \<Rightarrow> service_pass \<Rightarrow> service_pass" where
  "roll_out service reason st =
     (let ensure = new_action (Ensure_Service service) reason;
          st = st\<lparr>sv_ready := False\<rparr>;
          st = (if waits_on_dependency service (sv_waits st)
                then st\<lparr>sv_deferred := sv_deferred st @ [(service, ensure)]\<rparr>
                else st\<lparr>sv_plan := push_action (Ensure_Service service) reason (sv_plan st)\<rparr>)
      in st\<lparr>sv_waits := sv_waits st @ [service_wait service]\<rparr>)"

definition ensure_service ::
    "(string \<Rightarrow> string) \<Rightarrow> resolved_application \<Rightarrow> observed_application \<Rightarrow> desired_service
     \<Rightarrow> service_pass \<Rightarrow> service_pass" where
  "ensure_service sha desired observed service st =
     (case List.find (\<lambda>found. os_name found = ds_name service) (oa_services observed) of
        None \<Rightarrow> roll_out service Reason_Missing st
      | Some found \<Rightarrow>
          if \<not> service_matches_ownership sha found service desired
          then let (p, seen) = collision (ds_name service) (sv_plan st) (sv_seen st)
               in st\<lparr>sv_ready := False, sv_plan := p, sv_seen := seen\<rparr>
          else if \<not> service_matches sha found service
          then roll_out service (Reason_Drift (drift sha found service)) st
          else (case os_convergence found of
              Converged \<Rightarrow> st
            | Updating \<Rightarrow> st\<lparr>sv_ready := False, sv_waits := sv_waits st @ [service_wait service]\<rparr>
            | Degraded \<Rightarrow> st\<lparr>sv_ready := False, sv_waits := sv_waits st @ [service_wait service]\<rparr>
            | Failed \<Rightarrow> st\<lparr>sv_ready := False,
                sv_plan := update_failed (ds_name service) (sv_plan st)\<rparr>))"

definition push_dependency_wait ::
    "string \<Rightarrow> plan \<times> (string \<times> plan_action) list \<Rightarrow> plan \<times> (string \<times> plan_action) list" where
  "push_dependency_wait dependency = (\<lambda>(p, waits).
     (case position (\<lambda>(name, _). name = dependency) waits of
        None \<Rightarrow> (p, waits)
      | Some index \<Rightarrow>
          (p\<lparr>pl_actions := pl_actions p @ [snd (waits ! index)]\<rparr>,
           take index waits @ drop (Suc index) waits)))"

definition push_deferred ::
    "desired_service \<times> plan_action \<Rightarrow> plan \<times> (string \<times> plan_action) list
     \<Rightarrow> plan \<times> (string \<times> plan_action) list" where
  "push_deferred = (\<lambda>(service, ensure) st.
     (let (p, waits) = fold push_dependency_wait (ds_depends_on service) st
      in (p\<lparr>pl_actions := pl_actions p @ [ensure]\<rparr>, waits)))"

definition service_sequence :: "resolved_application \<Rightarrow> desired_service list" where
  "service_sequence desired =
     (let (ordered, cyclic) = startup_order ds_logical_name ds_depends_on (ra_services desired)
      in ordered @ cyclic)"

definition finish_services :: "service_pass \<Rightarrow> bool \<times> plan \<times> string set" where
  "finish_services st =
     (let (p, waits) = fold push_deferred (sv_deferred st) (sv_plan st, sv_waits st)
      in (sv_ready st, p\<lparr>pl_actions := pl_actions p @ map snd waits\<rparr>, sv_seen st))"

definition ensure_services ::
    "(string \<Rightarrow> string) \<Rightarrow> resolved_application \<Rightarrow> observed_application
     \<Rightarrow> plan \<Rightarrow> string set \<Rightarrow> bool \<times> plan \<times> string set" where
  "ensure_services sha desired observed p seen =
     finish_services (fold (ensure_service sha desired observed) (service_sequence desired)
       \<lparr>sv_ready = True, sv_plan = p, sv_seen = seen, sv_waits = [], sv_deferred = []\<rparr>)"

section \<open>Cleanup\<close>

definition remove_service ::
    "(string \<Rightarrow> string) \<Rightarrow> resolved_application \<Rightarrow> bool \<Rightarrow> observed_service
     \<Rightarrow> plan \<times> plan_action list \<Rightarrow> plan \<times> plan_action list" where
  "remove_service sha desired cleanup_ready service = (\<lambda>(p, waits).
     (if service_is_owned_by sha service (ra_instance_id desired) (ra_id desired)
      then if cleanup_ready
        then (push_action (Remove_Service (os_name service)) Reason_Obsolete p,
              waits @ [wait_for_service_removal (os_name service)])
        else (cleanup_deferred (os_name service) ''service'' p, waits)
      else (ignored (os_name service) p, waits)))"

definition remove_obsolete_services ::
    "(string \<Rightarrow> string) \<Rightarrow> resolved_application \<Rightarrow> observed_application \<Rightarrow> bool \<Rightarrow> plan \<Rightarrow> plan" where
  "remove_obsolete_services sha desired observed cleanup_ready p =
     (let (p, waits) = fold (remove_service sha desired cleanup_ready)
            (obsolete os_name (set (map ds_name (ra_services desired))) (oa_services observed)) (p, [])
      in p\<lparr>pl_actions := pl_actions p @ waits\<rparr>)"

definition remove_network ::
    "(string \<Rightarrow> string) \<Rightarrow> resolved_application \<Rightarrow> bool \<Rightarrow> observed_network \<Rightarrow> plan \<Rightarrow> plan" where
  "remove_network sha desired cleanup_ready network p =
     (if network_is_owned_by sha network (ra_instance_id desired) (ra_id desired)
      then if network_is_linked_in_use network then link_cleanup_deferred (on_name network) p
        else if cleanup_ready then push_action (Remove_Network (on_name network)) Reason_Obsolete p
        else cleanup_deferred (on_name network) ''network'' p
      else ignored (on_name network) p)"

definition remove_obsolete_networks ::
    "(string \<Rightarrow> string) \<Rightarrow> resolved_application \<Rightarrow> observed_application \<Rightarrow> bool \<Rightarrow> plan \<Rightarrow> plan" where
  "remove_obsolete_networks sha desired observed cleanup_ready =
     fold (remove_network sha desired cleanup_ready)
       (obsolete on_name (set (map dn_name (ra_networks desired))) (oa_networks observed))"

section \<open>Reconciliation\<close>

definition ensure_resources ::
    "(string \<Rightarrow> string) \<Rightarrow> resolved_application \<Rightarrow> observed_application \<Rightarrow> bool \<times> plan" where
  "ensure_resources sha desired observed =
     (let (networks_ready, p, blocked) = ensure_networks sha desired observed plan_default {};
          (volumes_ready, p, blocked) = ensure_volumes sha desired observed p blocked;
          infrastructure_ready = (networks_ready \<and> volumes_ready);
          p = retain_obsolete_volumes sha desired observed p;
          (services_ready, p, blocked) = ensure_services sha desired observed p blocked
      in (infrastructure_ready \<and> services_ready \<and> \<not> is_blocked p, p))"

definition reconcile ::
    "(string \<Rightarrow> string) \<Rightarrow> resolved_application \<Rightarrow> observed_application \<Rightarrow> plan" where
  "reconcile sha desired observed =
     (let (cleanup_ready, p) = ensure_resources sha desired observed;
          p = remove_obsolete_services sha desired observed cleanup_ready p
      in remove_obsolete_networks sha desired observed cleanup_ready p)"

section \<open>Deletion\<close>

definition delete_service ::
    "(string \<Rightarrow> string) \<Rightarrow> environment_id \<Rightarrow> instance_id \<Rightarrow> observed_service
     \<Rightarrow> (plan \<times> plan_action list) \<times> string set \<Rightarrow> (plan \<times> plan_action list) \<times> string set" where
  "delete_service sha eid inst service = (\<lambda>((p, waits), seen).
     (if service_is_owned_by sha service inst eid
      then ((push_action (Remove_Service (os_name service)) Reason_Application_Deletion p,
             waits @ [wait_for_service_removal (os_name service)]), seen)
      else let (p, seen) = collision (os_name service) p seen in ((p, waits), seen)))"

definition delete_network ::
    "(string \<Rightarrow> string) \<Rightarrow> environment_id \<Rightarrow> instance_id \<Rightarrow> observed_network
     \<Rightarrow> plan \<times> string set \<Rightarrow> plan \<times> string set" where
  "delete_network sha eid inst network = (\<lambda>(p, seen).
     (if \<not> network_is_owned_by sha network inst eid then collision (on_name network) p seen
      else if network_is_linked_in_use network then (link_cleanup_deferred (on_name network) p, seen)
      else (push_action (Remove_Network (on_name network)) Reason_Application_Deletion p, seen)))"

definition delete_volume ::
    "(string \<Rightarrow> string) \<Rightarrow> environment_id \<Rightarrow> instance_id \<Rightarrow> observed_volume
     \<Rightarrow> plan \<times> string set \<Rightarrow> plan \<times> string set" where
  "delete_volume sha eid inst volume = (\<lambda>(p, seen).
     (if volume_is_owned_by sha volume inst eid
      then (push_action (Retain_Volume (ov_name volume)) Reason_Volume_Retention_Policy p, seen)
      else collision (ov_name volume) p seen))"

definition deletion ::
    "(string \<Rightarrow> string) \<Rightarrow> environment_id \<Rightarrow> instance_id \<Rightarrow> observed_application \<Rightarrow> plan" where
  "deletion sha eid inst observed =
     (let ((p, waits), seen) = fold (delete_service sha eid inst)
            (sort_key os_name (oa_services observed)) ((plan_default, []), {});
          p = p\<lparr>pl_actions := pl_actions p @ waits\<rparr>;
          (p, seen) = fold (delete_network sha eid inst) (sort_key on_name (oa_networks observed)) (p, seen);
          (p, seen) = fold (delete_volume sha eid inst) (sort_key ov_name (oa_volumes observed)) (p, seen)
      in p)"

section \<open>Plans of requests\<close>

fun resolution_action :: "resolution_requirement \<Rightarrow> plan_action" where
  "resolution_action (Require_Build service _) =
     new_action (Build_Git service) Reason_Resolution_Required"
| "resolution_action (Require_Image service reference) =
     new_action (Resolve_Image service reference) Reason_Resolution_Required"

definition from_request :: "(string \<Rightarrow> string) \<Rightarrow> plan_request \<Rightarrow> observed_application \<Rightarrow> plan" where
  "from_request sha request observed =
     sort_diagnostics (case request of
         Reconcile desired \<Rightarrow> reconcile sha desired observed
       | Delete eid inst \<Rightarrow> deletion sha eid inst observed
       | Preview unresolved desired \<Rightarrow>
           let p = (case desired of None \<Rightarrow> plan_default | Some d \<Rightarrow> reconcile sha d observed)
           in p\<lparr>pl_actions := map resolution_action unresolved @ pl_actions p\<rparr>)"

end
