(* ===== verification/Planner_Facts.thy ===== *)
theory Planner_Facts
  imports Planner
begin

text \<open>
  What each step of the planner leaves in the plan.

  Every loop of \<open>planner.rs\<close> is a \<open>plan_pass\<close>: a step that appends the actions of its resource and
  blocks the plan for some resources. The locale gives the actions and the blocking of the whole
  loop; it is interpreted for the loops of reconciliation and deletion.
\<close>

section \<open>Passes over resources\<close>

locale plan_pass =
  fixes plan_of :: "'st \<Rightarrow> plan"
    and okay :: "'st \<Rightarrow> bool"
    and step :: "'r \<Rightarrow> 'st \<Rightarrow> 'st"
    and emits :: "'r \<Rightarrow> plan_action list"
    and blocks :: "'r \<Rightarrow> bool"
  assumes step_actions: "pl_actions (plan_of (step r st)) = pl_actions (plan_of st) @ emits r"
    and step_okay: "okay st \<Longrightarrow> okay (step r st)"
    and step_blocked: "okay st \<Longrightarrow>
      is_blocked (plan_of (step r st)) \<longleftrightarrow> is_blocked (plan_of st) \<or> blocks r"
begin

lemma pass_actions:
  "pl_actions (plan_of (fold step rs st)) = pl_actions (plan_of st) @ concat (map emits rs)"
  by (induction rs arbitrary: st) (simp_all add: step_actions)

lemma pass_okay: "okay st \<Longrightarrow> okay (fold step rs st)"
  by (induction rs arbitrary: st) (simp_all add: step_okay)

lemma pass_blocked:
  "okay st \<Longrightarrow> is_blocked (plan_of (fold step rs st))
     \<longleftrightarrow> is_blocked (plan_of st) \<or> list_ex blocks rs"
  by (induction rs arbitrary: st) (auto simp: step_okay step_blocked)

end

text \<open>A pass that also tells whether everything it saw was in place.\<close>

locale ready_pass = plan_pass plan_of okay step emits blocks
  for plan_of :: "'st \<Rightarrow> plan" and okay and step :: "'r \<Rightarrow> 'st \<Rightarrow> 'st" and emits and blocks +
  fixes flag :: "'st \<Rightarrow> bool" and settled :: "'r \<Rightarrow> bool"
  assumes step_flag: "flag (step r st) \<longleftrightarrow> flag st \<and> settled r"
    and settled_quiet: "settled r \<longleftrightarrow> emits r = [] \<and> \<not> blocks r"
begin

lemma pass_flag: "flag (fold step rs st) \<longleftrightarrow> flag st \<and> list_all settled rs"
  by (induction rs arbitrary: st) (auto simp: step_flag)

lemma settled_emits: "list_all settled rs \<longleftrightarrow> concat (map emits rs) = [] \<and> \<not> list_ex blocks rs"
  by (induction rs) (auto simp: settled_quiet)

end

section \<open>Collisions are reported once, and block\<close>

text \<open>A name in \<open>seen\<close> has a blocking diagnostic in the plan.\<close>

definition seen_blocks :: "plan \<times> string set \<Rightarrow> bool" where
  "seen_blocks = (\<lambda>(p, seen). seen \<noteq> {} \<longrightarrow> is_blocked p)"

lemma collision_simps [plan_simps]:
  "pl_actions (fst (collision name p seen)) = pl_actions p"
  "seen_blocks (p, seen) \<Longrightarrow> is_blocked (fst (collision name p seen))"
  "seen_blocks (p, seen) \<Longrightarrow> seen_blocks (collision name p seen)"
  by (auto simp: collision_def seen_blocks_def plan_simps)

lemma diagnostics_simps [plan_simps]:
  "pl_actions (immutable_drift name resource p) = pl_actions p"
  "pl_actions (ignored name p) = pl_actions p"
  "pl_actions (cleanup_deferred name resource p) = pl_actions p"
  "pl_actions (link_cleanup_deferred name p) = pl_actions p"
  "pl_actions (update_failed name p) = pl_actions p"
  "is_blocked (immutable_drift name resource p)"
  "is_blocked (update_failed name p)"
  "is_blocked (ignored name p) \<longleftrightarrow> is_blocked p"
  "is_blocked (cleanup_deferred name resource p) \<longleftrightarrow> is_blocked p"
  "is_blocked (link_cleanup_deferred name p) \<longleftrightarrow> is_blocked p"
  by (simp_all add: immutable_drift_def ignored_def cleanup_deferred_def
      link_cleanup_deferred_def update_failed_def plan_simps)

lemma seen_blocks_simps [plan_simps]:
  "seen_blocks (p, {})"
  "is_blocked p \<Longrightarrow> seen_blocks (p, seen)"
  "seen_blocks (p, seen) \<Longrightarrow> seen_blocks (push_action kind reason p, seen)"
  "seen_blocks (p, seen) \<Longrightarrow> seen_blocks (p\<lparr>pl_actions := as\<rparr>, seen)"
  "seen_blocks (p, seen) \<Longrightarrow> seen_blocks (link_cleanup_deferred name p, seen)"
  by (auto simp: seen_blocks_def plan_simps)

section \<open>Networks and volumes\<close>

definition network_found :: "observed_application \<Rightarrow> desired_network \<Rightarrow> observed_network option" where
  "network_found observed n = List.find (\<lambda>found. on_name found = dn_name n) (oa_networks observed)"

definition network_settled ::
    "(string \<Rightarrow> string) \<Rightarrow> resolved_application \<Rightarrow> observed_application \<Rightarrow> desired_network \<Rightarrow> bool" where
  "network_settled sha desired observed n =
     (case network_found observed n of
        None \<Rightarrow> False
      | Some found \<Rightarrow> network_matches_ownership sha found n desired
          \<and> on_runtime_configuration_matches found
          \<and> relevant_network_labels (on_labels found) = relevant_network_labels (dn_labels n))"

definition network_emits :: "observed_application \<Rightarrow> desired_network \<Rightarrow> plan_action list" where
  "network_emits observed n =
     (if network_found observed n = None then [new_action (Ensure_Network n) Reason_Missing] else [])"

definition volume_found :: "observed_application \<Rightarrow> desired_volume \<Rightarrow> observed_volume option" where
  "volume_found observed v = List.find (\<lambda>found. ov_name found = dv_name v) (oa_volumes observed)"

definition volume_settled ::
    "(string \<Rightarrow> string) \<Rightarrow> resolved_application \<Rightarrow> observed_application \<Rightarrow> desired_volume \<Rightarrow> bool" where
  "volume_settled sha desired observed v =
     (case volume_found observed v of
        None \<Rightarrow> False
      | Some found \<Rightarrow> volume_is_owned_by sha found (ra_instance_id desired) (ra_id desired)
          \<and> ov_runtime_configuration_matches found)"

definition volume_emits :: "observed_application \<Rightarrow> desired_volume \<Rightarrow> plan_action list" where
  "volume_emits observed v =
     (if volume_found observed v = None then [new_action (Ensure_Volume v) Reason_Missing] else [])"

interpretation ens_networks: ready_pass "\<lambda>st. fst (snd st)" "\<lambda>st. seen_blocks (snd st)"
  "ensure_network sha desired observed" "network_emits observed"
  "\<lambda>n. network_found observed n \<noteq> None \<and> \<not> network_settled sha desired observed n"
  fst "network_settled sha desired observed"
  for sha desired observed
  by unfold_locales
    (auto simp: ensure_network_def network_settled_def network_emits_def network_found_def plan_simps
      split: option.splits if_splits)

interpretation ens_volumes: ready_pass "\<lambda>st. fst (snd st)" "\<lambda>st. seen_blocks (snd st)"
  "ensure_volume sha desired observed" "volume_emits observed"
  "\<lambda>v. volume_found observed v \<noteq> None \<and> \<not> volume_settled sha desired observed v"
  fst "volume_settled sha desired observed"
  for sha desired observed
  by unfold_locales
    (auto simp: ensure_volume_def volume_settled_def volume_emits_def volume_found_def plan_simps
      split: option.splits if_splits)

section \<open>Cleanup and deletion\<close>

definition retain_emits ::
    "(string \<Rightarrow> string) \<Rightarrow> instance_id \<Rightarrow> environment_id \<Rightarrow> observed_volume \<Rightarrow> plan_action list" where
  "retain_emits sha inst eid v =
     (if volume_is_owned_by sha v inst eid
      then [new_action (Retain_Volume (ov_name v)) Reason_Volume_Retention_Policy] else [])"

definition remove_service_emits ::
    "(string \<Rightarrow> string) \<Rightarrow> instance_id \<Rightarrow> environment_id \<Rightarrow> action_reason \<Rightarrow> observed_service
     \<Rightarrow> plan_action list" where
  "remove_service_emits sha inst eid reason s =
     (if service_is_owned_by sha s inst eid then [new_action (Remove_Service (os_name s)) reason] else [])"

definition remove_network_emits ::
    "(string \<Rightarrow> string) \<Rightarrow> instance_id \<Rightarrow> environment_id \<Rightarrow> action_reason \<Rightarrow> observed_network
     \<Rightarrow> plan_action list" where
  "remove_network_emits sha inst eid reason n =
     (if network_is_owned_by sha n inst eid \<and> \<not> network_is_linked_in_use n
      then [new_action (Remove_Network (on_name n)) reason] else [])"

interpretation ret_volumes: plan_pass "\<lambda>p. p" "\<lambda>_. True" "retain_volume sha desired"
  "retain_emits sha (ra_instance_id desired) (ra_id desired)" "\<lambda>_. False"
  for sha desired
  by unfold_locales (auto simp: retain_volume_def retain_emits_def plan_simps split: if_splits)

interpretation rem_services: plan_pass fst "\<lambda>_. True" "remove_service sha desired cleanup"
  "\<lambda>s. if cleanup then remove_service_emits sha (ra_instance_id desired) (ra_id desired) Reason_Obsolete s else []"
  "\<lambda>_. False"
  for sha desired cleanup
  by unfold_locales (auto simp: remove_service_def remove_service_emits_def plan_simps split: if_splits)

interpretation rem_networks: plan_pass "\<lambda>p. p" "\<lambda>_. True" "remove_network sha desired cleanup"
  "\<lambda>n. if cleanup then remove_network_emits sha (ra_instance_id desired) (ra_id desired) Reason_Obsolete n else []"
  "\<lambda>_. False"
  for sha desired cleanup
  by unfold_locales (auto simp: remove_network_def remove_network_emits_def plan_simps split: if_splits)

interpretation del_services: plan_pass "\<lambda>st. fst (fst st)" "\<lambda>st. seen_blocks (fst (fst st), snd st)"
  "delete_service sha eid inst"
  "remove_service_emits sha inst eid Reason_Application_Deletion"
  "\<lambda>s. \<not> service_is_owned_by sha s inst eid"
  for sha eid inst
  by unfold_locales
    (auto simp: delete_service_def remove_service_emits_def plan_simps split_beta split: if_splits)

interpretation del_networks: plan_pass fst seen_blocks "delete_network sha eid inst"
  "remove_network_emits sha inst eid Reason_Application_Deletion"
  "\<lambda>n. \<not> network_is_owned_by sha n inst eid"
  for sha eid inst
  by unfold_locales
    (auto simp: delete_network_def remove_network_emits_def plan_simps split: if_splits)

interpretation del_volumes: plan_pass fst seen_blocks "delete_volume sha eid inst"
  "retain_emits sha inst eid" "\<lambda>v. \<not> volume_is_owned_by sha v inst eid"
  for sha eid inst
  by unfold_locales
    (auto simp: delete_volume_def retain_emits_def plan_simps split: if_splits)

end
