(* ===== verification/Planner_Services.thy ===== *)
theory Planner_Services
  imports Planner_Facts
begin

text \<open>
  \<open>Plan::ensure_services\<close> against an abstract view: each desired service has a status, every
  missing or drifted service is ensured once, every pending one is waited for once, and an ensure
  follows the waits of its dependencies.
\<close>

section \<open>The status of a service\<close>

datatype service_status =
    St_Missing | St_Unowned | St_Drifted "string list" | St_Waiting | St_Failed | St_Settled

definition service_status_of ::
    "(string \<Rightarrow> string) \<Rightarrow> resolved_application \<Rightarrow> observed_application \<Rightarrow> desired_service
     \<Rightarrow> service_status" where
  "service_status_of sha desired observed s =
     (case List.find (\<lambda>found. os_name found = ds_name s) (oa_services observed) of
        None \<Rightarrow> St_Missing
      | Some found \<Rightarrow>
          if \<not> service_matches_ownership sha found s desired then St_Unowned
          else if \<not> service_matches sha found s then St_Drifted (drift sha found s)
          else (case os_convergence found of
              Converged \<Rightarrow> St_Settled | Updating \<Rightarrow> St_Waiting | Degraded \<Rightarrow> St_Waiting
            | Failed \<Rightarrow> St_Failed))"

fun status_reason :: "service_status \<Rightarrow> action_reason option" where
  "status_reason St_Missing = Some Reason_Missing"
| "status_reason (St_Drifted fs) = Some (Reason_Drift fs)"
| "status_reason _ = None"

definition changing where
  "changing sha desired observed s \<longleftrightarrow> status_reason (service_status_of sha desired observed s) \<noteq> None"

definition pending where
  "pending sha desired observed s \<longleftrightarrow>
     changing sha desired observed s \<or> service_status_of sha desired observed s = St_Waiting"

definition service_blocks where
  "service_blocks sha desired observed s \<longleftrightarrow>
     service_status_of sha desired observed s \<in> {St_Unowned, St_Failed}"

definition service_settled where
  "service_settled sha desired observed s \<longleftrightarrow> service_status_of sha desired observed s = St_Settled"

definition ensure_action where
  "ensure_action sha desired observed s =
     new_action (Ensure_Service s) (the (status_reason (service_status_of sha desired observed s)))"

lemma settled_cases:
  "service_settled sha desired observed s
     \<longleftrightarrow> \<not> pending sha desired observed s \<and> \<not> service_blocks sha desired observed s"
  by (cases "service_status_of sha desired observed s")
    (simp_all add: service_settled_def pending_def changing_def service_blocks_def)

lemma ensure_service_status:
  "ensure_service sha desired observed s st =
     (case service_status_of sha desired observed s of
        St_Unowned \<Rightarrow> (let (p, seen) = collision (ds_name s) (sv_plan st) (sv_seen st)
                        in st\<lparr>sv_ready := False, sv_plan := p, sv_seen := seen\<rparr>)
      | St_Waiting \<Rightarrow> st\<lparr>sv_ready := False, sv_waits := sv_waits st @ [service_wait s]\<rparr>
      | St_Failed \<Rightarrow> st\<lparr>sv_ready := False, sv_plan := update_failed (ds_name s) (sv_plan st)\<rparr>
      | St_Settled \<Rightarrow> st
      | status \<Rightarrow> roll_out s (the (status_reason status)) st)"
  by (auto simp: ensure_service_def service_status_of_def split: option.splits convergence.splits)

lemma roll_out_simps [plan_simps]:
  "sv_ready (roll_out s reason st) \<longleftrightarrow> False"
  "sv_waits (roll_out s reason st) = sv_waits st @ [service_wait s]"
  "sv_seen (roll_out s reason st) = sv_seen st"
  "sv_plan (roll_out s reason st) =
     (if waits_on_dependency s (sv_waits st) then sv_plan st
      else push_action (Ensure_Service s) reason (sv_plan st))"
  "sv_deferred (roll_out s reason st) =
     (if waits_on_dependency s (sv_waits st)
      then sv_deferred st @ [(s, new_action (Ensure_Service s) reason)] else sv_deferred st)"
  by (simp_all add: roll_out_def Let_def)

section \<open>The pass over the services\<close>

definition service_pass_ok where
  "service_pass_ok sha desired observed p seen xs st \<longleftrightarrow>
     sv_waits st = map service_wait (filter (pending sha desired observed) xs)
     \<and> (sv_ready st \<longleftrightarrow> list_all (service_settled sha desired observed) xs)
     \<and> (seen_blocks (p, seen) \<longrightarrow> seen_blocks (sv_plan st, sv_seen st)
         \<and> (is_blocked (sv_plan st) \<longleftrightarrow> is_blocked p \<or> list_ex (service_blocks sha desired observed) xs))
     \<and> (\<forall>(s, a)\<in>set (sv_deferred st). a = ensure_action sha desired observed s)
     \<and> (\<exists>es. pl_actions (sv_plan st) = pl_actions p @ es
         \<and> mset es + mset (map snd (sv_deferred st))
            = mset (map (ensure_action sha desired observed) (filter (changing sha desired observed) xs))
         \<and> (\<forall>a\<in>set es. \<exists>pre s post. xs = pre @ s # post \<and> a = ensure_action sha desired observed s
              \<and> \<not> waits_on_dependency s (map service_wait (filter (pending sha desired observed) pre))))"

lemma service_pass_step:
  assumes "service_pass_ok sha desired observed p seen xs st"
  shows "service_pass_ok sha desired observed p seen (xs @ [s]) (ensure_service sha desired observed s st)"
proof -
  let ?st = "ensure_service sha desired observed s st"
  let ?wait = "map service_wait (filter (pending sha desired observed) xs)"
  obtain es where es: "pl_actions (sv_plan st) = pl_actions p @ es"
    "mset es + mset (map snd (sv_deferred st))
       = mset (map (ensure_action sha desired observed) (filter (changing sha desired observed) xs))"
    "\<forall>a\<in>set es. \<exists>pre s post. xs = pre @ s # post \<and> a = ensure_action sha desired observed s
        \<and> \<not> waits_on_dependency s (map service_wait (filter (pending sha desired observed) pre))"
    using assms unfolding service_pass_ok_def by blast
  have waits: "sv_waits st = ?wait" and ready: "sv_ready st \<longleftrightarrow> list_all (service_settled sha desired observed) xs"
    and block: "seen_blocks (p, seen) \<Longrightarrow> seen_blocks (sv_plan st, sv_seen st)
         \<and> (is_blocked (sv_plan st) \<longleftrightarrow> is_blocked p \<or> list_ex (service_blocks sha desired observed) xs)"
    and deferred: "\<forall>(s, a)\<in>set (sv_deferred st). a = ensure_action sha desired observed s"
    using assms unfolding service_pass_ok_def by blast+
  have more: "\<exists>pre s' post. xs @ [s] = pre @ s' # post \<and> a = ensure_action sha desired observed s'
        \<and> \<not> waits_on_dependency s' (map service_wait (filter (pending sha desired observed) pre))"
    if "a \<in> set es" for a
    using es(3) that by (metis append_Cons append_assoc)
  have kept: ?thesis if "\<not> changing sha desired observed s"
    and "sv_waits ?st = map service_wait (filter (pending sha desired observed) (xs @ [s]))"
    and "sv_ready ?st \<longleftrightarrow> list_all (service_settled sha desired observed) (xs @ [s])"
    and "seen_blocks (p, seen) \<longrightarrow> seen_blocks (sv_plan ?st, sv_seen ?st)
         \<and> (is_blocked (sv_plan ?st) \<longleftrightarrow> is_blocked p \<or> list_ex (service_blocks sha desired observed) (xs @ [s]))"
    and "pl_actions (sv_plan ?st) = pl_actions (sv_plan st)" "sv_deferred ?st = sv_deferred st"
    unfolding service_pass_ok_def using that deferred es(1,2) more by auto
  have rolled: ?thesis if status: "status_reason (service_status_of sha desired observed s) = Some reason" for reason
  proof -
    have st: "?st = roll_out s reason st" and c: "changing sha desired observed s"
      and e: "ensure_action sha desired observed s = new_action (Ensure_Service s) reason"
      and n: "\<not> service_settled sha desired observed s" "\<not> service_blocks sha desired observed s"
      and w: "pending sha desired observed s"
      using status by (cases "service_status_of sha desired observed s";
        simp add: ensure_service_status changing_def ensure_action_def service_settled_def
          service_blocks_def pending_def)+
    let ?es = "es @ (if waits_on_dependency s (sv_waits st) then [] else [ensure_action sha desired observed s])"
    have "pl_actions (sv_plan ?st) = pl_actions p @ ?es"
      using es(1) by (simp add: st e plan_simps)
    moreover have "mset ?es + mset (map snd (sv_deferred ?st))
       = mset (map (ensure_action sha desired observed) (filter (changing sha desired observed) (xs @ [s])))"
      using es(2) c by (simp add: st e plan_simps)
    moreover have "\<exists>pre s' post. xs @ [s] = pre @ s' # post \<and> a = ensure_action sha desired observed s'
        \<and> \<not> waits_on_dependency s' (map service_wait (filter (pending sha desired observed) pre))"
      if "a \<in> set ?es" for a
      using that more by (cases "a \<in> set es") (auto simp: waits split: if_splits)
    moreover have "\<forall>(s', a)\<in>set (sv_deferred ?st). a = ensure_action sha desired observed s'"
      using deferred by (auto simp: st e plan_simps)
    moreover have "seen_blocks (p, seen) \<longrightarrow> seen_blocks (sv_plan ?st, sv_seen ?st)
         \<and> (is_blocked (sv_plan ?st) \<longleftrightarrow> is_blocked p \<or> list_ex (service_blocks sha desired observed) (xs @ [s]))"
      using block n by (auto simp: st plan_simps)
    moreover have "sv_waits ?st = map service_wait (filter (pending sha desired observed) (xs @ [s]))"
      "sv_ready ?st \<longleftrightarrow> list_all (service_settled sha desired observed) (xs @ [s])"
      using w n by (simp_all add: st waits plan_simps)
    ultimately show ?thesis unfolding service_pass_ok_def by blast
  qed
  show ?thesis
  proof (cases "service_status_of sha desired observed s")
    case St_Unowned
    then show ?thesis
      using waits ready block
      by (intro kept) (auto simp: ensure_service_status changing_def pending_def service_blocks_def
          service_settled_def plan_simps split_beta)
  next
    case St_Waiting
    then show ?thesis
      using waits ready block
      by (intro kept) (auto simp: ensure_service_status changing_def pending_def service_blocks_def
          service_settled_def plan_simps)
  next
    case St_Failed
    then show ?thesis
      using waits ready block
      by (intro kept) (auto simp: ensure_service_status changing_def pending_def service_blocks_def
          service_settled_def plan_simps)
  next
    case St_Settled
    then show ?thesis
      using waits ready block
      by (intro kept) (auto simp: ensure_service_status changing_def pending_def service_blocks_def
          service_settled_def plan_simps)
  qed (auto intro: rolled)
qed

lemma service_pass_fold:
  "service_pass_ok sha desired observed p seen xs
     (fold (ensure_service sha desired observed) xs
       \<lparr>sv_ready = True, sv_plan = p, sv_seen = seen, sv_waits = [], sv_deferred = []\<rparr>)"
proof (induction xs rule: rev_induct)
  case Nil
  then show ?case by (simp add: service_pass_ok_def)
next
  case (snoc s xs)
  from service_pass_step [OF this] show ?case by simp
qed

section \<open>Ensures follow the waits of their dependencies\<close>

text \<open>
  \<open>covered W s as\<close>: \<open>as\<close> has every wait of \<open>W\<close> for a dependency of \<open>s\<close>, unless \<open>s\<close> starts no
  replica. \<open>guarded W as\<close>: every ensure of \<open>as\<close> is covered by the actions before it.
\<close>

definition covered :: "(string \<times> plan_action) list \<Rightarrow> desired_service \<Rightarrow> plan_action list \<Rightarrow> bool" where
  "covered W s as \<longleftrightarrow> (0 < ds_replicas s \<longrightarrow>
     (\<forall>(d, w) \<in> set W. d \<in> set (ds_depends_on s) \<longrightarrow> w \<in> set as))"

definition guarded :: "(string \<times> plan_action) list \<Rightarrow> plan_action list \<Rightarrow> bool" where
  "guarded W as \<longleftrightarrow> (\<forall>pre a post s. as = pre @ a # post \<longrightarrow> pa_kind a = Ensure_Service s \<longrightarrow> covered W s pre)"

lemma covered_append: "covered W s as \<Longrightarrow> covered W s (as @ bs)"
  by (fastforce simp: covered_def)

lemma guarded_cong: "set W = set V \<Longrightarrow> guarded W as = guarded V as"
  by (simp only: guarded_def covered_def)

lemma guarded_Nil [simp]: "guarded W []"
  by (simp add: guarded_def)

lemma guarded_snoc:
  "guarded W (as @ [a]) \<longleftrightarrow> guarded W as \<and> (\<forall>s. pa_kind a = Ensure_Service s \<longrightarrow> covered W s as)"
proof -
  have split: "as @ [a] = pre @ b # post \<longleftrightarrow>
      post = [] \<and> pre = as \<and> b = a \<or> (\<exists>post'. post = post' @ [a] \<and> as = pre @ b # post')" for pre b post
    by (cases post rule: rev_cases) auto
  show ?thesis unfolding guarded_def split by simp blast
qed

lemma guarded_append:
  assumes "guarded W as" and "\<And>a s. a \<in> set bs \<Longrightarrow> pa_kind a = Ensure_Service s \<Longrightarrow> covered W s as"
  shows "guarded W (as @ bs)"
  using assms(2)
proof (induction bs rule: rev_induct)
  case Nil
  with assms(1) show ?case by simp
next
  case (snoc b bs)
  have "guarded W (as @ bs)" by (rule snoc.IH) (use snoc.prems in auto)
  then have "guarded W ((as @ bs) @ [b])"
    unfolding guarded_snoc using snoc.prems covered_append by fastforce
  then show ?case by simp
qed

lemma position_split:
  "position P xs = Some i \<Longrightarrow> xs = take i xs @ xs ! i # drop (Suc i) xs \<and> P (xs ! i) \<and> list_all (Not \<circ> P) (take i xs)"
  by (induction xs arbitrary: i) (auto split: if_splits)

lemma position_None: "position P xs = None \<longleftrightarrow> list_all (Not \<circ> P) xs"
  by (induction xs) auto

text \<open>The loop over the deferred ensures moves waits into the plan, and loses none.\<close>

definition waits_kept where
  "waits_kept W p ws \<longleftrightarrow> guarded W (pl_actions p) \<and> distinct (map fst ws)
     \<and> (\<forall>(d, w) \<in> set W. w \<in> set (pl_actions p) \<or> (d, w) \<in> set ws)
     \<and> (\<forall>(d, w) \<in> set ws. \<exists>name. pa_kind w = Wait_For_Service name)"

lemma push_dependency_wait_kept:
  assumes "push_dependency_wait d (p, ws) = (p', ws')" and "waits_kept W p ws"
  shows "waits_kept W p' ws' \<and> set ws' \<subseteq> set ws \<and> d \<notin> fst ` set ws'
    \<and> mset (pl_actions p') + mset (map snd ws') = mset (pl_actions p) + mset (map snd ws)
    \<and> is_blocked p' = is_blocked p"
proof (cases "position (\<lambda>(name, _). name = d) ws")
  case None
  then have "p' = p" "ws' = ws" using assms(1) by (simp_all add: push_dependency_wait_def)
  moreover have "d \<notin> fst ` set ws" using None by (auto simp: position_None list_all_iff)
  ultimately show ?thesis using assms(2) by simp
next
  case (Some i)
  then have p': "p' = p\<lparr>pl_actions := pl_actions p @ [snd (ws ! i)]\<rparr>"
    and ws': "ws' = take i ws @ drop (Suc i) ws"
    using assms(1) by (simp_all add: push_dependency_wait_def)
  from position_split [OF Some] obtain w where ws: "ws = take i ws @ (d, w) # drop (Suc i) ws"
    and w: "ws ! i = (d, w)"
    by (cases "ws ! i") auto
  have set_ws: "set ws = insert (d, w) (set ws')" and mset_ws: "mset ws = add_mset (d, w) (mset ws')"
    using arg_cong [OF ws, of set] arg_cong [OF ws, of mset] by (simp_all add: ws')
  have fst_ws: "map fst ws = map fst (take i ws) @ d # map fst (drop (Suc i) ws)"
    using arg_cong [OF ws, of "map fst"] by simp
  have dist: "distinct (map fst ws')" "d \<notin> fst ` set ws'"
  proof -
    have "distinct (map fst (take i ws) @ d # map fst (drop (Suc i) ws))"
      using assms(2) unfolding waits_kept_def fst_ws [symmetric] by simp
    then show "distinct (map fst ws')" "d \<notin> fst ` set ws'" by (auto simp: ws')
  qed
  obtain name where name: "pa_kind w = Wait_For_Service name"
    using assms(2) set_ws unfolding waits_kept_def by auto
  have "waits_kept W p' ws'"
    using assms(2) dist(1) set_ws name
    by (fastforce simp: waits_kept_def p' w guarded_snoc)
  moreover have "mset (map snd ws) = add_mset w (mset (map snd ws'))"
    using mset_ws by (metis image_mset_add_mset mset_map snd_conv)
  ultimately show ?thesis using dist(2) set_ws by (auto simp: p' w plan_simps)
qed

lemma push_dependency_waits_kept:
  assumes "fold push_dependency_wait ds (p, ws) = (p', ws')" and "waits_kept W p ws"
  shows "waits_kept W p' ws' \<and> set ws' \<subseteq> set ws \<and> set ds \<inter> fst ` set ws' = {}
    \<and> mset (pl_actions p') + mset (map snd ws') = mset (pl_actions p) + mset (map snd ws)
    \<and> is_blocked p' = is_blocked p"
  using assms
proof (induction ds arbitrary: p ws)
  case (Cons d ds)
  obtain p1 ws1 where step: "push_dependency_wait d (p, ws) = (p1, ws1)" by fastforce
  note one = push_dependency_wait_kept [OF step Cons.prems(2)]
  with Cons.prems(1) step have rest: "fold push_dependency_wait ds (p1, ws1) = (p', ws')" by simp
  from Cons.IH [OF rest] one show ?case by auto
qed simp

lemma push_deferred_kept:
  assumes "fold push_deferred xs (p, ws) = (p', ws')" and "waits_kept W p ws"
    and "\<forall>(s, a)\<in>set xs. pa_kind a = Ensure_Service s"
  shows "waits_kept W p' ws'
    \<and> mset (pl_actions p') + mset (map snd ws') = mset (pl_actions p) + mset (map snd xs) + mset (map snd ws)
    \<and> is_blocked p' = is_blocked p"
  using assms
proof (induction xs arbitrary: p ws)
  case (Cons x xs)
  obtain s a where x: "x = (s, a)" by fastforce
  obtain p1 ws1 where step: "fold push_dependency_wait (ds_depends_on s) (p, ws) = (p1, ws1)" by fastforce
  note one = push_dependency_waits_kept [OF step Cons.prems(2)]
  define p2 where "p2 = p1\<lparr>pl_actions := pl_actions p1 @ [a]\<rparr>"
  have rest: "fold push_deferred xs (p2, ws1) = (p', ws')"
    using Cons.prems(1) step by (simp add: x push_deferred_def p2_def)
  have a: "pa_kind a = Ensure_Service s" using Cons.prems(3) x by simp
  have "w \<in> set (pl_actions p1)" if "(d, w) \<in> set W" "d \<in> set (ds_depends_on s)" for d w
  proof -
    have "(d, w) \<notin> set ws1" using one that(2) by force
    moreover have "w \<in> set (pl_actions p1) \<or> (d, w) \<in> set ws1"
      using one that(1) unfolding waits_kept_def by blast
    ultimately show ?thesis by blast
  qed
  then have "covered W s (pl_actions p1)" unfolding covered_def by blast
  then have "guarded W (pl_actions p2)"
    using one a by (simp add: waits_kept_def p2_def guarded_snoc)
  moreover have "waits_kept W p1 ws1" using one by blast
  moreover have "set (pl_actions p1) \<subseteq> set (pl_actions p2)" by (auto simp: p2_def)
  ultimately have "waits_kept W p2 ws1"
    unfolding waits_kept_def by blast
  have "\<forall>(s, a)\<in>set xs. pa_kind a = Ensure_Service s" using Cons.prems(3) by simp
  from Cons.IH [OF rest \<open>waits_kept W p2 ws1\<close> this]
  have "waits_kept W p' ws'"
    "mset (pl_actions p') + mset (map snd ws') = mset (pl_actions p2) + mset (map snd xs) + mset (map snd ws1)"
    "is_blocked p' = is_blocked p2"
    by blast+
  moreover have "is_blocked p2 = is_blocked p" using one by (simp add: p2_def plan_simps)
  moreover have "mset (pl_actions p1) + mset (map snd ws1) = mset (pl_actions p) + mset (map snd ws)"
    using one by blast
  ultimately show ?case
    by (simp only: x p2_def plan_simps plan.simps list.map snd_conv mset.simps mset_append)
      (simp add: ac_simps)
qed simp

text \<open>Without any assumption on names the loop keeps every action, and what blocks the plan.\<close>

lemma push_dependency_wait_conserves:
  assumes "push_dependency_wait d (p, ws) = (p', ws')"
  shows "mset (pl_actions p') + mset (map snd ws') = mset (pl_actions p) + mset (map snd ws)
    \<and> is_blocked p' = is_blocked p"
proof (cases "position (\<lambda>(name, _). name = d) ws")
  case (Some i)
  have "map snd ws = map snd (take i ws) @ snd (ws ! i) # map snd (drop (Suc i) ws)"
    using position_split [OF Some] by (metis list.simps(9) map_append)
  moreover have "p' = p\<lparr>pl_actions := pl_actions p @ [snd (ws ! i)]\<rparr>"
    "ws' = take i ws @ drop (Suc i) ws"
    using assms Some by (simp_all add: push_dependency_wait_def)
  ultimately show ?thesis by (simp add: plan_simps)
qed (use assms in \<open>simp add: push_dependency_wait_def\<close>)

lemma push_deferred_conserves:
  assumes "fold push_deferred xs (p, ws) = (p', ws')"
  shows "mset (pl_actions p') + mset (map snd ws') = mset (pl_actions p) + mset (map snd xs) + mset (map snd ws)
    \<and> is_blocked p' = is_blocked p"
  using assms
proof (induction xs arbitrary: p ws)
  case (Cons x xs)
  obtain s a where x: "x = (s, a)" by fastforce
  obtain p1 ws1 where step: "fold push_dependency_wait (ds_depends_on s) (p, ws) = (p1, ws1)" by fastforce
  have one: "mset (pl_actions q') + mset (map snd vs') = mset (pl_actions q) + mset (map snd vs)
      \<and> is_blocked q' = is_blocked q" if "fold push_dependency_wait ds (q, vs) = (q', vs')" for ds q vs q' vs'
    using that
  proof (induction ds arbitrary: q vs)
    case (Cons d ds)
    obtain q1 vs1 where "push_dependency_wait d (q, vs) = (q1, vs1)" by fastforce
    with push_dependency_wait_conserves [OF this] Cons show ?case by auto
  qed simp
  have "fold push_deferred xs (p1\<lparr>pl_actions := pl_actions p1 @ [a]\<rparr>, ws1) = (p', ws')"
    using Cons.prems(1) step by (simp add: x push_deferred_def)
  from Cons.IH [OF this] one [OF step] show ?case
    by (simp add: x plan_simps ac_simps)
qed simp

section \<open>The whole of ensure_services\<close>

lemma service_sequence_set: "set (service_sequence desired) = set (ra_services desired)"
  unfolding service_sequence_def split_beta Let_def set_append by (rule startup.sequence_set)

lemma service_sequence_mset: "mset (service_sequence desired) = mset (ra_services desired)"
  unfolding service_sequence_def split_beta Let_def by (rule startup.sequence_mset)

lemma service_sequence_distinct:
  "distinct (map f (ra_services desired)) \<Longrightarrow> distinct (map f (service_sequence desired))"
  unfolding service_sequence_def split_beta Let_def by (rule startup.sequence_distinct)

text \<open>Every changing service is ensured once and every pending one awaited once.\<close>

lemma ensure_services_actions:
  assumes "ensure_services sha desired observed p seen = (is_ready, p', seen')"
  shows "mset (pl_actions p') = mset (pl_actions p)
      + mset (map (ensure_action sha desired observed) (filter (changing sha desired observed) (ra_services desired)))
      + mset (map (wait_for_service \<circ> ds_name) (filter (pending sha desired observed) (ra_services desired)))"
    and "is_ready \<longleftrightarrow> list_all (service_settled sha desired observed) (ra_services desired)"
    and "seen_blocks (p, seen) \<Longrightarrow>
      is_blocked p' \<longleftrightarrow> is_blocked p \<or> list_ex (service_blocks sha desired observed) (ra_services desired)"
proof -
  let ?xs = "service_sequence desired"
  define st where "st = fold (ensure_service sha desired observed) ?xs
       \<lparr>sv_ready = True, sv_plan = p, sv_seen = seen, sv_waits = [], sv_deferred = []\<rparr>"
  have ok: "service_pass_ok sha desired observed p seen ?xs st"
    unfolding st_def by (rule service_pass_fold)
  obtain q ws where loop: "fold push_deferred (sv_deferred st) (sv_plan st, sv_waits st) = (q, ws)" by fastforce
  have res: "is_ready = sv_ready st" "p' = q\<lparr>pl_actions := pl_actions q @ map snd ws\<rparr>"
    using assms loop by (simp_all add: ensure_services_def finish_services_def flip: st_def)
  obtain es where es: "pl_actions (sv_plan st) = pl_actions p @ es"
    "mset es + mset (map snd (sv_deferred st))
       = mset (map (ensure_action sha desired observed) (filter (changing sha desired observed) ?xs))"
    using ok unfolding service_pass_ok_def by blast
  have waits: "map snd (sv_waits st) = map (wait_for_service \<circ> ds_name) (filter (pending sha desired observed) ?xs)"
    using ok by (simp add: service_pass_ok_def service_wait_def o_def)
  have "mset (pl_actions p') = mset (pl_actions q) + mset (map snd ws)" by (simp add: res)
  also have "\<dots> = mset (pl_actions p) + (mset es + mset (map snd (sv_deferred st))) + mset (map snd (sv_waits st))"
    using push_deferred_conserves [OF loop] by (simp only: es(1) mset_append union_assoc)
  finally show "mset (pl_actions p') = mset (pl_actions p)
      + mset (map (ensure_action sha desired observed) (filter (changing sha desired observed) (ra_services desired)))
      + mset (map (wait_for_service \<circ> ds_name) (filter (pending sha desired observed) (ra_services desired)))"
    unfolding waits mset_map mset_filter service_sequence_mset
    by (simp only: es(2) [unfolded mset_map mset_filter service_sequence_mset])
  have "is_ready \<longleftrightarrow> list_all (service_settled sha desired observed) ?xs"
    using ok unfolding service_pass_ok_def res(1) by blast
  then show "is_ready \<longleftrightarrow> list_all (service_settled sha desired observed) (ra_services desired)"
    by (simp add: list_all_iff service_sequence_set)
  assume "seen_blocks (p, seen)"
  then have "is_blocked (sv_plan st) \<longleftrightarrow> is_blocked p \<or> list_ex (service_blocks sha desired observed) ?xs"
    using ok unfolding service_pass_ok_def by blast
  then show "is_blocked p' \<longleftrightarrow> is_blocked p \<or> list_ex (service_blocks sha desired observed) (ra_services desired)"
    using push_deferred_conserves [OF loop] by (simp add: res plan_simps list_ex_iff service_sequence_set)
qed

text \<open>With distinct names and no cycle, every ensure comes after the waits of its dependencies.\<close>

lemma ensure_services_guarded:
  assumes run: "ensure_services sha desired observed p seen = (is_ready, p', seen')"
    and names: "distinct (map ds_logical_name (ra_services desired))"
    and acyclic: "acyclic (depends ds_logical_name ds_depends_on (ra_services desired))"
    and quiet: "\<forall>a\<in>set (pl_actions p). \<forall>s. pa_kind a \<noteq> Ensure_Service s"
  shows "guarded (map service_wait (filter (pending sha desired observed) (ra_services desired))) (pl_actions p')"
proof -
  let ?pend = "pending sha desired observed" and ?xs = "service_sequence desired"
  let ?W = "map service_wait (filter ?pend ?xs)"
  define st where "st = fold (ensure_service sha desired observed) ?xs
       \<lparr>sv_ready = True, sv_plan = p, sv_seen = seen, sv_waits = [], sv_deferred = []\<rparr>"
  have ok: "service_pass_ok sha desired observed p seen ?xs st"
    unfolding st_def by (rule service_pass_fold)
  have "snd (startup_order ds_logical_name ds_depends_on (ra_services desired)) = []"
    by (rule startup.acyclic_complete [OF names acyclic])
  then have order: "?xs = fst (startup_order ds_logical_name ds_depends_on (ra_services desired))"
    by (simp add: service_sequence_def split_beta)
  note dist = service_sequence_distinct [OF names]
  then have inj: "inj_on ds_logical_name (set ?xs)" by (simp add: distinct_map)
  have early: "covered ?W s as"
    if xs: "?xs = pre @ s # post" and free: "\<not> waits_on_dependency s (map service_wait (filter ?pend pre))" for s pre post as
    unfolding covered_def
  proof (intro impI ballI, clarify)
    fix d w assume r: "0 < ds_replicas s" and d: "d \<in> set (ds_depends_on s)" and "(d, w) \<in> set ?W"
    then obtain t where t: "t \<in> set ?xs" "?pend t" "ds_logical_name t = d"
      by (auto simp: service_wait_def)
    then have "d \<in> ds_logical_name ` set (ra_services desired)" by (auto simp: service_sequence_set)
    then have "d \<in> ds_logical_name ` set pre"
      using startup.dependency_before [where name = ds_logical_name and deps = ds_depends_on
          and services = "ra_services desired" and pre = pre and s = s and post = post] d xs order
      by simp
    then obtain u where u: "u \<in> set pre" "ds_logical_name u = d" by auto
    moreover have "u \<in> set ?xs" using u xs by simp
    ultimately have "u = t" using inj_onD [OF inj, of u t] t by simp
    then have "\<exists>u\<in>set (filter ?pend pre). ds_logical_name u = d" using u t(2) by auto
    then have "list_ex (\<lambda>(name, _). name = d) (map service_wait (filter ?pend pre))"
      by (auto simp: list_ex_iff service_wait_def)
    with r d have "waits_on_dependency s (map service_wait (filter ?pend pre))"
      unfolding waits_on_dependency_def list_ex_iff [of _ "ds_depends_on s"] by blast
    with free show "w \<in> set as" ..
  qed
  obtain es where es: "pl_actions (sv_plan st) = pl_actions p @ es"
    "\<forall>a\<in>set es. \<exists>pre s post. ?xs = pre @ s # post \<and> a = ensure_action sha desired observed s
              \<and> \<not> waits_on_dependency s (map service_wait (filter ?pend pre))"
    using ok unfolding service_pass_ok_def by blast
  have "guarded ?W (pl_actions p @ [])"
    using quiet by (auto simp: guarded_def)
  then have "guarded ?W (pl_actions (sv_plan st))"
    unfolding es(1)
    by (intro guarded_append) (use es(2) early in \<open>auto simp: ensure_action_def plan_simps\<close>)
  moreover have waits: "sv_waits st = ?W" using ok unfolding service_pass_ok_def by blast
  moreover have "distinct (map fst ?W)"
    using distinct_map_filter [OF dist] by (simp add: service_wait_def o_def)
  ultimately have kept: "waits_kept ?W (sv_plan st) (sv_waits st)"
    by (auto simp: waits_kept_def service_wait_def plan_simps)
  have "\<forall>(s, a)\<in>set (sv_deferred st). pa_kind a = Ensure_Service s"
    using ok by (auto simp: service_pass_ok_def ensure_action_def plan_simps)
  obtain q ws where loop: "fold push_deferred (sv_deferred st) (sv_plan st, sv_waits st) = (q, ws)" by fastforce
  from push_deferred_kept [OF loop kept \<open>\<forall>(s, a)\<in>set (sv_deferred st). pa_kind a = Ensure_Service s\<close>]
  have final: "waits_kept ?W q ws" by blast
  have "p' = q\<lparr>pl_actions := pl_actions q @ map snd ws\<rparr>"
    using run loop by (simp add: ensure_services_def finish_services_def flip: st_def)
  moreover have "guarded ?W (pl_actions q @ map snd ws)"
  proof (rule guarded_append)
    show "guarded ?W (pl_actions q)" using final unfolding waits_kept_def by blast
    fix a s assume "a \<in> set (map snd ws)" "pa_kind a = Ensure_Service s"
    with final show "covered ?W s (pl_actions q)" by (fastforce simp: waits_kept_def)
  qed
  moreover have "set ?W = set (map service_wait (filter ?pend (ra_services desired)))"
    by (simp add: service_sequence_set)
  ultimately show ?thesis using guarded_cong by (metis plan.select_convs(1) plan.surjective plan.update_convs(1))
qed

end
