(* ===== verification/Reconciliation.thy ===== *)
theory Reconciliation
  imports Planner_Services
begin

text \<open>
  \<open>Plan::reconcile\<close> and \<open>Plan::deletion\<close> as wholes: the exact actions of a plan, when it is blocked,
  when it may clean up, and in which order it starts services.
\<close>

section \<open>The abstract view\<close>

text \<open>Everything desired is observed, owned, unchanged and converged.\<close>

definition resources_settled where
  "resources_settled sha desired observed \<longleftrightarrow>
     list_all (network_settled sha desired observed) (ra_networks desired)
     \<and> list_all (volume_settled sha desired observed) (ra_volumes desired)
     \<and> list_all (service_settled sha desired observed) (ra_services desired)"

text \<open>Something desired cannot be put in place: its name is taken, it changed in a way Docker cannot
  repair, or its update failed.\<close>

definition resources_conflict where
  "resources_conflict sha desired observed \<longleftrightarrow>
     list_ex (\<lambda>n. network_found observed n \<noteq> None \<and> \<not> network_settled sha desired observed n) (ra_networks desired)
     \<or> list_ex (\<lambda>v. volume_found observed v \<noteq> None \<and> \<not> volume_settled sha desired observed v) (ra_volumes desired)
     \<or> list_ex (service_blocks sha desired observed) (ra_services desired)"

definition obsolete_volumes where
  "obsolete_volumes desired observed = obsolete ov_name (set (map dv_name (ra_volumes desired))) (oa_volumes observed)"

definition obsolete_services where
  "obsolete_services desired observed = obsolete os_name (set (map ds_name (ra_services desired))) (oa_services observed)"

definition obsolete_networks where
  "obsolete_networks desired observed = obsolete on_name (set (map dn_name (ra_networks desired))) (oa_networks observed)"

text \<open>What a plan does to put resources in place, and what it removes once they are.\<close>

definition ensure_actions where
  "ensure_actions sha desired observed =
     concat (map (network_emits observed) (ra_networks desired))
     @ concat (map (volume_emits observed) (ra_volumes desired))
     @ concat (map (retain_emits sha (ra_instance_id desired) (ra_id desired)) (obsolete_volumes desired observed))
     @ map (ensure_action sha desired observed) (filter (changing sha desired observed) (ra_services desired))
     @ map (wait_for_service \<circ> ds_name) (filter (pending sha desired observed) (ra_services desired))"

definition owned_obsolete_services where
  "owned_obsolete_services sha desired observed =
     filter (\<lambda>s. service_is_owned_by sha s (ra_instance_id desired) (ra_id desired)) (obsolete_services desired observed)"

definition cleanup_actions where
  "cleanup_actions sha desired observed =
     map (\<lambda>s. new_action (Remove_Service (os_name s)) Reason_Obsolete) (owned_obsolete_services sha desired observed)
     @ map (wait_for_service_removal \<circ> os_name) (owned_obsolete_services sha desired observed)
     @ concat (map (remove_network_emits sha (ra_instance_id desired) (ra_id desired) Reason_Obsolete)
         (obsolete_networks desired observed))"

section \<open>Putting resources in place\<close>

lemma ensure_resources_spec:
  assumes "ensure_resources sha desired observed = (cleanup, p)"
  shows "mset (pl_actions p) = mset (ensure_actions sha desired observed)"
    and "is_blocked p \<longleftrightarrow> resources_conflict sha desired observed"
    and "cleanup \<longleftrightarrow> resources_settled sha desired observed"
    and "distinct (map ds_logical_name (ra_services desired)) \<Longrightarrow>
      acyclic (depends ds_logical_name ds_depends_on (ra_services desired)) \<Longrightarrow>
      guarded (map service_wait (filter (pending sha desired observed) (ra_services desired))) (pl_actions p)"
proof -
  obtain r1 p1 s1 where 1: "ensure_networks sha desired observed plan_default {} = (r1, p1, s1)"
    by (metis prod_cases3)
  obtain r2 p2 s2 where 2: "ensure_volumes sha desired observed p1 s1 = (r2, p2, s2)"
    by (metis prod_cases3)
  define p3 where "p3 = retain_obsolete_volumes sha desired observed p2"
  obtain r4 p4 s4 where 4: "ensure_services sha desired observed p3 s2 = (r4, p4, s4)"
    by (metis prod_cases3)
  have res: "cleanup = (r1 \<and> r2 \<and> r4 \<and> \<not> is_blocked p4)" "p = p4"
    using assms by (auto simp: ensure_resources_def 1 2 4 p3_def [symmetric])
  note n = 1 [unfolded ensure_networks_def] and v = 2 [unfolded ensure_volumes_def]
  have a1: "pl_actions p1 = concat (map (network_emits observed) (ra_networks desired))"
    and b1: "is_blocked p1 \<longleftrightarrow> list_ex (\<lambda>n. network_found observed n \<noteq> None
        \<and> \<not> network_settled sha desired observed n) (ra_networks desired)"
    and o1: "seen_blocks (p1, s1)" and f1: "r1 \<longleftrightarrow> list_all (network_settled sha desired observed) (ra_networks desired)"
    using ens_networks.pass_actions [of sha desired observed "ra_networks desired" "(True, plan_default, {})"]
      ens_networks.pass_blocked [of "(True, plan_default, {})" sha desired observed "ra_networks desired"]
      ens_networks.pass_okay [of "(True, plan_default, {})" sha desired observed "ra_networks desired"]
      ens_networks.pass_flag [of sha desired observed "ra_networks desired" "(True, plan_default, {})"]
    by (simp_all add: n plan_simps)
  have a2: "pl_actions p2 = pl_actions p1 @ concat (map (volume_emits observed) (ra_volumes desired))"
    and b2: "is_blocked p2 \<longleftrightarrow> is_blocked p1 \<or> list_ex (\<lambda>v. volume_found observed v \<noteq> None
        \<and> \<not> volume_settled sha desired observed v) (ra_volumes desired)"
    and o2: "seen_blocks (p2, s2)" and f2: "r2 \<longleftrightarrow> list_all (volume_settled sha desired observed) (ra_volumes desired)"
    using o1 ens_volumes.pass_actions [of sha desired observed "ra_volumes desired" "(True, p1, s1)"]
      ens_volumes.pass_blocked [of "(True, p1, s1)" sha desired observed "ra_volumes desired"]
      ens_volumes.pass_okay [of "(True, p1, s1)" sha desired observed "ra_volumes desired"]
      ens_volumes.pass_flag [of sha desired observed "ra_volumes desired" "(True, p1, s1)"]
    by (simp_all add: v)
  have a3: "pl_actions p3 = pl_actions p2 @ concat (map (retain_emits sha (ra_instance_id desired) (ra_id desired))
      (obsolete_volumes desired observed))" and b3: "is_blocked p3 = is_blocked p2"
    using ret_volumes.pass_actions [of sha desired _ p2] ret_volumes.pass_blocked [of sha desired _ p2]
    by (simp_all add: p3_def retain_obsolete_volumes_def obsolete_volumes_def list_ex_iff)
  have o3: "seen_blocks (p3, s2)" using o2 b3 by (simp add: seen_blocks_def)
  note s = ensure_services_actions [OF 4]
  show "mset (pl_actions p) = mset (ensure_actions sha desired observed)"
    by (simp add: res s(1) a3 a2 a1 ensure_actions_def)
  show blocked: "is_blocked p \<longleftrightarrow> resources_conflict sha desired observed"
    unfolding res s(3) [OF o3] b3 b2 b1 resources_conflict_def by blast
  have quiet: "list_ex (service_blocks sha desired observed) (ra_services desired)
      \<Longrightarrow> \<not> list_all (service_settled sha desired observed) (ra_services desired)"
    by (auto simp: list_ex_iff list_all_iff settled_cases)
  show "cleanup \<longleftrightarrow> resources_settled sha desired observed"
    using blocked quiet unfolding res f1 f2 s(2) resources_conflict_def resources_settled_def
    by (auto simp: list_ex_iff list_all_iff)
  assume names: "distinct (map ds_logical_name (ra_services desired))"
    and acyclic: "acyclic (depends ds_logical_name ds_depends_on (ra_services desired))"
  have "\<forall>a\<in>set (pl_actions p3). \<forall>s. pa_kind a \<noteq> Ensure_Service s"
    by (auto simp: a3 a2 a1 network_emits_def volume_emits_def retain_emits_def plan_simps split: if_splits)
  from ensure_services_guarded [OF 4 names acyclic this]
  show "guarded (map service_wait (filter (pending sha desired observed) (ra_services desired))) (pl_actions p)"
    by (simp add: res)
qed

section \<open>Cleanup\<close>

lemma remove_service_waits:
  "snd (fold (remove_service sha desired cleanup) ss (p, ws)) = ws @
     (if cleanup then map (wait_for_service_removal \<circ> os_name)
        (filter (\<lambda>s. service_is_owned_by sha s (ra_instance_id desired) (ra_id desired)) ss) else [])"
  by (induction ss arbitrary: p ws) (auto simp: remove_service_def)

lemma concat_remove_service_emits:
  "concat (map (remove_service_emits sha inst eid reason) ss) =
     map (\<lambda>s. new_action (Remove_Service (os_name s)) reason) (filter (\<lambda>s. service_is_owned_by sha s inst eid) ss)"
  by (induction ss) (simp_all add: remove_service_emits_def)

lemma reconcile_spec:
  assumes "ensure_resources sha desired observed = (cleanup, p)"
  shows "pl_actions (reconcile sha desired observed) =
      pl_actions p @ (if cleanup then cleanup_actions sha desired observed else [])"
    and "is_blocked (reconcile sha desired observed) = is_blocked p"
proof -
  let ?ss = "obsolete_services desired observed"
  obtain p1 ws where 1: "fold (remove_service sha desired cleanup) ?ss (p, []) = (p1, ws)" by fastforce
  define p2 where "p2 = p1\<lparr>pl_actions := pl_actions p1 @ ws\<rparr>"
  have r: "reconcile sha desired observed =
      fold (remove_network sha desired cleanup) (obsolete_networks desired observed) p2"
    using 1 by (simp add: reconcile_def assms remove_obsolete_services_def remove_obsolete_networks_def
        obsolete_services_def obsolete_networks_def p2_def)
  have p1: "pl_actions p1 = pl_actions p @ (if cleanup then map (\<lambda>s. new_action (Remove_Service (os_name s)) Reason_Obsolete)
        (owned_obsolete_services sha desired observed) else [])" "is_blocked p1 = is_blocked p"
    using rem_services.pass_actions [of sha desired cleanup ?ss "(p, [])"]
      rem_services.pass_blocked [of sha desired cleanup ?ss "(p, [])"]
    by (auto simp: 1 concat_remove_service_emits owned_obsolete_services_def list_ex_iff)
  have "ws = (if cleanup then map (wait_for_service_removal \<circ> os_name) (owned_obsolete_services sha desired observed) else [])"
    using remove_service_waits [of sha desired cleanup ?ss p "[]"] by (simp add: 1 owned_obsolete_services_def)
  then show "pl_actions (reconcile sha desired observed) =
      pl_actions p @ (if cleanup then cleanup_actions sha desired observed else [])"
    unfolding r rem_networks.pass_actions by (simp add: p2_def p1 cleanup_actions_def)
  show "is_blocked (reconcile sha desired observed) = is_blocked p"
    unfolding r using rem_networks.pass_blocked [of sha desired cleanup _ p2]
    by (simp add: p2_def p1 plan_simps list_ex_iff)
qed

lemma reconcile_actions:
  "mset (pl_actions (reconcile sha desired observed)) = mset (ensure_actions sha desired observed)
     + (if resources_settled sha desired observed then mset (cleanup_actions sha desired observed) else {#})"
proof -
  obtain cleanup p where e: "ensure_resources sha desired observed = (cleanup, p)" by fastforce
  from ensure_resources_spec(1,3) [OF e] reconcile_spec(1) [OF e] show ?thesis by simp
qed

lemma reconcile_blocked: "is_blocked (reconcile sha desired observed) \<longleftrightarrow> resources_conflict sha desired observed"
proof -
  obtain cleanup p where e: "ensure_resources sha desired observed = (cleanup, p)" by fastforce
  from ensure_resources_spec(2) [OF e] reconcile_spec(2) [OF e] show ?thesis by simp
qed

lemma reconcile_action_cases:
  assumes "a \<in> set (pl_actions (reconcile sha desired observed))"
  shows "a \<in> set (ensure_actions sha desired observed)
    \<or> resources_settled sha desired observed \<and> a \<in> set (cleanup_actions sha desired observed)"
proof -
  have "a \<in># mset (pl_actions (reconcile sha desired observed))" using assms by simp
  then show ?thesis unfolding reconcile_actions by (auto split: if_splits)
qed

end
