(* ===== verification/Plan_Safety.thy ===== *)
theory Plan_Safety
  imports Reconciliation
begin

text \<open>
  The properties of the plans \<open>planner.rs\<close> computes: ownership, when cleanup may start, the order
  of repairs, deletion, and independence from the order Docker lists resources in.
\<close>

section \<open>Statuses in terms of observations\<close>

lemma find_None_names: "List.find (\<lambda>x. f x = y) xs = None \<longleftrightarrow> y \<notin> f ` set xs"
  by (auto simp: find_none)

lemma changing_cases:
  assumes "changing sha desired observed s"
  shows "ds_name s \<notin> os_name ` set (oa_services observed)
    \<or> (\<exists>found\<in>set (oa_services observed). os_name found = ds_name s \<and> service_matches_ownership sha found s desired)"
proof (cases "List.find (\<lambda>found. os_name found = ds_name s) (oa_services observed)")
  case None
  then show ?thesis by (simp add: find_None_names)
next
  case (Some found)
  with assms have "service_matches_ownership sha found s desired"
    by (auto simp: changing_def service_status_of_def split: if_splits)
  with find_mem [OF Some] show ?thesis by blast
qed

lemma changing_owned:
  "changing sha desired observed s \<Longrightarrow> f \<in> set (oa_services observed) \<Longrightarrow> ds_name s = os_name f \<Longrightarrow>
     \<exists>found\<in>set (oa_services observed). os_name found = os_name f \<and> service_matches_ownership sha found s desired"
  using changing_cases [of sha desired observed s] by auto

lemma service_settled_found:
  assumes "service_settled sha desired observed s"
  shows "\<exists>found\<in>set (oa_services observed). os_name found = ds_name s
    \<and> service_matches_ownership sha found s desired \<and> service_matches sha found s \<and> os_convergence found = Converged"
proof (cases "List.find (\<lambda>found. os_name found = ds_name s) (oa_services observed)")
  case None
  with assms show ?thesis by (simp add: service_settled_def service_status_of_def)
next
  case (Some found)
  with assms have "service_matches_ownership sha found s desired \<and> service_matches sha found s
      \<and> os_convergence found = Converged"
    by (cases "os_convergence found") (auto simp: service_settled_def service_status_of_def split: if_splits)
  with find_mem [OF Some] show ?thesis by blast
qed

lemma in_obsolete: "r \<in> set (obsolete name wanted rs) \<longleftrightarrow> r \<in> set rs \<and> name r \<notin> wanted"
  by (auto simp: obsolete_def)

lemma cleanup_kinds: "a \<in> set (cleanup_actions sha desired observed) \<Longrightarrow> cleanup_kind (pa_kind a)"
  by (auto simp: cleanup_actions_def remove_network_emits_def plan_simps split: if_splits)

lemma settled_ensures:
  assumes "resources_settled sha desired observed"
  shows "ensure_actions sha desired observed =
    concat (map (retain_emits sha (ra_instance_id desired) (ra_id desired)) (obsolete_volumes desired observed))"
proof -
  have "filter (pending sha desired observed) (ra_services desired) = []"
    using assms by (auto simp: resources_settled_def list_all_iff settled_cases filter_empty_conv)
  moreover then have "filter (changing sha desired observed) (ra_services desired) = []"
    by (auto simp: filter_empty_conv pending_def)
  ultimately show ?thesis
    using assms ens_networks.settled_emits [of sha desired observed] ens_volumes.settled_emits [of sha desired observed]
    by (simp add: resources_settled_def ensure_actions_def)
qed

lemma unsettled_ensures:
  assumes "\<not> resources_settled sha desired observed" and "\<not> resources_conflict sha desired observed"
  obtains a where "a \<in> set (ensure_actions sha desired observed)" and "\<not> cleanup_kind (pa_kind a)"
proof -
  consider (network) n where "n \<in> set (ra_networks desired)" "network_found observed n = None"
    | (vol) v where "v \<in> set (ra_volumes desired)" "volume_found observed v = None"
    | (service) s where "s \<in> set (ra_services desired)" "pending sha desired observed s"
    using assms unfolding resources_settled_def resources_conflict_def list_all_iff list_ex_iff settled_cases
    by blast
  then show ?thesis
  proof cases
    case network
    then show ?thesis
      by (intro that [of "new_action (Ensure_Network n) Reason_Missing"])
        (auto simp: ensure_actions_def network_emits_def plan_simps)
  next
    case vol
    then show ?thesis
      by (intro that [of "new_action (Ensure_Volume v) Reason_Missing"])
        (auto simp: ensure_actions_def volume_emits_def plan_simps)
  next
    case service
    then show ?thesis
      by (intro that [of "wait_for_service (ds_name s)"]) (auto simp: ensure_actions_def plan_simps)
  qed
qed

lemma reconcile_ready:
  "desired_resources_ready (reconcile sha desired observed) \<longleftrightarrow> resources_settled sha desired observed"
proof
  assume ready: "desired_resources_ready (reconcile sha desired observed)"
  then have free: "\<not> resources_conflict sha desired observed"
    by (simp add: desired_resources_ready_def reconcile_blocked)
  show "resources_settled sha desired observed"
  proof (rule ccontr)
    assume "\<not> resources_settled sha desired observed"
    from unsettled_ensures [OF this free] obtain a where
      a: "a \<in> set (ensure_actions sha desired observed)" "\<not> cleanup_kind (pa_kind a)" .
    then have "a \<in># mset (pl_actions (reconcile sha desired observed))" by (simp add: reconcile_actions)
    with ready a(2) show False by (auto simp: desired_resources_ready_def list_all_iff)
  qed
next
  assume settled: "resources_settled sha desired observed"
  then have "\<not> resources_conflict sha desired observed"
    by (auto simp: resources_settled_def resources_conflict_def list_all_iff list_ex_iff settled_cases)
  moreover have "cleanup_kind (pa_kind a)" if "a \<in> set (pl_actions (reconcile sha desired observed))" for a
    using reconcile_action_cases [OF that] cleanup_kinds
    by (auto simp: settled_ensures [OF settled] retain_emits_def plan_simps split: if_splits)
  ultimately show "desired_resources_ready (reconcile sha desired observed)"
    by (auto simp: desired_resources_ready_def reconcile_blocked list_all_iff)
qed

section \<open>Order\<close>

lemma reconcile_guarded:
  assumes "distinct (map ds_logical_name (ra_services desired))"
    and "acyclic (depends ds_logical_name ds_depends_on (ra_services desired))"
  shows "guarded (map service_wait (filter (pending sha desired observed) (ra_services desired)))
    (pl_actions (reconcile sha desired observed))"
proof -
  obtain cleanup p where e: "ensure_resources sha desired observed = (cleanup, p)" by fastforce
  show ?thesis unfolding reconcile_spec(1) [OF e]
    by (rule guarded_append [OF ensure_resources_spec(4) [OF e assms]])
      (use cleanup_kinds in \<open>fastforce split: if_splits\<close>)
qed

section \<open>Deletion\<close>

lemma delete_service_waits:
  "snd (fst (fold (delete_service sha eid inst) ss ((p, ws), seen))) =
     ws @ map (wait_for_service_removal \<circ> os_name) (filter (\<lambda>s. service_is_owned_by sha s inst eid) ss)"
  by (induction ss arbitrary: p ws seen) (auto simp: delete_service_def split_beta)

lemma deletion_spec:
  shows "pl_actions (deletion sha eid inst observed) =
      (let owned = filter (\<lambda>s. service_is_owned_by sha s inst eid) (sort_key os_name (oa_services observed))
       in map (\<lambda>s. new_action (Remove_Service (os_name s)) Reason_Application_Deletion) owned
          @ map (wait_for_service_removal \<circ> os_name) owned)
      @ concat (map (remove_network_emits sha inst eid Reason_Application_Deletion) (sort_key on_name (oa_networks observed)))
      @ concat (map (retain_emits sha inst eid) (sort_key ov_name (oa_volumes observed)))"
    and "is_blocked (deletion sha eid inst observed) \<longleftrightarrow>
      list_ex (\<lambda>s. \<not> service_is_owned_by sha s inst eid) (oa_services observed)
      \<or> list_ex (\<lambda>n. \<not> network_is_owned_by sha n inst eid) (oa_networks observed)
      \<or> list_ex (\<lambda>v. \<not> volume_is_owned_by sha v inst eid) (oa_volumes observed)"
proof -
  let ?ss = "sort_key os_name (oa_services observed)" and ?ns = "sort_key on_name (oa_networks observed)"
    and ?vs = "sort_key ov_name (oa_volumes observed)"
  obtain p1 ws s1 where 1: "fold (delete_service sha eid inst) ?ss ((plan_default, []), {}) = ((p1, ws), s1)"
    by (metis surj_pair)
  define p2 where "p2 = p1\<lparr>pl_actions := pl_actions p1 @ ws\<rparr>"
  obtain p3 s3 where 3: "fold (delete_network sha eid inst) ?ns (p2, s1) = (p3, s3)" by fastforce
  obtain p4 s4 where 4: "fold (delete_volume sha eid inst) ?vs (p3, s3) = (p4, s4)" by fastforce
  have d: "deletion sha eid inst observed = p4" by (simp add: deletion_def 1 3 4 p2_def [symmetric])
  let ?st = "((plan_default, [] :: plan_action list), {} :: string set)"
  have 0: "seen_blocks (fst (fst ?st), snd ?st)"
    by (simp add: plan_simps)
  have ws: "ws = map (wait_for_service_removal \<circ> os_name) (filter (\<lambda>s. service_is_owned_by sha s inst eid) ?ss)"
    using delete_service_waits [of sha eid inst ?ss plan_default "[]" "{}"] by (simp add: 1)
  have 5: "seen_blocks (p1, s1)" using del_services.pass_okay [OF 0, of sha eid inst ?ss] by (simp add: 1)
  then have 6: "seen_blocks (p2, s1)" by (simp add: p2_def plan_simps)
  then have 7: "seen_blocks (p3, s3)" using del_networks.pass_okay [OF 6, of sha eid inst ?ns] by (simp add: 3)
  have a1: "pl_actions p1 = concat (map (remove_service_emits sha inst eid Reason_Application_Deletion) ?ss)"
    using del_services.pass_actions [of sha eid inst ?ss ?st] by (simp add: 1 plan_simps)
  have a2: "pl_actions p2 = pl_actions p1 @ ws" by (simp add: p2_def)
  have a3: "pl_actions p3 = pl_actions p2 @ concat (map (remove_network_emits sha inst eid Reason_Application_Deletion) ?ns)"
    using del_networks.pass_actions [of sha eid inst ?ns "(p2, s1)"] by (simp add: 3)
  have a4: "pl_actions p4 = pl_actions p3 @ concat (map (retain_emits sha inst eid) ?vs)"
    using del_volumes.pass_actions [of sha eid inst ?vs "(p3, s3)"] by (simp add: 4)
  have b2: "is_blocked p2 = is_blocked p1" by (simp add: p2_def plan_simps)
  show "pl_actions (deletion sha eid inst observed) =
      (let owned = filter (\<lambda>s. service_is_owned_by sha s inst eid) (sort_key os_name (oa_services observed))
       in map (\<lambda>s. new_action (Remove_Service (os_name s)) Reason_Application_Deletion) owned
          @ map (wait_for_service_removal \<circ> os_name) owned)
      @ concat (map (remove_network_emits sha inst eid Reason_Application_Deletion) (sort_key on_name (oa_networks observed)))
      @ concat (map (retain_emits sha inst eid) (sort_key ov_name (oa_volumes observed)))"
    by (simp add: d a4 a3 a2 a1 ws Let_def concat_remove_service_emits)
  show "is_blocked (deletion sha eid inst observed) \<longleftrightarrow>
      list_ex (\<lambda>s. \<not> service_is_owned_by sha s inst eid) (oa_services observed)
      \<or> list_ex (\<lambda>n. \<not> network_is_owned_by sha n inst eid) (oa_networks observed)
      \<or> list_ex (\<lambda>v. \<not> volume_is_owned_by sha v inst eid) (oa_volumes observed)"
    using del_services.pass_blocked [OF 0, of sha eid inst ?ss]
      del_networks.pass_blocked [OF 6, of sha eid inst ?ns]
      del_volumes.pass_blocked [OF 7, of sha eid inst ?vs]
    by (auto simp: d 1 3 4 b2 plan_simps list_ex_iff)
qed

section \<open>The order of observations\<close>

lemma find_reordered:
  assumes "mset xs = mset ys" and "distinct (map f ys)"
  shows "List.find (\<lambda>x. f x = y) xs = List.find (\<lambda>x. f x = y) ys"
proof -
  have sets: "set xs = set ys" and inj: "inj_on f (set ys)"
    using assms by (auto simp: distinct_map dest: mset_eq_setD)
  show ?thesis
  proof (cases "List.find (\<lambda>x. f x = y) xs")
    case None
    then have "List.find (\<lambda>x. f x = y) ys = None" by (simp add: find_None_names sets)
    with None show ?thesis by simp
  next
    case (Some x)
    note x = find_mem [OF Some]
    then have "List.find (\<lambda>x. f x = y) ys \<noteq> None" by (auto simp: find_None_names sets)
    then obtain z where z: "List.find (\<lambda>x. f x = y) ys = Some z" by blast
    from find_mem [OF z] x inj sets have "x = z" by (metis inj_onD)
    with Some z show ?thesis by simp
  qed
qed

lemma sort_reordered:
  assumes "mset xs = mset ys" and "distinct (map f ys)"
  shows "sort_key f xs = sort_key f ys"
proof (rule sort_key_inj_key_eq)
  show "mset xs = mset (sort_key f ys)" using assms by simp
  show "inj_on f (set xs)" using assms mset_eq_setD [OF assms(1)] by (simp add: distinct_map)
qed simp

section \<open>Properties\<close>

text \<open>C15: A reconciliation only touches what is its own. It creates a network or volume only when
  none of the name exists, changes a service only when none of the name exists or the existing one
  carries the labels of this environment and service, removes only resources this environment owns
  and no longer wants (a link network only once nothing uses it), never removes a volume, and never
  builds, resolves or runs jobs.\<close>

theorem plans_respect_ownership:
  assumes "a \<in> set (pl_actions (reconcile sha desired observed))"
  shows "case pa_kind a of
      Ensure_Network n \<Rightarrow> n \<in> set (ra_networks desired) \<and> dn_name n \<notin> on_name ` set (oa_networks observed)
    | Ensure_Volume v \<Rightarrow> v \<in> set (ra_volumes desired) \<and> dv_name v \<notin> ov_name ` set (oa_volumes observed)
    | Ensure_Service s \<Rightarrow> s \<in> set (ra_services desired) \<and> (ds_name s \<notin> os_name ` set (oa_services observed)
        \<or> (\<exists>found\<in>set (oa_services observed). os_name found = ds_name s
             \<and> service_matches_ownership sha found s desired))
    | Wait_For_Service name \<Rightarrow> name \<in> ds_name ` set (ra_services desired)
    | Remove_Service name \<Rightarrow> name \<notin> ds_name ` set (ra_services desired)
        \<and> (\<exists>found\<in>set (oa_services observed). os_name found = name
             \<and> service_is_owned_by sha found (ra_instance_id desired) (ra_id desired))
    | Wait_For_Service_Removal name \<Rightarrow> name \<notin> ds_name ` set (ra_services desired)
        \<and> (\<exists>found\<in>set (oa_services observed). os_name found = name
             \<and> service_is_owned_by sha found (ra_instance_id desired) (ra_id desired))
    | Remove_Network name \<Rightarrow> name \<notin> dn_name ` set (ra_networks desired)
        \<and> (\<exists>found\<in>set (oa_networks observed). on_name found = name \<and> \<not> network_is_linked_in_use found
             \<and> network_is_owned_by sha found (ra_instance_id desired) (ra_id desired))
    | Retain_Volume name \<Rightarrow> name \<notin> dv_name ` set (ra_volumes desired)
        \<and> (\<exists>found\<in>set (oa_volumes observed). ov_name found = name
             \<and> volume_is_owned_by sha found (ra_instance_id desired) (ra_id desired))
    | _ \<Rightarrow> False"
  using reconcile_action_cases [OF assms]
proof (elim disjE conjE)
  assume "a \<in> set (ensure_actions sha desired observed)"
  then show ?thesis
    unfolding ensure_actions_def obsolete_volumes_def
    by (auto simp: network_emits_def volume_emits_def network_found_def volume_found_def retain_emits_def
        ensure_action_def find_None_names in_obsolete plan_simps split: if_splits)
      (use changing_owned in blast)
next
  assume "a \<in> set (cleanup_actions sha desired observed)"
  then show ?thesis
    unfolding cleanup_actions_def owned_obsolete_services_def obsolete_services_def obsolete_networks_def
    by (auto simp: remove_network_emits_def in_obsolete plan_simps split: if_splits)
qed

text \<open>C14: Cleanup waits for the rollout. Only cleanup is left in a reconciliation exactly when every
  desired network and volume exists as wanted and every desired service is observed with its
  configuration and converged; only then does the plan remove anything, and a blocked plan removes
  nothing.\<close>

theorem cleanup_waits_for_convergence:
  "(desired_resources_ready (reconcile sha desired observed) \<longleftrightarrow> resources_settled sha desired observed)
   \<and> (list_ex (\<lambda>a. destructive (pa_kind a)) (pl_actions (reconcile sha desired observed)) \<longrightarrow>
        resources_settled sha desired observed \<and> \<not> is_blocked (reconcile sha desired observed)
        \<and> converged_in sha desired observed)"
proof (intro conjI impI)
  show "desired_resources_ready (reconcile sha desired observed) \<longleftrightarrow> resources_settled sha desired observed"
    by (rule reconcile_ready)
  assume "list_ex (\<lambda>a. destructive (pa_kind a)) (pl_actions (reconcile sha desired observed))"
  then obtain a where a: "a \<in> set (pl_actions (reconcile sha desired observed))" "destructive (pa_kind a)"
    by (auto simp: list_ex_iff)
  have "\<not> destructive (pa_kind a)" if "a \<in> set (ensure_actions sha desired observed)"
    using that by (auto simp: ensure_actions_def network_emits_def volume_emits_def retain_emits_def
        ensure_action_def destructive_def plan_simps split: if_splits)
  with reconcile_action_cases [OF a(1)] a(2) show settled: "resources_settled sha desired observed" by blast
  then have "desired_resources_ready (reconcile sha desired observed)" by (simp add: reconcile_ready)
  then show "\<not> is_blocked (reconcile sha desired observed)" by (simp add: desired_resources_ready_def)
  show "converged_in sha desired observed"
    using settled service_settled_found
    unfolding converged_in_def resources_settled_def list_all_iff list_ex_iff by meson
qed


text \<open>C37: What a reconciliation consists of, and when it is blocked. As a multiset its actions are
  one creation per missing network and volume, one retention per owned volume no longer wanted, one
  ensure per missing or drifted service, one wait per service not yet converged and, once everything is
  settled, the removals; it is blocked exactly when the name of something desired is taken, a network
  or volume drifted, or a service update failed.\<close>

theorem reconciliation_is_complete:
  "mset (pl_actions (reconcile sha desired observed)) = mset (ensure_actions sha desired observed)
     + (if resources_settled sha desired observed then mset (cleanup_actions sha desired observed) else {#})
   \<and> (is_blocked (reconcile sha desired observed) \<longleftrightarrow> resources_conflict sha desired observed)
   \<and> (resources_settled sha desired observed \<or> is_blocked (reconcile sha desired observed)
      \<or> list_ex (\<lambda>a. repair_stop (pa_kind a)) (pl_actions (reconcile sha desired observed)))"
proof (intro conjI)
  show "resources_settled sha desired observed \<or> is_blocked (reconcile sha desired observed)
      \<or> list_ex (\<lambda>a. repair_stop (pa_kind a)) (pl_actions (reconcile sha desired observed))"
  proof (rule ccontr)
    assume none: "\<not> (resources_settled sha desired observed \<or> is_blocked (reconcile sha desired observed)
      \<or> list_ex (\<lambda>a. repair_stop (pa_kind a)) (pl_actions (reconcile sha desired observed)))"
    then obtain a where a: "a \<in> set (ensure_actions sha desired observed)" "\<not> cleanup_kind (pa_kind a)"
      using unsettled_ensures unfolding reconcile_blocked by blast
    then have "repair_stop (pa_kind a)"
      by (auto simp: ensure_actions_def network_emits_def volume_emits_def retain_emits_def
          ensure_action_def plan_simps split: if_splits)
    moreover have "a \<in># mset (pl_actions (reconcile sha desired observed))"
      using a by (simp add: reconcile_actions)
    ultimately show False using none by (auto simp: list_ex_iff)
  qed
qed (rule reconcile_actions, rule reconcile_blocked)

text \<open>C38: A deletion removes exactly the owned services, waits for them, then removes the owned
  networks nothing else uses and retains the owned volumes, in the order of names; any resource it
  does not own blocks it.\<close>

theorem deletion_removes_what_is_owned:
  "pl_actions (deletion sha eid inst observed) =
     (let owned = filter (\<lambda>s. service_is_owned_by sha s inst eid) (sort_key os_name (oa_services observed))
      in map (\<lambda>s. new_action (Remove_Service (os_name s)) Reason_Application_Deletion) owned
         @ map (wait_for_service_removal \<circ> os_name) owned)
     @ map (\<lambda>n. new_action (Remove_Network (on_name n)) Reason_Application_Deletion)
         (filter (\<lambda>n. network_is_owned_by sha n inst eid \<and> \<not> network_is_linked_in_use n)
           (sort_key on_name (oa_networks observed)))
     @ map (\<lambda>v. new_action (Retain_Volume (ov_name v)) Reason_Volume_Retention_Policy)
         (filter (\<lambda>v. volume_is_owned_by sha v inst eid) (sort_key ov_name (oa_volumes observed)))
   \<and> (is_blocked (deletion sha eid inst observed) \<longleftrightarrow>
        list_ex (\<lambda>s. \<not> service_is_owned_by sha s inst eid) (oa_services observed)
        \<or> list_ex (\<lambda>n. \<not> network_is_owned_by sha n inst eid) (oa_networks observed)
        \<or> list_ex (\<lambda>v. \<not> volume_is_owned_by sha v inst eid) (oa_volumes observed))"
proof -
  have n: "concat (map (remove_network_emits sha inst eid Reason_Application_Deletion) ns) =
      map (\<lambda>n. new_action (Remove_Network (on_name n)) Reason_Application_Deletion)
        (filter (\<lambda>n. network_is_owned_by sha n inst eid \<and> \<not> network_is_linked_in_use n) ns)" for ns
    by (induction ns) (simp_all add: remove_network_emits_def)
  have v: "concat (map (retain_emits sha inst eid) vs) =
      map (\<lambda>v. new_action (Retain_Volume (ov_name v)) Reason_Volume_Retention_Policy)
        (filter (\<lambda>v. volume_is_owned_by sha v inst eid) vs)" for vs
    by (induction vs) (simp_all add: retain_emits_def)
  show ?thesis using deletion_spec [of sha eid inst observed] unfolding n v by blast
qed

text \<open>The plan does not depend on the order Docker lists resources in, as long as Docker's names
  are unique: a permuted observation gives the same plan, diagnostics included, and the diagnostics
  come out sorted by resource and code.\<close>

theorem plans_ignore_observed_order:
  assumes "mset (oa_networks o') = mset (oa_networks observed)" and "distinct (map on_name (oa_networks observed))"
    and "mset (oa_volumes o') = mset (oa_volumes observed)" and "distinct (map ov_name (oa_volumes observed))"
    and "mset (oa_services o') = mset (oa_services observed)" and "distinct (map os_name (oa_services observed))"
  shows "from_request sha request o' = from_request sha request observed
    \<and> sorted (map (\<lambda>d. (pd_resource d, pd_code d)) (pl_diagnostics (from_request sha request o')))"
proof -
  note f = find_reordered [OF assms(1,2)] find_reordered [OF assms(3,4)] find_reordered [OF assms(5,6)]
  note s = sort_reordered [OF assms(1,2)] sort_reordered [OF assms(3,4)] sort_reordered [OF assms(5,6)]
  have "ensure_network sha d o' = ensure_network sha d observed"
    "ensure_volume sha d o' = ensure_volume sha d observed"
    "ensure_service sha d o' = ensure_service sha d observed" for d
    by (intro ext, simp only: ensure_network_def ensure_volume_def ensure_service_def f)+
  then have "ensure_resources sha d o' = ensure_resources sha d observed" for d
    by (simp only: ensure_resources_def ensure_networks_def ensure_volumes_def ensure_services_def
        retain_obsolete_volumes_def obsolete_def s)
  then have "reconcile sha d o' = reconcile sha d observed" for d
    by (simp only: reconcile_def remove_obsolete_services_def remove_obsolete_networks_def obsolete_def s)
  moreover have "deletion sha eid inst o' = deletion sha eid inst observed" for eid inst
    by (simp only: deletion_def s)
  ultimately have "from_request sha request o' = from_request sha request observed"
    by (simp only: from_request_def)
  then show ?thesis by (simp add: from_request_def sort_diagnostics_def sorted_sort_key)
qed

section \<open>Examples\<close>

text \<open>Two services, \<open>web\<close> after \<open>db\<close>, of which Docker runs \<open>db\<close>; and the same with both running
  beside a service no longer wanted.\<close>

definition example_sha :: "string \<Rightarrow> string" where
  "example_sha _ = replicate 64 (CHR ''a'')"

definition example_labels :: "string option \<Rightarrow> labels" where
  "example_labels service = ownership_labels \<lparr>ow_instance_id = ''main'', ow_environment_id = ''env-0001'',
     ow_service = service, ow_spec_hash = example_hash\<rparr>"

definition example_service :: "string \<Rightarrow> string list \<Rightarrow> desired_service" where
  "example_service name dependencies =
     \<lparr>ds_logical_name = name, ds_name = service_name_for example_sha ''env-0001'' name,
      ds_source = Resolved_Image ''postgres'' ''sha256:0'', ds_image = ''sha256:0'', ds_replicas = 1,
      ds_environment = Mapping.empty, ds_command = [], ds_arguments = [], ds_mounts = [],
      ds_secrets = [], ds_files = [], ds_healthcheck = None, ds_resources = None, ds_networks = [],
      ds_link_aliases = Mapping.empty, ds_labels = example_labels (Some name), ds_depends_on = dependencies,
      ds_rollout = rollout_default, ds_receives_telemetry = False, ds_telemetry = None\<rparr>"

definition example_target :: resolved_application where
  "example_target =
     \<lparr>ra_secret_names = Mapping.empty, ra_id = ''env-0001'', ra_name = ''shop'', ra_instance_id = ''main'',
      ra_spec_hash = example_hash, ra_networks = [], ra_volumes = [],
      ra_services = [example_service ''web'' [''db''], example_service ''db'' []],
      ra_routes = [], ra_jobs = [], ra_exports = [], ra_imports = [], ra_bindings = Mapping.empty\<rparr>"

definition observed_as :: "desired_service \<Rightarrow> convergence \<Rightarrow> observed_service" where
  "observed_as s c = example_observed_service
     \<lparr>os_name := ds_name s, os_labels := ds_labels s, os_mounts := [],
      os_rollout := Some (desired_rollout_policy s), os_convergence := c\<rparr>"

definition example_observation :: "convergence \<Rightarrow> observed_application" where
  "example_observation c =
     \<lparr>oa_networks = [], oa_volumes = [], oa_services = [observed_as (example_service ''db'' []) c],
      oa_linked_networks = []\<rparr>"

definition cleanup_observation :: observed_application where
  "cleanup_observation =
     \<lparr>oa_networks = [], oa_volumes = [],
      oa_services = map (\<lambda>name. observed_as (example_service name []) Converged) [''web'', ''db'', ''old''],
      oa_linked_networks = []\<rparr>"

definition web_ensure :: plan_action where
  "web_ensure = new_action (Ensure_Service (example_service ''web'' [''db''])) Reason_Missing"

lemma example_repair:
  "next_repair (reconcile example_sha example_target (example_observation Converged)) = Some web_ensure"
  "\<not> is_blocked (reconcile example_sha example_target (example_observation Converged))"
  by code_simp+

lemma example_removal:
  "list_ex (\<lambda>a. destructive (pa_kind a)) (pl_actions (reconcile example_sha example_target cleanup_observation))"
  by code_simp

lemma example_acyclic:
  "acyclic (depends ds_logical_name ds_depends_on (ra_services example_target))"
proof (rule acyclic_subset)
  have "{(''web'', ''db'')}\<^sup>+ = {(''web'', ''db'')}" by (rule trancl_id) (simp add: trans_def)
  then show "acyclic {(''web'', ''db'')}" by (simp add: acyclic_def)
  show "depends ds_logical_name ds_depends_on (ra_services example_target) \<subseteq> {(''web'', ''db'')}"
    by (auto simp: depends_def find_service_def example_target_def example_service_def split: if_splits)
qed

theorem plans_respect_ownership_witness:
  "service_name_for example_sha ''env-0001'' ''old'' \<notin> ds_name ` set (ra_services example_target)
   \<and> (\<exists>found\<in>set (oa_services cleanup_observation). os_name found = service_name_for example_sha ''env-0001'' ''old''
        \<and> service_is_owned_by example_sha found (ra_instance_id example_target) (ra_id example_target))"
proof -
  have "new_action (Remove_Service (service_name_for example_sha ''env-0001'' ''old'')) Reason_Obsolete
      \<in> set (pl_actions (reconcile example_sha example_target cleanup_observation))"
    by code_simp
  from plans_respect_ownership [OF this] show ?thesis by (simp add: plan_simps)
qed

theorem cleanup_waits_for_convergence_witness:
  "resources_settled example_sha example_target cleanup_observation
   \<and> \<not> is_blocked (reconcile example_sha example_target cleanup_observation)
   \<and> converged_in example_sha example_target cleanup_observation"
  using cleanup_waits_for_convergence example_removal by blast


theorem plans_ignore_observed_order_witness:
  "from_request example_sha (Reconcile example_target)
     (cleanup_observation\<lparr>oa_services := rev (oa_services cleanup_observation)\<rparr>)
   = from_request example_sha (Reconcile example_target) cleanup_observation"
proof -
  have "distinct (map os_name (oa_services cleanup_observation))" by code_simp
  moreover have "oa_networks cleanup_observation = []" "oa_volumes cleanup_observation = []"
    by (simp_all add: cleanup_observation_def)
  ultimately show ?thesis
    using plans_ignore_observed_order
      [of "cleanup_observation\<lparr>oa_services := rev (oa_services cleanup_observation)\<rparr>" cleanup_observation
        example_sha "Reconcile example_target"]
    by simp
qed

end
