(* ===== verification/Preparation.thy ===== *)
theory Preparation
  imports Plan_Safety
begin

text \<open>
  Jobs in a plan: \<open>Plan::next_job_preparation\<close>, \<open>Plan::preserve_job_prerequisites\<close> and \<open>Plan::add_jobs\<close>
  of \<open>crates/piqueld-core/src/planner.rs\<close>.
\<close>

section \<open>Preparing a job\<close>

text \<open>The actions a job waits for: shared networks and volumes, and its startup dependencies.\<close>

fun job_prerequisite :: "resolved_application \<Rightarrow> string set \<Rightarrow> action_kind \<Rightarrow> bool" where
  "job_prerequisite target dependencies (Ensure_Network _) \<longleftrightarrow> True"
| "job_prerequisite target dependencies (Ensure_Volume _) \<longleftrightarrow> True"
| "job_prerequisite target dependencies (Ensure_Service service) \<longleftrightarrow> ds_logical_name service \<in> dependencies"
| "job_prerequisite target dependencies (Wait_For_Service service) \<longleftrightarrow>
     list_ex (\<lambda>desired. ds_name desired = service \<and> ds_logical_name desired \<in> dependencies) (ra_services target)"
| "job_prerequisite target dependencies _ \<longleftrightarrow> False"

definition next_job_preparation ::
    "(string \<Rightarrow> string) \<Rightarrow> plan \<Rightarrow> resolved_application \<Rightarrow> desired_job \<Rightarrow> observed_application
     \<Rightarrow> plan_action option" where
  "next_job_preparation sha p target j observed =
     (let dependencies = job_dependencies target j in
      case List.find (\<lambda>action. job_prerequisite target dependencies (pa_kind action)) (pl_actions p) of
        Some action \<Rightarrow> Some action
      | None \<Rightarrow>
          map_option (\<lambda>service. new_action (Remove_Service (os_name service)) Reason_Deployment_Job)
            (List.find (\<lambda>service. job_stops sha j (os_name service) (map om_volume_name (os_mounts service)))
              (oa_services observed)))"

section \<open>Repair while a deployment may still roll out\<close>

definition prepared_dependencies :: "resolved_application \<Rightarrow> string set" where
  "prepared_dependencies prepared = \<Union>(job_dependencies prepared ` set (ra_jobs prepared))"

definition prepared_services :: "resolved_application \<Rightarrow> string set" where
  "prepared_services prepared =
     set (map ds_name (filter (\<lambda>service. ds_logical_name service \<in> prepared_dependencies prepared)
       (ra_services prepared)))"

definition stopped_for_job :: "(string \<Rightarrow> string) \<Rightarrow> resolved_application \<Rightarrow> desired_service \<Rightarrow> bool" where
  "stopped_for_job sha prepared service \<longleftrightarrow>
     list_ex (\<lambda>j. job_stops sha j (ds_name service) (map dm_volume_name (ds_mounts service))) (ra_jobs prepared)"

fun stopped_ensure :: "(string \<Rightarrow> string) \<Rightarrow> resolved_application \<Rightarrow> action_kind \<Rightarrow> string option" where
  "stopped_ensure sha prepared (Ensure_Service service) =
     (if stopped_for_job sha prepared service then Some (ds_name service) else None)"
| "stopped_ensure sha prepared _ = None"

definition stopped_services :: "(string \<Rightarrow> string) \<Rightarrow> resolved_application \<Rightarrow> plan \<Rightarrow> string set" where
  "stopped_services sha prepared p =
     set (List.map_filter (\<lambda>action. stopped_ensure sha prepared (pa_kind action)) (pl_actions p))"

fun preserved ::
    "resolved_application \<Rightarrow> observed_application \<Rightarrow> string set \<Rightarrow> string set \<Rightarrow> action_kind \<Rightarrow> bool" where
  "preserved prepared observed services stopped (Ensure_Service service) \<longleftrightarrow>
     ds_name service \<notin> services \<and> ds_name service \<notin> stopped"
| "preserved prepared observed services stopped (Remove_Service name) \<longleftrightarrow> name \<notin> services"
| "preserved prepared observed services stopped (Wait_For_Service service) \<longleftrightarrow>
     service \<notin> stopped
     \<and> (service \<notin> services
        \<or> \<not> list_ex (\<lambda>found. os_name found = service \<and> os_convergence found = Converged) (oa_services observed))"
| "preserved prepared observed services stopped (Remove_Network name) \<longleftrightarrow>
     ra_jobs prepared = [] \<or> \<not> list_ex (\<lambda>network. dn_name network = name) (ra_networks prepared)"
| "preserved prepared observed services stopped _ \<longleftrightarrow> True"

definition preserve_job_prerequisites ::
    "(string \<Rightarrow> string) \<Rightarrow> resolved_application \<Rightarrow> observed_application \<Rightarrow> plan \<Rightarrow> plan" where
  "preserve_job_prerequisites sha prepared observed p =
     p\<lparr>pl_actions := filter (\<lambda>action. preserved prepared observed (prepared_services prepared)
         (stopped_services sha prepared p) (pa_kind action)) (pl_actions p)\<rparr>"

section \<open>Jobs of a preview\<close>

fun prepares :: "string set \<Rightarrow> action_kind \<Rightarrow> bool" where
  "prepares dependencies (Ensure_Service service) \<longleftrightarrow> ds_name service \<in> dependencies"
| "prepares dependencies (Wait_For_Service service) \<longleftrightarrow> service \<in> dependencies"
| "prepares dependencies (Remove_Service _) \<longleftrightarrow> False"
| "prepares dependencies (Remove_Network _) \<longleftrightarrow> False"
| "prepares dependencies (Wait_For_Service_Removal _) \<longleftrightarrow> False"
| "prepares dependencies _ \<longleftrightarrow> True"

definition spec_dependencies :: "(string \<Rightarrow> string) \<Rightarrow> validated_spec \<Rightarrow> environment_id \<Rightarrow> validated_job \<Rightarrow> string set" where
  "spec_dependencies sha spec eid j =
     (let dependencies = dependencies_of vs_name vs_depends_on (sp_services spec) (vj_service j)
      in set (map (\<lambda>service. service_name_for sha eid (vs_name service))
           (filter (\<lambda>service. vs_name service \<in> dependencies) (sp_services spec))))"

definition add_job ::
    "(string \<Rightarrow> string) \<Rightarrow> validated_spec \<Rightarrow> environment_id \<Rightarrow> validated_job
     \<Rightarrow> plan_action list \<times> plan_action list \<Rightarrow> plan_action list \<times> plan_action list" where
  "add_job sha spec eid j = (\<lambda>(actions, remaining).
     (let dependencies = spec_dependencies sha spec eid j;
          (prerequisites, rest) = partition (\<lambda>action. prepares dependencies (pa_kind action)) remaining
      in (actions @ prerequisites @ [new_action (Run_Job (vj_name j)) Reason_Deployment_Job], rest)))"

definition job_stop_warning :: "validated_spec \<Rightarrow> validated_job \<Rightarrow> plan_diagnostic option" where
  "job_stop_warning spec j =
     (let exclusive = (vj_volume_access j = Access_Exclusive) in
      case List.find (\<lambda>service. vs_name service = vj_service j) (sp_services spec) of
        None \<Rightarrow> None
      | Some service \<Rightarrow>
          let volumes = set (map vm_volume
                (filter (\<lambda>mount. exclusive \<and> \<not> vm_read_only mount) (vs_mounts service)));
              services = map vs_name (filter (\<lambda>service. (vj_stop_service j \<and> vs_name service = vj_service j)
                  \<or> list_ex (\<lambda>mount. vm_volume mount \<in> volumes) (vs_mounts service)) (sp_services spec))
          in if services = [] then None
             else Some (new_diagnostic ''job_stops_services'' Warning (vj_name j)
               (''job '' @ vj_name j @ '' stops '' @ join '', '' services
                @ (if volumes = {} then '''' else '' and any other running service mounting its volumes'')
                @ '' before it runs, until the rollout'')))"

definition warn :: "plan_diagnostic list \<Rightarrow> plan \<Rightarrow> plan" where
  "warn diagnostics p = sort_diagnostics (p\<lparr>pl_diagnostics := pl_diagnostics p @ diagnostics\<rparr>)"

definition add_jobs :: "(string \<Rightarrow> string) \<Rightarrow> validated_spec \<Rightarrow> environment_id \<Rightarrow> plan \<Rightarrow> plan" where
  "add_jobs sha spec eid p =
     (let (actions, remaining) = fold (add_job sha spec eid) (sp_jobs spec) ([], pl_actions p)
      in warn (List.map_filter (job_stop_warning spec) (sp_jobs spec)) (p\<lparr>pl_actions := actions @ remaining\<rparr>))"

section \<open>Facts\<close>

lemma warn_simps [plan_simps]:
  "pl_actions (warn ds p) = pl_actions p"
  "mset (pl_diagnostics (warn ds p)) = mset (pl_diagnostics p) + mset ds"
  by (simp_all add: warn_def plan_simps)

lemma find_None_list_all: "List.find P xs = None \<longleftrightarrow> list_all (\<lambda>x. \<not> P x) xs"
  by (simp add: find_none list_all_iff)

lemma in_reconcile: "a \<in> set (ensure_actions sha desired observed) \<Longrightarrow> a \<in> set (pl_actions (reconcile sha desired observed))"
  by (metis in_multiset_in_set reconcile_actions union_iff)

lemma in_ensure_actions:
  "n \<in> set (ra_networks desired) \<Longrightarrow> network_found observed n = None \<Longrightarrow>
     new_action (Ensure_Network n) Reason_Missing \<in> set (ensure_actions sha desired observed)"
  "v \<in> set (ra_volumes desired) \<Longrightarrow> volume_found observed v = None \<Longrightarrow>
     new_action (Ensure_Volume v) Reason_Missing \<in> set (ensure_actions sha desired observed)"
  "s \<in> set (ra_services desired) \<Longrightarrow> pending sha desired observed s \<Longrightarrow>
     wait_for_service (ds_name s) \<in> set (ensure_actions sha desired observed)"
  by (auto simp: ensure_actions_def network_emits_def volume_emits_def)

text \<open>The loop of \<open>add_jobs\<close> as a list: the prerequisites of each job left over by the jobs before it.\<close>

fun job_actions ::
    "(string \<Rightarrow> string) \<Rightarrow> validated_spec \<Rightarrow> environment_id \<Rightarrow> validated_job list \<Rightarrow> plan_action list
     \<Rightarrow> plan_action list" where
  "job_actions sha spec eid [] remaining = remaining"
| "job_actions sha spec eid (j # js) remaining =
     filter (\<lambda>a. prepares (spec_dependencies sha spec eid j) (pa_kind a)) remaining
     @ new_action (Run_Job (vj_name j)) Reason_Deployment_Job
     # job_actions sha spec eid js
         (filter (\<lambda>a. \<not> prepares (spec_dependencies sha spec eid j) (pa_kind a)) remaining)"

lemma add_job_fold:
  "fold (add_job sha spec eid) js (acc, remaining) = (acc', remaining') \<Longrightarrow>
     acc' @ remaining' = acc @ job_actions sha spec eid js remaining"
proof (induction js arbitrary: acc remaining)
  case (Cons j js)
  from Cons.IH [of "fst (add_job sha spec eid j (acc, remaining))" "snd (add_job sha spec eid j (acc, remaining))"]
    Cons.prems show ?case
    by (simp add: add_job_def Let_def partition_filter_conv o_def)
qed simp

lemma add_jobs_actions: "pl_actions (add_jobs sha spec eid p) = job_actions sha spec eid (sp_jobs spec) (pl_actions p)"
proof -
  obtain as rest where "fold (add_job sha spec eid) (sp_jobs spec) ([], pl_actions p) = (as, rest)" by fastforce
  with add_job_fold [OF this] show ?thesis by (simp add: add_jobs_def plan_simps)
qed

lemma filter_split_mset: "mset (filter P xs) + (mset (filter (\<lambda>x. \<not> P x) xs) + M) = mset xs + M"
  by (metis multiset_partition mset_filter union_assoc)

lemma job_actions_mset:
  "mset (job_actions sha spec eid js remaining) =
     mset remaining + mset (map (\<lambda>j. new_action (Run_Job (vj_name j)) Reason_Deployment_Job) js)"
  by (induction js arbitrary: remaining) (simp_all add: filter_split_mset [unfolded mset_filter])

lemma job_actions_split:
  "\<exists>pre. job_actions sha spec eid (js @ ks) remaining = pre @ job_actions sha spec eid ks
       (filter (\<lambda>a. list_all (\<lambda>j. \<not> prepares (spec_dependencies sha spec eid j) (pa_kind a)) js) remaining)
     \<and> (\<forall>a\<in>set pre. \<not> destructive (pa_kind a))"
proof (induction js arbitrary: remaining)
  case Nil
  then show ?case by simp
next
  case (Cons j js)
  let ?P = "\<lambda>a. prepares (spec_dependencies sha spec eid j) (pa_kind a)"
  obtain pre where pre: "job_actions sha spec eid (js @ ks) (filter (\<lambda>a. \<not> ?P a) remaining)
      = pre @ job_actions sha spec eid ks
       (filter (\<lambda>a. list_all (\<lambda>j. \<not> prepares (spec_dependencies sha spec eid j) (pa_kind a)) js)
         (filter (\<lambda>a. \<not> ?P a) remaining))" "\<forall>a\<in>set pre. \<not> destructive (pa_kind a)"
    using Cons.IH [of "filter (\<lambda>a. \<not> ?P a) remaining"] by blast
  have keep: "\<not> destructive k" if "prepares deps k" for deps k
    using that by (cases k) (simp_all add: destructive_def)
  let ?pre = "filter ?P remaining @ new_action (Run_Job (vj_name j)) Reason_Deployment_Job # pre"
  have "\<forall>a\<in>set ?pre. \<not> destructive (pa_kind a)"
    using pre(2) keep by (auto simp: plan_simps destructive_def)
  moreover have "job_actions sha spec eid ((j # js) @ ks) remaining = ?pre @ job_actions sha spec eid ks
       (filter (\<lambda>a. list_all (\<lambda>j. \<not> prepares (spec_dependencies sha spec eid j) (pa_kind a)) (j # js)) remaining)"
    by (simp add: pre(1) conj_commute)
  ultimately show ?case by blast
qed

lemma job_actions_at:
  "\<exists>pre post. job_actions sha spec eid (js @ j # ks) remaining =
       pre @ new_action (Run_Job (vj_name j)) Reason_Deployment_Job # post
     \<and> (\<forall>a\<in>set pre. \<not> destructive (pa_kind a))
     \<and> (\<forall>a\<in>set post. prepares (spec_dependencies sha spec eid j) (pa_kind a) \<longrightarrow> a \<in>
          (\<lambda>k. new_action (Run_Job (vj_name k)) Reason_Deployment_Job) ` set ks)"
proof -
  let ?P = "\<lambda>a. prepares (spec_dependencies sha spec eid j) (pa_kind a)"
  obtain pre rest where pre: "job_actions sha spec eid (js @ j # ks) remaining = pre @ job_actions sha spec eid (j # ks) rest"
    "\<forall>a\<in>set pre. \<not> destructive (pa_kind a)"
    using job_actions_split by blast
  have keep: "\<not> destructive k" if "prepares deps k" for deps k
    using that by (cases k) (simp_all add: destructive_def)
  let ?post = "job_actions sha spec eid ks (filter (\<lambda>a. \<not> ?P a) rest)"
  have "set ?post = set (filter (\<lambda>a. \<not> ?P a) rest) \<union> (\<lambda>k. new_action (Run_Job (vj_name k)) Reason_Deployment_Job) ` set ks"
    using arg_cong [OF job_actions_mset, of set_mset] by simp
  then have "\<forall>a\<in>set ?post. ?P a \<longrightarrow> a \<in> (\<lambda>k. new_action (Run_Job (vj_name k)) Reason_Deployment_Job) ` set ks"
    by auto
  moreover have "\<forall>a\<in>set (pre @ filter ?P rest). \<not> destructive (pa_kind a)"
    using pre(2) keep by auto
  moreover have "job_actions sha spec eid (js @ j # ks) remaining =
      (pre @ filter ?P rest) @ new_action (Run_Job (vj_name j)) Reason_Deployment_Job # ?post"
    by (simp add: pre(1))
  ultimately show ?thesis by blast
qed

text \<open>What repair must leave to a job, written from the job's side: whether an action on a plan would
  revert what was prepared for the job or restart what it stops.\<close>

definition needed_by_job :: "resolved_application \<Rightarrow> desired_job \<Rightarrow> string \<Rightarrow> bool" where
  "needed_by_job prepared j name \<longleftrightarrow>
     (\<exists>s\<in>set (ra_services prepared). ds_name s = name \<and> ds_logical_name s \<in> job_dependencies prepared j)"

definition restarted_against_job :: "(string \<Rightarrow> string) \<Rightarrow> plan \<Rightarrow> desired_job \<Rightarrow> string \<Rightarrow> bool" where
  "restarted_against_job sha p j name \<longleftrightarrow>
     (\<exists>a\<in>set (pl_actions p). case pa_kind a of
        Ensure_Service s \<Rightarrow> ds_name s = name \<and> job_stops sha j name (map dm_volume_name (ds_mounts s))
      | _ \<Rightarrow> False)"

fun held_for_job :: "(string \<Rightarrow> string) \<Rightarrow> resolved_application \<Rightarrow> observed_application \<Rightarrow> plan \<Rightarrow> desired_job
    \<Rightarrow> action_kind \<Rightarrow> bool" where
  "held_for_job sha prepared observed p j (Ensure_Service s) \<longleftrightarrow>
     needed_by_job prepared j (ds_name s) \<or> restarted_against_job sha p j (ds_name s)"
| "held_for_job sha prepared observed p j (Remove_Service name) \<longleftrightarrow> needed_by_job prepared j name"
| "held_for_job sha prepared observed p j (Wait_For_Service name) \<longleftrightarrow>
     restarted_against_job sha p j name
     \<or> needed_by_job prepared j name
       \<and> (\<exists>found\<in>set (oa_services observed). os_name found = name \<and> os_convergence found = Converged)"
| "held_for_job sha prepared observed p j (Remove_Network name) \<longleftrightarrow> name \<in> dn_name ` set (ra_networks prepared)"
| "held_for_job sha prepared observed p j _ \<longleftrightarrow> False"

lemma prepared_services_job:
  "name \<in> prepared_services prepared \<longleftrightarrow> (\<exists>j\<in>set (ra_jobs prepared). needed_by_job prepared j name)"
  by (auto simp: prepared_services_def prepared_dependencies_def needed_by_job_def)

lemma restarted_against_job_ensure:
  "restarted_against_job sha p j name \<longleftrightarrow> (\<exists>a\<in>set (pl_actions p). \<exists>s. pa_kind a = Ensure_Service s \<and> ds_name s = name
     \<and> job_stops sha j name (map dm_volume_name (ds_mounts s)))"
  unfolding restarted_against_job_def by (intro bex_cong refl) (simp split: action_kind.split)

lemma stopped_services_job:
  "name \<in> stopped_services sha prepared p \<longleftrightarrow> (\<exists>j\<in>set (ra_jobs prepared). restarted_against_job sha p j name)"
proof -
  have "stopped_ensure sha prepared k = Some name \<longleftrightarrow>
      (\<exists>s. k = Ensure_Service s \<and> ds_name s = name \<and> stopped_for_job sha prepared s)" for k
    by (cases k) auto
  then show ?thesis
    unfolding restarted_against_job_ensure
    by (auto simp: stopped_services_def in_set_map_filter stopped_for_job_def list_ex_iff)
qed

lemma preserved_job:
  "preserved prepared observed (prepared_services prepared) (stopped_services sha prepared p) k \<longleftrightarrow>
     (\<forall>j\<in>set (ra_jobs prepared). \<not> held_for_job sha prepared observed p j k)"
  by (cases k) (auto simp: prepared_services_job stopped_services_job list_ex_iff)

section \<open>Properties\<close>

text \<open>C34: A job starts only when what it needs is in place. When nothing is left to prepare for it and
  the rollout plan is not blocked, every shared network and volume exists as wanted, every service the
  job's service depends on is observed with its configuration and converged, and no service the job
  stops, its own or one mounting a volume it holds, is running.\<close>

theorem jobs_start_prepared:
  assumes "next_job_preparation sha (reconcile sha target observed) target j observed = None"
    and "\<not> is_blocked (reconcile sha target observed)"
  shows "list_all (network_settled sha target observed) (ra_networks target)
    \<and> list_all (volume_settled sha target observed) (ra_volumes target)
    \<and> list_all (service_settled sha target observed)
        (filter (\<lambda>s. ds_logical_name s \<in> job_dependencies target j) (ra_services target))
    \<and> list_all (\<lambda>s. \<not> job_stops sha j (os_name s) (map om_volume_name (os_mounts s))) (oa_services observed)"
proof -
  from assms(1) have none: "\<not> job_prerequisite target (job_dependencies target j) (pa_kind a)"
    if "a \<in> set (ensure_actions sha target observed)" for a
    using in_reconcile [OF that]
    by (auto simp: next_job_preparation_def Let_def find_None_list_all list_all_iff split: option.splits)
  have running: "list_all (\<lambda>s. \<not> job_stops sha j (os_name s) (map om_volume_name (os_mounts s))) (oa_services observed)"
    using assms(1) by (auto simp: next_job_preparation_def Let_def find_None_list_all split: option.splits)
  from assms(2) have free: "\<not> resources_conflict sha target observed" by (simp add: reconcile_blocked)
  have network: "network_found observed n \<noteq> None" if "n \<in> set (ra_networks target)" for n
    using none [OF in_ensure_actions(1)] that by (fastforce simp: plan_simps)
  have vol: "volume_found observed v \<noteq> None" if "v \<in> set (ra_volumes target)" for v
    using none [OF in_ensure_actions(2)] that by (fastforce simp: plan_simps)
  have dep: "\<not> pending sha target observed s" if "s \<in> set (ra_services target)"
    "ds_logical_name s \<in> job_dependencies target j" for s
    using none [OF in_ensure_actions(3)] that by (fastforce simp: plan_simps list_ex_iff)
  show ?thesis
    using free network vol dep running
    unfolding resources_conflict_def list_all_iff list_ex_iff set_filter settled_cases by blast
qed

text \<open>C40: While a deployment may still roll out, repair neither reverts what it prepared for its jobs
  nor restarts what they stop, and does everything else. Of the plan for the active target it drops
  exactly the actions held for one of the deployment's jobs, keeping the order of the rest: the ensures
  and removals of a service the job depends on, and the wait for it once it has converged; the ensure of
  a service the job stops, with the wait for it; and the removals of the deployment's networks. So
  ensured networks, volumes and retained data are always kept, and a deployment without jobs changes
  nothing. The diagnostics stay, and filtering twice changes nothing.\<close>

theorem repair_preserves_job_prerequisites:
  "preserve_job_prerequisites sha prepared observed p
      = p\<lparr>pl_actions := filter (\<lambda>a. list_all (\<lambda>j. \<not> held_for_job sha prepared observed p j (pa_kind a))
          (ra_jobs prepared)) (pl_actions p)\<rparr>
   \<and> list_all (\<lambda>a. case pa_kind a of Ensure_Service s \<Rightarrow> \<not> stopped_for_job sha prepared s | _ \<Rightarrow> True)
        (pl_actions (preserve_job_prerequisites sha prepared observed p))
   \<and> preserve_job_prerequisites sha prepared observed (preserve_job_prerequisites sha prepared observed p)
      = preserve_job_prerequisites sha prepared observed p"
proof (intro conjI)
  let ?q = "preserve_job_prerequisites sha prepared observed p"
  let ?keep = "\<lambda>p a. preserved prepared observed (prepared_services prepared) (stopped_services sha prepared p) (pa_kind a)"
  have q: "pl_actions ?q = filter (?keep p) (pl_actions p)" by (simp add: preserve_job_prerequisites_def)
  show "?q = p\<lparr>pl_actions := filter (\<lambda>a. list_all (\<lambda>j. \<not> held_for_job sha prepared observed p j (pa_kind a))
      (ra_jobs prepared)) (pl_actions p)\<rparr>"
    unfolding preserve_job_prerequisites_def preserved_job list_all_iff ..
  have "ds_name s \<in> stopped_services sha prepared p"
    if "a \<in> set (pl_actions p)" "pa_kind a = Ensure_Service s" "stopped_for_job sha prepared s" for a s
    using that by (force simp: stopped_services_def in_set_map_filter)
  then show "list_all (\<lambda>a. case pa_kind a of Ensure_Service s \<Rightarrow> \<not> stopped_for_job sha prepared s | _ \<Rightarrow> True)
      (pl_actions ?q)"
    unfolding q list_all_iff by (auto split: action_kind.splits)
  have "stopped_services sha prepared ?q \<subseteq> stopped_services sha prepared p"
    by (auto simp: stopped_services_def in_set_map_filter q)
  then have "?keep ?q a" if "?keep p a" for a
    using that by (cases "pa_kind a") auto
  then have "filter (?keep ?q) (pl_actions ?q) = pl_actions ?q"
    unfolding q by (intro filter_True) auto
  then show "preserve_job_prerequisites sha prepared observed ?q = ?q"
    by (subst preserve_job_prerequisites_def) simp
qed

text \<open>Where a preview lists jobs. Every action of the plan is kept and one run is added per job;
  each job's run comes after every shared network and volume and every change to the services it
  depends on, and nothing is removed before it.\<close>

theorem jobs_run_before_the_rollout:
  "mset (pl_actions (add_jobs sha spec eid p)) = mset (pl_actions p)
     + mset (map (\<lambda>j. new_action (Run_Job (vj_name j)) Reason_Deployment_Job) (sp_jobs spec))
   \<and> (sp_jobs spec = js @ j # ks \<longrightarrow>
        (\<exists>pre post. pl_actions (add_jobs sha spec eid p) =
             pre @ new_action (Run_Job (vj_name j)) Reason_Deployment_Job # post
           \<and> (\<forall>a\<in>set pre. \<not> destructive (pa_kind a))
           \<and> (\<forall>a\<in>set post. prepares (spec_dependencies sha spec eid j) (pa_kind a) \<longrightarrow>
                a \<in> (\<lambda>k. new_action (Run_Job (vj_name k)) Reason_Deployment_Job) ` set ks)))"
  unfolding add_jobs_actions job_actions_mset using job_actions_at by auto

definition example_job :: desired_job where
  "example_job =
     \<lparr>dj_logical_name = ''migrate'', dj_run = BeforeRollout, dj_timeout_seconds = 60,
      dj_volume_access = Access_Exclusive, dj_stop_service = False,
      dj_container = example_service ''web'' [''db'']\<rparr>"

theorem jobs_start_prepared_witness:
  "list_all (service_settled example_sha example_target cleanup_observation)
     (filter (\<lambda>s. ds_logical_name s \<in> job_dependencies example_target example_job) (ra_services example_target))
   \<and> ''db'' \<in> job_dependencies example_target example_job"
proof -
  have "next_job_preparation example_sha (reconcile example_sha example_target cleanup_observation)
      example_target example_job cleanup_observation = None"
    by code_simp
  moreover have "\<not> is_blocked (reconcile example_sha example_target cleanup_observation)" by code_simp
  moreover have "''db'' \<in> job_dependencies example_target example_job" by code_simp
  ultimately show ?thesis using jobs_start_prepared by blast
qed

definition example_prepared :: resolved_application where
  "example_prepared = example_target\<lparr>ra_jobs := [example_job]\<rparr>"

theorem repair_preserves_job_prerequisites_witness:
  "map (action_name \<circ> pa_kind) (pl_actions (preserve_job_prerequisites example_sha example_prepared (example_observation Converged)
      (push_action (Remove_Service ''old'') Reason_Obsolete (push_action (Ensure_Service (example_service ''db'' []))
        Reason_Missing plan_default)))) = [''remove_service'']"
  by (subst repair_preserves_job_prerequisites [THEN conjunct1]) code_simp

definition example_spec :: validated_spec where
  "example_spec =
     \<lparr>sp_manifest = None, sp_services = [], sp_volumes = [], sp_routes = [], sp_secrets = [],
      sp_jobs = [\<lparr>vj_name = ''migrate'', vj_service = ''web'', vj_command = [], vj_environment = Mapping.empty,
        vj_secrets = [], vj_run = BeforeRollout, vj_timeout_seconds = 60,
        vj_volume_access = Access_ReadOnly, vj_stop_service = True\<rparr>],
      sp_exports = [], sp_imports = []\<rparr>"

theorem jobs_run_before_the_rollout_witness:
  "\<exists>pre post. pl_actions (add_jobs example_sha example_spec ''env-0001''
        (reconcile example_sha example_target cleanup_observation)) =
      pre @ new_action (Run_Job ''migrate'') Reason_Deployment_Job # post
    \<and> (\<forall>a\<in>set pre. \<not> destructive (pa_kind a))"
proof -
  have "sp_jobs example_spec = [] @ hd (sp_jobs example_spec) # []" "vj_name (hd (sp_jobs example_spec)) = ''migrate''"
    by (simp_all add: example_spec_def)
  then show ?thesis
    using jobs_run_before_the_rollout [of example_sha example_spec "''env-0001''"
        "reconcile example_sha example_target cleanup_observation" "[]" "hd (sp_jobs example_spec)" "[]"]
    by fastforce
qed

end
