(* ===== verification/Previews.thy ===== *)
theory Previews
  imports Preparation
begin

text \<open>
  What previews add to and hide from a plan: \<open>Plan::warn_rollouts\<close>, \<open>warn_telemetry\<close>, \<open>warn_links\<close>
  and \<open>redact_configuration\<close> of \<open>crates/piqueld-core/src/planner.rs\<close>.
\<close>

section \<open>Warnings\<close>

definition telemetry_not_granted :: "string \<Rightarrow> plan_diagnostic" where
  "telemetry_not_granted service =
     new_diagnostic ''telemetry_not_granted'' Warning service
       ''this environment is not granted telemetry, so the service runs without the telemetry socket until `piquelctl env telemetry APP ENV on` grants it''"

definition routed_service :: "validated_spec \<Rightarrow> logical_name \<Rightarrow> bool" where
  "routed_service spec name \<longleftrightarrow>
     list_ex (\<lambda>route. case vr_target route of
         Route_Service service _ \<Rightarrow> service = name | Route_Redirect _ \<Rightarrow> False) (sp_routes spec)"

definition overlap_warnings :: "validated_spec \<Rightarrow> plan_diagnostic list" where
  "overlap_warnings spec =
     map (\<lambda>service. new_diagnostic ''rollout_start_first_writable_volume'' Warning (vs_name service)
         ''start-first rollouts briefly run two tasks on the same writable volume; single-writer stores such as PostgreSQL or SQLite can corrupt their data'')
       (filter rollout_overlaps_writable_volume (sp_services spec))"

definition undetected_warnings :: "validated_spec \<Rightarrow> rollback \<Rightarrow> plan_diagnostic list" where
  "undetected_warnings spec rb =
     map (\<lambda>service. new_diagnostic ''rollback_without_health_check'' Warning (vs_name service)
         (vs_name service @ '' receives routed traffic but declares no health check; unless its image defines one, a rollout whose containers run without serving isn't detected as failed and isn't rolled back automatically''))
       (filter (\<lambda>service. rb = Automatic \<and> vs_healthcheck service = None
           \<and> routed_service spec (vs_name service)) (sp_services spec))"

definition warn_rollouts :: "validated_spec \<Rightarrow> rollback \<Rightarrow> plan \<Rightarrow> plan" where
  "warn_rollouts spec rb = warn (overlap_warnings spec @ undetected_warnings spec rb)"

definition warn_telemetry :: "validated_spec \<Rightarrow> bool \<Rightarrow> plan \<Rightarrow> plan" where
  "warn_telemetry spec granted p =
     (if granted then p
      else warn (map (\<lambda>service. telemetry_not_granted (vs_name service))
             (filter vs_receives_telemetry (sp_services spec))) p)"

definition import_reason :: "import_status \<Rightarrow> string option" where
  "import_reason i =
     (case is_state i of
        Connected \<Rightarrow> None
      | Unavailable \<Rightarrow> Some (''no deployed environment '' @ is_environment i @ '' of '' @ is_application i
          @ '' exports '' @ is_service i @ '' to this environment; '' @ is_alias i @ '' stays unreachable until one does'')
      | Full \<Rightarrow> Some (is_application i @ '' '' @ is_environment i @ '' already links to '' @ show_nat MAX_IMPORTERS
          @ '' environments; '' @ is_alias i @ '' stays unreachable until one of them stops importing from it''))"

definition warn_links :: "link_report \<Rightarrow> plan \<Rightarrow> plan" where
  "warn_links report =
     warn (List.map_filter (\<lambda>i. map_option (new_diagnostic ''import_unconnected'' Warning (is_alias i)) (import_reason i))
       (lr_imports report))"

section \<open>Redaction\<close>

definition REDACTED :: string where "REDACTED = ''<redacted>''"

fun redact_check :: "health_check \<Rightarrow> health_check" where
  "redact_check (Health_Command command i t s r) = Health_Command (map (\<lambda>_. REDACTED) command) i t s r"
| "redact_check (Health_Http port path i t s r) = Health_Http port REDACTED i t s r"

definition redact_service :: "desired_service \<Rightarrow> desired_service" where
  "redact_service s =
     s\<lparr>ds_environment := Mapping.map_values (\<lambda>_ _. REDACTED) (ds_environment s),
       ds_command := map (\<lambda>_. REDACTED) (ds_command s),
       ds_arguments := map (\<lambda>_. REDACTED) (ds_arguments s),
       ds_healthcheck := map_option redact_check (ds_healthcheck s)\<rparr>"

fun redact_kind :: "action_kind \<Rightarrow> action_kind" where
  "redact_kind (Ensure_Service service) = Ensure_Service (redact_service service)"
| "redact_kind kind = kind"

definition redact_configuration :: "plan \<Rightarrow> plan" where
  "redact_configuration p =
     p\<lparr>pl_actions := map (\<lambda>action. action\<lparr>pa_kind := redact_kind (pa_kind action)\<rparr>) (pl_actions p)\<rparr>"

section \<open>Facts\<close>

text \<open>What a reader of a preview may not tell apart: health checks with the same timings and port and
  any command of the same length or any path, and services that differ only in such a check, in the
  values of their variables and in the words of their command and arguments.\<close>

fun same_check :: "health_check \<Rightarrow> health_check \<Rightarrow> bool" where
  "same_check (Health_Command command i t s r) (Health_Command command' i' t' s' r') \<longleftrightarrow>
     length command = length command' \<and> i = i' \<and> t = t' \<and> s = s' \<and> r = r'"
| "same_check (Health_Http port path i t s r) (Health_Http port' path' i' t' s' r') \<longleftrightarrow>
     port = port' \<and> i = i' \<and> t = t' \<and> s = s' \<and> r = r'"
| "same_check _ _ \<longleftrightarrow> False"

definition same_shape :: "desired_service \<Rightarrow> desired_service \<Rightarrow> bool" where
  "same_shape s t \<longleftrightarrow>
     (\<exists>environment command arguments check. t = s\<lparr>ds_environment := environment, ds_command := command,
         ds_arguments := arguments, ds_healthcheck := check\<rparr>
       \<and> Mapping.keys environment = Mapping.keys (ds_environment s)
       \<and> length command = length (ds_command s) \<and> length arguments = length (ds_arguments s)
       \<and> rel_option same_check (ds_healthcheck s) check)"

definition same_plan_shape :: "plan \<Rightarrow> plan \<Rightarrow> bool" where
  "same_plan_shape p q \<longleftrightarrow> pl_diagnostics p = pl_diagnostics q
     \<and> list_all2 (\<lambda>a b. pa_reason a = pa_reason b
         \<and> (pa_kind a = pa_kind b
            \<or> (\<exists>s t. pa_kind a = Ensure_Service s \<and> pa_kind b = Ensure_Service t \<and> same_shape s t)))
         (pl_actions p) (pl_actions q)"

lemma redact_same_check: "same_check c d \<Longrightarrow> redact_check c = redact_check d"
  by (cases "(c, d)" rule: same_check.cases) (auto simp: map_replicate_const)

lemma same_check_redacted: "same_check c (redact_check c)"
  by (cases c) simp_all

lemma redact_same_option: "rel_option same_check c d \<Longrightarrow> map_option redact_check c = map_option redact_check d"
  by (induction rule: option.rel_induct) (auto dest: redact_same_check)

lemma same_shape_redacted: "same_shape s (redact_service s)"
  unfolding same_shape_def redact_service_def
  by (intro exI conjI, rule refl) (auto simp: option.rel_map same_check_redacted intro: option.rel_refl)

lemma map_values_const_cong:
  assumes "Mapping.keys m = Mapping.keys n"
  shows "Mapping.map_values (\<lambda>_ _. c) m = Mapping.map_values (\<lambda>_ _. c) n"
proof (rule mapping_eqI)
  fix k
  show "Mapping.lookup (Mapping.map_values (\<lambda>_ _. c) m) k = Mapping.lookup (Mapping.map_values (\<lambda>_ _. c) n) k"
  proof (cases "k \<in> Mapping.keys m")
    case True
    with assms show ?thesis by (auto simp: mapping_keys_iff lookup_map_values)
  next
    case False
    moreover from False assms have "k \<notin> Mapping.keys n" by simp
    ultimately show ?thesis by (simp add: mapping_keys_iff lookup_map_values)
  qed
qed

lemma redact_same_shape: "same_shape s t \<Longrightarrow> redact_service t = redact_service s"
  by (auto simp: same_shape_def redact_service_def map_replicate_const dest: redact_same_option cong: map_values_const_cong)

lemma redact_kind_simps [plan_simps]:
  "mutates_runtime (redact_kind k) = mutates_runtime k" "risk (redact_kind k) = risk k"
  "destructive (redact_kind k) = destructive k" "action_name (redact_kind k) = action_name k"
  "resource_name (redact_kind k) = resource_name k"
  by (cases k; simp add: redact_service_def destructive_def)+

lemma count_redacted:
  "fold count_action (map (\<lambda>a. a\<lparr>pa_kind := redact_kind (pa_kind a)\<rparr>) as) m = fold count_action as m"
  by (induction as arbitrary: m) (simp_all add: count_action_def plan_simps)

lemma same_plan_shape_redacted: "same_plan_shape p (redact_configuration p)"
proof -
  have "redact_kind k = k \<or> (\<exists>s t. k = Ensure_Service s \<and> redact_kind k = Ensure_Service t \<and> same_shape s t)" for k
    by (cases k) (simp_all add: same_shape_redacted)
  then have "k = redact_kind k
      \<or> (\<exists>s t. k = Ensure_Service s \<and> redact_kind k = Ensure_Service t \<and> same_shape s t)" for k by metis
  then have "list_all2 (\<lambda>a b. pa_reason a = pa_reason b
         \<and> (pa_kind a = pa_kind b
            \<or> (\<exists>s t. pa_kind a = Ensure_Service s \<and> pa_kind b = Ensure_Service t \<and> same_shape s t)))
      as (map (\<lambda>a. a\<lparr>pa_kind := redact_kind (pa_kind a)\<rparr>) as)" for as :: "plan_action list"
    by (induction as) auto
  then show ?thesis by (simp add: same_plan_shape_def redact_configuration_def)
qed

section \<open>Properties\<close>

text \<open>C39: Previews leak no configuration. Two plans that differ only in the values of the variables,
  the words of the command and arguments, and the command or path of the health check of the services
  they ensure have the same redacted plan, so a preview tells nothing of these but variable names and
  numbers of words. And redaction changes nothing else: each action stays in its place with its reason,
  and its kind but for these parts, and the diagnostics, summary and resources stay.\<close>

theorem redaction_hides_configuration:
  assumes "same_plan_shape p q"
  shows "redact_configuration p = redact_configuration q
    \<and> same_plan_shape p (redact_configuration p)
    \<and> pl_diagnostics (redact_configuration p) = pl_diagnostics p
    \<and> plan_summary_of (redact_configuration p) = plan_summary_of p
    \<and> map (\<lambda>a. resource_name (pa_kind a)) (pl_actions (redact_configuration p))
      = map (\<lambda>a. resource_name (pa_kind a)) (pl_actions p)"
proof -
  have "list_all2 (\<lambda>a b. pa_reason a = pa_reason b
         \<and> (pa_kind a = pa_kind b
            \<or> (\<exists>s t. pa_kind a = Ensure_Service s \<and> pa_kind b = Ensure_Service t \<and> same_shape s t)))
         (pl_actions p) (pl_actions q)"
    using assms by (simp add: same_plan_shape_def)
  then have "map (\<lambda>a. a\<lparr>pa_kind := redact_kind (pa_kind a)\<rparr>) (pl_actions p)
      = map (\<lambda>a. a\<lparr>pa_kind := redact_kind (pa_kind a)\<rparr>) (pl_actions q)"
  proof (induction rule: list_all2_induct)
    case (Cons a as b bs)
    then have "redact_kind (pa_kind a) = redact_kind (pa_kind b)" "pa_reason a = pa_reason b"
      using redact_same_shape by auto
    then have "a\<lparr>pa_kind := redact_kind (pa_kind a)\<rparr> = b\<lparr>pa_kind := redact_kind (pa_kind b)\<rparr>"
      by (cases a; cases b) simp
    with Cons.IH show ?case by simp
  qed simp
  then have "redact_configuration p = redact_configuration q"
    using assms by (cases p; cases q) (simp add: redact_configuration_def same_plan_shape_def)
  moreover have "pl_diagnostics (redact_configuration p) = pl_diagnostics p"
    "plan_summary_of (redact_configuration p) = plan_summary_of p"
    "map (\<lambda>a. resource_name (pa_kind a)) (pl_actions (redact_configuration p))
      = map (\<lambda>a. resource_name (pa_kind a)) (pl_actions p)"
    by (simp_all add: redact_configuration_def plan_summary_of_def count_redacted plan_simps filter_map o_def)
  moreover have "same_plan_shape p (redact_configuration p)" by (rule same_plan_shape_redacted)
  ultimately show ?thesis by blast
qed

text \<open>Warnings inform and never block: adding them keeps every action and every earlier diagnostic,
  and a plan is blocked after them exactly when it was before.\<close>

theorem warnings_never_block:
  "is_blocked (warn_links report (warn_telemetry spec granted (warn_rollouts spec rb p))) = is_blocked p
   \<and> pl_actions (warn_links report (warn_telemetry spec granted (warn_rollouts spec rb p))) = pl_actions p
   \<and> mset (pl_diagnostics p) \<subseteq># mset (pl_diagnostics (warn_links report (warn_telemetry spec granted (warn_rollouts spec rb p))))
   \<and> is_blocked (add_jobs sha spec eid p) = is_blocked p"
proof -
  have w: "is_blocked (warn ds q) = is_blocked q" if "list_all (\<lambda>d. \<not> pd_blocking d) ds" for ds q
    using that by (auto simp: warn_def is_blocked_def sort_diagnostics_def list_ex_iff list_all_iff)
  have r: "is_blocked (warn_rollouts spec rb q) = is_blocked q" for q
    unfolding warn_rollouts_def
    by (intro w) (auto simp: overlap_warnings_def undetected_warnings_def plan_simps list_all_iff)
  have t: "is_blocked (warn_telemetry spec granted q) = is_blocked q" for q
    unfolding warn_telemetry_def
    by (auto simp: telemetry_not_granted_def plan_simps list_all_iff intro!: w)
  have l: "is_blocked (warn_links report q) = is_blocked q" for q
    unfolding warn_links_def
    by (intro w) (auto simp: list_all_iff in_set_map_filter plan_simps)
  have j: "is_blocked (add_jobs sha spec eid p) = is_blocked p"
  proof -
    obtain as rest where run: "fold (add_job sha spec eid) (sp_jobs spec) ([], pl_actions p) = (as, rest)" by fastforce
    have "\<not> pd_blocking d" if "job_stop_warning spec k = Some d" for k d
      using that by (auto simp: job_stop_warning_def Let_def plan_simps split: option.splits if_splits)
    then have "list_all (\<lambda>d. \<not> pd_blocking d) (List.map_filter (job_stop_warning spec) (sp_jobs spec))"
      by (auto simp: list_all_iff in_set_map_filter)
    from w [OF this] show ?thesis by (simp add: add_jobs_def run plan_simps)
  qed
  show ?thesis
    by (simp add: r t l j) (auto simp: warn_links_def warn_telemetry_def warn_rollouts_def plan_simps)
qed

definition example_plan :: "string \<Rightarrow> plan" where
  "example_plan password =
     push_action (Ensure_Service ((example_service ''web'' [])
       \<lparr>ds_environment := Mapping.update ''PASSWORD'' password Mapping.empty\<rparr>)) Reason_Missing plan_default"

theorem redaction_hides_configuration_witness:
  "redact_configuration (example_plan ''hunter2'') = redact_configuration (example_plan ''secret'')
   \<and> same_plan_shape (example_plan ''hunter2'') (redact_configuration (example_plan ''hunter2''))"
proof -
  have "same_shape ((example_service ''web'' [])\<lparr>ds_environment := Mapping.update ''PASSWORD'' x Mapping.empty\<rparr>)
      ((example_service ''web'' [])\<lparr>ds_environment := Mapping.update ''PASSWORD'' y Mapping.empty\<rparr>)" for x y
    unfolding same_shape_def
    by (intro exI [of _ "Mapping.update ''PASSWORD'' y Mapping.empty"] exI [of _ "[]"] exI [of _ None])
      (simp add: example_service_def)
  then have "same_plan_shape (example_plan ''hunter2'') (example_plan ''secret'')"
    by (simp add: same_plan_shape_def example_plan_def plan_simps)
  from redaction_hides_configuration [OF this] show ?thesis by blast
qed

end
