(* ===== verification/Str.thy ===== *)
theory Str
  imports Prelude
begin

text \<open>
  Operations of \<open>str\<close> and \<open>String\<close> that the manifest code uses: searching, splitting, replacing and
  trimming text, truncating it to characters, and printing and reading integers. A string is its
  sequence of UTF-8 bytes; where the library works on characters (\<open>trim\<close>, \<open>chars\<close>) the encodings are
  written out, and the definitions agree with the library on well-formed UTF-8.
\<close>

section \<open>Searching\<close>

text \<open>\<open>str::strip_prefix\<close> and \<open>str::find\<close> with a text: the index of the first occurrence.\<close>

definition strip_prefix :: "string \<Rightarrow> string \<Rightarrow> string option" where
  "strip_prefix p s = (if prefix p s then Some (drop (length p) s) else None)"

definition strip_suffix :: "string \<Rightarrow> string \<Rightarrow> string option" where
  "strip_suffix p s = (if suffix p s then Some (take (length s - length p) s) else None)"

fun find_str :: "string \<Rightarrow> string \<Rightarrow> nat option" where
  "find_str p [] = (if p = [] then Some 0 else None)"
| "find_str p (c # s) = (if prefix p (c # s) then Some 0 else map_option Suc (find_str p s))"

definition contains_str :: "string \<Rightarrow> string \<Rightarrow> bool" where
  "contains_str p s \<longleftrightarrow> find_str p s \<noteq> None"

text \<open>\<open>str::split_once\<close> with a single byte.\<close>

definition split_once :: "char \<Rightarrow> string \<Rightarrow> (string \<times> string) option" where
  "split_once c s = map_option (\<lambda>i. (take i s, drop (Suc i) s)) (position (\<lambda>x. x = c) s)"

text \<open>\<open>str::replace\<close> with a text that is not empty: occurrences from the left, not overlapping.\<close>

function replace_str :: "string \<Rightarrow> string \<Rightarrow> string \<Rightarrow> string" where
  "replace_str p new [] = []"
| "replace_str p new (c # s) =
     (if p \<noteq> [] \<and> prefix p (c # s) then new @ replace_str p new (drop (length p) (c # s))
      else c # replace_str p new s)"
  by pat_completeness auto
termination
  by (relation "measure (\<lambda>(p, new, s). length s)")
    (auto simp: length_drop dest!: length_greater_0_conv [THEN iffD2])

section \<open>Trimming and truncating\<close>

text \<open>The UTF-8 encodings of the characters with the Unicode property \<open>White_Space\<close>.\<close>

definition utf8 :: "nat list \<Rightarrow> string" where
  "utf8 bytes = map char_of bytes"

definition WHITESPACE :: "string list" where
  "WHITESPACE =
     map (\<lambda>b. utf8 [b]) [9, 10, 11, 12, 13, 32]
     @ [utf8 [194, 133], utf8 [194, 160], utf8 [225, 154, 128]]
     @ map (\<lambda>b. utf8 [226, 128, b]) [128..<139]
     @ map (\<lambda>b. utf8 [226, 128, b]) [168, 169, 175]
     @ [utf8 [226, 129, 159], utf8 [227, 128, 128]]"

function strip_all :: "string list \<Rightarrow> string \<Rightarrow> string" where
  "strip_all ws s =
     (case List.find (\<lambda>w. w \<noteq> [] \<and> prefix w s) ws of
        None \<Rightarrow> s
      | Some w \<Rightarrow> strip_all ws (drop (length w) s))"
  by pat_completeness auto
termination
proof (relation "measure (length \<circ> snd)", goal_cases)
  case (2 ws s w)
  then have "w \<noteq> []" and "prefix w s"
    by (auto dest!: find_mem)
  then show ?case by (cases w; cases s) auto
qed simp

declare strip_all.simps [simp del]

text \<open>\<open>str::trim\<close>\<close>

definition trim_str :: "string \<Rightarrow> string" where
  "trim_str s = rev (strip_all (map rev WHITESPACE) (rev (strip_all WHITESPACE s)))"

text \<open>\<open>text.chars().take(n).collect()\<close>: a character and the continuation bytes after it.\<close>

definition is_continuation :: "char \<Rightarrow> bool" where
  "is_continuation c \<longleftrightarrow> 128 \<le> byte c \<and> byte c < 192"

fun take_chars :: "nat \<Rightarrow> string \<Rightarrow> string" where
  "take_chars n [] = []"
| "take_chars n (c # s) =
     (if is_continuation c then c # take_chars n s
      else (case n of 0 \<Rightarrow> [] | Suc m \<Rightarrow> c # take_chars m s))"

section \<open>Integers as text\<close>

text \<open>\<open>i64::to_string\<close>, and \<open>str::parse::<i64>\<close> (\<open>None\<close> is \<open>Err\<close>), which accepts a sign and leading
  zeros.\<close>

definition show_int :: "int \<Rightarrow> string" where
  "show_int i = (if i < 0 then CHR ''-'' # show_nat (nat (- i)) else show_nat (nat i))"

definition digit :: "char \<Rightarrow> nat" where
  "digit c = byte c - 48"

definition parse_digits :: "string \<Rightarrow> nat option" where
  "parse_digits s =
     (if s \<noteq> [] \<and> list_all is_ascii_digit s then Some (foldl (\<lambda>n c. 10 * n + digit c) 0 s) else None)"

definition I64_MIN :: int where "I64_MIN = - 9223372036854775808"
definition I64_MAX :: int where "I64_MAX = 9223372036854775807"

definition parse_i64 :: "string \<Rightarrow> int option" where
  "parse_i64 s =
     (case s of
        [] \<Rightarrow> None
      | c # rest \<Rightarrow>
          (let magnitude =
             (if c = CHR ''-'' then map_option (\<lambda>n. - int n) (parse_digits rest)
              else if c = CHR ''+'' then map_option int (parse_digits rest)
              else map_option int (parse_digits s))
           in Option.bind magnitude (\<lambda>i. if I64_MIN \<le> i \<and> i \<le> I64_MAX then Some i else None)))"

definition show_bool :: "bool \<Rightarrow> string" where
  "show_bool b = (if b then ''true'' else ''false'')"

definition parse_bool :: "string \<Rightarrow> bool option" where
  "parse_bool s = (if s = ''true'' then Some True else if s = ''false'' then Some False else None)"

section \<open>Facts\<close>

lemma strip_prefix_append [simp]: "strip_prefix p (p @ s) = Some s"
  by (simp add: strip_prefix_def)

lemma strip_prefix_iff: "strip_prefix p s = Some t \<longleftrightarrow> s = p @ t"
  by (auto simp: strip_prefix_def prefix_def)

lemma strip_suffix_iff: "strip_suffix p s = Some t \<longleftrightarrow> s = t @ p"
  by (auto simp: strip_suffix_def suffix_def)

lemma find_str_append:
  assumes "find_str p s = Some i"
  shows "s = take i s @ p @ drop (i + length p) s"
  using assms
  by (induction s arbitrary: i) (auto simp: prefix_def split: if_splits)

lemma find_str_le: "find_str p s = Some i \<Longrightarrow> i + length p \<le> length s"
proof (induction s arbitrary: i)
  case (Cons c s)
  then show ?case by (auto split: if_splits dest: prefix_length_le)
qed (auto split: if_splits)

lemma contains_str_iff: "contains_str p s \<longleftrightarrow> (\<exists>a b. s = a @ p @ b)"
proof
  assume "contains_str p s"
  then show "\<exists>a b. s = a @ p @ b"
    unfolding contains_str_def using find_str_append by blast
next
  assume "\<exists>a b. s = a @ p @ b"
  then obtain a b where "s = a @ p @ b" by blast
  then have "find_str p s \<noteq> None"
  proof (induction a arbitrary: s)
    case Nil
    then have "prefix p s" by simp
    then show ?case by (cases s) auto
  next
    case (Cons x a)
    then show ?case by (cases s) auto
  qed
  then show "contains_str p s" by (simp add: contains_str_def)
qed

lemma position_some:
  "position P s = Some i \<Longrightarrow> i < length s \<and> P (s ! i) \<and> list_all (\<lambda>x. \<not> P x) (take i s)"
  by (induction s arbitrary: i) (auto split: if_splits)

lemma position_none: "position P s = None \<longleftrightarrow> list_all (\<lambda>x. \<not> P x) s"
  by (induction s) auto

lemma position_append:
  "list_all (\<lambda>x. \<not> P x) s \<Longrightarrow> position P (s @ t) = map_option ((+) (length s)) (position P t)"
proof (induction s)
  case Nil
  show ?case by (cases "position P t") simp_all
next
  case (Cons x s)
  then show ?case by (cases "position P t") simp_all
qed

lemma split_once_iff:
  "split_once c s = Some (a, b) \<longleftrightarrow> s = a @ c # b \<and> c \<notin> set a"
proof
  assume "split_once c s = Some (a, b)"
  then obtain i where i: "position (\<lambda>x. x = c) s = Some i" and ab: "a = take i s" "b = drop (Suc i) s"
    by (auto simp: split_once_def)
  from position_some [OF i] show "s = a @ c # b \<and> c \<notin> set a"
    by (auto simp: ab list_all_iff id_take_nth_drop)
next
  assume "s = a @ c # b \<and> c \<notin> set a"
  then have s: "s = a @ c # b" and "list_all (\<lambda>x. x \<noteq> c) a" by (auto simp: list_all_iff)
  then have "position (\<lambda>x. x = c) s = Some (length a)" by (simp add: position_append)
  then show "split_once c s = Some (a, b)" by (simp add: split_once_def s)
qed

subsection \<open>Printed integers read back\<close>

lemma show_nat_digits: "show_nat n \<noteq> [] \<and> list_all is_ascii_digit (show_nat n)"
proof (induction n rule: show_nat.induct)
  case (1 n)
  have last: "is_ascii_digit (char_of (48 + m))" if "m < 10" for m :: nat
    using that by (simp add: ascii_bytes of_char_of)
  show ?case
  proof (cases "n < 10")
    case True
    then show ?thesis by (subst (1 2) show_nat.simps) (simp add: last)
  next
    case False
    with 1 show ?thesis by (subst (1 2) show_nat.simps) (simp add: last)
  qed
qed

lemma digit_char: "n < 10 \<Longrightarrow> digit (char_of (48 + n :: nat)) = n"
  by (simp add: digit_def of_char_of)

lemma foldl_show_nat: "foldl (\<lambda>n c. 10 * n + digit c) 0 (show_nat n) = n"
proof (induction n rule: show_nat.induct)
  case (1 n)
  show ?case
  proof (cases "n < 10")
    case True
    then show ?thesis by (subst show_nat.simps) (simp add: digit_char)
  next
    case False
    then show ?thesis using 1 by (subst show_nat.simps) (simp add: digit_char)
  qed
qed

lemma parse_show_nat: "parse_digits (show_nat n) = Some n"
  by (simp add: parse_digits_def show_nat_digits foldl_show_nat)

lemma show_nat_hd: "show_nat n = c # s \<Longrightarrow> is_ascii_digit c"
  using show_nat_digits [of n] by simp

lemma parse_show_int: "I64_MIN \<le> i \<Longrightarrow> i \<le> I64_MAX \<Longrightarrow> parse_i64 (show_int i) = Some i"
proof (cases "i < 0")
  case True
  assume "I64_MIN \<le> i" "i \<le> I64_MAX"
  then show ?thesis using True by (simp add: parse_i64_def show_int_def parse_show_nat)
next
  case False
  assume i: "I64_MIN \<le> i" "i \<le> I64_MAX"
  obtain c s where s: "show_nat (nat i) = c # s"
    using show_nat_digits [of "nat i"] by (cases "show_nat (nat i)") auto
  then have "is_ascii_digit c" by (rule show_nat_hd)
  then have "c \<noteq> CHR ''-''" "c \<noteq> CHR ''+''" by (auto simp: ascii_bytes)
  then show ?thesis using False i parse_show_nat [of "nat i"]
    by (simp add: parse_i64_def show_int_def s)
qed

end
