(* ===== verification/Store_Base.thy ===== *)
theory Store_Base
  imports Str
begin

text \<open>
  What the modelled parts of the daemon's store share (\<open>apps/piqueld/src/store/mod.rs\<close>): their
  errors, 64-bit row ids and keyset paging. The variants of \<open>StoreError\<close> are those the modelled
  operations return; \<open>Store_Corrupt_Source\<close> and \<open>Store_Invalid_Input_Source\<close> lose the wrapped
  source error. \<open>Store_Database\<close> is a violated constraint; the database does not fail otherwise. A
  transaction that fails is rolled back and changes nothing.
\<close>

datatype store_error =
    Store_Not_Found
  | Store_Busy
  | Store_Database
  | Store_Corrupt
  | Store_Corrupt_Source
  | Store_Illegal_Transition
  | Store_Invalid_Input
  | Store_Invalid_Input_Source
  | Store_Generation_Conflict nat nat

section \<open>Row ids\<close>

text \<open>\<open>checked_add(1)\<close> on an \<open>i64\<close>.\<close>

definition checked_succ :: "int \<Rightarrow> int option" where
  "checked_succ i = (if i = I64_MAX then None else Some (i + 1))"

lemma checked_succ_Some: "checked_succ i = Some j \<longleftrightarrow> j = i + 1 \<and> i \<noteq> I64_MAX"
  by (auto simp: checked_succ_def)

section \<open>Updates\<close>

text \<open>\<open>UPDATE ... WHERE\<close>.\<close>

definition update_where :: "('a \<Rightarrow> bool) \<Rightarrow> ('a \<Rightarrow> 'a) \<Rightarrow> 'a list \<Rightarrow> 'a list" where
  "update_where P f rows = map (\<lambda>r. if P r then f r else r) rows"

end
