(* ===== verification/Audit_Chain.thy ===== *)
theory Audit_Chain
  imports Store_Base
begin

text \<open>
  The audit trail: \<open>apps/piqueld/src/store/audit.rs\<close> with the records of
  \<open>crates/piqueld-core/src/audit.rs\<close>.

  The tables \<open>audit_events\<close> and \<open>audit_chain\<close> are a record; \<open>id\<close> is the primary key, so rows have
  distinct ids, and \<open>ORDER BY id\<close> is \<open>sort_key ar_id\<close>. An \<open>i64\<close> is an \<open>int\<close> with \<open>checked_add\<close>
  written out. \<open>json\<close> stands for \<open>serde_json::to_vec\<close> (\<open>None\<close> for its error) and \<open>sha\<close> for the
  hexadecimal SHA-256; \<open>environment_application\<close> is the lookup in table \<open>environments\<close>. Raising a
  security event on a burst of refusals writes another table and is not modelled.
\<close>

section \<open>Records\<close>

datatype audit_outcome = Outcome_Allowed | Outcome_Denied | Outcome_Failed

fun audit_outcome_as_str :: "audit_outcome \<Rightarrow> string" where
  "audit_outcome_as_str Outcome_Allowed = ''allowed''"
| "audit_outcome_as_str Outcome_Denied = ''denied''"
| "audit_outcome_as_str Outcome_Failed = ''failed''"

record new_audit_event =
  ne_action :: string
  ne_outcome :: audit_outcome
  ne_status :: u16
  ne_user_id :: "string option"
  ne_username :: "string option"
  ne_credential_id :: "string option"
  ne_credential_kind :: "string option"
  ne_scoped :: "bool option"
  ne_peer :: "string option"
  ne_tailnet :: "string option"
  ne_request_id :: "string option"
  ne_application_id :: "string option"
  ne_environment_id :: "string option"
  ne_permission :: "string option"
  ne_operator :: "u32 option"

record audit_row =
  ar_id :: int
  ar_created_at_ms :: int
  ar_action :: string
  ar_outcome :: string
  ar_status :: int
  ar_user_id :: "string option"
  ar_username :: "string option"
  ar_credential_id :: "string option"
  ar_credential_kind :: "string option"
  ar_scoped :: "bool option"
  ar_peer :: "string option"
  ar_request_id :: "string option"
  ar_application_id :: "string option"
  ar_environment_id :: "string option"
  ar_permission :: "string option"
  ar_link :: "string option"
  ar_tailnet :: "string option"
  ar_operator_uid :: "int option"

record audit_link =
  al_id :: int
  al_link :: string

record audit_verification =
  av_checked :: nat
  av_anchor :: "audit_link option"
  av_head :: "audit_link option"
  av_broken_at :: "int option"

record audit_trail =
  at_rows :: "audit_row list"
  at_pruned_through :: "int option"
  at_pruned_link :: "string option"

definition event_lost :: "nat \<Rightarrow> new_audit_event" where
  "event_lost n =
     \<lparr>ne_action = ''audit records missing before this one: '' @ show_nat n,
      ne_outcome = Outcome_Failed, ne_status = 503, ne_user_id = None, ne_username = None,
      ne_credential_id = None, ne_credential_kind = None, ne_scoped = None, ne_peer = None,
      ne_tailnet = None, ne_request_id = None, ne_application_id = None, ne_environment_id = None,
      ne_permission = None, ne_operator = None\<rparr>"

definition event_row :: "new_audit_event \<Rightarrow> int \<Rightarrow> int \<Rightarrow> audit_row" where
  "event_row e i created_at_ms =
     \<lparr>ar_id = i, ar_created_at_ms = created_at_ms, ar_action = ne_action e,
      ar_outcome = audit_outcome_as_str (ne_outcome e), ar_status = uint (ne_status e),
      ar_user_id = ne_user_id e, ar_username = ne_username e, ar_credential_id = ne_credential_id e,
      ar_credential_kind = ne_credential_kind e, ar_scoped = ne_scoped e, ar_peer = ne_peer e,
      ar_request_id = ne_request_id e, ar_application_id = ne_application_id e,
      ar_environment_id = ne_environment_id e, ar_permission = ne_permission e, ar_link = None,
      ar_tailnet = ne_tailnet e, ar_operator_uid = map_option uint (ne_operator e)\<rparr>"

section \<open>Links\<close>

text \<open>The serialized value: the previous link and every field, the later columns only when present.\<close>

datatype link_value =
    Link_Fields string audit_row
  | Link_Tailnet string audit_row string
  | Link_Operator string audit_row "string option" int

definition link_fields :: "audit_row \<Rightarrow> audit_row" where
  "link_fields row = row\<lparr>ar_link := None, ar_tailnet := None, ar_operator_uid := None\<rparr>"

definition link_value_of :: "string \<Rightarrow> audit_row \<Rightarrow> link_value" where
  "link_value_of previous row =
     (case (ar_tailnet row, ar_operator_uid row) of
        (None, None) \<Rightarrow> Link_Fields previous (link_fields row)
      | (Some tailnet, None) \<Rightarrow> Link_Tailnet previous (link_fields row) tailnet
      | (tailnet, Some operator) \<Rightarrow> Link_Operator previous (link_fields row) tailnet operator)"

definition link_from ::
    "(link_value \<Rightarrow> string option) \<Rightarrow> (string \<Rightarrow> string) \<Rightarrow> string \<Rightarrow> audit_row \<Rightarrow> store_error + string" where
  "link_from json sha previous row =
     (case json (link_value_of previous row) of None \<Rightarrow> Inl Store_Corrupt_Source | Some bytes \<Rightarrow> Inr (sha bytes))"

definition audit_start :: audit_link where "audit_start = \<lparr>al_id = 0, al_link = ''''\<rparr>"

definition audit_anchor :: "audit_trail \<Rightarrow> store_error + audit_link option" where
  "audit_anchor t =
     (case (at_pruned_through t, at_pruned_link t) of
        (Some i, Some link) \<Rightarrow> Inr (Some \<lparr>al_id = i, al_link = link\<rparr>)
      | (None, None) \<Rightarrow> Inr None
      | _ \<Rightarrow> Inl Store_Corrupt)"

definition anchor_link :: "audit_link option \<Rightarrow> audit_link" where
  "anchor_link anchor = (case anchor of None \<Rightarrow> audit_start | Some link \<Rightarrow> link)"

definition audit_head :: "audit_trail \<Rightarrow> store_error + audit_link" where
  "audit_head t =
     (case audit_anchor t of
        Inl e \<Rightarrow> Inl e
      | Inr anchor \<Rightarrow> (case rev (sort_key ar_id (at_rows t)) of
            [] \<Rightarrow> Inr (anchor_link anchor)
          | row # _ \<Rightarrow> Inr \<lparr>al_id = ar_id row,
              al_link = (case ar_link row of None \<Rightarrow> '''' | Some link \<Rightarrow> link)\<rparr>))"

section \<open>Recording\<close>

definition audit_application :: "(string \<Rightarrow> string option) \<Rightarrow> audit_row \<Rightarrow> audit_row" where
  "audit_application environment_application row =
     (if ar_application_id row = None
         \<and> (ar_outcome row = audit_outcome_as_str Outcome_Allowed \<or> ar_permission row \<noteq> None)
      then (case ar_environment_id row of
          None \<Rightarrow> row
        | Some environment \<Rightarrow> row\<lparr>ar_application_id := environment_application environment\<rparr>)
      else row)"

definition record_audit ::
    "(link_value \<Rightarrow> string option) \<Rightarrow> (string \<Rightarrow> string) \<Rightarrow> (string \<Rightarrow> string option)
     \<Rightarrow> new_audit_event \<Rightarrow> int \<Rightarrow> audit_trail \<Rightarrow> store_error + audit_trail" where
  "record_audit json sha environment_application event created_at_ms t =
     (case audit_head t of
        Inl e \<Rightarrow> Inl e
      | Inr head \<Rightarrow> (case checked_succ (al_id head) of
          None \<Rightarrow> Inl Store_Corrupt
        | Some i \<Rightarrow>
            let row = audit_application environment_application (event_row event i created_at_ms)
            in (case link_from json sha (al_link head) row of
                Inl e \<Rightarrow> Inl e
              | Inr link \<Rightarrow> Inr (t\<lparr>at_rows := at_rows t @ [row\<lparr>ar_link := Some link\<rparr>]\<rparr>))))"

section \<open>Verifying\<close>

text \<open>The inner loop over one page: whether it stopped at a broken row, the last link and the result.\<close>

fun check_rows ::
    "(link_value \<Rightarrow> string option) \<Rightarrow> (string \<Rightarrow> string) \<Rightarrow> audit_link \<Rightarrow> audit_verification \<Rightarrow> audit_row list
     \<Rightarrow> store_error + bool \<times> audit_link \<times> audit_verification" where
  "check_rows json sha previous result [] = Inr (False, previous, result)"
| "check_rows json sha previous result (row # rows) =
     (case link_from json sha (al_link previous) row of
        Inl e \<Rightarrow> Inl e
      | Inr expected \<Rightarrow>
          if checked_succ (al_id previous) \<noteq> Some (ar_id row) \<or> ar_link row \<noteq> Some expected
          then Inr (True, previous, result\<lparr>av_broken_at := Some (ar_id row)\<rparr>)
          else let previous = \<lparr>al_id = ar_id row, al_link = expected\<rparr>
               in check_rows json sha previous
                    (result\<lparr>av_checked := av_checked result + 1, av_head := Some previous\<rparr>) rows)"

definition audit_rows :: "audit_trail \<Rightarrow> int \<Rightarrow> int \<Rightarrow> audit_row list" where
  "audit_rows t start through = sort_key ar_id (filter (\<lambda>r. start \<le> ar_id r \<and> ar_id r \<le> through) (at_rows t))"

definition AUDIT_PAGE :: nat where "AUDIT_PAGE = 500"

lemma page_shrinks:
  assumes "take AUDIT_PAGE (audit_rows t start through) \<noteq> []"
    and "checked_succ (ar_id (last (take AUDIT_PAGE (audit_rows t start through)))) = Some next"
  shows "length (audit_rows t next through) < length (audit_rows t start through)"
proof -
  let ?row = "last (take AUDIT_PAGE (audit_rows t start through))"
  have "?row \<in> set (audit_rows t start through)" using last_in_set [OF assms(1)] in_set_takeD by fast
  then have row: "?row \<in> set (at_rows t)" "start \<le> ar_id ?row" "ar_id ?row \<le> through"
    by (auto simp: audit_rows_def)
  have next_id: "next = ar_id ?row + 1" using assms(2) by (simp add: checked_succ_def split: if_splits)
  have "length (filter (\<lambda>r. next \<le> ar_id r \<and> ar_id r \<le> through) rows)
      < length (filter (\<lambda>r. start \<le> ar_id r \<and> ar_id r \<le> through) rows)" if "?row \<in> set rows" for rows
    using that
  proof (induction rows)
    case (Cons r rows)
    have "length (filter (\<lambda>r. next \<le> ar_id r \<and> ar_id r \<le> through) xs)
      \<le> length (filter (\<lambda>r. start \<le> ar_id r \<and> ar_id r \<le> through) xs)" for xs
      using row(2) next_id by (induction xs) auto
    with Cons row(2,3) next_id show ?case by (auto simp: less_Suc_eq_le)
  qed simp
  with row(1) show ?thesis by (simp add: audit_rows_def)
qed

function verify_pages ::
    "(link_value \<Rightarrow> string option) \<Rightarrow> (string \<Rightarrow> string) \<Rightarrow> audit_trail \<Rightarrow> int \<Rightarrow> int \<Rightarrow> audit_link
     \<Rightarrow> audit_verification \<Rightarrow> store_error + audit_verification" where
  "verify_pages json sha t through start previous result =
     (let rows = take AUDIT_PAGE (audit_rows t start through) in
      if rows = [] then Inr result
      else case check_rows json sha previous result rows of
          Inl e \<Rightarrow> Inl e
        | Inr (broken, previous, result) \<Rightarrow>
            if broken then Inr result
            else case checked_succ (ar_id (last rows)) of
                None \<Rightarrow> Inr result
              | Some next \<Rightarrow> verify_pages json sha t through next previous result)"
  by pat_completeness auto
termination
  by (relation "measure (\<lambda>(json, sha, t, through, start, previous, result). length (audit_rows t start through))")
    (simp_all add: page_shrinks)

declare verify_pages.simps [simp del]

definition verify_audit_on ::
    "(link_value \<Rightarrow> string option) \<Rightarrow> (string \<Rightarrow> string) \<Rightarrow> audit_trail \<Rightarrow> int
     \<Rightarrow> store_error + audit_verification" where
  "verify_audit_on json sha t through =
     (case audit_anchor t of
        Inl e \<Rightarrow> Inl e
      | Inr anchor \<Rightarrow> verify_pages json sha t through I64_MIN (anchor_link anchor)
          \<lparr>av_checked = 0, av_anchor = anchor, av_head = None, av_broken_at = None\<rparr>)"

definition verify_audit ::
    "(link_value \<Rightarrow> string option) \<Rightarrow> (string \<Rightarrow> string) \<Rightarrow> audit_trail \<Rightarrow> store_error + audit_verification" where
  "verify_audit json sha t = verify_audit_on json sha t I64_MAX"

section \<open>Pruning\<close>

definition AUDIT_PRUNE_BATCH :: nat where "AUDIT_PRUNE_BATCH = 1000"

definition expired_rows :: "int \<Rightarrow> audit_row list \<Rightarrow> audit_row list" where
  "expired_rows cutoff rows =
     (case map ar_id (filter (\<lambda>r. cutoff \<le> ar_created_at_ms r) rows) of
        [] \<Rightarrow> rows
      | i # ids \<Rightarrow> filter (\<lambda>r. ar_id r < fold min ids i) rows)"

definition prune_audit_batch ::
    "(link_value \<Rightarrow> string option) \<Rightarrow> (string \<Rightarrow> string) \<Rightarrow> int \<Rightarrow> audit_trail
     \<Rightarrow> (store_error + bool) \<times> audit_trail" where
  "prune_audit_batch json sha cutoff t =
     (case rev (take AUDIT_PRUNE_BATCH (sort_key ar_id (expired_rows cutoff (at_rows t)))) of
        [] \<Rightarrow> (Inr False, t)
      | newest # _ \<Rightarrow> (case verify_audit_on json sha t (ar_id newest) of
          Inl e \<Rightarrow> (Inl e, t)
        | Inr verified \<Rightarrow> (case (av_head verified, av_broken_at verified) of
            (Some anchor, None) \<Rightarrow>
              (Inr True, t\<lparr>at_rows := filter (\<lambda>r. \<not> ar_id r \<le> al_id anchor) (at_rows t),
                at_pruned_through := Some (al_id anchor), at_pruned_link := Some (al_link anchor)\<rparr>)
          | _ \<Rightarrow> (Inr False, t))))"

section \<open>Checking rows\<close>

lemma check_rows_append:
  "check_rows json sha previous result (xs @ ys) =
     (case check_rows json sha previous result xs of
        Inl e \<Rightarrow> Inl e
      | Inr (broken, p, r) \<Rightarrow> if broken then Inr (True, p, r) else check_rows json sha p r ys)"
  by (induction xs arbitrary: previous result) (auto simp: Let_def split: sum.splits)

lemma check_rows_head:
  "check_rows json sha previous result rows = Inr (broken, p, r) \<Longrightarrow>
     av_head r = av_head result \<or> (\<exists>row\<in>set rows. \<exists>l. av_head r = Some \<lparr>al_id = ar_id row, al_link = l\<rparr>)"
proof (induction rows arbitrary: previous result)
  case (Cons row rows)
  then show ?case
    by (fastforce simp: Let_def split: sum.splits if_splits)
qed simp

lemma verify_pages_head:
  "verify_pages json sha t through start previous result = Inr r \<Longrightarrow>
     av_head r = av_head result \<or> (\<exists>row\<in>set (at_rows t). \<exists>l. av_head r = Some \<lparr>al_id = ar_id row, al_link = l\<rparr>)"
proof (induction json sha t through start previous result rule: verify_pages.induct)
  case (1 json sha t through start previous result)
  let ?rows = "take AUDIT_PAGE (audit_rows t start through)"
  have sub: "set ?rows \<subseteq> set (at_rows t)"
    using set_take_subset [of AUDIT_PAGE "audit_rows t start through"] by (auto simp: audit_rows_def)
  show ?case
  proof (cases "?rows = []")
    case True
    with "1.prems" show ?thesis by (simp add: verify_pages.simps)
  next
    case False
    have "\<exists>y. check_rows json sha previous result ?rows = Inr y"
      using "1.prems" False
      by (cases "check_rows json sha previous result ?rows") (auto simp: verify_pages.simps [of json sha t through start] Let_def)
    then obtain broken p r' where c: "check_rows json sha previous result ?rows = Inr (broken, p, r')" by auto
    note head = check_rows_head [OF c]
    show ?thesis
    proof (cases "broken \<or> checked_succ (ar_id (last ?rows)) = None")
      case True
      with "1.prems" False c have "r' = r"
        by (auto simp: verify_pages.simps [of json sha t through start] Let_def split: if_splits)
      with head sub show ?thesis by blast
    next
      case continue: False
      then obtain "next" where n: "checked_succ (ar_id (last ?rows)) = Some next" "\<not> broken" by auto
      with "1.prems" False c have "verify_pages json sha t through next p r' = Inr r"
        by (simp add: verify_pages.simps [of json sha t through start] Let_def)
      from "1.IH" [OF refl False c _ _ n(2) n(1) this] head sub show ?thesis by fastforce
    qed
  qed
qed

lemma verify_audit_on_head:
  assumes "verify_audit_on json sha t through = Inr v" and "av_head v = Some head"
  shows "\<exists>row\<in>set (at_rows t). al_id head = ar_id row"
  using assms
  by (fastforce simp: verify_audit_on_def split: sum.splits dest: verify_pages_head)

lemma prune_batch_shrinks:
  assumes "prune_audit_batch json sha cutoff t = (Inr True, t')"
  shows "length (at_rows t') < length (at_rows t)"
proof -
  obtain v anchor through where v: "verify_audit_on json sha t through = Inr v" "av_head v = Some anchor"
    and t': "at_rows t' = filter (\<lambda>r. \<not> ar_id r \<le> al_id anchor) (at_rows t)"
    using assms by (auto simp: prune_audit_batch_def split: list.splits sum.splits option.splits)
  from verify_audit_on_head [OF v] obtain row where "row \<in> set (at_rows t)" "ar_id row = al_id anchor" by auto
  then show ?thesis unfolding t' by (intro length_filter_less) auto
qed

function prune_batches ::
    "(link_value \<Rightarrow> string option) \<Rightarrow> (string \<Rightarrow> string) \<Rightarrow> int \<Rightarrow> audit_trail
     \<Rightarrow> (store_error + unit) \<times> audit_trail" where
  "prune_batches json sha cutoff t =
     (case prune_audit_batch json sha cutoff t of
        (Inl e, t) \<Rightarrow> (Inl e, t)
      | (Inr again, t) \<Rightarrow> if again then prune_batches json sha cutoff t else (Inr (), t))"
  by pat_completeness auto
termination
  by (relation "measure (\<lambda>(json, sha, cutoff, t). length (at_rows t))")
    (auto dest!: prune_batch_shrinks sym [of _ "prune_audit_batch _ _ _ _"])

declare prune_batches.simps [simp del]

definition prune_audit ::
    "(link_value \<Rightarrow> string option) \<Rightarrow> (string \<Rightarrow> string) \<Rightarrow> nat \<Rightarrow> int \<Rightarrow> audit_trail
     \<Rightarrow> (store_error + unit) \<times> audit_trail" where
  "prune_audit json sha audit_days cutoff t =
     (if audit_days = 0 then (Inr (), t) else prune_batches json sha cutoff t)"

section \<open>Chains\<close>

text \<open>The last link of rows that extend \<open>previous\<close>, \<open>None\<close> when one does not.\<close>

fun chain_end ::
    "(link_value \<Rightarrow> string option) \<Rightarrow> (string \<Rightarrow> string) \<Rightarrow> audit_link \<Rightarrow> audit_row list \<Rightarrow> audit_link option" where
  "chain_end json sha previous [] = Some previous"
| "chain_end json sha previous (row # rows) =
     (if checked_succ (al_id previous) = Some (ar_id row) \<and> ar_link row \<noteq> None
         \<and> link_from json sha (al_link previous) row = Inr (the (ar_link row))
      then chain_end json sha \<lparr>al_id = ar_id row, al_link = the (ar_link row)\<rparr> rows else None)"

lemma chain_end_append:
  "chain_end json sha previous (xs @ ys) =
     (case chain_end json sha previous xs of None \<Rightarrow> None | Some p \<Rightarrow> chain_end json sha p ys)"
  by (induction xs arbitrary: previous) auto

lemma chain_end_last:
  "chain_end json sha previous rows = Some p \<Longrightarrow> rows \<noteq> [] \<Longrightarrow>
     al_id p = ar_id (last rows) \<and> ar_link (last rows) = Some (al_link p)"
  by (induction rows arbitrary: previous) (auto split: if_splits)

lemma check_rows_chain:
  "chain_end json sha previous rows = Some p \<Longrightarrow>
     check_rows json sha previous result rows = Inr (False, p,
       result\<lparr>av_checked := av_checked result + length rows,
         av_head := if rows = [] then av_head result else Some p\<rparr>)"
  by (induction rows arbitrary: previous result) (auto simp: Let_def split: if_splits)

lemma check_rows_unbroken:
  "check_rows json sha previous result rows = Inr (broken, p, r) \<Longrightarrow> av_broken_at result = None \<Longrightarrow>
     (broken \<longleftrightarrow> av_broken_at r \<noteq> None) \<and> av_anchor r = av_anchor result
     \<and> (\<not> broken \<longrightarrow> chain_end json sha previous rows = Some p)"
proof (induction rows arbitrary: previous result)
  case (Cons row rows)
  obtain l where l: "link_from json sha (al_link previous) row = Inr l"
    using Cons.prems(1) by (auto split: sum.splits)
  show ?case
  proof (cases "checked_succ (al_id previous) = Some (ar_id row) \<and> ar_link row = Some l")
    case True
    with Cons.prems l Cons.IH show ?thesis by (fastforce simp: Let_def)
  next
    case False
    with Cons.prems l show ?thesis by (auto split: if_splits)
  qed
qed simp

section \<open>Pages\<close>

text \<open>The table constraints: \<open>id\<close> is a primary key, and it and \<open>pruned_through\<close> have 64 bits.\<close>

definition audit_table :: "audit_trail \<Rightarrow> bool" where
  "audit_table t \<longleftrightarrow> distinct (map ar_id (at_rows t))
     \<and> list_all (\<lambda>r. I64_MIN \<le> ar_id r \<and> ar_id r \<le> I64_MAX) (at_rows t)
     \<and> (case at_pruned_through t of None \<Rightarrow> True | Some i \<Rightarrow> I64_MIN \<le> i \<and> i \<le> I64_MAX)"

lemma sorted_by_distinct:
  "distinct (map f xs) \<Longrightarrow> sorted_wrt (\<lambda>a b. f a < f b) (sort_key f xs)" for f :: "'a \<Rightarrow> int"
proof -
  assume d: "distinct (map f xs)"
  have "mset (map f (sort_key f xs)) = mset (map f xs)" by simp
  then have "distinct (map f (sort_key f xs))" using d by (metis mset_eq_imp_distinct_iff)
  then have "sorted_wrt (<) (map f (sort_key f xs))" by (simp add: strict_sorted_iff sorted_sort_key)
  then show ?thesis by (simp add: sorted_wrt_map)
qed

lemma drop_sorted:
  assumes "sorted_wrt (\<lambda>a b. f a < (f b :: int)) xs" and "take n xs \<noteq> []"
  shows "drop n xs = filter (\<lambda>x. f (last (take n xs)) < f x) xs"
proof -
  let ?l = "last (take n xs)"
  have split: "sorted_wrt (\<lambda>a b. f a < f b) (take n xs @ drop n xs)" using assms(1) by simp
  have "\<not> f ?l < f x" if "x \<in> set (take n xs)" for x
  proof -
    have "sorted_wrt (\<lambda>a b. f a < f b) (butlast (take n xs) @ [?l])"
      using split assms(2) by (simp add: sorted_wrt_append)
    moreover have "x \<in> set (butlast (take n xs)) \<or> x = ?l"
      using that assms(2) by (metis append_butlast_last_id in_set_butlast_appendI rotate1.simps(2) set_ConsD set_rotate1)
    ultimately show ?thesis by (auto simp: sorted_wrt_append)
  qed
  moreover have "f ?l < f x" if "x \<in> set (drop n xs)" for x
    using split that last_in_set [OF assms(2)] unfolding sorted_wrt_append by blast
  ultimately have "filter (\<lambda>x. f ?l < f x) (take n xs @ drop n xs) = drop n xs"
    unfolding filter_append by (simp add: filter_empty_conv filter_id_conv)
  then show ?thesis by simp
qed

lemma audit_rows_sorted: "audit_table t \<Longrightarrow> sorted_wrt (\<lambda>a b. ar_id a < ar_id b) (audit_rows t start through)"
  unfolding audit_rows_def audit_table_def by (intro sorted_by_distinct distinct_map_filter) simp

lemma audit_rows_rest:
  assumes "audit_table t" and "take n (audit_rows t start through) \<noteq> []"
  shows "drop n (audit_rows t start through) = audit_rows t (ar_id (last (take n (audit_rows t start through))) + 1) through"
proof -
  let ?l = "last (take n (audit_rows t start through))"
  have "?l \<in> set (audit_rows t start through)" using last_in_set [OF assms(2)] in_set_takeD by fast
  then have "start \<le> ar_id ?l" by (auto simp: audit_rows_def)
  then have "(ar_id ?l < ar_id r \<and> start \<le> ar_id r \<and> ar_id r \<le> through) = (ar_id ?l + 1 \<le> ar_id r \<and> ar_id r \<le> through)" for r
    by auto
  then have "filter (\<lambda>r. ar_id ?l < ar_id r) (audit_rows t start through) = audit_rows t (ar_id ?l + 1) through"
    unfolding audit_rows_def filter_sort filter_filter by (metis (no_types, lifting))
  with drop_sorted [OF audit_rows_sorted [OF assms(1)] assms(2)] show ?thesis by simp
qed

text \<open>Paging changes nothing: the rows are checked as one list.\<close>

lemma verify_pages_rows:
  assumes "audit_table t" and "through \<le> I64_MAX"
  shows "verify_pages json sha t through start previous result =
    map_sum id (\<lambda>(broken, p, r). r) (check_rows json sha previous result (audit_rows t start through))"
  using assms
proof (induction json sha t through start previous result rule: verify_pages.induct)
  case (1 json sha t through start previous result)
  let ?all = "audit_rows t start through" let ?rows = "take AUDIT_PAGE ?all"
  show ?case
  proof (cases "?rows = []")
    case True
    then have "?all = []" by (auto simp: AUDIT_PAGE_def)
    with True show ?thesis by (simp add: verify_pages.simps)
  next
    case False
    let ?l = "ar_id (last ?rows)"
    have rest: "drop AUDIT_PAGE ?all = audit_rows t (?l + 1) through"
      by (rule audit_rows_rest [OF "1.prems"(1) False])
    have all: "check_rows json sha previous result ?all = check_rows json sha previous result (?rows @ drop AUDIT_PAGE ?all)"
      by simp
    show ?thesis
    proof (cases "check_rows json sha previous result ?rows")
      case (Inl e)
      with False show ?thesis
        unfolding all check_rows_append by (simp add: verify_pages.simps [of json sha t through start] Let_def)
    next
      case (Inr x)
      obtain broken p r where x: "x = (broken, p, r)" by (metis prod_cases3)
      have all': "check_rows json sha previous result ?all =
          (if broken then Inr (True, p, r) else check_rows json sha p r (drop AUDIT_PAGE ?all))"
        unfolding all check_rows_append by (simp add: Inr x)
      have pages: "verify_pages json sha t through start previous result =
          (if broken then Inr r else case checked_succ ?l of None \<Rightarrow> Inr r
             | Some next \<Rightarrow> verify_pages json sha t through next p r)"
        using False by (simp add: verify_pages.simps [of json sha t through start] Let_def Inr x)
      consider (broken) broken | (last) "\<not> broken" "checked_succ ?l = None"
        | (next_page) n where "\<not> broken" "checked_succ ?l = Some n" by fastforce
      then show ?thesis
      proof cases
        case broken
        then show ?thesis by (simp add: all' pages)
      next
        case last
        then have "?l = I64_MAX" by (simp add: checked_succ_def split: if_splits)
        then have "drop AUDIT_PAGE ?all = []"
          unfolding rest using "1.prems"(2) by (auto simp: audit_rows_def filter_empty_conv)
        then have "check_rows json sha previous result ?all = Inr (False, p, r)"
          unfolding all' using last by (simp only: check_rows.simps if_False)
        with last show ?thesis by (simp add: pages)
      next
        case next_page
        then have n: "n = ?l + 1" by (simp add: checked_succ_def split: if_splits)
        have "verify_pages json sha t through n p r =
            map_sum id (\<lambda>(broken, p, r). r) (check_rows json sha p r (audit_rows t n through))"
          by (rule "1.IH" [OF refl False Inr [unfolded x] refl refl next_page "1.prems"])
        with next_page show ?thesis by (simp add: all' pages rest n id_def)
      qed
    qed
  qed
qed

lemma verify_audit_on_rows:
  assumes "audit_table t" and "through \<le> I64_MAX" and "audit_anchor t = Inr anchor"
  shows "verify_audit_on json sha t through =
    map_sum id (\<lambda>(broken, p, r). r) (check_rows json sha (anchor_link anchor)
      \<lparr>av_checked = 0, av_anchor = anchor, av_head = None, av_broken_at = None\<rparr> (audit_rows t I64_MIN through))"
  by (simp add: verify_audit_on_def assms(3) verify_pages_rows [OF assms(1,2)])

lemma audit_rows_all: "audit_table t \<Longrightarrow> audit_rows t I64_MIN I64_MAX = sort_key ar_id (at_rows t)"
  unfolding audit_rows_def audit_table_def list_all_iff by (intro arg_cong [of _ _ "sort_key ar_id"] filter_True) auto

text \<open>A trail verifies exactly when its rows extend its anchor.\<close>

lemma verify_audit_chain:
  assumes "audit_table t"
  shows "verify_audit json sha t = Inr v \<and> av_broken_at v = None \<longleftrightarrow>
    (\<exists>anchor p. audit_anchor t = Inr anchor
      \<and> chain_end json sha (anchor_link anchor) (sort_key ar_id (at_rows t)) = Some p
      \<and> v = \<lparr>av_checked = length (at_rows t), av_anchor = anchor,
             av_head = (if at_rows t = [] then None else Some p), av_broken_at = None\<rparr>)"
    (is "?verified \<longleftrightarrow> ?chain")
proof
  assume ?verified
  then obtain anchor where a: "audit_anchor t = Inr anchor"
    by (cases "audit_anchor t") (auto simp: verify_audit_def verify_audit_on_def)
  note rows = verify_audit_on_rows [OF assms order_refl a, of json sha, folded verify_audit_def, unfolded audit_rows_all [OF assms]]
  from \<open>?verified\<close> rows obtain broken p where
    c: "check_rows json sha (anchor_link anchor) \<lparr>av_checked = 0, av_anchor = anchor, av_head = None, av_broken_at = None\<rparr>
      (sort_key ar_id (at_rows t)) = Inr (broken, p, v)"
    by (cases "check_rows json sha (anchor_link anchor) \<lparr>av_checked = 0, av_anchor = anchor, av_head = None, av_broken_at = None\<rparr>
      (sort_key ar_id (at_rows t))") auto
  with check_rows_unbroken [OF c] \<open>?verified\<close>
  have e: "chain_end json sha (anchor_link anchor) (sort_key ar_id (at_rows t)) = Some p" by simp
  have "sort_key ar_id (at_rows t) = [] \<longleftrightarrow> at_rows t = []"
    by (metis length_0_conv length_sort)
  with check_rows_chain [OF e, of "\<lparr>av_checked = 0, av_anchor = anchor, av_head = None, av_broken_at = None\<rparr>"] c a e
  show ?chain by auto
next
  assume ?chain
  then obtain anchor p where a: "audit_anchor t = Inr anchor"
    and e: "chain_end json sha (anchor_link anchor) (sort_key ar_id (at_rows t)) = Some p"
    and v: "v = \<lparr>av_checked = length (at_rows t), av_anchor = anchor,
             av_head = (if at_rows t = [] then None else Some p), av_broken_at = None\<rparr>" by blast
  have "sort_key ar_id (at_rows t) = [] \<longleftrightarrow> at_rows t = []"
    by (metis length_0_conv length_sort)
  then show ?verified
    using verify_audit_on_rows [OF assms order_refl a, of json sha, folded verify_audit_def, unfolded audit_rows_all [OF assms]]
      check_rows_chain [OF e, of "\<lparr>av_checked = 0, av_anchor = anchor, av_head = None, av_broken_at = None\<rparr>"] v
    by simp
qed


section \<open>Chained trails\<close>

definition verifies :: "(link_value \<Rightarrow> string option) \<Rightarrow> (string \<Rightarrow> string) \<Rightarrow> audit_trail \<Rightarrow> audit_verification \<Rightarrow> bool" where
  "verifies json sha t v \<longleftrightarrow> audit_table t \<and> verify_audit json sha t = Inr v \<and> av_broken_at v = None"

abbreviation sorted_rows :: "audit_trail \<Rightarrow> audit_row list" where
  "sorted_rows t \<equiv> sort_key ar_id (at_rows t)"

lemma sorted_rows_empty [simp]: "sort_key f xs = [] \<longleftrightarrow> xs = []"
  by (metis length_0_conv length_sort)

lemma verifiesE:
  assumes "verifies json sha t v"
  obtains anchor p where "audit_table t" "audit_anchor t = Inr anchor"
    "chain_end json sha (anchor_link anchor) (sorted_rows t) = Some p"
    "v = \<lparr>av_checked = length (at_rows t), av_anchor = anchor,
          av_head = (if at_rows t = [] then None else Some p), av_broken_at = None\<rparr>"
  using assms verify_audit_chain [of t json sha v] unfolding verifies_def by blast

lemma verifiesI:
  assumes "audit_table t" "audit_anchor t = Inr anchor"
    "chain_end json sha (anchor_link anchor) (sorted_rows t) = Some p"
  shows "verifies json sha t \<lparr>av_checked = length (at_rows t), av_anchor = anchor,
    av_head = (if at_rows t = [] then None else Some p), av_broken_at = None\<rparr>"
  using assms verify_audit_chain [of t json sha "\<lparr>av_checked = length (at_rows t), av_anchor = anchor,
    av_head = (if at_rows t = [] then None else Some p), av_broken_at = None\<rparr>"] by (simp add: verifies_def)

lemma chain_end_id: "chain_end json sha previous rows = Some p \<Longrightarrow> al_id p = al_id previous + int (length rows)"
  by (induction rows arbitrary: previous) (auto simp: checked_succ_Some split: if_splits)

lemma audit_head_of_chain:
  assumes "audit_anchor t = Inr anchor" "chain_end json sha (anchor_link anchor) (sorted_rows t) = Some p"
  shows "audit_head t = Inr p"
proof (cases "sorted_rows t" rule: rev_cases)
  case Nil
  with assms show ?thesis by (simp add: audit_head_def)
next
  case (snoc rows row)
  with assms(2) chain_end_last [OF assms(2)] have "al_id p = ar_id row" "ar_link row = Some (al_link p)" by simp_all
  then show ?thesis using assms(1) snoc by (simp add: audit_head_def)
qed

lemma sort_key_snoc:
  fixes f :: "'a \<Rightarrow> int"
  assumes "distinct (map f xs)" and "list_all (\<lambda>x. f x < f y) xs"
  shows "sort_key f (xs @ [y]) = sort_key f xs @ [y]"
proof (rule sort_key_inj_key_eq)
  show "inj_on f (set (xs @ [y]))" using assms by (auto simp: distinct_map list_all_iff)
  show "sorted (map f (sort_key f xs @ [y]))" using assms(2) by (auto simp: sorted_append list_all_iff)
qed simp

section \<open>Recording\<close>

lemma record_audit_cases:
  assumes "record_audit json sha environment_application event now t = Inr t'"
  obtains head row link where "audit_head t = Inr head" "checked_succ (al_id head) = Some (ar_id row)"
    "link_from json sha (al_link head) row = Inr link"
    "t' = t\<lparr>at_rows := at_rows t @ [row\<lparr>ar_link := Some link\<rparr>]\<rparr>"
proof -
  obtain head i where h: "audit_head t = Inr head" and i: "checked_succ (al_id head) = Some i"
    using assms by (auto simp: record_audit_def split: sum.splits option.splits)
  let ?row = "audit_application environment_application (event_row event i now)"
  have "ar_id ?row = i" by (simp add: audit_application_def event_row_def split: option.split)
  moreover obtain link where "link_from json sha (al_link head) ?row = Inr link"
    "t' = t\<lparr>at_rows := at_rows t @ [?row\<lparr>ar_link := Some link\<rparr>]\<rparr>"
    using assms h i by (auto simp: record_audit_def Let_def split: sum.splits)
  ultimately show thesis using that [OF h, of ?row] i by simp
qed

lemma link_from_link [simp]: "link_from json sha p (row\<lparr>ar_link := l\<rparr>) = link_from json sha p row"
proof -
  have "link_value_of p (row\<lparr>ar_link := l\<rparr>) = link_value_of p row"
    by (simp add: link_value_of_def link_fields_def split: option.split)
  then show ?thesis by (simp add: link_from_def)
qed

lemma record_audit_chain:
  assumes v: "verifies json sha t v"
    and r: "record_audit json sha environment_application event now t = Inr t'"
  obtains row where "at_rows t' = at_rows t @ [row]"
    "verifies json sha t' (v\<lparr>av_checked := av_checked v + 1, av_head := Some \<lparr>al_id = ar_id row, al_link = the (ar_link row)\<rparr>\<rparr>)"
proof -
  obtain anchor p where t: "audit_table t" "audit_anchor t = Inr anchor"
    and c: "chain_end json sha (anchor_link anchor) (sorted_rows t) = Some p"
    and v': "v = \<lparr>av_checked = length (at_rows t), av_anchor = anchor,
          av_head = (if at_rows t = [] then None else Some p), av_broken_at = None\<rparr>"
    using v by (rule verifiesE)
  obtain row link where row: "checked_succ (al_id p) = Some (ar_id row)" "link_from json sha (al_link p) row = Inr link"
    and t': "t' = t\<lparr>at_rows := at_rows t @ [row\<lparr>ar_link := Some link\<rparr>]\<rparr>"
    using r audit_head_of_chain [OF t(2) c] by (metis record_audit_cases sum.inject(2))
  let ?row = "row\<lparr>ar_link := Some link\<rparr>"
  have below: "list_all (\<lambda>r. ar_id r < ar_id ?row) (at_rows t)"
  proof (cases "sorted_rows t" rule: rev_cases)
    case (snoc rows last)
    have "al_id p = ar_id last" using chain_end_last [OF c] snoc by simp
    moreover have "sorted (map ar_id (rows @ [last]))" by (simp flip: snoc)
    ultimately have "\<forall>r\<in>set (rows @ [last]). ar_id r \<le> al_id p" by (auto simp: sorted_append)
    then have "\<forall>r\<in>set (at_rows t). ar_id r \<le> al_id p" by (simp flip: snoc)
    with row(1) show ?thesis by (auto simp: list_all_iff checked_succ_Some)
  qed simp_all
  have bound: "I64_MIN \<le> al_id p \<and> al_id p \<le> I64_MAX"
  proof (cases "sorted_rows t" rule: rev_cases)
    case Nil
    with c have "p = anchor_link anchor" by simp
    with t show ?thesis
      by (auto simp: audit_anchor_def audit_table_def anchor_link_def audit_start_def I64_MAX_def I64_MIN_def
          split: option.splits)
  next
    case (snoc rows last)
    then have "last \<in> set (sorted_rows t)" by simp
    then have "last \<in> set (at_rows t)" by simp
    moreover have "al_id p = ar_id last" using chain_end_last [OF c] snoc by simp
    ultimately show ?thesis using t(1) by (auto simp: audit_table_def list_all_iff)
  qed
  have table: "audit_table t'"
    using t(1) below bound row(1) by (auto simp: t' audit_table_def list_all_iff checked_succ_Some)
  have anchor': "audit_anchor t' = Inr anchor" using t(2) by (simp add: t' audit_anchor_def)
  have "sorted_rows t' = sorted_rows t @ [?row]"
    using sort_key_snoc [of ar_id "at_rows t" ?row] t(1) below by (simp add: t' audit_table_def)
  with c row have "chain_end json sha (anchor_link anchor) (sorted_rows t') = Some \<lparr>al_id = ar_id ?row, al_link = link\<rparr>"
    by (simp add: chain_end_append)
  from verifiesI [OF table anchor' this] show thesis
    using that [of ?row] by (simp add: t' v')
qed

section \<open>Tamper evidence\<close>

text \<open>The values hashed along rows whose links are stored.\<close>

fun link_inputs :: "string \<Rightarrow> audit_row list \<Rightarrow> link_value list" where
  "link_inputs previous [] = []"
| "link_inputs previous (row # rows) =
     link_value_of previous row # link_inputs (case ar_link row of None \<Rightarrow> '''' | Some link \<Rightarrow> link) rows"

definition trail_inputs :: "audit_trail \<Rightarrow> link_value list" where
  "trail_inputs t = (case audit_anchor t of Inl e \<Rightarrow> []
     | Inr anchor \<Rightarrow> link_inputs (al_link (anchor_link anchor)) (sorted_rows t))"

lemma link_inputs_append:
  "chain_end json sha previous xs = Some p \<Longrightarrow>
     link_inputs (al_link previous) (xs @ ys) = link_inputs (al_link previous) xs @ link_inputs (al_link p) ys"
proof (induction xs arbitrary: previous)
  case (Cons x xs)
  then obtain l where "ar_link x = Some l" and "chain_end json sha \<lparr>al_id = ar_id x, al_link = l\<rparr> xs = Some p"
    by (auto split: if_splits)
  with Cons.IH [of "\<lparr>al_id = ar_id x, al_link = l\<rparr>"] show ?case by simp
qed simp

lemma link_value_of_inj:
  "link_value_of p row = link_value_of q row' \<Longrightarrow> ar_link row = ar_link row' \<Longrightarrow> p = q \<and> row = row'"
  by (cases row; cases row')
    (auto simp: link_value_of_def link_fields_def split: option.splits)

lemma same_chain:
  assumes "chain_end json sha previous xs = Some p" "chain_end json sha previous ys = Some p"
    and "inj_on (\<lambda>x. map_option sha (json x))
      (set (link_inputs (al_link previous) xs) \<union> set (link_inputs (al_link previous) ys))"
  shows "xs = ys"
proof -
  have "length xs = length ys" using chain_end_id [OF assms(1)] chain_end_id [OF assms(2)] by simp
  then show ?thesis using assms
  proof (induction xs ys arbitrary: p rule: rev_induct2)
    case (4 x xs y ys)
    obtain q where q: "chain_end json sha previous xs = Some q" "chain_end json sha q [x] = Some p"
      using "4.prems"(2) by (auto simp: chain_end_append split: option.splits)
    obtain r where r: "chain_end json sha previous ys = Some r" "chain_end json sha r [y] = Some p"
      using "4.prems"(3) by (auto simp: chain_end_append split: option.splits)
    note inputs = link_inputs_append [OF q(1), of "[x]"] link_inputs_append [OF r(1), of "[y]"]
    have hash: "map_option sha (json (link_value_of (al_link q) x)) = Some (al_link p)"
      "map_option sha (json (link_value_of (al_link r) y)) = Some (al_link p)" "ar_link x = ar_link y" "ar_id x = ar_id y"
      using q(2) r(2) by (auto simp: link_from_def split: if_splits option.splits)
    have "link_value_of (al_link q) x = link_value_of (al_link r) y"
      by (rule inj_onD [OF "4.prems"(4)]) (simp_all add: hash inputs)
    from link_value_of_inj [OF this hash(3)] have "al_link q = al_link r" "x = y" by simp_all
    moreover have "al_id q = al_id r"
      using q(2) r(2) hash(4) by (auto simp: checked_succ_Some split: if_splits)
    ultimately have "q = r" by simp
    moreover have "inj_on (\<lambda>x. map_option sha (json x))
        (set (link_inputs (al_link previous) xs) \<union> set (link_inputs (al_link previous) ys))"
      using "4.prems"(4) unfolding inputs by (rule inj_on_subset) auto
    ultimately show ?case using "4.IH" [OF _ q(1)] r(1) "4.prems"(1) \<open>x = y\<close> by simp
  qed simp_all
qed

section \<open>Pruning\<close>

lemma expired_rows_set:
  "set (expired_rows cutoff rows) =
     {r \<in> set rows. list_all (\<lambda>s. cutoff \<le> ar_created_at_ms s \<longrightarrow> ar_id r < ar_id s) rows}"
proof (cases "map ar_id (filter (\<lambda>r. cutoff \<le> ar_created_at_ms r) rows)")
  case Nil
  then show ?thesis by (auto simp: expired_rows_def filter_empty_conv list_all_iff)
next
  case (Cons i ids)
  have "ar_id r < fold min ids i \<longleftrightarrow> (\<forall>j\<in>set (i # ids). ar_id r < j)" for r
    unfolding Min.set_eq_fold [symmetric] by simp
  then have "set (expired_rows cutoff rows) =
      {r \<in> set rows. \<forall>j\<in>set (map ar_id (filter (\<lambda>r. cutoff \<le> ar_created_at_ms r) rows)). ar_id r < j}"
    unfolding Cons expired_rows_def by (auto simp: Cons)
  then show ?thesis by (auto simp: list_all_iff)
qed

lemma expired_rows_filter: "\<exists>P. expired_rows cutoff rows = filter P rows"
  by (cases "map ar_id (filter (\<lambda>r. cutoff \<le> ar_created_at_ms r) rows)")
    (auto simp: expired_rows_def intro: exI [of _ "\<lambda>_. True"])

lemma sorted_split:
  "sorted_wrt (\<lambda>a b. f a < f b) xs \<Longrightarrow> xs = filter (\<lambda>x. f x \<le> n) xs @ filter (\<lambda>x. n < f x) xs"
  for f :: "'a \<Rightarrow> int"
proof (induction xs)
  case (Cons x xs)
  then have "xs = filter (\<lambda>x. f x \<le> n) xs @ filter (\<lambda>x. n < f x) xs" by simp
  moreover have "n < f x \<Longrightarrow> filter (\<lambda>x. f x \<le> n) xs = []"
    using Cons.prems by (fastforce simp: filter_empty_conv)
  ultimately show ?case by (cases "n < f x") auto
qed simp

lemma audit_rows_prefix:
  assumes "audit_table t"
  shows "sorted_rows t = audit_rows t I64_MIN through @ filter (\<lambda>r. through < ar_id r) (sorted_rows t)"
proof -
  have "audit_rows t I64_MIN through = filter (\<lambda>r. ar_id r \<le> through) (sorted_rows t)"
    unfolding audit_rows_def filter_sort using assms
    by (intro arg_cong [of _ _ "sort_key ar_id"] filter_cong) (auto simp: audit_table_def list_all_iff)
  moreover have "sorted_wrt (\<lambda>a b. ar_id a < ar_id b) (sorted_rows t)"
    using assms by (intro sorted_by_distinct) (simp add: audit_table_def)
  from sorted_split [OF this, of through]
  have "sorted_rows t = filter (\<lambda>r. ar_id r \<le> through) (sorted_rows t) @ filter (\<lambda>r. through < ar_id r) (sorted_rows t)" .
  ultimately show ?thesis by simp
qed

lemma sorted_key_last: "sorted (map f xs) \<Longrightarrow> x \<in> set xs \<Longrightarrow> f x \<le> f (last xs)"
  by (induction xs) auto

lemma prune_batch_chain:
  assumes t: "audit_table t" and pruned: "prune_audit_batch json sha cutoff t = (Inr True, t')"
  obtains anchor rows p where "audit_anchor t = Inr anchor" "rows \<noteq> []" "sorted_rows t = rows @ sorted_rows t'"
    "chain_end json sha (anchor_link anchor) rows = Some p" "audit_table t'" "audit_anchor t' = Inr (Some p)"
    "at_rows t' = filter (\<lambda>r. al_id p < ar_id r) (at_rows t)"
    "list_all (\<lambda>r. al_id p < ar_id r \<or> ar_created_at_ms r < cutoff) (at_rows t)"
proof -
  let ?batch = "take AUDIT_PRUNE_BATCH (sort_key ar_id (expired_rows cutoff (at_rows t)))"
  obtain newest tl v p where b: "rev ?batch = newest # tl" and v: "verify_audit_on json sha t (ar_id newest) = Inr v"
    "av_head v = Some p" "av_broken_at v = None"
    and t': "t' = t\<lparr>at_rows := filter (\<lambda>r. \<not> ar_id r \<le> al_id p) (at_rows t),
        at_pruned_through := Some (al_id p), at_pruned_link := Some (al_link p)\<rparr>"
    using pruned by (auto simp: prune_audit_batch_def split: list.splits sum.splits option.splits)
  have "newest \<in> set (rev ?batch)" unfolding b by simp
  then have "newest \<in> set (expired_rows cutoff (at_rows t))" using in_set_takeD by fastforce
  then have newest: "newest \<in> set (at_rows t)"
    "list_all (\<lambda>s. cutoff \<le> ar_created_at_ms s \<longrightarrow> ar_id newest < ar_id s) (at_rows t)"
    by (auto simp: expired_rows_set)
  have le: "ar_id newest \<le> I64_MAX" "I64_MIN \<le> ar_id newest" using newest(1) t by (auto simp: audit_table_def list_all_iff)
  obtain anchor where a: "audit_anchor t = Inr anchor"
    using v(1) by (auto simp: verify_audit_on_def split: sum.splits)
  let ?rows = "audit_rows t I64_MIN (ar_id newest)"
  let ?fresh = "\<lparr>av_checked = 0, av_anchor = anchor, av_head = None, av_broken_at = None\<rparr>"
  obtain broken q where c: "check_rows json sha (anchor_link anchor) ?fresh ?rows = Inr (broken, q, v)"
    using v(1) verify_audit_on_rows [OF t le(1) a, of json sha]
    by (cases "check_rows json sha (anchor_link anchor) ?fresh ?rows") auto
  with check_rows_unbroken [OF c] v(3) have e: "chain_end json sha (anchor_link anchor) ?rows = Some q" by simp
  have rows: "newest \<in> set ?rows" using newest(1) le by (simp add: audit_rows_def)
  then have "?rows \<noteq> []" by auto
  with check_rows_chain [OF e, of ?fresh] c v(2) have q: "q = p" by auto
  have last: "al_id p = ar_id (last ?rows)" using chain_end_last [OF e \<open>?rows \<noteq> []\<close>] q by simp
  have "ar_id (last ?rows) \<le> ar_id newest" using last_in_set [OF \<open>?rows \<noteq> []\<close>] by (simp add: audit_rows_def)
  moreover have "ar_id newest \<le> ar_id (last ?rows)"
    by (rule sorted_key_last [OF _ rows]) (simp add: audit_rows_def)
  ultimately have p: "al_id p = ar_id newest" using last by simp
  have at: "at_rows t' = filter (\<lambda>r. al_id p < ar_id r) (at_rows t)" by (simp add: t' not_le)
  have "sorted_rows t = ?rows @ sorted_rows t'"
    using audit_rows_prefix [OF t, of "ar_id newest"] unfolding at filter_sort p by simp
  moreover have "audit_table t'" using t le p
    by (auto simp: audit_table_def at list_all_iff distinct_map_filter) (simp_all add: t')
  moreover have "audit_anchor t' = Inr (Some p)" by (simp add: t' audit_anchor_def)
  moreover have "list_all (\<lambda>r. al_id p < ar_id r \<or> ar_created_at_ms r < cutoff) (at_rows t)"
    using newest(2) by (fastforce simp: list_all_iff p)
  ultimately show thesis using that [OF a \<open>?rows \<noteq> []\<close> _ e [unfolded q]] at by blast
qed

text \<open>What a check finds does not depend on what was counted before.\<close>

lemma check_rows_broken_at:
  "av_broken_at r1 = av_broken_at r2 \<Longrightarrow>
     map_sum id (\<lambda>(b, p, r). av_broken_at r) (check_rows json sha previous r1 rows)
     = map_sum id (\<lambda>(b, p, r). av_broken_at r) (check_rows json sha previous r2 rows)"
proof (induction rows arbitrary: previous r1 r2)
  case (Cons row rows)
  show ?case
  proof (cases "link_from json sha (al_link previous) row")
    case (Inr l)
    show ?thesis
    proof (cases "checked_succ (al_id previous) = Some (ar_id row) \<and> ar_link row = Some l")
      case True
      then show ?thesis using Inr by (simp add: Let_def) (rule Cons.IH [unfolded id_def], simp add: Cons.prems)
    qed (use Inr in auto)
  qed simp
qed simp

definition broken_at :: "store_error + audit_verification \<Rightarrow> store_error + int option" where
  "broken_at = map_sum id av_broken_at"

lemma verify_audit_broken_at:
  assumes "audit_table t" "audit_anchor t = Inr anchor"
  shows "broken_at (verify_audit json sha t) =
    map_sum id (\<lambda>(b, p, r). av_broken_at r) (check_rows json sha (anchor_link anchor)
      \<lparr>av_checked = 0, av_anchor = anchor, av_head = None, av_broken_at = None\<rparr> (sorted_rows t))"
  unfolding broken_at_def verify_audit_def verify_audit_on_rows [OF assms(1) order_refl assms(2)] audit_rows_all [OF assms(1)]
  by (simp add: sum.map_comp comp_def case_prod_unfold id_def)

lemma prune_batch_evidence:
  assumes "audit_table t" "prune_audit_batch json sha cutoff t = (Inr True, t')"
  shows "broken_at (verify_audit json sha t') = broken_at (verify_audit json sha t)"
    and "audit_head t' = audit_head t"
proof -
  obtain anchor rows p where t: "audit_anchor t = Inr anchor" "rows \<noteq> []" "sorted_rows t = rows @ sorted_rows t'"
    "chain_end json sha (anchor_link anchor) rows = Some p" "audit_table t'" "audit_anchor t' = Inr (Some p)"
    using assms by (rule prune_batch_chain)
  note prefix = check_rows_chain [OF t(4)]
  show "broken_at (verify_audit json sha t') = broken_at (verify_audit json sha t)"
    unfolding verify_audit_broken_at [OF assms(1) t(1)] verify_audit_broken_at [OF t(5,6)] t(3) check_rows_append
      prefix by (simp add: anchor_link_def) (intro conjI impI check_rows_broken_at, simp_all)
  show "audit_head t' = audit_head t"
  proof (cases "sorted_rows t'" rule: rev_cases)
    case Nil
    with chain_end_last [OF t(4,2)] t show ?thesis
      by (cases rows rule: rev_cases) (auto simp: audit_head_def anchor_link_def)
  next
    case (snoc xs x)
    with t show ?thesis by (simp add: audit_head_def)
  qed
qed

lemma prune_batch_same: "prune_audit_batch json sha cutoff t = (r, t') \<Longrightarrow> r \<noteq> Inr True \<Longrightarrow> t' = t"
  by (auto simp: prune_audit_batch_def split: list.splits sum.splits option.splits)

lemma prune_batches_induct [consumes 1, case_names stop batch]:
  assumes "prune_batches json sha cutoff t = (res, t')"
    and "\<And>t. P t t"
    and "\<And>t t1. prune_audit_batch json sha cutoff t = (Inr True, t1) \<Longrightarrow> P t1 t' \<Longrightarrow> P t t'"
  shows "P t t'"
  using assms(1)
proof (induction json\<equiv>json sha\<equiv>sha cutoff\<equiv>cutoff t rule: prune_batches.induct)
  case (1 t)
  obtain r t1 where b: "prune_audit_batch json sha cutoff t = (r, t1)" by fastforce
  show ?case
  proof (cases "r = Inr True")
    case True
    with b 1 show ?thesis by (intro assms(3) [of t t1]) (auto simp: prune_batches.simps [of json sha cutoff t])
  next
    case False
    with b 1(2) prune_batch_same [OF b] have "t' = t"
      by (cases r) (auto simp: prune_batches.simps [of json sha cutoff t])
    with assms(2) show ?thesis by simp
  qed
qed

lemma prune_batches_facts:
  assumes "prune_batches json sha cutoff t = (res, t')" and "audit_table t"
  shows "audit_table t' \<and> set (at_rows t') \<subseteq> set (at_rows t)
    \<and> set (at_rows t) - set (at_rows t') \<subseteq> {r. ar_created_at_ms r < cutoff}
    \<and> broken_at (verify_audit json sha t') = broken_at (verify_audit json sha t)
    \<and> audit_head t' = audit_head t"
  using assms
proof (induction rule: prune_batches_induct)
  case (batch t t1)
  obtain anchor rows p where "audit_anchor t = Inr anchor" "rows \<noteq> []" "sorted_rows t = rows @ sorted_rows t1"
    "chain_end json sha (anchor_link anchor) rows = Some p" and t1: "audit_table t1" "audit_anchor t1 = Inr (Some p)"
    "at_rows t1 = filter (\<lambda>r. al_id p < ar_id r) (at_rows t)"
    "list_all (\<lambda>r. al_id p < ar_id r \<or> ar_created_at_ms r < cutoff) (at_rows t)"
    by (rule prune_batch_chain [OF batch(3,1)])
  have "set (at_rows t1) \<subseteq> set (at_rows t)" "set (at_rows t) - set (at_rows t1) \<subseteq> {r. ar_created_at_ms r < cutoff}"
    using t1(3,4) by (auto simp: list_all_iff)
  with batch(2) [OF t1(1)] prune_batch_evidence [OF batch(3,1)] show ?case by auto
qed simp

lemma prune_batch_verified:
  assumes v: "verifies json sha t v" and expired: "expired_rows cutoff (at_rows t) \<noteq> []"
  shows "\<exists>t' v'. prune_audit_batch json sha cutoff t = (Inr True, t') \<and> verifies json sha t' v'"
proof -
  obtain anchor p where t: "audit_table t" "audit_anchor t = Inr anchor"
    and c: "chain_end json sha (anchor_link anchor) (sorted_rows t) = Some p"
    using v by (rule verifiesE)
  let ?batch = "take AUDIT_PRUNE_BATCH (sort_key ar_id (expired_rows cutoff (at_rows t)))"
  have "?batch \<noteq> []" using expired by (simp add: AUDIT_PRUNE_BATCH_def)
  then obtain newest tl where b: "rev ?batch = newest # tl" by (cases "rev ?batch") auto
  then have "newest \<in> set (rev ?batch)" by simp
  then have newest: "newest \<in> set (at_rows t)"
    using in_set_takeD by (fastforce simp: expired_rows_set)
  then have le: "ar_id newest \<le> I64_MAX" "I64_MIN \<le> ar_id newest" using t by (auto simp: audit_table_def list_all_iff)
  let ?rows = "audit_rows t I64_MIN (ar_id newest)"
  obtain q where q: "chain_end json sha (anchor_link anchor) ?rows = Some q"
    using c by (subst (asm) audit_rows_prefix [OF t(1), of "ar_id newest"]) (auto simp: chain_end_append split: option.splits)
  have "newest \<in> set ?rows" using newest le by (simp add: audit_rows_def)
  then have "?rows \<noteq> []" by auto
  then have "\<exists>t'. prune_audit_batch json sha cutoff t = (Inr True, t')"
    by (simp add: prune_audit_batch_def b verify_audit_on_rows [OF t(1) le(1) t(2)] check_rows_chain [OF q])
  then obtain t' where t': "prune_audit_batch json sha cutoff t = (Inr True, t')" ..
  obtain rows r where "sorted_rows t = rows @ sorted_rows t'" "chain_end json sha (anchor_link anchor) rows = Some r"
    "audit_table t'" "audit_anchor t' = Inr (Some r)"
    using t(2) prune_batch_chain [OF t(1) t'] by (metis sum.inject(2))
  moreover from this c have "chain_end json sha (anchor_link (Some r)) (sorted_rows t') = Some p"
    by (simp add: chain_end_append anchor_link_def)
  ultimately show ?thesis using verifiesI t' by blast
qed

lemma prune_batches_finish:
  "verifies json sha t v \<Longrightarrow> \<exists>t' v'. prune_batches json sha cutoff t = (Inr (), t')
     \<and> expired_rows cutoff (at_rows t') = [] \<and> verifies json sha t' v'"
proof (induction json\<equiv>json sha\<equiv>sha cutoff\<equiv>cutoff t arbitrary: v rule: prune_batches.induct)
  case (1 t)
  show ?case
  proof (cases "expired_rows cutoff (at_rows t) = []")
    case True
    then have "prune_batches json sha cutoff t = (Inr (), t)"
      by (simp add: prune_batches.simps prune_audit_batch_def)
    with True 1 show ?thesis by blast
  next
    case False
    from prune_batch_verified [OF "1.prems" this] obtain t1 v1
      where b: "prune_audit_batch json sha cutoff t = (Inr True, t1)" "verifies json sha t1 v1" by blast
    from "1.hyps" [OF b(1) [symmetric] refl _ b(2)] obtain t' v' where
      "prune_batches json sha cutoff t1 = (Inr (), t')" "expired_rows cutoff (at_rows t') = []" "verifies json sha t' v'"
      by auto
    with b(1) show ?thesis by (auto simp: prune_batches.simps [of json sha cutoff t])
  qed
qed

section \<open>The trail\<close>

text \<open>C26: Recording a request appends one row, and a trail that verified still verifies: one more row
  checked, the same anchor, and the new row as its head.\<close>

theorem recording_keeps_the_chain:
  assumes "verifies json sha t v"
    and "record_audit json sha environment_application event now t = Inr t'"
  shows "\<exists>row. at_rows t' = at_rows t @ [row]
    \<and> verifies json sha t' (v\<lparr>av_checked := av_checked v + 1,
         av_head := Some \<lparr>al_id = ar_id row, al_link = the (ar_link row)\<rparr>\<rparr>)"
  using assms by (rule record_audit_chain) blast

text \<open>C17: Two trails that verify with the same anchor and the same head hold the same records in the
  same order, unless the hash collides on the values they were checked with: whoever keeps anchor
  and head elsewhere detects every edited, inserted, renumbered or removed record.\<close>

theorem same_head_same_records:
  assumes "verifies json sha t v" and "verifies json sha u w"
    and "av_anchor v = av_anchor w" and "av_head v = av_head w"
    and "inj_on (\<lambda>x. map_option sha (json x)) (set (trail_inputs t) \<union> set (trail_inputs u))"
  shows "sort_key ar_id (at_rows t) = sort_key ar_id (at_rows u)"
proof -
  obtain anchor p where t: "audit_anchor t = Inr anchor"
    "chain_end json sha (anchor_link anchor) (sorted_rows t) = Some p"
    "av_anchor v = anchor" "av_head v = (if at_rows t = [] then None else Some p)"
    using assms(1) by (elim verifiesE) auto
  obtain anchor' q where u: "audit_anchor u = Inr anchor'"
    "chain_end json sha (anchor_link anchor') (sorted_rows u) = Some q"
    "av_anchor w = anchor'" "av_head w = (if at_rows u = [] then None else Some q)"
    using assms(2) by (elim verifiesE) auto
  show ?thesis
  proof (cases "at_rows t = []")
    case False
    with t u assms(3,4) have "anchor' = anchor" "q = p" by (auto split: if_splits)
    with t u assms(5) show ?thesis by (intro same_chain [OF t(2)]) (simp_all add: trail_inputs_def)
  qed (use t u assms(4) in \<open>simp split: if_splits\<close>)
qed

text \<open>C27: Pruning removes only records that expired and never touches the evidence of tampering: what
  verification finds broken before and after is the same, and new records extend the same head.\<close>

theorem pruning_keeps_the_evidence:
  assumes "audit_table t" and "prune_audit json sha days cutoff t = (res, t')"
  shows "set (at_rows t') \<subseteq> set (at_rows t)
    \<and> set (at_rows t) - set (at_rows t') \<subseteq> {r. ar_created_at_ms r < cutoff}
    \<and> broken_at (verify_audit json sha t') = broken_at (verify_audit json sha t)
    \<and> audit_head t' = audit_head t"
  using assms prune_batches_facts [of json sha cutoff t res t'] by (auto simp: prune_audit_def split: if_splits)

text \<open>C29: On a trail that verifies, pruning ends without an error after finitely many batches, and no
  expired record is left before the oldest retained one; the rest still verifies.\<close>

theorem pruning_finishes:
  assumes "verifies json sha t v" and "0 < days"
  shows "\<exists>t' v'. prune_audit json sha days cutoff t = (Inr (), t')
    \<and> expired_rows cutoff (at_rows t') = [] \<and> verifies json sha t' v'"
  using assms prune_batches_finish [of json sha t v cutoff] by (simp add: prune_audit_def)

section \<open>A trail of two records\<close>

definition example_event :: "string \<Rightarrow> new_audit_event" where
  "example_event action =
     \<lparr>ne_action = action, ne_outcome = Outcome_Allowed, ne_status = 200, ne_user_id = Some ''usr-1'',
      ne_username = Some ''ada'', ne_credential_id = None, ne_credential_kind = None, ne_scoped = None,
      ne_peer = None, ne_tailnet = None, ne_request_id = None, ne_application_id = None,
      ne_environment_id = Some ''env-1'', ne_permission = None, ne_operator = None\<rparr>"

definition example_json :: "link_value \<Rightarrow> string option" where
  "example_json v = (case v of
       Link_Fields previous row \<Rightarrow> Some (previous @ ''|'' @ show_nat (nat (ar_id row)) @ ar_action row)
     | _ \<Rightarrow> None)"

definition example_sha :: "string \<Rightarrow> string" where "example_sha bytes = rev bytes"

definition example_owner :: "string \<Rightarrow> string option" where
  "example_owner environment = (if environment = ''env-1'' then Some ''app-1'' else None)"

definition empty_trail :: audit_trail where
  "empty_trail = \<lparr>at_rows = [], at_pruned_through = None, at_pruned_link = None\<rparr>"

definition record_example :: "string \<Rightarrow> int \<Rightarrow> audit_trail \<Rightarrow> audit_trail" where
  "record_example action now t =
     (case record_audit example_json example_sha example_owner (example_event action) now t of Inl e \<Rightarrow> t | Inr t' \<Rightarrow> t')"

definition example_trail :: audit_trail where
  "example_trail = record_example ''deploy'' 20 (record_example ''create'' 10 empty_trail)"

definition verification_of :: "audit_trail \<Rightarrow> audit_verification" where
  "verification_of t = (case verify_audit example_json example_sha t of
       Inr v \<Rightarrow> v | Inl e \<Rightarrow> \<lparr>av_checked = 0, av_anchor = None, av_head = None, av_broken_at = Some 0\<rparr>)"

lemma example_verifies:
  "verifies example_json example_sha example_trail (verification_of example_trail)"
  "verifies example_json example_sha (example_trail\<lparr>at_rows := rev (at_rows example_trail)\<rparr>)
     (verification_of example_trail)"
  by code_simp+

lemma recording_keeps_the_chain_witness:
  "\<exists>row. at_rows (record_example ''stop'' 30 example_trail) = at_rows example_trail @ [row]
    \<and> verifies example_json example_sha (record_example ''stop'' 30 example_trail)
      ((verification_of example_trail)\<lparr>av_checked := av_checked (verification_of example_trail) + 1,
         av_head := Some \<lparr>al_id = ar_id row, al_link = the (ar_link row)\<rparr>\<rparr>)"
  by (rule recording_keeps_the_chain [OF example_verifies(1),
        where environment_application = example_owner and event = "example_event ''stop''" and now = 30])
    code_simp

lemma same_head_same_records_witness:
  "sort_key ar_id (at_rows example_trail) = sort_key ar_id (rev (at_rows example_trail))"
  using same_head_same_records [OF example_verifies refl refl] by (simp, code_simp)

lemma pruning_keeps_the_evidence_witness:
  "let t' = snd (prune_audit example_json example_sha 30 15 example_trail) in
     set (at_rows t') \<subseteq> set (at_rows example_trail)
     \<and> set (at_rows example_trail) - set (at_rows t') \<subseteq> {r. ar_created_at_ms r < 15}
     \<and> broken_at (verify_audit example_json example_sha t') = broken_at (verify_audit example_json example_sha example_trail)
     \<and> audit_head t' = audit_head example_trail"
  unfolding Let_def
  by (rule pruning_keeps_the_evidence [where days = 30 and cutoff = 15 and res = "fst (prune_audit example_json example_sha 30 15 example_trail)"])
    (use example_verifies(1) in \<open>simp_all add: verifies_def\<close>)

lemma pruning_finishes_witness:
  "\<exists>t' v'. prune_audit example_json example_sha 30 15 example_trail = (Inr (), t')
    \<and> expired_rows 15 (at_rows t') = [] \<and> verifies example_json example_sha t' v'"
  using pruning_finishes [OF example_verifies(1), of 30 15] by simp

end
