(* ===== verification/Build_Queue.thy ===== *)
theory Build_Queue
  imports Prelude
begin

text \<open>
  The build queue: \<open>apps/piqueld/src/docker/build_queue.rs\<close>.

  Builds are numbered in the order they ask for a turn. Next to the queue's state the model keeps
  what the code spreads over its channels and guards: which receivers are closed, which builds were
  handed a turn and have not woken yet (their \<open>Wait\<close>), which hold a \<open>Turn\<close>, how many calls of
  \<open>pass\<close> wait for the mutex, and how far the call inside it is. An event is one step that is atomic
  in the code: a section under the mutex, or one operation on a channel. Receivers can close between
  any two steps of \<open>pass\<close>, so a build popped by \<open>next\<close> may be gone when it is sent its turn. The
  counter \<open>overtaken\<close> is a natural number: it never exceeds the burst.
\<close>

definition ENVIRONMENT_BURST :: nat where "ENVIRONMENT_BURST = 3"

datatype build_priority = Environment_Build | Preview_Build

datatype environment_kind = Environment_Kind | Preview_Kind

fun build_priority_of :: "environment_kind \<Rightarrow> build_priority" where
  "build_priority_of Environment_Kind = Environment_Build"
| "build_priority_of Preview_Kind = Preview_Build"

record waiting =
  bw_running :: bool
  bw_environments :: "nat list"
  bw_previews :: "nat list"
  bw_overtaken :: nat

datatype pass_state = Unlocked | Selecting | Sending nat

record build_queue = waiting +
  bq_next :: nat
  bq_closed :: "nat set"
  bq_notified :: "nat set"
  bq_turns :: "nat set"
  bq_passes :: nat
  bq_pass :: pass_state

definition empty_queue :: build_queue where
  "empty_queue = \<lparr>bw_running = False, bw_environments = [], bw_previews = [], bw_overtaken = 0,
     bq_next = 0, bq_closed = {}, bq_notified = {}, bq_turns = {}, bq_passes = 0, bq_pass = Unlocked\<rparr>"

section \<open>The operations\<close>

text \<open>\<open>Waiting::next\<close>: the build it pops and the state it leaves.\<close>

definition waiting_next :: "nat set \<Rightarrow> 'a waiting_scheme \<Rightarrow> nat option \<times> 'a waiting_scheme" where
  "waiting_next closed w =
     (let environments = filter (\<lambda>b. b \<notin> closed) (bw_environments w);
          previews = filter (\<lambda>b. b \<notin> closed) (bw_previews w);
          w = w\<lparr>bw_environments := environments, bw_previews := previews\<rparr>
      in case (previews = [] \<or> bw_overtaken w < ENVIRONMENT_BURST, environments) of
           (True, build # rest) \<Rightarrow>
             (Some build, w\<lparr>bw_environments := rest,
                bw_overtaken := (if previews = [] then bw_overtaken w else bw_overtaken w + 1)\<rparr>)
         | _ \<Rightarrow> (case previews of
               [] \<Rightarrow> (None, w\<lparr>bw_overtaken := 0\<rparr>)
             | build # rest \<Rightarrow> (Some build, w\<lparr>bw_overtaken := 0, bw_previews := rest\<rparr>)))"

datatype build_event =
    Ask build_priority
  | Wake nat
  | Cancel nat
  | Drop_Turn nat
  | Lock
  | Select
  | Send

text \<open>Whether a build's sender is still kept, in a queue or by the running \<open>pass\<close>.\<close>

definition awaited :: "build_queue \<Rightarrow> nat \<Rightarrow> bool" where
  "awaited q b \<longleftrightarrow> b \<in> set (bw_environments q) \<or> b \<in> set (bw_previews q) \<or> bq_pass q = Sending b"

fun build_step :: "build_event \<Rightarrow> build_queue \<Rightarrow> build_queue option" where
  "build_step (Ask priority) q =
     (if bq_pass q \<noteq> Unlocked then None
      else if \<not> bw_running q
      then Some (q\<lparr>bw_running := True, bq_turns := insert (bq_next q) (bq_turns q), bq_next := bq_next q + 1\<rparr>)
      else (case priority of
          Environment_Build \<Rightarrow> Some (q\<lparr>bw_environments := bw_environments q @ [bq_next q], bq_next := bq_next q + 1\<rparr>)
        | Preview_Build \<Rightarrow> Some (q\<lparr>bw_previews := bw_previews q @ [bq_next q], bq_next := bq_next q + 1\<rparr>)))"
| "build_step (Wake b) q =
     (if b \<in> bq_notified q
      then Some (q\<lparr>bq_notified := bq_notified q - {b}, bq_turns := insert b (bq_turns q)\<rparr>) else None)"
| "build_step (Cancel b) q =
     (if b \<in> bq_notified q
      then Some (q\<lparr>bq_notified := bq_notified q - {b}, bq_closed := insert b (bq_closed q), bq_passes := bq_passes q + 1\<rparr>)
      else if awaited q b \<and> b \<notin> bq_closed q then Some (q\<lparr>bq_closed := insert b (bq_closed q)\<rparr>)
      else None)"
| "build_step (Drop_Turn b) q =
     (if b \<in> bq_turns q then Some (q\<lparr>bq_turns := bq_turns q - {b}, bq_passes := bq_passes q + 1\<rparr>) else None)"
| "build_step Lock q =
     (if bq_pass q = Unlocked \<and> 0 < bq_passes q
      then Some (q\<lparr>bq_passes := bq_passes q - 1, bq_pass := Selecting\<rparr>) else None)"
| "build_step Select q =
     (if bq_pass q = Selecting
      then (case waiting_next (bq_closed q) q of
          (Some build, q) \<Rightarrow> Some (q\<lparr>bq_pass := Sending build\<rparr>)
        | (None, q) \<Rightarrow> Some (q\<lparr>bw_running := False, bq_pass := Unlocked\<rparr>))
      else None)"
| "build_step Send q =
     (case bq_pass q of
        Sending b \<Rightarrow> if b \<in> bq_closed q then Some (q\<lparr>bq_pass := Selecting\<rparr>)
          else Some (q\<lparr>bq_notified := insert b (bq_notified q), bq_pass := Unlocked\<rparr>)
      | _ \<Rightarrow> None)"

fun build_steps :: "build_event list \<Rightarrow> build_queue \<Rightarrow> build_queue option" where
  "build_steps [] q = Some q"
| "build_steps (e # es) q = (case build_step e q of None \<Rightarrow> None | Some q' \<Rightarrow> build_steps es q')"

inductive build_reachable :: "build_queue \<Rightarrow> bool" where
  initial: "build_reachable empty_queue"
| step: "build_reachable q \<Longrightarrow> build_step e q = Some q' \<Longrightarrow> build_reachable q'"

lemma build_steps_reachable: "build_steps es q = Some q' \<Longrightarrow> build_reachable q \<Longrightarrow> build_reachable q'"
  by (induction es arbitrary: q) (auto split: option.splits intro: build_reachable.step)

section \<open>Popping\<close>

lemma waiting_next_cases:
  obtains (environment) build rest where
      "filter (\<lambda>b. b \<notin> closed) (bw_environments w) = build # rest"
      "filter (\<lambda>b. b \<notin> closed) (bw_previews w) = [] \<or> bw_overtaken w < ENVIRONMENT_BURST"
      "waiting_next closed w = (Some build, w\<lparr>bw_environments := rest,
         bw_previews := filter (\<lambda>b. b \<notin> closed) (bw_previews w),
         bw_overtaken := (if filter (\<lambda>b. b \<notin> closed) (bw_previews w) = [] then bw_overtaken w else bw_overtaken w + 1)\<rparr>)"
  | (preview) build rest where
      "filter (\<lambda>b. b \<notin> closed) (bw_previews w) = build # rest"
      "filter (\<lambda>b. b \<notin> closed) (bw_environments w) = [] \<or> ENVIRONMENT_BURST \<le> bw_overtaken w"
      "waiting_next closed w = (Some build, w\<lparr>bw_environments := filter (\<lambda>b. b \<notin> closed) (bw_environments w),
         bw_previews := rest, bw_overtaken := 0\<rparr>)"
  | (nothing) "filter (\<lambda>b. b \<notin> closed) (bw_previews w) = []" "filter (\<lambda>b. b \<notin> closed) (bw_environments w) = []"
      "waiting_next closed w = (None, w\<lparr>bw_environments := [], bw_previews := [], bw_overtaken := 0\<rparr>)"
  by (cases "filter (\<lambda>b. b \<notin> closed) (bw_previews w)"; cases "filter (\<lambda>b. b \<notin> closed) (bw_environments w)";
      cases "bw_overtaken w < ENVIRONMENT_BURST") (auto simp: waiting_next_def Let_def)

lemma filter_eq_ConsD: "filter P xs = x # ys \<Longrightarrow> x \<in> set xs \<and> P x \<and> set ys \<subseteq> set xs \<and> (distinct xs \<longrightarrow> distinct (x # ys))"
proof -
  assume h: "filter P xs = x # ys"
  then have "set (x # ys) = {b \<in> set xs. P b}" by (metis set_filter)
  moreover have "distinct xs \<Longrightarrow> distinct (x # ys)" by (metis h distinct_filter)
  ultimately show ?thesis by auto
qed

lemma waiting_next_other [simp]:
  fixes q :: build_queue
  shows "bq_next (snd (waiting_next closed q)) = bq_next q"
    "bq_closed (snd (waiting_next closed q)) = bq_closed q"
    "bq_notified (snd (waiting_next closed q)) = bq_notified q"
    "bq_turns (snd (waiting_next closed q)) = bq_turns q"
    "bq_passes (snd (waiting_next closed q)) = bq_passes q"
    "bw_running (snd (waiting_next closed q)) = bw_running q"
  by (simp_all add: waiting_next_def Let_def split: list.split bool.split)

lemma waiting_next_sets:
  "set (bw_environments (snd (waiting_next closed w))) \<subseteq> set (bw_environments w)"
  "set (bw_previews (snd (waiting_next closed w))) \<subseteq> set (bw_previews w)"
proof -
  have "set (bw_environments (snd (waiting_next closed w))) \<subseteq> set (bw_environments w)
    \<and> set (bw_previews (snd (waiting_next closed w))) \<subseteq> set (bw_previews w)"
  proof (cases rule: waiting_next_cases [of closed w])
    case (environment build rest)
    with filter_eq_ConsD [OF environment(1)] show ?thesis by simp
  next
    case (preview build rest)
    with filter_eq_ConsD [OF preview(1)] show ?thesis by simp
  qed simp
  then show "set (bw_environments (snd (waiting_next closed w))) \<subseteq> set (bw_environments w)"
    "set (bw_previews (snd (waiting_next closed w))) \<subseteq> set (bw_previews w)" by simp_all
qed

lemma waiting_next_distinct:
  assumes "distinct (bw_environments w @ bw_previews w)"
  shows "distinct (bw_environments (snd (waiting_next closed w)) @ bw_previews (snd (waiting_next closed w)))"
proof (cases rule: waiting_next_cases [of closed w])
  case (environment build rest)
  with filter_eq_ConsD [OF environment(1)] assms show ?thesis by auto
next
  case (preview build rest)
  with filter_eq_ConsD [OF preview(1)] assms show ?thesis by auto
qed simp

lemma waiting_next_Some:
  assumes "fst (waiting_next closed w) = Some b" and "distinct (bw_environments w @ bw_previews w)"
  shows "b \<in> set (bw_environments w) \<union> set (bw_previews w)" "b \<notin> closed"
    "b \<notin> set (bw_environments (snd (waiting_next closed w)))" "b \<notin> set (bw_previews (snd (waiting_next closed w)))"
proof -
  have "b \<in> set (bw_environments w) \<union> set (bw_previews w) \<and> b \<notin> closed
    \<and> b \<notin> set (bw_environments (snd (waiting_next closed w))) \<and> b \<notin> set (bw_previews (snd (waiting_next closed w)))"
  proof (cases rule: waiting_next_cases [of closed w])
    case (environment build rest)
    with filter_eq_ConsD [OF environment(1)] assms show ?thesis by (simp add: disjoint_iff)
  next
    case (preview build rest)
    with filter_eq_ConsD [OF preview(1)] assms show ?thesis by (simp add: disjoint_iff) blast
  next
    case nothing
    with assms(1) show ?thesis by simp
  qed
  then show "b \<in> set (bw_environments w) \<union> set (bw_previews w)" "b \<notin> closed"
    "b \<notin> set (bw_environments (snd (waiting_next closed w)))" "b \<notin> set (bw_previews (snd (waiting_next closed w)))"
    by simp_all
qed

section \<open>Invariant\<close>

definition build_tokens :: "build_queue \<Rightarrow> nat" where
  "build_tokens q = card (bq_turns q) + card (bq_notified q) + bq_passes q + of_bool (bq_pass q \<noteq> Unlocked)"

text \<open>The builds the queue still knows are distinct, and each has one role.\<close>

definition build_roles :: "build_queue \<Rightarrow> bool" where
  "build_roles q \<longleftrightarrow> finite (bq_turns q) \<and> finite (bq_notified q)
     \<and> distinct (bw_environments q @ bw_previews q)
     \<and> (\<forall>b. awaited q b \<longrightarrow> b \<notin> bq_turns q \<and> b \<notin> bq_notified q)
     \<and> (\<forall>b. bq_pass q = Sending b \<longrightarrow> b \<notin> set (bw_environments q) \<and> b \<notin> set (bw_previews q))
     \<and> bq_turns q \<inter> bq_notified q = {} \<and> bq_closed q \<inter> bq_notified q = {}
     \<and> (\<forall>b. awaited q b \<or> b \<in> bq_turns q \<or> b \<in> bq_notified q \<or> b \<in> bq_closed q \<longrightarrow> b < bq_next q)"

definition build_invariant :: "build_queue \<Rightarrow> bool" where
  "build_invariant q \<longleftrightarrow> build_roles q \<and> build_tokens q = of_bool (bw_running q)
     \<and> (\<not> bw_running q \<longrightarrow> bw_environments q = [] \<and> bw_previews q = [])
     \<and> bw_overtaken q \<le> ENVIRONMENT_BURST"

lemma select_cases:
  assumes "build_step Select q = Some q'"
  obtains (picked) build where "bq_pass q = Selecting" "fst (waiting_next (bq_closed q) q) = Some build"
      "q' = (snd (waiting_next (bq_closed q) q))\<lparr>bq_pass := Sending build\<rparr>"
  | (idle) "bq_pass q = Selecting" "fst (waiting_next (bq_closed q) q) = None"
      "q' = (snd (waiting_next (bq_closed q) q))\<lparr>bw_running := False, bq_pass := Unlocked\<rparr>"
  using assms by (auto split: if_splits option.splits prod.splits)

lemma roles_step: "build_roles q \<Longrightarrow> build_step e q = Some q' \<Longrightarrow> build_roles q'"
proof (cases e)
  case (Ask priority)
  assume "build_roles q" "build_step e q = Some q'"
  with Ask show ?thesis
    by (cases priority; cases "bw_running q") (auto simp: build_roles_def awaited_def less_Suc_eq split: if_splits)
next
  case Select
  assume r: "build_roles q" and "build_step e q = Some q'"
  with Select have "build_step Select q = Some q'" by simp
  then show ?thesis
  proof (cases rule: select_cases)
    case (picked build)
    have d: "distinct (bw_environments q @ bw_previews q)" using r by (simp add: build_roles_def)
    have b: "awaited q build" using waiting_next_Some(1) [OF picked(2) d] by (auto simp: awaited_def)
    have "awaited q' b \<Longrightarrow> awaited q b" for b
      using b waiting_next_sets [of "bq_closed q" q] by (auto simp: picked(3) awaited_def)
    then show ?thesis
      using r waiting_next_distinct [OF d, of "bq_closed q"] waiting_next_Some(3,4) [OF picked(2) d]
      by (simp add: build_roles_def picked(3))
  next
    case idle
    have d: "distinct (bw_environments q @ bw_previews q)" using r by (simp add: build_roles_def)
    have "awaited q' b \<Longrightarrow> awaited q b" for b
      using waiting_next_sets [of "bq_closed q" q] by (auto simp: idle(3) awaited_def)
    then show ?thesis
      using r waiting_next_distinct [OF d, of "bq_closed q"] by (simp add: build_roles_def idle(3))
  qed
qed (auto simp: build_roles_def awaited_def split: if_splits pass_state.splits)

lemma invariant_step: "build_invariant q \<Longrightarrow> build_step e q = Some q' \<Longrightarrow> build_invariant q'"
proof -
  assume inv: "build_invariant q" and step: "build_step e q = Some q'"
  then have r: "build_roles q" and r': "build_roles q'" using roles_step by (auto simp: build_invariant_def)
  have f: "finite (bq_turns q)" "finite (bq_notified q)" "bq_turns q \<inter> bq_notified q = {}"
    using r by (auto simp: build_roles_def)
  have fresh: "bq_next q \<notin> bq_turns q" using r by (fastforce simp: build_roles_def)
  have t: "build_tokens q = of_bool (bw_running q)"
    and w: "\<not> bw_running q \<Longrightarrow> bw_environments q = [] \<and> bw_previews q = []"
    and o: "bw_overtaken q \<le> ENVIRONMENT_BURST" using inv by (auto simp: build_invariant_def)
  show ?thesis
  proof (cases e)
    case (Ask priority)
    with step t w o r' f fresh show ?thesis
      by (cases priority) (auto simp: build_invariant_def build_tokens_def split: if_splits)
  next
    case (Wake b)
    with step have b: "b \<in> bq_notified q" "b \<notin> bq_turns q"
      and q': "q' = q\<lparr>bq_notified := bq_notified q - {b}, bq_turns := insert b (bq_turns q)\<rparr>"
      using f(3) by (auto split: if_splits)
    have "0 < card (bq_notified q)" using b f by (auto simp: card_gt_0_iff)
    then have "build_tokens q' = build_tokens q" using b f by (simp add: build_tokens_def q')
    with t w o r' show ?thesis by (simp add: build_invariant_def q')
  next
    case (Cancel b)
    show ?thesis
    proof (cases "b \<in> bq_notified q")
      case True
      then have "0 < card (bq_notified q)" using f by (auto simp: card_gt_0_iff)
      with Cancel True step f have "build_tokens q' = build_tokens q" by (auto simp: build_tokens_def)
      with Cancel True step t w o r' show ?thesis by (auto simp: build_invariant_def)
    next
      case False
      with Cancel step have q': "q' = q\<lparr>bq_closed := insert b (bq_closed q)\<rparr>" by (auto split: if_splits)
      then have "build_tokens q' = build_tokens q" by (simp add: build_tokens_def)
      with t w o r' show ?thesis by (simp add: build_invariant_def q')
    qed
  next
    case (Drop_Turn b)
    with step have b: "b \<in> bq_turns q" and q': "q' = q\<lparr>bq_turns := bq_turns q - {b}, bq_passes := bq_passes q + 1\<rparr>"
      by (auto split: if_splits)
    have "0 < card (bq_turns q)" using b f by (auto simp: card_gt_0_iff)
    then have "build_tokens q' = build_tokens q" using b f by (simp add: build_tokens_def q')
    with t w o r' show ?thesis by (simp add: build_invariant_def q')
  next
    case Lock
    with step have l: "bq_pass q = Unlocked" "0 < bq_passes q"
      and q': "q' = q\<lparr>bq_passes := bq_passes q - 1, bq_pass := Selecting\<rparr>"
      by (auto split: if_splits)
    have "build_tokens q' = build_tokens q" using l by (simp add: build_tokens_def q')
    with t w o r' show ?thesis by (simp add: build_invariant_def q')
  next
    case Select
    from step [unfolded Select] show ?thesis
    proof (cases rule: select_cases)
      case (picked build)
      have "bw_running q" using picked(1) t by (cases "bw_running q") (auto simp: build_tokens_def)
      moreover have "bw_overtaken q' \<le> ENVIRONMENT_BURST"
        by (cases rule: waiting_next_cases [of "bq_closed q" q]) (use picked o in auto)
      ultimately show ?thesis using picked t r' by (simp add: build_invariant_def build_tokens_def)
    next
      case idle
      have "bw_environments q' = [] \<and> bw_previews q' = [] \<and> bw_overtaken q' \<le> ENVIRONMENT_BURST"
        by (cases rule: waiting_next_cases [of "bq_closed q" q]) (use idle in auto)
      moreover have "build_tokens q' = 0" using idle t by (cases "bw_running q") (auto simp: build_tokens_def)
      ultimately show ?thesis using idle(3) r' by (simp add: build_invariant_def)
    qed
  next
    case Send
    then obtain b where b: "bq_pass q = Sending b" using step by (auto split: pass_state.splits)
    then have "b \<notin> bq_notified q" using r by (auto simp: build_roles_def awaited_def)
    with Send b step t w o r' f show ?thesis
      by (auto simp: build_invariant_def build_tokens_def split: if_splits)
  qed
qed

lemma reachable_invariant: "build_reachable q \<Longrightarrow> build_invariant q"
proof (induction rule: build_reachable.induct)
  case initial
  show ?case by (simp add: build_invariant_def build_roles_def build_tokens_def awaited_def empty_queue_def ENVIRONMENT_BURST_def)
qed (rule invariant_step)

section \<open>Waiting\<close>

fun position_of :: "nat \<Rightarrow> nat list \<Rightarrow> nat" where
  "position_of b [] = 0"
| "position_of b (x # xs) = (if x = b then 0 else position_of b xs + 1)"

lemma position_of_filter: "P b \<Longrightarrow> position_of b (filter P xs) \<le> position_of b xs"
  by (induction xs) auto

lemma position_of_append [simp]: "b \<in> set xs \<Longrightarrow> position_of b (xs @ ys) = position_of b xs"
  by (induction xs) auto

text \<open>How many hand-overs to other builds a waiting build can still see.\<close>

definition preview_rank :: "build_queue \<Rightarrow> nat \<Rightarrow> nat" where
  "preview_rank q b = 4 * position_of b (bw_previews q) + 3 - bw_overtaken q"

definition environment_rank :: "build_queue \<Rightarrow> nat \<Rightarrow> nat" where
  "environment_rank q b = 2 * position_of b (bw_environments q) + of_bool (bw_overtaken q = ENVIRONMENT_BURST)"

definition handovers :: "build_event list \<Rightarrow> nat" where
  "handovers es = length (filter (\<lambda>e. e = Select) es)"

lemma waiting_preview_back:
  assumes "build_step e q = Some q'" and "b \<in> set (bw_previews q')" and "b < bq_next q"
  shows "b \<in> set (bw_previews q)"
proof (cases e)
  case Select
  from assms(1) [unfolded Select] show ?thesis
    by (cases rule: select_cases) (use assms(2) waiting_next_sets(2) [of "bq_closed q" q] in auto)
qed (use assms in \<open>auto split: if_splits build_priority.splits pass_state.splits\<close>)

lemma waiting_environment_back:
  assumes "build_step e q = Some q'" and "b \<in> set (bw_environments q')" and "b < bq_next q"
  shows "b \<in> set (bw_environments q)"
proof (cases e)
  case Select
  from assms(1) [unfolded Select] show ?thesis
    by (cases rule: select_cases) (use assms(2) waiting_next_sets(1) [of "bq_closed q" q] in auto)
qed (use assms in \<open>auto split: if_splits build_priority.splits pass_state.splits\<close>)

lemma build_next_mono: "build_step e q = Some q' \<Longrightarrow> bq_next q \<le> bq_next q'"
  by (cases "e = Select", simp only:, erule select_cases)
    (cases e; auto split: if_splits build_priority.splits pass_state.splits)+

lemma preview_rank_step:
  assumes inv: "build_invariant q" and step: "build_step e q = Some q'"
    and b: "b \<in> set (bw_previews q)" "b \<in> set (bw_previews q')"
  shows "preview_rank q' b + of_bool (e = Select) \<le> preview_rank q b"
proof (cases e)
  case Select
  have o: "bw_overtaken q \<le> 3" using inv by (simp add: build_invariant_def ENVIRONMENT_BURST_def)
  from step [unfolded Select] show ?thesis
  proof (cases rule: select_cases)
    case (picked build)
    show ?thesis
    proof (cases rule: waiting_next_cases [of "bq_closed q" q])
      case (environment env rest)
      have p: "b \<in> set (filter (\<lambda>b. b \<notin> bq_closed q) (bw_previews q))"
        using b(2) environment(3) picked(3) by simp
      then have "bw_overtaken q < 3" using environment(2) by (auto simp: ENVIRONMENT_BURST_def filter_empty_conv)
      moreover have "position_of b (bw_previews q') \<le> position_of b (bw_previews q)"
        using p environment(3) picked(3) by (simp add: position_of_filter)
      moreover have "bw_overtaken q' = bw_overtaken q + 1"
        using p environment(3) picked(3) by (auto simp: filter_empty_conv)
      ultimately show ?thesis using Select by (simp add: preview_rank_def)
    next
      case (preview other rest)
      have "b \<in> set rest" using b(2) preview(3) picked(3) by simp
      then have kept: "b \<in> set (filter (\<lambda>b. b \<notin> bq_closed q) (bw_previews q))" unfolding preview(1) by simp
      have "distinct (other # rest)" using inv filter_eq_ConsD [OF preview(1)]
        by (simp add: build_invariant_def build_roles_def)
      then have "position_of b rest + 1 = position_of b (filter (\<lambda>b. b \<notin> bq_closed q) (bw_previews q))"
        using preview(1) \<open>b \<in> set rest\<close> by auto
      also have "\<dots> \<le> position_of b (bw_previews q)"
        using filter_eq_ConsD [OF preview(1)] kept by (intro position_of_filter) simp
      finally show ?thesis using Select preview(3) picked(3) o by (simp add: preview_rank_def)
    next
      case nothing
      with picked show ?thesis by simp
    qed
  next
    case idle
    show ?thesis by (cases rule: waiting_next_cases [of "bq_closed q" q]) (use idle b(2) in auto)
  qed
qed (use step b in \<open>auto simp: preview_rank_def split: if_splits build_priority.splits pass_state.splits\<close>)

lemma environment_rank_step:
  assumes inv: "build_invariant q" and step: "build_step e q = Some q'"
    and b: "b \<in> set (bw_environments q)" "b \<in> set (bw_environments q')"
  shows "environment_rank q' b + of_bool (e = Select) \<le> environment_rank q b"
proof (cases e)
  case Select
  have o: "bw_overtaken q \<le> ENVIRONMENT_BURST" using inv by (simp add: build_invariant_def)
  from step [unfolded Select] show ?thesis
  proof (cases rule: select_cases)
    case (picked build)
    show ?thesis
    proof (cases rule: waiting_next_cases [of "bq_closed q" q])
      case (environment env rest)
      have "b \<in> set rest" using b(2) environment(3) picked(3) by simp
      then have kept: "b \<in> set (filter (\<lambda>b. b \<notin> bq_closed q) (bw_environments q))" unfolding environment(1) by simp
      have "distinct (env # rest)" using inv filter_eq_ConsD [OF environment(1)]
        by (simp add: build_invariant_def build_roles_def)
      then have "position_of b rest + 1 = position_of b (filter (\<lambda>b. b \<notin> bq_closed q) (bw_environments q))"
        using environment(1) \<open>b \<in> set rest\<close> by auto
      also have "\<dots> \<le> position_of b (bw_environments q)"
        using filter_eq_ConsD [OF environment(1)] kept by (intro position_of_filter) simp
      finally show ?thesis using Select environment(3) picked(3) by (simp add: environment_rank_def)
    next
      case (preview other rest)
      have p: "b \<in> set (filter (\<lambda>b. b \<notin> bq_closed q) (bw_environments q))"
        using b(2) preview(3) picked(3) by simp
      then have "bw_overtaken q = ENVIRONMENT_BURST" using preview(2) o by (auto simp: filter_empty_conv)
      moreover have "position_of b (bw_environments q') \<le> position_of b (bw_environments q)"
        using p preview(3) picked(3) by (simp add: position_of_filter)
      moreover have "bw_overtaken q' = 0" using preview(3) picked(3) by simp
      ultimately show ?thesis using Select by (simp add: environment_rank_def ENVIRONMENT_BURST_def)
    next
      case nothing
      with picked show ?thesis by simp
    qed
  next
    case idle
    show ?thesis by (cases rule: waiting_next_cases [of "bq_closed q" q]) (use idle b(2) in auto)
  qed
qed (use step b in \<open>auto simp: environment_rank_def split: if_splits build_priority.splits pass_state.splits\<close>)

lemma handovers_Cons [simp]: "handovers (e # es) = of_bool (e = Select) + handovers es"
  by (simp add: handovers_def)

lemma handovers_Nil [simp]: "handovers [] = 0" by (simp add: handovers_def)

lemma waiting_steps:
  "build_steps es q = Some q' \<Longrightarrow> b < bq_next q \<Longrightarrow>
     (b \<in> set (bw_previews q') \<longrightarrow> b \<in> set (bw_previews q))
     \<and> (b \<in> set (bw_environments q') \<longrightarrow> b \<in> set (bw_environments q))"
proof (induction es arbitrary: q)
  case (Cons e es)
  then obtain q1 where q1: "build_step e q = Some q1" "build_steps es q1 = Some q'" by (auto split: option.splits)
  have "b < bq_next q1" using build_next_mono [OF q1(1)] Cons.prems(2) by simp
  from Cons.IH [OF q1(2) this] waiting_preview_back [OF q1(1)] waiting_environment_back [OF q1(1)] Cons.prems(2)
  show ?case by blast
qed simp

lemma preview_rank_steps:
  "build_steps es q = Some q' \<Longrightarrow> build_invariant q \<Longrightarrow> b < bq_next q \<Longrightarrow> b \<in> set (bw_previews q') \<Longrightarrow>
     preview_rank q' b + handovers es \<le> preview_rank q b"
proof (induction es arbitrary: q)
  case (Cons e es)
  then obtain q1 where q1: "build_step e q = Some q1" "build_steps es q1 = Some q'" by (auto split: option.splits)
  have n: "b < bq_next q1" using build_next_mono [OF q1(1)] Cons.prems(3) by simp
  have w: "b \<in> set (bw_previews q1)" using waiting_steps [OF q1(2) n] Cons.prems(4) by blast
  with waiting_preview_back [OF q1(1)] Cons.prems(3) have "b \<in> set (bw_previews q)" by blast
  from preview_rank_step [OF Cons.prems(2) q1(1) this w]
    Cons.IH [OF q1(2) invariant_step [OF Cons.prems(2) q1(1)] n Cons.prems(4)]
  show ?case by simp
qed simp

lemma environment_rank_steps:
  "build_steps es q = Some q' \<Longrightarrow> build_invariant q \<Longrightarrow> b < bq_next q \<Longrightarrow> b \<in> set (bw_environments q') \<Longrightarrow>
     environment_rank q' b + handovers es \<le> environment_rank q b"
proof (induction es arbitrary: q)
  case (Cons e es)
  then obtain q1 where q1: "build_step e q = Some q1" "build_steps es q1 = Some q'" by (auto split: option.splits)
  have n: "b < bq_next q1" using build_next_mono [OF q1(1)] Cons.prems(3) by simp
  have w: "b \<in> set (bw_environments q1)" using waiting_steps [OF q1(2) n] Cons.prems(4) by blast
  with waiting_environment_back [OF q1(1)] Cons.prems(3) have "b \<in> set (bw_environments q)" by blast
  from environment_rank_step [OF Cons.prems(2) q1(1) this w]
    Cons.IH [OF q1(2) invariant_step [OF Cons.prems(2) q1(1)] n Cons.prems(4)]
  show ?case by simp
qed simp

text \<open>The steps that wait for no one outside the queue but the running build.\<close>

definition serving :: "build_event \<Rightarrow> bool" where
  "serving e \<longleftrightarrow> (case e of Ask _ \<Rightarrow> False | Cancel _ \<Rightarrow> False | _ \<Rightarrow> True)"

definition serving_work :: "build_queue \<Rightarrow> nat" where
  "serving_work q = 6 * (length (bw_environments q) + length (bw_previews q))
     + 4 * card (bq_turns q) + 5 * card (bq_notified q) + 3 * bq_passes q
     + (case bq_pass q of Unlocked \<Rightarrow> 0 | Selecting \<Rightarrow> 2 | Sending _ \<Rightarrow> 6)"

lemma waiting_next_length:
  "length (bw_environments (snd (waiting_next closed w))) + length (bw_previews (snd (waiting_next closed w)))
     + of_bool (fst (waiting_next closed w) \<noteq> None)
     \<le> length (bw_environments w) + length (bw_previews w)"
proof -
  note len = length_filter_le [of "\<lambda>b. b \<notin> closed" "bw_environments w"] length_filter_le [of "\<lambda>b. b \<notin> closed" "bw_previews w"]
  show ?thesis
  proof (cases rule: waiting_next_cases [of closed w])
    case (environment build rest)
    with len(1) have "Suc (length rest) \<le> length (bw_environments w)" by simp
    from add_mono [OF this len(2)] environment(3) show ?thesis by simp
  next
    case (preview build rest)
    with len(2) have "Suc (length rest) \<le> length (bw_previews w)" by simp
    from add_mono [OF len(1) this] preview(3) show ?thesis by simp
  qed simp
qed

lemma serving_work_step:
  assumes inv: "build_invariant q" and step: "build_step e q = Some q'" and serving: "serving e"
  shows "serving_work q' < serving_work q"
proof -
  have f: "finite (bq_turns q)" "finite (bq_notified q)" "bq_turns q \<inter> bq_notified q = {}"
    using inv by (auto simp: build_invariant_def build_roles_def)
  show ?thesis
  proof (cases e)
    case Select
    note len = waiting_next_length [of "bq_closed q" q]
    from step [unfolded Select] show ?thesis
      by (cases rule: select_cases) (use len in \<open>auto simp: serving_work_def\<close>)
  next
    case (Wake b)
    with step f have "0 < card (bq_notified q)" "b \<notin> bq_turns q" by (auto simp: card_gt_0_iff split: if_splits)
    with Wake step f show ?thesis by (auto simp: serving_work_def split: if_splits)
  next
    case (Drop_Turn b)
    with step f have "0 < card (bq_turns q)" by (auto simp: card_gt_0_iff split: if_splits)
    with Drop_Turn step f show ?thesis by (auto simp: serving_work_def split: if_splits)
  next
    case Send
    then obtain b where b: "bq_pass q = Sending b" using step by (auto split: pass_state.splits)
    then have "b \<notin> bq_notified q" using inv by (auto simp: build_invariant_def build_roles_def awaited_def)
    with Send b step f show ?thesis by (auto simp: serving_work_def split: if_splits)
  qed (use step serving in \<open>auto simp: serving_work_def serving_def split: if_splits\<close>)
qed

lemma serving_work_bound:
  assumes "build_invariant q"
  shows "serving_work q \<le> 6 * (length (bw_environments q) + length (bw_previews q)) + 6"
proof -
  have "build_tokens q \<le> 1" using assms by (cases "bw_running q") (auto simp: build_invariant_def)
  then show ?thesis by (cases "bq_pass q") (auto simp: serving_work_def build_tokens_def)
qed

lemma serving_enabled:
  assumes "build_reachable q" and "bw_environments q \<noteq> [] \<or> bw_previews q \<noteq> []"
  shows "\<exists>e. build_step e q \<noteq> None \<and> serving e"
proof -
  have i: "build_invariant q" by (rule reachable_invariant [OF assms(1)])
  then have t: "build_tokens q = 1" and f: "finite (bq_turns q)" "finite (bq_notified q)"
    using assms(2) by (cases "bw_running q"; auto simp: build_invariant_def build_roles_def)+
  consider (turn) b where "b \<in> bq_turns q" | (notified) b where "b \<in> bq_notified q"
    | (lock) "bq_pass q = Unlocked" "0 < bq_passes q" | (inside) "bq_pass q \<noteq> Unlocked"
    using t f by (cases "bq_pass q = Unlocked"; cases "bq_passes q = 0"; cases "bq_turns q = {}"; cases "bq_notified q = {}")
      (auto simp: build_tokens_def)
  then show ?thesis
  proof cases
    case turn
    then show ?thesis by (intro exI [of _ "Drop_Turn b"]) (simp add: serving_def)
  next
    case notified
    then show ?thesis by (intro exI [of _ "Wake b"]) (simp add: serving_def)
  next
    case lock
    then show ?thesis by (intro exI [of _ Lock]) (simp add: serving_def)
  next
    case inside
    show ?thesis
    proof (cases "bq_pass q")
      case Selecting
      then show ?thesis by (intro exI [of _ Select]) (simp add: serving_def split: option.split prod.split)
    next
      case (Sending b)
      then show ?thesis by (intro exI [of _ Send]) (simp add: serving_def)
    qed (use inside in simp)
  qed
qed

definition asks :: "build_event list \<Rightarrow> nat" where
  "asks es = length (filter (\<lambda>e. case e of Ask _ \<Rightarrow> True | _ \<Rightarrow> False) es)"

lemma asks_simps [simp]: "asks [] = 0" "asks (e # es) = of_bool (case e of Ask _ \<Rightarrow> True | _ \<Rightarrow> False) + asks es"
  by (simp_all add: asks_def)

lemma other_work_step:
  assumes inv: "build_invariant q" and step: "build_step e q = Some q'" and other: "\<not> serving e"
  shows "serving_work q' \<le> serving_work q + 6 * asks [e]"
proof -
  have f: "finite (bq_turns q)" "finite (bq_notified q)"
    using inv by (auto simp: build_invariant_def build_roles_def)
  show ?thesis
  proof (cases e)
    case (Ask priority)
    have "card (insert (bq_next q) (bq_turns q)) \<le> card (bq_turns q) + 1" using f by (simp add: card_insert_if)
    with Ask step show ?thesis
      by (auto simp: serving_work_def split: if_splits build_priority.splits)
  next
    case (Cancel b)
    show ?thesis
    proof (cases "b \<in> bq_notified q")
      case True
      with f have "card (bq_notified q - {b}) < card (bq_notified q)" by (intro psubset_card_mono) auto
      with True Cancel step show ?thesis by (auto simp: serving_work_def)
    next
      case False
      with Cancel step show ?thesis by (auto simp: serving_work_def split: if_splits)
    qed
  qed (use other in \<open>simp_all add: serving_def\<close>)
qed

lemma steps_work:
  "build_steps es q = Some q' \<Longrightarrow> build_invariant q \<Longrightarrow>
     length (filter serving es) + serving_work q' \<le> serving_work q + 6 * asks es"
proof (induction es arbitrary: q)
  case (Cons e es)
  then obtain q1 where q1: "build_step e q = Some q1" "build_steps es q1 = Some q'" by (auto split: option.splits)
  have ih: "length (filter serving es) + serving_work q' \<le> serving_work q1 + 6 * asks es"
    by (rule Cons.IH [OF q1(2) invariant_step [OF Cons.prems(2) q1(1)]])
  show ?case
  proof (cases "serving e")
    case True
    with serving_work_step [OF Cons.prems(2) q1(1) True] ih show ?thesis by simp
  next
    case False
    with other_work_step [OF Cons.prems(2) q1(1) False] ih show ?thesis by simp
  qed
qed simp

text \<open>A build that will get its turn: it waits or is sent its turn with its receiver open, or it was
  notified and has not woken.\<close>

definition in_line :: "build_queue \<Rightarrow> nat \<Rightarrow> bool" where
  "in_line q b \<longleftrightarrow> awaited q b \<and> b \<notin> bq_closed q \<or> b \<in> bq_notified q"

lemma waiting_next_keeps:
  assumes "b \<in> set (bw_environments w) \<union> set (bw_previews w)" and "b \<notin> closed"
  shows "fst (waiting_next closed w) = Some b \<or> b \<in> set (bw_environments (snd (waiting_next closed w)))
    \<or> b \<in> set (bw_previews (snd (waiting_next closed w)))"
proof -
  have live: "b \<in> set (filter (\<lambda>b. b \<notin> closed) (bw_environments w)) \<union> set (filter (\<lambda>b. b \<notin> closed) (bw_previews w))"
    using assms by simp
  show ?thesis
    by (cases rule: waiting_next_cases [of closed w]) (use live in \<open>force simp del: set_filter\<close>)+
qed

lemma in_line_step:
  assumes step: "build_step e q = Some q'" and b: "in_line q b" and "e \<noteq> Cancel b" and "e \<noteq> Wake b"
  shows "in_line q' b"
proof (cases e)
  case (Ask priority)
  with step b show ?thesis
    by (cases priority; cases "bw_running q") (auto simp: in_line_def awaited_def split: if_splits)
next
  case Select
  then have "build_step Select q = Some q'" using step by simp
  then show ?thesis
  proof (cases rule: select_cases)
    case (picked build)
    then show ?thesis
      using b waiting_next_keeps [of b q "bq_closed q"] by (auto simp: in_line_def awaited_def)
  next
    case idle
    show ?thesis
    proof (cases "b \<in> bq_notified q")
      case True
      with idle show ?thesis by (simp add: in_line_def)
    next
      case False
      with b idle have "b \<in> set (bw_environments q) \<union> set (bw_previews q)" "b \<notin> bq_closed q"
        by (auto simp: in_line_def awaited_def)
      with waiting_next_keeps [of b q "bq_closed q"] idle show ?thesis by (auto simp: in_line_def awaited_def)
    qed
  qed
qed (use assms in \<open>auto simp: in_line_def awaited_def split: if_splits pass_state.splits\<close>)

lemma in_line_steps:
  "build_steps es q = Some q' \<Longrightarrow> in_line q b \<Longrightarrow> Cancel b \<notin> set es \<Longrightarrow> Wake b \<notin> set es \<Longrightarrow> in_line q' b"
proof (induction es arbitrary: q)
  case (Cons e es)
  then obtain q1 where q1: "build_step e q = Some q1" "build_steps es q1 = Some q'" by (auto split: option.splits)
  have "in_line q1 b" using in_line_step [OF q1(1) Cons.prems(2)] Cons.prems(3,4) by auto
  with Cons.IH [OF q1(2)] Cons.prems(3,4) show ?case by simp
qed simp

lemma in_line_enabled:
  assumes "build_reachable q" and "in_line q b"
  shows "\<exists>e. build_step e q \<noteq> None \<and> serving e"
proof -
  consider (queued) "b \<in> set (bw_environments q) \<union> set (bw_previews q)" | (sending) "bq_pass q = Sending b"
    | (notified) "b \<in> bq_notified q"
    using assms(2) by (auto simp: in_line_def awaited_def)
  then show ?thesis
  proof cases
    case queued
    then show ?thesis by (intro serving_enabled [OF assms(1)]) auto
  next
    case sending
    then show ?thesis by (intro exI [of _ Send]) (simp add: serving_def)
  next
    case notified
    then show ?thesis by (intro exI [of _ "Wake b"]) (simp add: serving_def)
  qed
qed

section \<open>Builds\<close>

text \<open>C18: One build at a time, and the turn is never lost: while builds wait, exactly one of these
  holds it: a build, a build that was handed it and has not woken, or a call that passes it on;
  otherwise the queue is idle and the next build runs at once.\<close>

theorem one_build_at_a_time:
  assumes "build_reachable q"
  shows "card (bq_turns q) + card (bq_notified q) + bq_passes q + of_bool (bq_pass q \<noteq> Unlocked) = of_bool (bw_running q)
    \<and> card (bq_turns q) \<le> 1
    \<and> (if bw_running q then True else bw_environments q = [] \<and> bw_previews q = [])"
  using reachable_invariant [OF assms] by (cases "bw_running q") (auto simp: build_invariant_def build_tokens_def)

text \<open>C20: Nobody starves. From any moment on, as long as a build stays in its queue, at most
  \<open>4 * k + 3\<close> builds are picked before it if it is a preview build with \<open>k\<close> preview builds before it, and at most
  \<open>2 * k + 1\<close> if it is an environment build with \<open>k\<close> environment builds before it, whatever else arrives
  or is cancelled meanwhile.\<close>

theorem waiting_is_bounded:
  assumes "build_reachable q" and "build_steps es q = Some q'" and "b < bq_next q"
  shows "if b \<in> set (bw_previews q') then handovers es \<le> 4 * position_of b (bw_previews q) + 3
    else if b \<in> set (bw_environments q') then handovers es \<le> 2 * position_of b (bw_environments q) + 1 else True"
proof -
  note inv = reachable_invariant [OF assms(1)]
  have "handovers es \<le> 4 * position_of b (bw_previews q) + 3" if "b \<in> set (bw_previews q')"
    using preview_rank_steps [OF assms(2) inv assms(3) that] by (simp add: preview_rank_def)
  moreover have "handovers es \<le> 2 * position_of b (bw_environments q) + 1" if "b \<in> set (bw_environments q')"
    using environment_rank_steps [OF assms(2) inv assms(3) that]
    by (cases "bw_overtaken q = ENVIRONMENT_BURST") (simp_all add: environment_rank_def)
  ultimately show ?thesis by simp
qed

text \<open>C21: Every build gets its turn. Take a build that waits, with its receiver open, and any run in
  which it is not cancelled, whatever else arrives or is cancelled. Either the build woke with its turn
  during the run, or it is still in line (waiting or being sent its turn with its receiver open, or
  notified), and then a step of the queue or of the running build can be taken. Such a run has at most
  six of these steps per build that waited at its start, six per build that arrived, and six more: so
  once no new builds arrive, a run that goes on as long as it can wakes the build.\<close>

theorem builds_get_their_turn:
  assumes "build_reachable q" and "build_steps es q = Some q'"
    and "b \<in> set (bw_environments q) \<union> set (bw_previews q)" and "b \<notin> bq_closed q" and "Cancel b \<notin> set es"
  shows "(Wake b \<in> set es
      \<or> (b \<in> set (bw_environments q') \<union> set (bw_previews q') \<or> bq_pass q' = Sending b) \<and> b \<notin> bq_closed q'
      \<or> b \<in> bq_notified q')
    \<and> (Wake b \<in> set es \<or> (\<exists>e. build_step e q' \<noteq> None \<and> serving e))
    \<and> length (filter serving es) \<le> 6 * (length (bw_environments q) + length (bw_previews q)) + 6 * asks es + 6"
proof -
  note inv = reachable_invariant [OF assms(1)]
  have "in_line q b" using assms(3,4) by (auto simp: in_line_def awaited_def)
  then have line: "Wake b \<in> set es \<or> in_line q' b" using in_line_steps [OF assms(2)] assms(5) by blast
  moreover have "length (filter serving es) \<le> 6 * (length (bw_environments q) + length (bw_previews q)) + 6 * asks es + 6"
    using steps_work [OF assms(2) inv] serving_work_bound [OF inv] by simp
  moreover have "Wake b \<in> set es \<or> (\<exists>e. build_step e q' \<noteq> None \<and> serving e)"
    using line in_line_enabled [OF build_steps_reachable [OF assms(2,1)]] by blast
  ultimately show ?thesis by (auto simp: in_line_def awaited_def)
qed
section \<open>A preview build among environment builds\<close>

definition example_builds :: "build_event list" where
  "example_builds = [Ask Environment_Build, Ask Preview_Build, Ask Environment_Build]"

definition example_queue :: build_queue where
  "example_queue = (case build_steps example_builds empty_queue of Some q \<Rightarrow> q | None \<Rightarrow> empty_queue)"

definition example_turn :: "build_event list" where
  "example_turn = [Drop_Turn 0, Lock, Select, Send, Wake 2, Drop_Turn 2]"

definition later_queue :: build_queue where
  "later_queue = (case build_steps example_turn example_queue of Some q \<Rightarrow> q | None \<Rightarrow> empty_queue)"

lemma example_steps: "build_steps example_builds empty_queue = Some example_queue"
  "build_steps example_turn example_queue = Some later_queue" "1 < bq_next example_queue"
  "1 \<in> set (bw_environments example_queue) \<union> set (bw_previews example_queue)" "1 \<notin> bq_closed example_queue"
  "Cancel 1 \<notin> set example_turn"
  by code_simp+

lemma example_reachable: "build_reachable example_queue"
  using build_steps_reachable [OF example_steps(1) build_reachable.initial] .

lemma one_build_at_a_time_witness:
  "card (bq_turns example_queue) + card (bq_notified example_queue) + bq_passes example_queue
     + of_bool (bq_pass example_queue \<noteq> Unlocked) = (of_bool (bw_running example_queue) :: nat)
   \<and> card (bq_turns example_queue) \<le> 1 \<and> bw_previews example_queue = [1]"
  using one_build_at_a_time [OF example_reachable] by (simp, code_simp)

lemma waiting_is_bounded_witness:
  "if 1 \<in> set (bw_previews later_queue)
   then handovers example_turn \<le> 4 * position_of 1 (bw_previews example_queue) + 3
   else if 1 \<in> set (bw_environments later_queue)
   then handovers example_turn \<le> 2 * position_of 1 (bw_environments example_queue) + 1 else True"
  by (rule waiting_is_bounded [OF example_reachable example_steps(2,3)])

lemma builds_get_their_turn_witness:
  "(Wake 1 \<in> set example_turn
      \<or> (1 \<in> set (bw_environments later_queue) \<union> set (bw_previews later_queue) \<or> bq_pass later_queue = Sending 1)
        \<and> 1 \<notin> bq_closed later_queue
      \<or> 1 \<in> bq_notified later_queue)
    \<and> (Wake 1 \<in> set example_turn \<or> (\<exists>e. build_step e later_queue \<noteq> None \<and> serving e))
    \<and> length (filter serving example_turn)
      \<le> 6 * (length (bw_environments example_queue) + length (bw_previews example_queue)) + 6 * asks example_turn + 6"
  by (rule builds_get_their_turn [OF example_reachable example_steps(2,4,5,6)])
end
