(* ===== verification/Diagnostics.thy ===== *)
theory Diagnostics
  imports Prelude
begin

text \<open>
  Failure classifications and their policy:
  \<open>crates/piqueld-core/src/observability/diagnostic.rs\<close>. The generated \<open>as_str\<close> and \<open>parse\<close> of
  \<open>string_enum!\<close> are written out.
\<close>

datatype event_scope = Scope_Application | Scope_Daemon

datatype diagnostic_code =
    D_Docker_Unavailable
  | D_Swarm_Manager_Unavailable
  | D_Swarm_Topology_Unsupported
  | D_Journal_Unavailable
  | D_Storage_Unavailable
  | D_Stored_State_Corrupt
  | D_Schema_Mismatch
  | D_Internal_Error
  | D_Application_Compilation_Failed
  | D_Image_Resolution_Failed
  | D_Image_Resolution_Rejected
  | D_Image_Unavailable
  | D_Docker_Request_Failed
  | D_Convergence_Timeout
  | D_Preparation_Timeout
  | D_Git_Build_Failed
  | D_Service_Update_Failed
  | D_Job_Failed
  | D_Job_Timeout
  | D_Ownership_Conflict
  | D_Docker_Configuration_Conflict
  | D_Manifest_Not_Found
  | D_Manifest_Invalid
  | D_Manifest_Fetch_Failed
  | D_Manifest_Serialization_Failed
  | D_Secret_Storage_Unavailable
  | D_Secret_Unavailable
  | D_Secret_Missing
  | D_Secret_Access_Denied
  | D_Environment_Promoted
  | D_Validation_Failed
  | D_Plan_Blocked
  | D_Cancelled
  | D_Superseded
  | D_Service_Degraded
  | D_Hostname_Conflict
  | D_Ingress_Unavailable
  | D_Certificate_Renewal_Failed
  | D_Dns_Records_Failed
  | D_Telemetry_Export_Failed

fun diagnostic_as_str :: "diagnostic_code \<Rightarrow> string" where
  "diagnostic_as_str D_Docker_Unavailable = ''docker_unavailable''"
| "diagnostic_as_str D_Swarm_Manager_Unavailable = ''swarm_manager_unavailable''"
| "diagnostic_as_str D_Swarm_Topology_Unsupported = ''swarm_topology_unsupported''"
| "diagnostic_as_str D_Journal_Unavailable = ''journal_unavailable''"
| "diagnostic_as_str D_Storage_Unavailable = ''storage_unavailable''"
| "diagnostic_as_str D_Stored_State_Corrupt = ''stored_state_corrupt''"
| "diagnostic_as_str D_Schema_Mismatch = ''schema_mismatch''"
| "diagnostic_as_str D_Internal_Error = ''internal_error''"
| "diagnostic_as_str D_Application_Compilation_Failed = ''application_compilation_failed''"
| "diagnostic_as_str D_Image_Resolution_Failed = ''image_resolution_failed''"
| "diagnostic_as_str D_Image_Resolution_Rejected = ''image_resolution_rejected''"
| "diagnostic_as_str D_Image_Unavailable = ''image_unavailable''"
| "diagnostic_as_str D_Docker_Request_Failed = ''docker_request_failed''"
| "diagnostic_as_str D_Convergence_Timeout = ''convergence_timeout''"
| "diagnostic_as_str D_Preparation_Timeout = ''preparation_timeout''"
| "diagnostic_as_str D_Git_Build_Failed = ''git_build_failed''"
| "diagnostic_as_str D_Service_Update_Failed = ''service_update_failed''"
| "diagnostic_as_str D_Job_Failed = ''job_failed''"
| "diagnostic_as_str D_Job_Timeout = ''job_timeout''"
| "diagnostic_as_str D_Ownership_Conflict = ''ownership_conflict''"
| "diagnostic_as_str D_Docker_Configuration_Conflict = ''docker_configuration_conflict''"
| "diagnostic_as_str D_Manifest_Not_Found = ''manifest_not_found''"
| "diagnostic_as_str D_Manifest_Invalid = ''manifest_invalid''"
| "diagnostic_as_str D_Manifest_Fetch_Failed = ''manifest_fetch_failed''"
| "diagnostic_as_str D_Manifest_Serialization_Failed = ''manifest_serialization_failed''"
| "diagnostic_as_str D_Secret_Storage_Unavailable = ''secret_storage_unavailable''"
| "diagnostic_as_str D_Secret_Unavailable = ''secret_unavailable''"
| "diagnostic_as_str D_Secret_Missing = ''secret_missing''"
| "diagnostic_as_str D_Secret_Access_Denied = ''secret_access_denied''"
| "diagnostic_as_str D_Environment_Promoted = ''environment_promoted''"
| "diagnostic_as_str D_Validation_Failed = ''validation_failed''"
| "diagnostic_as_str D_Plan_Blocked = ''plan_blocked''"
| "diagnostic_as_str D_Cancelled = ''cancelled''"
| "diagnostic_as_str D_Superseded = ''superseded''"
| "diagnostic_as_str D_Service_Degraded = ''service_degraded''"
| "diagnostic_as_str D_Hostname_Conflict = ''hostname_conflict''"
| "diagnostic_as_str D_Ingress_Unavailable = ''ingress_unavailable''"
| "diagnostic_as_str D_Certificate_Renewal_Failed = ''certificate_renewal_failed''"
| "diagnostic_as_str D_Dns_Records_Failed = ''dns_records_failed''"
| "diagnostic_as_str D_Telemetry_Export_Failed = ''telemetry_export_failed''"

definition diagnostic_all :: "diagnostic_code list" where
    "diagnostic_all = [D_Docker_Unavailable, D_Swarm_Manager_Unavailable,
     D_Swarm_Topology_Unsupported, D_Journal_Unavailable, D_Storage_Unavailable,
     D_Stored_State_Corrupt, D_Schema_Mismatch, D_Internal_Error, D_Application_Compilation_Failed,
     D_Image_Resolution_Failed, D_Image_Resolution_Rejected, D_Image_Unavailable,
     D_Docker_Request_Failed, D_Convergence_Timeout, D_Preparation_Timeout, D_Git_Build_Failed,
     D_Service_Update_Failed, D_Job_Failed, D_Job_Timeout, D_Ownership_Conflict,
     D_Docker_Configuration_Conflict, D_Manifest_Not_Found, D_Manifest_Invalid,
     D_Manifest_Fetch_Failed, D_Manifest_Serialization_Failed, D_Secret_Storage_Unavailable,
     D_Secret_Unavailable, D_Secret_Missing, D_Secret_Access_Denied, D_Environment_Promoted,
     D_Validation_Failed, D_Plan_Blocked, D_Cancelled, D_Superseded, D_Service_Degraded,
     D_Hostname_Conflict, D_Ingress_Unavailable, D_Certificate_Renewal_Failed, D_Dns_Records_Failed,
     D_Telemetry_Export_Failed]"

text \<open>The arms of the generated \<open>parse\<close>, tried in declaration order.\<close>

definition diagnostic_parse :: "string \<Rightarrow> diagnostic_code option" where
  "diagnostic_parse v = List.find (\<lambda>c. diagnostic_as_str c = v) diagnostic_all"

definition INSPECT_DIAGNOSTIC :: string where
  "INSPECT_DIAGNOSTIC = ''Inspect the diagnostic and related events; resolve the cause before retrying.''"

definition DNS_RECORDS_RETRY :: string where
  "DNS_RECORDS_RETRY = ''Check DNS provider credentials, permissions and route DNS states. Records are reconciled again within minutes.''"

definition IMAGE_UNAVAILABLE :: string where
  "IMAGE_UNAVAILABLE = ''The image was removed and could not be pulled again. Deploy a release whose images are present, or deploy again to rebuild.''"

definition ENVIRONMENT_PROMOTED :: string where
  "ENVIRONMENT_PROMOTED = ''The environment was made promoted after this deployment was requested, and promoted environments never build. Promote a release into it instead.''"

definition TELEMETRY_EXPORT :: string where
  "TELEMETRY_EXPORT = ''Check that the collector at telemetry.endpoint is reachable and accepts the configured headers. Records are dropped until it does.''"

definition SWARM :: string where
  "SWARM = ''Make Docker Engine the active manager of a single-node Swarm. Reconciliation retries once it is.''"

definition AUTOMATIC_RETRY :: string where
  "AUTOMATIC_RETRY = ''Reconciliation will retry. Inspect the affected resource if the failure persists.''"

text \<open>Retention scope, whether reconciliation retries on its own, and the next action.\<close>

fun diagnostic_policy :: "diagnostic_code \<Rightarrow> event_scope \<times> bool \<times> string" where
  "diagnostic_policy D_Docker_Unavailable = (Scope_Daemon, True, ''Check Docker Engine availability. Reconciliation retries after connectivity recovers.'')"
| "diagnostic_policy D_Swarm_Manager_Unavailable = (Scope_Daemon, True, SWARM)"
| "diagnostic_policy D_Swarm_Topology_Unsupported = (Scope_Daemon, True, SWARM)"
| "diagnostic_policy D_Journal_Unavailable = (Scope_Daemon, True, ''Restore writable control-plane storage before infrastructure changes can resume.'')"
| "diagnostic_policy D_Storage_Unavailable = (Scope_Daemon, True, ''Restore writable control-plane storage before infrastructure changes can resume.'')"
| "diagnostic_policy D_Stored_State_Corrupt = (Scope_Daemon, False, INSPECT_DIAGNOSTIC)"
| "diagnostic_policy D_Schema_Mismatch = (Scope_Daemon, False, INSPECT_DIAGNOSTIC)"
| "diagnostic_policy D_Internal_Error = (Scope_Daemon, False, INSPECT_DIAGNOSTIC)"
| "diagnostic_policy D_Application_Compilation_Failed = (Scope_Daemon, False, INSPECT_DIAGNOSTIC)"
| "diagnostic_policy D_Image_Resolution_Failed = (Scope_Application, True, AUTOMATIC_RETRY)"
| "diagnostic_policy D_Image_Resolution_Rejected = (Scope_Application, False, ''Check the image reference and registry credentials, then retry the deployment.'')"
| "diagnostic_policy D_Image_Unavailable = (Scope_Application, False, IMAGE_UNAVAILABLE)"
| "diagnostic_policy D_Docker_Request_Failed = (Scope_Application, True, AUTOMATIC_RETRY)"
| "diagnostic_policy D_Convergence_Timeout = (Scope_Application, True, ''Inspect service health and resource capacity. Reconciliation will retry.'')"
| "diagnostic_policy D_Preparation_Timeout = (Scope_Application, True, ''Check registry and build progress, or raise reconciliation.prepare_timeout_seconds. Reconciliation will retry.'')"
| "diagnostic_policy D_Git_Build_Failed = (Scope_Application, False, ''Open the build output, fix the source or build configuration, then deploy again.'')"
| "diagnostic_policy D_Service_Update_Failed = (Scope_Application, False, ''Inspect service health and logs. The previous healthy task may still be running.'')"
| "diagnostic_policy D_Job_Failed = (Scope_Application, False, ''Open the job output in the build history, fix the cause, then deploy again. Startup dependencies may have changed; other services were not rolled out.'')"
| "diagnostic_policy D_Job_Timeout = (Scope_Application, False, ''Open the job output in the build history, fix the cause, then deploy again. Startup dependencies may have changed; other services were not rolled out.'')"
| "diagnostic_policy D_Ownership_Conflict = (Scope_Application, False, ''Inspect the conflicting resource and resolve its ownership or immutable configuration.'')"
| "diagnostic_policy D_Docker_Configuration_Conflict = (Scope_Application, False, ''Inspect the conflicting resource and resolve its ownership or immutable configuration.'')"
| "diagnostic_policy D_Manifest_Not_Found = (Scope_Application, False, INSPECT_DIAGNOSTIC)"
| "diagnostic_policy D_Manifest_Invalid = (Scope_Application, False, INSPECT_DIAGNOSTIC)"
| "diagnostic_policy D_Manifest_Fetch_Failed = (Scope_Application, False, INSPECT_DIAGNOSTIC)"
| "diagnostic_policy D_Manifest_Serialization_Failed = (Scope_Application, False, INSPECT_DIAGNOSTIC)"
| "diagnostic_policy D_Secret_Storage_Unavailable = (Scope_Daemon, False, ''Restore the original secrets.key, owned by the daemon user with private permissions. If it is lost, `piquelctl secrets recover-key` recovers by discarding stored values. Secret metadata remains readable.'')"
| "diagnostic_policy D_Secret_Unavailable = (Scope_Application, False, ''Supply values for the listed secrets with `piquelctl app secret`, or declare generated ones in spec.secrets, then start a new deployment.'')"
| "diagnostic_policy D_Secret_Missing = (Scope_Application, False, ''Supply values for the listed secrets with `piquelctl app secret`, or declare generated ones in spec.secrets, then start a new deployment.'')"
| "diagnostic_policy D_Secret_Access_Denied = (Scope_Application, False, ''Allow the environment in the secret's access list, or select another secret for it through a variable, then deploy again.'')"
| "diagnostic_policy D_Environment_Promoted = (Scope_Application, False, ENVIRONMENT_PROMOTED)"
| "diagnostic_policy D_Validation_Failed = (Scope_Application, False, INSPECT_DIAGNOSTIC)"
| "diagnostic_policy D_Plan_Blocked = (Scope_Application, False, INSPECT_DIAGNOSTIC)"
| "diagnostic_policy D_Cancelled = (Scope_Application, False, INSPECT_DIAGNOSTIC)"
| "diagnostic_policy D_Superseded = (Scope_Application, False, INSPECT_DIAGNOSTIC)"
| "diagnostic_policy D_Service_Degraded = (Scope_Application, False, INSPECT_DIAGNOSTIC)"
| "diagnostic_policy D_Hostname_Conflict = (Scope_Application, False, ''Choose a hostname that no other application or the piqueld website uses, then deploy again.'')"
| "diagnostic_policy D_Ingress_Unavailable = (Scope_Daemon, True, ''Check ingress health and daemon logs. Reconciliation reapplies routes from durable intent.'')"
| "diagnostic_policy D_Certificate_Renewal_Failed = (Scope_Daemon, True, ''Check DNS provider credentials, zones and certificate status. Renewal retries with backoff.'')"
| "diagnostic_policy D_Dns_Records_Failed = (Scope_Daemon, True, DNS_RECORDS_RETRY)"
| "diagnostic_policy D_Telemetry_Export_Failed = (Scope_Daemon, True, TELEMETRY_EXPORT)"

definition diagnostic_retryable :: "diagnostic_code \<Rightarrow> bool" where
  "diagnostic_retryable c = fst (snd (diagnostic_policy c))"

datatype deployment_failure = Failed_Job | Failed_Rollout

definition deployment_failure_of :: "diagnostic_code \<Rightarrow> deployment_failure option" where
  "deployment_failure_of c =
     (case c of D_Job_Failed \<Rightarrow> Some Failed_Job | D_Job_Timeout \<Rightarrow> Some Failed_Job
      | D_Service_Update_Failed \<Rightarrow> Some Failed_Rollout | _ \<Rightarrow> None)"

record diagnostic =
  dg_id :: string
  dg_code :: string
  dg_summary :: string
  dg_causes :: "string list"
  dg_retryable :: bool
  dg_next_action :: string
  dg_scope :: event_scope

definition from_recorded_code :: "string \<Rightarrow> string \<Rightarrow> string \<Rightarrow> diagnostic" where
  "from_recorded_code i code summary =
     (case (case diagnostic_parse code of None \<Rightarrow> (Scope_Application, False, INSPECT_DIAGNOSTIC)
            | Some c \<Rightarrow> diagnostic_policy c) of
        (scope, retryable, next_action) \<Rightarrow>
          \<lparr>dg_id = i, dg_code = code, dg_summary = summary, dg_causes = [], dg_retryable = retryable,
           dg_next_action = next_action, dg_scope = scope\<rparr>)"

definition diagnostic_new :: "string \<Rightarrow> diagnostic_code \<Rightarrow> string \<Rightarrow> diagnostic" where
  "diagnostic_new i c summary = from_recorded_code i (diagnostic_as_str c) summary"

lemma parse_Some: "diagnostic_parse v = Some c \<Longrightarrow> diagnostic_as_str c = v"
  by (auto simp: diagnostic_parse_def dest: find_mem)

lemma diagnostic_all_complete: "c \<in> set diagnostic_all"
  by (cases c) (simp_all add: diagnostic_all_def)

lemma diagnostic_as_str_inj: "diagnostic_as_str c = diagnostic_as_str d \<Longrightarrow> c = d"
proof -
  have "distinct (map diagnostic_as_str diagnostic_all)" by code_simp
  then show "diagnostic_as_str c = diagnostic_as_str d \<Longrightarrow> c = d"
    using diagnostic_all_complete by (auto simp: distinct_map inj_on_def)
qed

lemma parse_as_str [simp]: "diagnostic_parse (diagnostic_as_str c) = Some c"
proof -
  obtain d where "diagnostic_parse (diagnostic_as_str c) = Some d"
    using diagnostic_all_complete [of c] find_none [of "\<lambda>d. diagnostic_as_str d = diagnostic_as_str c" diagnostic_all]
    by (cases "diagnostic_parse (diagnostic_as_str c)") (auto simp: diagnostic_parse_def)
  with parse_Some [OF this] show ?thesis using diagnostic_as_str_inj by simp
qed

lemma failure_policy: "deployment_failure_of c \<noteq> None \<Longrightarrow> fst (diagnostic_policy c) = Scope_Application \<and> \<not> diagnostic_retryable c"
  by (cases c) (simp_all add: deployment_failure_of_def diagnostic_retryable_def)

text \<open>The stored names of classifications are unambiguous, a diagnostic keeps the policy of the
  classification it was recorded with when it is read back by its stored code, and the failures that
  return an environment to its previous deployment are never retried on their own.\<close>

theorem recorded_codes_keep_their_policy:
  "(diagnostic_parse v = Some c) = (v = diagnostic_as_str c)
   \<and> (dg_scope (diagnostic_new i c summary), dg_retryable (diagnostic_new i c summary),
        dg_next_action (diagnostic_new i c summary)) = diagnostic_policy c
   \<and> (if deployment_failure_of c = None then True else diagnostic_policy c = (Scope_Application, False,
        dg_next_action (diagnostic_new i c summary)))"
proof -
  have "(diagnostic_parse v = Some c) = (v = diagnostic_as_str c)" using parse_Some by auto
  moreover have "(dg_scope (diagnostic_new i c summary), dg_retryable (diagnostic_new i c summary),
        dg_next_action (diagnostic_new i c summary)) = diagnostic_policy c"
    by (simp add: diagnostic_new_def from_recorded_code_def split: prod.split)
  moreover note failure_policy [of c]
  ultimately show ?thesis by (auto simp: diagnostic_retryable_def prod_eq_iff)
qed

end
