(* ===== verification/Operations.thy ===== *)
theory Operations
  imports Store_Base Diagnostics
begin

text \<open>
  Durable operations: \<open>crates/piqueld-core/src/operation.rs\<close> and the daemon's
  \<open>apps/piqueld/src/store/operation.rs\<close>, with what it calls in \<open>deployment.rs\<close>, \<open>jobs.rs\<close>,
  \<open>status.rs\<close>, \<open>stopped.rs\<close> and \<open>observability/event.rs\<close>.

  A table is a list of rows in the order of insertion, and an SQL statement is written as the
  filter and map it performs; deleting a row deletes the rows that reference it (\<open>ON DELETE
  CASCADE\<close>). The table's \<open>CHECK\<close>s and its unique index on running operations are not enforced: that
  no operation ever violates them is part of the invariant. A transaction that ends in an error changes nothing, so an
  operation returns an error or the next state. \<open>now\<close> is the clock, which may go back, and \<open>fresh\<close>
  the generated id. Counters are natural numbers: they start at zero and only grow. The diagnostic
  stored with an event is reduced to its retention scope.
\<close>

section \<open>Operations\<close>

datatype operation_kind = Op_Apply | Op_Refresh | Op_Delete

fun operation_kind_as_str :: "operation_kind \<Rightarrow> string" where
  "operation_kind_as_str Op_Apply = ''apply''"
| "operation_kind_as_str Op_Refresh = ''refresh''"
| "operation_kind_as_str Op_Delete = ''delete''"

datatype operation_state = Op_Requested | Op_Running | Op_Succeeded | Op_Failed | Op_Cancelled | Op_Superseded

definition terminal :: "operation_state \<Rightarrow> bool" where
  "terminal s \<longleftrightarrow> s \<in> {Op_Succeeded, Op_Failed, Op_Cancelled, Op_Superseded}"

definition can_transition_to :: "operation_state \<Rightarrow> operation_state \<Rightarrow> bool" where
  "can_transition_to s to \<longleftrightarrow> s = to
     \<or> s = Op_Requested \<and> to \<in> {Op_Running, Op_Cancelled, Op_Superseded}
     \<or> s = Op_Running \<and> to \<in> {Op_Requested, Op_Succeeded, Op_Failed, Op_Cancelled, Op_Superseded}
     \<or> s \<in> {Op_Succeeded, Op_Failed, Op_Cancelled} \<and> to = Op_Requested"

datatype application_state =
    App_Not_Deployed | App_Pending | App_Deploying | App_Ready | App_Degraded | App_Deleting | App_Failed

fun application_state_as_str :: "application_state \<Rightarrow> string" where
  "application_state_as_str App_Not_Deployed = ''not_deployed''"
| "application_state_as_str App_Pending = ''pending''"
| "application_state_as_str App_Deploying = ''deploying''"
| "application_state_as_str App_Ready = ''ready''"
| "application_state_as_str App_Degraded = ''degraded''"
| "application_state_as_str App_Deleting = ''deleting''"
| "application_state_as_str App_Failed = ''failed''"

record operation =
  op_id :: string
  op_environment_id :: environment_id
  op_kind :: operation_kind
  op_generation :: nat
  op_attempt :: nat
  op_consecutive_failures :: nat
  op_state :: operation_state
  op_phase :: "string option"
  op_resource :: "string option"
  op_error_code :: "string option"
  op_error_message :: "string option"
  op_created_at_ms :: int
  op_updated_at_ms :: int
  op_started_at_ms :: "int option"
  op_finished_at_ms :: "int option"

section \<open>Tables\<close>

record store_event =
  ev_application_id :: "string option"
  ev_environment_id :: "string option"
  ev_operation_id :: "string option"
  ev_generation :: "nat option"
  ev_attempt :: "nat option"
  ev_kind :: string
  ev_message :: "string option"
  ev_error_code :: "string option"
  ev_phase :: "string option"
  ev_resource :: "string option"
  ev_created_at_ms :: int
  ev_scope :: event_scope

record environment_row =
  er_id :: environment_id
  er_application_id :: application_id
  er_name :: string
  er_preview :: bool
  er_delete_intent :: bool
  er_stopped :: bool
  er_updated_at_ms :: int

record application_row =
  apr_id :: application_id
  apr_generation :: nat
  apr_delete_intent :: bool

record status_row =
  sr_state :: application_state
  sr_message :: "string option"
  sr_runtime_health :: "string option"
  sr_health_observed_at_ms :: "int option"
  sr_updated_at_ms :: int

record deployment_row =
  dr_id :: string
  dr_environment_id :: environment_id
  dr_succeeded_at_ms :: "int option"

record credential_row =
  cr_id :: string
  cr_scoped :: bool
  cr_expires_at :: "int option"

record grant_row =
  gr_credential_id :: "string option"
  gr_application_id :: "application_id option"

text \<open>What a replay receipt's response names.\<close>

datatype receipt = Receipt_Environment environment_id | Receipt_Application application_id | Receipt_Other

record operation_store =
  os_operations :: "operation list"
  os_promoted :: "string list"
  os_events :: "store_event list"
  os_deployments :: "deployment_row list"
  os_attempts :: "(string \<times> nat) \<Rightarrow> operation option"
  os_job_cleanup :: "string list"
  os_environments :: "environment_row list"
  os_status :: "environment_id \<Rightarrow> status_row option"
  os_applications :: "application_row list"
  os_notification_conditions :: "environment_id list"
  os_dependency_observations :: "string list"
  os_active_actions :: "environment_id list"
  os_receipts :: "receipt list"
  os_credentials :: "credential_row list"
  os_grants :: "grant_row list"

section \<open>Reading\<close>

definition operation_on :: "string \<Rightarrow> operation_store \<Rightarrow> store_error + operation" where
  "operation_on i s = (case List.find (\<lambda>p. op_id p = i) (os_operations s) of
      None \<Rightarrow> Inl Store_Not_Found | Some p \<Rightarrow> Inr p)"

text \<open>\<open>ORDER BY created_at_ms DESC, id DESC LIMIT 1\<close>.\<close>

definition later :: "operation \<Rightarrow> operation \<Rightarrow> bool" where
  "later a b \<longleftrightarrow> op_created_at_ms b < op_created_at_ms a
     \<or> op_created_at_ms b = op_created_at_ms a \<and> op_id b < op_id a"

definition latest_operation :: "environment_id \<Rightarrow> operation list \<Rightarrow> operation option" where
  "latest_operation environment ops =
     fold (\<lambda>p best. case best of None \<Rightarrow> Some p | Some b \<Rightarrow> Some (if later p b then p else b))
       (filter (\<lambda>p. op_environment_id p = environment) ops) None"

definition latest_id :: "environment_id \<Rightarrow> operation list \<Rightarrow> string option" where
  "latest_id environment ops = map_option op_id (latest_operation environment ops)"

definition latest_operation_on :: "environment_id \<Rightarrow> operation_store \<Rightarrow> operation option" where
  "latest_operation_on environment s = latest_operation environment (os_operations s)"

definition environment_row_on :: "environment_id \<Rightarrow> operation_store \<Rightarrow> environment_row option" where
  "environment_row_on i s = List.find (\<lambda>e. er_id e = i) (os_environments s)"

definition environment_application :: "environment_id \<Rightarrow> operation_store \<Rightarrow> application_id option" where
  "environment_application i s = map_option er_application_id (environment_row_on i s)"

section \<open>Events and outcomes\<close>

definition event_scope_of :: "string option \<Rightarrow> string option \<Rightarrow> event_scope" where
  "event_scope_of code message =
     (case code of None \<Rightarrow> Scope_Application
      | Some code \<Rightarrow> dg_scope (from_recorded_code '''' code
          (case message of None \<Rightarrow> ''operation failed'' | Some m \<Rightarrow> m)))"

definition event_of :: "operation \<Rightarrow> application_id option \<Rightarrow> string \<Rightarrow> string option \<Rightarrow> event_scope \<Rightarrow> int \<Rightarrow> store_event" where
  "event_of p application kind message scope now =
     \<lparr>ev_application_id = application, ev_environment_id = Some (op_environment_id p),
      ev_operation_id = Some (op_id p), ev_generation = Some (op_generation p),
      ev_attempt = Some (op_attempt p), ev_kind = kind, ev_message = message,
      ev_error_code = op_error_code p, ev_phase = op_phase p, ev_resource = op_resource p,
      ev_created_at_ms = now, ev_scope = scope\<rparr>"

definition operation_event ::
    "string \<Rightarrow> string \<Rightarrow> string option \<Rightarrow> int \<Rightarrow> operation_store \<Rightarrow> store_error + operation_store" where
  "operation_event i kind message now s =
     (case operation_on i s of
        Inl e \<Rightarrow> Inl e
      | Inr p \<Rightarrow> Inr (s\<lparr>os_events := os_events s
          @ [event_of p (environment_application (op_environment_id p) s) kind message
               (event_scope_of (op_error_code p) message) now]\<rparr>))"

definition environment_event_on :: "environment_id \<Rightarrow> string \<Rightarrow> string \<Rightarrow> int \<Rightarrow> operation_store \<Rightarrow> operation_store" where
  "environment_event_on i kind message now s =
     s\<lparr>os_events := os_events s
        @ [\<lparr>ev_application_id = environment_application i s, ev_environment_id = Some i,
            ev_operation_id = None, ev_generation = None, ev_attempt = None, ev_kind = kind,
            ev_message = Some message, ev_error_code = None, ev_phase = None, ev_resource = None,
            ev_created_at_ms = now, ev_scope = Scope_Application\<rparr>]\<rparr>"

definition save_deployment_attempt :: "operation \<Rightarrow> operation_store \<Rightarrow> operation_store" where
  "save_deployment_attempt p s =
     (let s = (if \<exists>d\<in>set (os_deployments s). dr_id d = op_id p
               then s\<lparr>os_attempts := (os_attempts s)((op_id p, op_attempt p) \<mapsto> p)\<rparr> else s)
      in if op_state p = Op_Succeeded
         then s\<lparr>os_deployments := map (\<lambda>d. if dr_id d = op_id p
                then d\<lparr>dr_succeeded_at_ms := (case dr_succeeded_at_ms d of
                    None \<Rightarrow> op_finished_at_ms p | Some t \<Rightarrow> Some t)\<rparr> else d) (os_deployments s)\<rparr>
         else s)"

definition record_deployment_attempt :: "string \<Rightarrow> operation_store \<Rightarrow> store_error + operation_store" where
  "record_deployment_attempt i s =
     (case operation_on i s of Inl e \<Rightarrow> Inl e | Inr p \<Rightarrow> Inr (save_deployment_attempt p s))"

definition request_job_cleanup_on :: "string \<Rightarrow> operation_store \<Rightarrow> operation_store" where
  "request_job_cleanup_on i s =
     (if i \<in> set (os_job_cleanup s) then s else s\<lparr>os_job_cleanup := os_job_cleanup s @ [i]\<rparr>)"

definition finish_job_cleanup :: "string \<Rightarrow> operation_store \<Rightarrow> operation_store" where
  "finish_job_cleanup i s = s\<lparr>os_job_cleanup := filter (\<lambda>j. j \<noteq> i) (os_job_cleanup s)\<rparr>"

definition pending_job_cleanup :: "environment_id \<Rightarrow> operation_store \<Rightarrow> string list" where
  "pending_job_cleanup environment s =
     sort (filter (\<lambda>i. \<exists>p\<in>set (os_operations s). op_id p = i \<and> op_environment_id p = environment) (os_job_cleanup s))"

definition write_status :: "environment_id \<Rightarrow> application_state \<Rightarrow> int \<Rightarrow> operation_store \<Rightarrow> operation_store" where
  "write_status i state now s = s\<lparr>os_status := (os_status s)(i \<mapsto>
     (case os_status s i of
        None \<Rightarrow> \<lparr>sr_state = state, sr_message = None, sr_runtime_health = None,
                 sr_health_observed_at_ms = None, sr_updated_at_ms = now\<rparr>
      | Some r \<Rightarrow> r\<lparr>sr_state := state, sr_message := None, sr_updated_at_ms := now\<rparr>))\<rparr>"

section \<open>Transitions\<close>

definition is_latest :: "operation list \<Rightarrow> operation \<Rightarrow> bool" where
  "is_latest ops p \<longleftrightarrow> latest_id (op_environment_id p) ops = Some (op_id p)"

definition transition_row :: "operation_state \<Rightarrow> (string \<times> string) option \<Rightarrow> int \<Rightarrow> operation \<Rightarrow> operation" where
  "transition_row to failure now p = p
     \<lparr>op_consecutive_failures :=
        (if to = Op_Failed then op_consecutive_failures p + 1
         else if to = Op_Succeeded then 0 else op_consecutive_failures p),
      op_attempt := op_attempt p + (if to = Op_Running \<and> op_state p \<noteq> Op_Running then 1 else 0),
      op_state := to, op_error_code := map_option fst failure, op_error_message := map_option snd failure,
      op_updated_at_ms := now,
      op_started_at_ms :=
        (if to = Op_Requested then None
         else if to = Op_Running then (case op_started_at_ms p of None \<Rightarrow> Some now | Some t \<Rightarrow> Some t)
         else op_started_at_ms p),
      op_finished_at_ms := (if terminal to then Some now else None)\<rparr>"

definition fails_job :: "(string \<times> string) option \<Rightarrow> bool" where
  "fails_job failure \<longleftrightarrow>
     Option.bind (Option.bind (map_option fst failure) diagnostic_parse) deployment_failure_of = Some Failed_Job"

fun transition_event :: "operation_state \<Rightarrow> string" where
  "transition_event Op_Requested = ''reconciliation_requested''"
| "transition_event Op_Running = ''operation_started''"
| "transition_event Op_Succeeded = ''operation_succeeded''"
| "transition_event Op_Failed = ''operation_failed''"
| "transition_event Op_Cancelled = ''operation_cancelled''"
| "transition_event Op_Superseded = ''operation_superseded''"

definition transition_operation_on ::
    "string \<Rightarrow> operation_state \<Rightarrow> operation_state \<Rightarrow> (string \<times> string) option \<Rightarrow> int
     \<Rightarrow> operation_store \<Rightarrow> store_error + operation_store" where
  "transition_operation_on i old to failure now s =
     (if \<not> can_transition_to old to \<or> (failure \<noteq> None) \<noteq> (to = Op_Failed) then Inl Store_Illegal_Transition
      else let chosen = (\<lambda>p. op_id p = i \<and> op_state p = old \<and> is_latest (os_operations s) p) in
        if length (filter chosen (os_operations s)) \<noteq> 1 then Inl Store_Illegal_Transition
        else let s = s\<lparr>os_operations := update_where chosen (transition_row to failure now) (os_operations s)\<rparr>;
                 s = (if fails_job failure then request_job_cleanup_on i s else s)
          in and_then (if terminal to then record_deployment_attempt i s else Inr s)
               (\<lambda>s. if old \<noteq> to then operation_event i (transition_event to) (map_option snd failure) now s else Inr s))"

definition record_operation_error ::
    "string \<Rightarrow> string \<Rightarrow> string \<Rightarrow> int \<Rightarrow> operation_store \<Rightarrow> store_error + operation_store" where
  "record_operation_error i code message now s =
     (let chosen = (\<lambda>p. op_id p = i \<and> op_state p = Op_Running) in
      if length (filter chosen (os_operations s)) \<noteq> 1 then Inl Store_Illegal_Transition
      else let s = s\<lparr>os_operations := update_where chosen
                 (\<lambda>p. p\<lparr>op_consecutive_failures := op_consecutive_failures p + 1, op_error_code := Some code,
                      op_error_message := Some message, op_updated_at_ms := now\<rparr>) (os_operations s)\<rparr>;
               deleting = List.find (\<lambda>p. op_id p = i \<and> op_kind p = Op_Delete \<and> op_state p = Op_Running) (os_operations s);
               s = (case deleting of None \<Rightarrow> s
                    | Some p \<Rightarrow> (case os_status s (op_environment_id p) of None \<Rightarrow> s
                        | Some r \<Rightarrow> s\<lparr>os_status := (os_status s)(op_environment_id p \<mapsto>
                            r\<lparr>sr_state := App_Deleting, sr_message := Some message, sr_updated_at_ms := now\<rparr>)\<rparr>))
        in operation_event i ''operation_failed'' (Some message) now s)"

definition progress :: "string \<Rightarrow> string \<Rightarrow> string option \<Rightarrow> operation_store \<Rightarrow> store_error + operation_store" where
  "progress i phase resource s =
     (let chosen = (\<lambda>p. op_id p = i \<and> op_state p = Op_Running \<and> is_latest (os_operations s) p) in
      if length (filter chosen (os_operations s)) \<noteq> 1 then Inl Store_Illegal_Transition
      else Inr (s\<lparr>os_operations := update_where chosen
        (\<lambda>p. p\<lparr>op_phase := Some phase, op_resource := resource\<rparr>) (os_operations s)\<rparr>))"

text \<open>\<open>read_repository_on\<close>: the operation that deployed what a read saved is resolved at the new revision.\<close>

definition advance_generation :: "string \<Rightarrow> nat \<Rightarrow> operation_store \<Rightarrow> operation_store" where
  "advance_generation i previous s =
     s\<lparr>os_operations := update_where (\<lambda>p. op_id p = i \<and> op_generation p = previous)
        (\<lambda>p. p\<lparr>op_generation := previous + 1\<rparr>) (os_operations s)\<rparr>"

definition mutation_event :: "string \<Rightarrow> int \<Rightarrow> operation_store \<Rightarrow> store_error + operation_store" where
  "mutation_event i now s = operation_event i ''resource_mutated'' None now s"

definition set_status_for_operation ::
    "string \<Rightarrow> application_state \<Rightarrow> string option \<Rightarrow> int \<Rightarrow> operation_store \<Rightarrow> store_error + bool \<times> operation_store" where
  "set_status_for_operation i state message now s =
     (let environment = map_option op_environment_id (List.find (\<lambda>p. op_id p = i) (os_operations s));
          latest = Option.bind environment (\<lambda>e. latest_id e (os_operations s));
          row = Option.bind environment (os_status s)
      in case (environment, row) of
           (Some e, Some r) \<Rightarrow>
             if (sr_state r \<noteq> state \<or> sr_message r \<noteq> message) \<and> latest = Some i
             then and_then (operation_event i ''status_changed'' (Some (application_state_as_str state)) now
                 (s\<lparr>os_status := (os_status s)(e \<mapsto>
                    r\<lparr>sr_state := state, sr_message := message, sr_updated_at_ms := now\<rparr>)\<rparr>))
               (\<lambda>s. Inr (latest = Some i, s))
             else Inr (latest = Some i, s)
         | _ \<Rightarrow> Inr (latest = Some i, s))"

section \<open>Retrying and recovering\<close>

definition reopened :: "int \<Rightarrow> operation \<Rightarrow> operation" where
  "reopened now q = q\<lparr>op_phase := None, op_resource := None, op_state := Op_Requested, op_error_code := None,
     op_error_message := None, op_started_at_ms := None, op_finished_at_ms := None, op_updated_at_ms := now\<rparr>"

definition retryable :: "operation list \<Rightarrow> string \<Rightarrow> operation \<Rightarrow> bool" where
  "retryable ops i q \<longleftrightarrow> op_id q = i
     \<and> (op_state q \<in> {Op_Succeeded, Op_Failed, Op_Cancelled} \<or> op_state q = Op_Running \<and> op_error_code q \<noteq> None)
     \<and> is_latest ops q"

definition retry_operation_on :: "operation \<Rightarrow> int \<Rightarrow> operation_store \<Rightarrow> store_error + operation \<times> operation_store" where
  "retry_operation_on p now s =
     (let chosen = retryable (os_operations s) (op_id p) in
      if length (filter chosen (os_operations s)) \<noteq> 1
      then and_then (operation_on (op_id p) s)
        (\<lambda>current. if op_state current \<in> {Op_Requested, Op_Running} then Inr (current, s)
                   else Inl Store_Illegal_Transition)
      else let s = s\<lparr>os_operations := update_where chosen
             (reopened now) (os_operations s)\<rparr>;
           s = write_status (op_environment_id p) (if op_kind p = Op_Delete then App_Deleting else App_Pending) now s
        in and_then (operation_event (op_id p) ''reconciliation_requested'' None now s)
             (\<lambda>s. and_then (operation_on (op_id p) s) (\<lambda>q. Inr (q, s))))"

definition interrupted :: "int \<Rightarrow> operation \<Rightarrow> operation" where
  "interrupted now p = p\<lparr>op_state := Op_Requested, op_updated_at_ms := now, op_started_at_ms := None,
     op_error_code := None, op_error_message := None\<rparr>"

definition recover_interrupted :: "int \<Rightarrow> operation_store \<Rightarrow> nat \<times> operation_store" where
  "recover_interrupted now s =
     (let running = filter (\<lambda>p. op_state p = Op_Running) (os_operations s);
          s = s\<lparr>os_events := os_events s @ map (\<lambda>p. event_of p (environment_application (op_environment_id p) s)
                ''operation_interrupted'' (Some ''daemon restarted during execution'') Scope_Application now) running\<rparr>;
          s = fold (\<lambda>p. save_deployment_attempt
                (p\<lparr>op_state := Op_Cancelled, op_updated_at_ms := now, op_finished_at_ms := Some now\<rparr>)) running s
      in (length running, s\<lparr>os_operations := update_where (\<lambda>p. op_state p = Op_Running)
            (interrupted now) (os_operations s)\<rparr>))"

section \<open>Starting\<close>

definition mark_stopped_on :: "environment_id \<Rightarrow> bool \<Rightarrow> int \<Rightarrow> operation_store \<Rightarrow> operation_store" where
  "mark_stopped_on i stopped now s =
     (case List.find (\<lambda>e. er_id e = i \<and> er_stopped e \<noteq> stopped) (os_environments s) of
        None \<Rightarrow> s
      | Some e \<Rightarrow> environment_event_on i
          (if stopped then ''environment_stopped'' else ''environment_started'')
          (if stopped
           then ''environment '' @ er_name e @ '' is stopped: its services scale to zero and its routes are withdrawn''
           else ''environment '' @ er_name e @ '' is started'') now
          (s\<lparr>os_environments := update_where (\<lambda>e. er_id e = i \<and> er_stopped e \<noteq> stopped)
             (\<lambda>e. e\<lparr>er_stopped := stopped, er_updated_at_ms := now\<rparr>) (os_environments s)\<rparr>))"

definition active :: "operation \<Rightarrow> bool" where
  "active p \<longleftrightarrow> op_state p \<in> {Op_Requested, Op_Running}"

definition superseded_row :: "int \<Rightarrow> operation \<Rightarrow> operation" where
  "superseded_row now p = p\<lparr>op_state := Op_Superseded, op_error_code := None, op_error_message := None,
     op_finished_at_ms := Some now, op_updated_at_ms := now\<rparr>"

fun record_attempts :: "string list \<Rightarrow> operation_store \<Rightarrow> store_error + operation_store" where
  "record_attempts [] s = Inr s"
| "record_attempts (i # is) s = and_then (record_deployment_attempt i s) (record_attempts is)"

definition supersede_operations :: "environment_id \<Rightarrow> int \<Rightarrow> operation_store \<Rightarrow> store_error + operation_store" where
  "supersede_operations environment now s =
     (let chosen = (\<lambda>p. op_environment_id p = environment \<and> active p);
          superseded = filter chosen (os_operations s);
          s = s\<lparr>os_events := os_events s @ map (\<lambda>p. event_of p (environment_application environment s)
                ''operation_superseded'' (Some ''superseded by newer intent'') Scope_Application now) superseded\<rparr>
      in record_attempts (map op_id superseded)
           (s\<lparr>os_operations := update_where chosen (superseded_row now) (os_operations s)\<rparr>))"

text \<open>\<open>MAX(now, COALESCE(MAX(created_at_ms) + 1, now))\<close>.\<close>

definition creation_time :: "environment_id \<Rightarrow> int \<Rightarrow> operation list \<Rightarrow> int" where
  "creation_time environment now ops =
     fold (\<lambda>p t. max t (op_created_at_ms p + 1)) (filter (\<lambda>p. op_environment_id p = environment) ops) now"

definition new_operation :: "string \<Rightarrow> environment_id \<Rightarrow> nat \<Rightarrow> operation_kind \<Rightarrow> int \<Rightarrow> int \<Rightarrow> operation" where
  "new_operation i environment generation kind created now =
     \<lparr>op_id = i, op_environment_id = environment, op_kind = kind, op_generation = generation, op_attempt = 0,
      op_consecutive_failures = 0, op_state = Op_Requested, op_phase = None, op_resource = None,
      op_error_code = None, op_error_message = None, op_created_at_ms = created, op_updated_at_ms = now,
      op_started_at_ms = None, op_finished_at_ms = None\<rparr>"

definition environment_generation :: "environment_id \<Rightarrow> operation_store \<Rightarrow> nat option" where
  "environment_generation environment s =
     Option.bind (environment_application environment s)
       (\<lambda>a. map_option apr_generation (List.find (\<lambda>r. apr_id r = a) (os_applications s)))"

fun request_event :: "operation_kind \<Rightarrow> string" where
  "request_event Op_Apply = ''application_applied''"
| "request_event Op_Refresh = ''refresh_requested''"
| "request_event Op_Delete = ''deletion_requested''"

definition insert_operation_row ::
    "string \<Rightarrow> environment_id \<Rightarrow> operation_kind \<Rightarrow> int \<Rightarrow> operation_store \<Rightarrow> store_error + operation_store" where
  "insert_operation_row fresh environment kind now s =
     (case environment_generation environment s of
        None \<Rightarrow> Inr s
      | Some generation \<Rightarrow>
          if fresh \<in> op_id ` set (os_operations s) then Inl Store_Database
          else Inr (s\<lparr>os_operations := os_operations s
            @ [new_operation fresh environment generation kind (creation_time environment now (os_operations s)) now]\<rparr>))"

definition start_operation ::
    "string \<Rightarrow> environment_id \<Rightarrow> operation_kind \<Rightarrow> int \<Rightarrow> operation_store \<Rightarrow> store_error + operation \<times> operation_store" where
  "start_operation fresh environment kind now s =
     and_then (supersede_operations environment now s) (\<lambda>s.
     and_then (insert_operation_row fresh environment kind now s) (\<lambda>s.
     and_then (operation_event fresh (request_event kind) None now s) (\<lambda>s.
       let s = (if kind \<noteq> Op_Delete then mark_stopped_on environment False now s else s)
       in and_then (operation_on fresh s) (\<lambda>p. Inr (p, s)))))"

text \<open>
  The deployment row of an operation. \<open>rendered\<close> is the error of rendering the environment's
  manifest and checking its secrets, if any; the stored documents are left out.
\<close>

definition capture_deployment ::
    "store_error option \<Rightarrow> string \<Rightarrow> environment_id \<Rightarrow> operation_store \<Rightarrow> store_error + operation_store" where
  "capture_deployment rendered i environment s =
     (if environment_row_on environment s = None then Inl Store_Not_Found
      else case rendered of
          Some e \<Rightarrow> Inl e
        | None \<Rightarrow> (case operation_on i s of
            Inl _ \<Rightarrow> Inr s
          | Inr p \<Rightarrow>
              if i \<in> dr_id ` set (os_deployments s) then Inl Store_Database
              else Inr (s\<lparr>os_deployments := os_deployments s
                @ [\<lparr>dr_id = i, dr_environment_id = op_environment_id p, dr_succeeded_at_ms = None\<rparr>]\<rparr>)))"

definition insert_operation ::
    "store_error option \<Rightarrow> string \<Rightarrow> environment_id \<Rightarrow> operation_kind \<Rightarrow> int \<Rightarrow> operation_store
     \<Rightarrow> store_error + operation \<times> operation_store" where
  "insert_operation rendered fresh environment kind now s =
     and_then (start_operation fresh environment kind now s) (\<lambda>(p, s).
       if kind \<noteq> Op_Delete
       then and_then (capture_deployment rendered (op_id p) environment s) (\<lambda>s. Inr (p, s))
       else Inr (p, s))"

section \<open>Deleting and pruning\<close>

text \<open>Operations for which \<open>keep\<close> fails are deleted with the rows that reference them.\<close>

definition retain_operations :: "(operation \<Rightarrow> bool) \<Rightarrow> operation_store \<Rightarrow> operation_store" where
  "retain_operations keep s =
     (let gone = op_id ` set (filter (\<lambda>p. \<not> keep p) (os_operations s)) in
      s\<lparr>os_operations := filter keep (os_operations s),
        os_promoted := filter (\<lambda>i. i \<notin> gone) (os_promoted s),
        os_deployments := filter (\<lambda>d. dr_id d \<notin> gone) (os_deployments s),
        os_attempts := (\<lambda>(i, attempt). if i \<in> gone then None else os_attempts s (i, attempt)),
        os_job_cleanup := filter (\<lambda>i. i \<notin> gone) (os_job_cleanup s)\<rparr>)"

definition delete_environment_row :: "environment_id \<Rightarrow> operation_store \<Rightarrow> operation_store" where
  "delete_environment_row i s =
     (if \<exists>e\<in>set (os_environments s). er_id e = i \<and> er_delete_intent e
      then retain_operations (\<lambda>p. op_environment_id p \<noteq> i)
        (s\<lparr>os_environments := filter (\<lambda>e. er_id e \<noteq> i) (os_environments s),
           os_status := (os_status s)(i := None)\<rparr>)
      else s)"

text \<open>Credentials that hold grants only on the application expire within a minute.\<close>

definition expires_with :: "application_id \<Rightarrow> operation_store \<Rightarrow> credential_row \<Rightarrow> bool" where
  "expires_with i s c \<longleftrightarrow> cr_scoped c
     \<and> (\<exists>g\<in>set (os_grants s). gr_credential_id g = Some (cr_id c) \<and> gr_application_id g = Some i)
     \<and> (\<forall>g\<in>set (os_grants s). gr_credential_id g = Some (cr_id c) \<longrightarrow> gr_application_id g = Some i)"

definition finish_application_delete_on :: "application_id \<Rightarrow> int \<Rightarrow> operation_store \<Rightarrow> operation_store" where
  "finish_application_delete_on i now_secs s =
     (if (\<exists>a\<in>set (os_applications s). apr_id a = i \<and> apr_delete_intent a)
         \<and> (\<forall>e\<in>set (os_environments s). er_application_id e \<noteq> i)
      then let expires_at = now_secs + 60 in
        s\<lparr>os_credentials := update_where (expires_with i s)
            (\<lambda>c. c\<lparr>cr_expires_at := Some (min (case cr_expires_at c of None \<Rightarrow> expires_at | Some t \<Rightarrow> t) expires_at)\<rparr>)
            (os_credentials s),
          os_applications := filter (\<lambda>a. apr_id a \<noteq> i) (os_applications s),
          os_grants := filter (\<lambda>g. gr_application_id g \<noteq> Some i) (os_grants s),
          os_events := filter (\<lambda>e. \<not> (ev_application_id e = Some i \<and> ev_scope e = Scope_Application)) (os_events s),
          os_receipts := filter (\<lambda>r. r \<noteq> Receipt_Application i) (os_receipts s)\<rparr>
      else s)"

definition deleted_row :: "int \<Rightarrow> operation \<Rightarrow> operation" where
  "deleted_row now q = q\<lparr>op_state := Op_Succeeded, op_consecutive_failures := 0, op_error_code := None,
     op_error_message := None, op_updated_at_ms := now, op_finished_at_ms := Some now\<rparr>"

definition finish_delete_operation :: "operation \<Rightarrow> int \<Rightarrow> int \<Rightarrow> operation_store \<Rightarrow> store_error + operation_store" where
  "finish_delete_operation p now now_secs s =
     (let chosen = (\<lambda>q. op_id q = op_id p \<and> op_kind q = Op_Delete \<and> op_state q = Op_Running) in
      if length (filter chosen (os_operations s)) \<noteq> 1 then Inl Store_Illegal_Transition
      else and_then (operation_event (op_id p) ''operation_succeeded'' None now
          (s\<lparr>os_operations := update_where chosen
             (deleted_row now) (os_operations s)\<rparr>))
        (\<lambda>s. let i = op_environment_id p;
                s = s\<lparr>os_notification_conditions := filter (\<lambda>c. c \<noteq> i) (os_notification_conditions s),
                      os_dependency_observations := filter (\<lambda>c. c \<noteq> i) (os_dependency_observations s),
                      os_active_actions := filter (\<lambda>c. c \<noteq> i) (os_active_actions s),
                      os_receipts := filter (\<lambda>r. r \<noteq> Receipt_Environment i) (os_receipts s)\<rparr>;
                application = map_option er_application_id
                  (List.find (\<lambda>e. er_id e = i \<and> er_delete_intent e) (os_environments s));
                s = delete_environment_row i s
            in Inr (case application of None \<Rightarrow> s | Some a \<Rightarrow> finish_application_delete_on a now_secs s)))"

definition prune_finished_operations :: "int \<Rightarrow> operation_store \<Rightarrow> operation_store" where
  "prune_finished_operations cutoff s =
     retain_operations (\<lambda>p. op_id p \<in> dr_id ` set (os_deployments s) \<or> op_id p \<in> set (os_job_cleanup s)
       \<or> (case op_finished_at_ms p of None \<Rightarrow> True | Some t \<Rightarrow> cutoff \<le> t)
       \<or> is_latest (os_operations s) p) s"

section \<open>Stopping and starting environments\<close>

definition check_generation :: "nat option \<Rightarrow> nat \<Rightarrow> store_error + unit" where
  "check_generation expected actual =
     (case expected of
        None \<Rightarrow> Inr ()
      | Some e \<Rightarrow> if 2 ^ 63 \<le> e then Inl Store_Invalid_Input_Source
          else if e \<noteq> actual then Inl (Store_Generation_Conflict e actual) else Inr ())"

definition checked_environment_on ::
    "environment_id \<Rightarrow> nat option \<Rightarrow> operation_store \<Rightarrow> store_error + environment_row" where
  "checked_environment_on i expected s =
     (case (environment_row_on i s, environment_generation i s) of
        (Some e, Some generation) \<Rightarrow>
          if er_preview e then Inl Store_Not_Found
          else and_then (check_generation expected generation) (\<lambda>_. Inr e)
      | _ \<Rightarrow> Inl Store_Not_Found)"

definition stop_on :: "environment_id \<Rightarrow> nat option \<Rightarrow> int \<Rightarrow> operation_store \<Rightarrow> store_error + operation \<times> operation_store" where
  "stop_on i expected now s =
     and_then (checked_environment_on i expected s) (\<lambda>e.
       if er_delete_intent e then Inl Store_Busy
       else case latest_operation_on i s of
           None \<Rightarrow> Inl Store_Not_Found
         | Some p \<Rightarrow>
             let s = mark_stopped_on i True now s
             in if op_id p \<in> set (os_promoted s) then retry_operation_on p now s else Inr (p, s))"

definition start_on :: "environment_id \<Rightarrow> nat option \<Rightarrow> int \<Rightarrow> operation_store \<Rightarrow> store_error + operation \<times> operation_store" where
  "start_on i expected now s =
     and_then (checked_environment_on i expected s) (\<lambda>e.
       case latest_operation_on i s of
         None \<Rightarrow> Inl Store_Not_Found
       | Some p \<Rightarrow>
           let s = (if er_delete_intent e then s else mark_stopped_on i False now s)
           in if terminal (op_state p) \<or> op_error_code p \<noteq> None then retry_operation_on p now s else Inr (p, s))"

end
