(* ===== verification/Operation_Facts.thy ===== *)
theory Operation_Facts
  imports Operations
begin

text \<open>
  The invariant of the operations table and that every store operation keeps it.
\<close>

section \<open>Rows\<close>

text \<open>The table's \<open>CHECK\<close>s, and when the optional columns are set.\<close>

definition row_ok :: "operation \<Rightarrow> bool" where
  "row_ok p \<longleftrightarrow> (terminal (op_state p) \<longleftrightarrow> op_finished_at_ms p \<noteq> None)
     \<and> (op_error_code p = None \<longleftrightarrow> op_error_message p = None)
     \<and> (op_state p = Op_Running \<longrightarrow> op_started_at_ms p \<noteq> None)
     \<and> (op_state p = Op_Requested \<longrightarrow> op_started_at_ms p = None)
     \<and> (op_state p = Op_Failed \<longrightarrow> op_error_code p \<noteq> None)
     \<and> (op_error_code p \<noteq> None \<longrightarrow> op_state p \<in> {Op_Failed, Op_Running})"

definition newest :: "operation list \<Rightarrow> operation \<Rightarrow> bool" where
  "newest ops p \<longleftrightarrow> (\<forall>q\<in>set ops. op_environment_id q = op_environment_id p \<longrightarrow> op_created_at_ms q \<le> op_created_at_ms p)"

text \<open>
  Ids are unique, an environment's operations have increasing creation times, every row is well
  formed, and only an environment's newest operation is active.
\<close>

definition operations_ok :: "operation list \<Rightarrow> bool" where
  "operations_ok ops \<longleftrightarrow> distinct (map op_id ops)
     \<and> sorted_wrt (\<lambda>p q. op_environment_id p = op_environment_id q \<longrightarrow> op_created_at_ms p < op_created_at_ms q) ops
     \<and> (\<forall>p\<in>set ops. row_ok p) \<and> (\<forall>p\<in>set ops. active p \<longrightarrow> newest ops p)"

lemma same_id: "operations_ok ops \<Longrightarrow> p \<in> set ops \<Longrightarrow> q \<in> set ops \<Longrightarrow> op_id p = op_id q \<Longrightarrow> p = q"
  by (auto simp: operations_ok_def distinct_map inj_on_def)

lemma same_creation:
  assumes "operations_ok ops" "p \<in> set ops" "q \<in> set ops"
    and "op_environment_id p = op_environment_id q" "op_created_at_ms p = op_created_at_ms q"
  shows "p = q"
proof -
  have "sorted_wrt (\<lambda>p q. op_environment_id p = op_environment_id q \<longrightarrow> op_created_at_ms p < op_created_at_ms q) ops"
    using assms(1) by (simp add: operations_ok_def)
  then show ?thesis using assms(2-) by (induction ops) auto
qed

lemma at_most_one_active:
  assumes "operations_ok ops" "p \<in> set ops" "q \<in> set ops" "active p" "active q"
    and "op_environment_id p = op_environment_id q"
  shows "p = q"
proof -
  have "newest ops p" "newest ops q" using assms by (auto simp: operations_ok_def)
  then have "op_created_at_ms p = op_created_at_ms q" using assms(2,3,6) by (force simp: newest_def)
  then show ?thesis using same_creation assms by blast
qed

section \<open>The latest operation\<close>

definition pick_latest :: "operation \<Rightarrow> operation option \<Rightarrow> operation option" where
  "pick_latest p best = (case best of None \<Rightarrow> Some p | Some b \<Rightarrow> Some (if later p b then p else b))"

lemma latest_operation_pick:
  "latest_operation environment ops = fold pick_latest (filter (\<lambda>p. op_environment_id p = environment) ops) None"
  by (simp add: latest_operation_def pick_latest_def [abs_def])

lemma fold_latest:
  "\<exists>r. fold pick_latest ops (Some b) = Some r \<and> r \<in> insert b (set ops)
     \<and> (\<forall>q\<in>insert b (set ops). op_created_at_ms q \<le> op_created_at_ms r)"
proof (induction ops arbitrary: b)
  case (Cons p ops)
  obtain c where c: "pick_latest p (Some b) = Some c" "c \<in> {p, b}" "op_created_at_ms p \<le> op_created_at_ms c"
    "op_created_at_ms b \<le> op_created_at_ms c"
    by (auto simp: pick_latest_def later_def)
  from Cons.IH [of c] obtain r where "fold pick_latest ops (Some c) = Some r" "r \<in> insert c (set ops)"
    "\<forall>q\<in>insert c (set ops). op_created_at_ms q \<le> op_created_at_ms r" by blast
  with c show ?case by fastforce
qed simp

lemma latest_operation_newest:
  assumes "p \<in> set ops"
  obtains r where "latest_operation (op_environment_id p) ops = Some r" "r \<in> set ops"
    "op_environment_id r = op_environment_id p" "newest ops r"
proof -
  let ?rows = "filter (\<lambda>q. op_environment_id q = op_environment_id p) ops"
  obtain b rest where rows: "?rows = b # rest" using assms by (cases ?rows) (auto simp: filter_empty_conv)
  obtain r where r: "fold pick_latest rest (Some b) = Some r" "r \<in> insert b (set rest)"
    "\<forall>q\<in>insert b (set rest). op_created_at_ms q \<le> op_created_at_ms r"
    using fold_latest [of rest b] by blast
  have "set ?rows = insert b (set rest)" unfolding rows by simp
  then have mem: "q \<in> insert b (set rest) \<longleftrightarrow> q \<in> set ops \<and> op_environment_id q = op_environment_id p" for q by auto
  have "latest_operation (op_environment_id p) ops = Some r"
    using r(1) by (simp add: latest_operation_pick rows) (simp add: pick_latest_def)
  moreover have "r \<in> set ops" "op_environment_id r = op_environment_id p" using r(2) mem [of r] by simp_all
  moreover have "newest ops r" unfolding newest_def
  proof (intro ballI impI)
    fix q assume "q \<in> set ops" "op_environment_id q = op_environment_id r"
    then have "q \<in> insert b (set rest)" using mem [of q] calculation(3) by simp
    with r(3) show "op_created_at_ms q \<le> op_created_at_ms r" by blast
  qed
  ultimately show thesis by (rule that)
qed

lemma is_latest_iff:
  assumes "operations_ok ops" "p \<in> set ops"
  shows "is_latest ops p \<longleftrightarrow> newest ops p"
proof -
  obtain r where r: "latest_operation (op_environment_id p) ops = Some r" "r \<in> set ops"
    "op_environment_id r = op_environment_id p" "newest ops r"
    using assms(2) by (rule latest_operation_newest)
  have "newest ops p \<Longrightarrow> p = r"
    using same_creation [OF assms r(2)] r assms(2) by (force simp: newest_def)
  moreover have "op_id r = op_id p \<Longrightarrow> r = p" using same_id [OF assms(1) r(2) assms(2)] .
  ultimately show ?thesis using r by (auto simp: is_latest_def latest_id_def)
qed

section \<open>Changing the table\<close>

text \<open>Updates that keep what identifies a row.\<close>

definition keeps_identity :: "(operation \<Rightarrow> operation) \<Rightarrow> bool" where
  "keeps_identity f \<longleftrightarrow> (\<forall>p. op_id (f p) = op_id p \<and> op_environment_id (f p) = op_environment_id p
     \<and> op_kind (f p) = op_kind p \<and> op_created_at_ms (f p) = op_created_at_ms p)"

lemma operations_update:
  assumes ok: "operations_ok ops" and f: "keeps_identity f"
    and rows: "\<And>p. p \<in> set ops \<Longrightarrow> chosen p \<Longrightarrow> row_ok (f p) \<and> (active (f p) \<longrightarrow> newest ops p)"
  shows "operations_ok (update_where chosen f ops)"
proof -
  let ?g = "\<lambda>p. if chosen p then f p else p"
  have g: "op_id (?g p) = op_id p" "op_environment_id (?g p) = op_environment_id p"
    "op_created_at_ms (?g p) = op_created_at_ms p" for p
    using f by (auto simp: keeps_identity_def)
  have ids: "map op_id (map ?g ops) = map op_id ops" using g(1) by simp
  have new: "newest (map ?g ops) (?g p) = newest ops p" for p
    unfolding newest_def set_map ball_simps g ..
  show ?thesis
    unfolding operations_ok_def update_where_def
  proof (intro conjI ballI impI)
    show "distinct (map op_id (map ?g ops))" unfolding ids using ok by (simp add: operations_ok_def)
    show "sorted_wrt (\<lambda>p q. op_environment_id p = op_environment_id q \<longrightarrow> op_created_at_ms p < op_created_at_ms q) (map ?g ops)"
      unfolding sorted_wrt_map g using ok by (simp add: operations_ok_def)
    fix q assume q: "q \<in> set (map ?g ops)"
    then obtain p where p: "q = ?g p" "p \<in> set ops" unfolding set_map by blast
    show "row_ok q" using rows [OF p(2)] ok p by (auto simp: operations_ok_def)
    assume "active q"
    then show "newest (map ?g ops) q" unfolding p(1) new using rows [OF p(2)] ok p by (auto simp: operations_ok_def split: if_splits)
  qed
qed

lemma operations_filter: "operations_ok ops \<Longrightarrow> operations_ok (filter P ops)"
  by (auto simp: operations_ok_def newest_def distinct_map_filter sorted_wrt_filter)

lemma operations_append:
  assumes "operations_ok ops" "op_id p \<notin> op_id ` set ops" "row_ok p"
    and "\<And>q. q \<in> set ops \<Longrightarrow> op_environment_id q = op_environment_id p \<Longrightarrow>
      op_created_at_ms q < op_created_at_ms p \<and> \<not> active q"
  shows "operations_ok (ops @ [p])"
  using assms by (fastforce simp: operations_ok_def newest_def sorted_wrt_append)

section \<open>What the helpers leave alone\<close>

abbreviation deployment_ids :: "operation_store \<Rightarrow> string list" where
  "deployment_ids s \<equiv> map dr_id (os_deployments s)"

text \<open>The parts of a store the invariant reads.\<close>

definition same_core :: "operation_store \<Rightarrow> operation_store \<Rightarrow> bool" where
  "same_core s t \<longleftrightarrow> os_operations t = os_operations s \<and> deployment_ids t = deployment_ids s
     \<and> os_attempts t = os_attempts s \<and> os_job_cleanup t = os_job_cleanup s"

lemma same_core_refl [simp]: "same_core s s" by (simp add: same_core_def)

lemma same_core_trans: "same_core s t \<Longrightarrow> same_core t u \<Longrightarrow> same_core s u" by (simp add: same_core_def)

lemma operation_on_Inr: "operation_on i s = Inr p \<Longrightarrow> p \<in> set (os_operations s) \<and> op_id p = i"
  by (auto simp: operation_on_def split: option.splits dest: find_mem)

lemma operation_on_eq:
  "operations_ok (os_operations s) \<Longrightarrow> p \<in> set (os_operations s) \<Longrightarrow> operation_on (op_id p) s = Inr p"
  by (cases "List.find (\<lambda>q. op_id q = op_id p) (os_operations s)")
    (auto simp: operation_on_def find_none dest: find_mem same_id)

lemma operation_event_core: "operation_event i kind message now s = Inr t \<Longrightarrow> same_core s t"
  by (auto simp: operation_event_def same_core_def split: sum.splits)

lemma mark_stopped_core: "same_core s (mark_stopped_on i stopped now s)"
  by (simp add: mark_stopped_on_def environment_event_on_def same_core_def split: option.split)

lemma write_status_core: "same_core s (write_status i state now s)"
  by (simp add: write_status_def same_core_def)

lemma save_attempt_fields [simp]:
  "os_operations (save_deployment_attempt p s) = os_operations s"
  "os_job_cleanup (save_deployment_attempt p s) = os_job_cleanup s"
  "deployment_ids (save_deployment_attempt p s) = deployment_ids s"
  "os_attempts (save_deployment_attempt p s) =
     (if op_id p \<in> set (deployment_ids s) then (os_attempts s)((op_id p, op_attempt p) \<mapsto> p) else os_attempts s)"
  by (auto simp: save_deployment_attempt_def Let_def image_iff)

section \<open>The invariant\<close>

definition outcome_recorded :: "operation_store \<Rightarrow> operation \<Rightarrow> bool" where
  "outcome_recorded s p \<longleftrightarrow> op_id p \<in> set (deployment_ids s) \<longrightarrow> os_attempts s (op_id p, op_attempt p) = Some p"

definition store_ok :: "operation_store \<Rightarrow> bool" where
  "store_ok s \<longleftrightarrow> operations_ok (os_operations s)
     \<and> set (os_job_cleanup s) \<subseteq> op_id ` set (os_operations s)
     \<and> distinct (deployment_ids s) \<and> set (deployment_ids s) \<subseteq> op_id ` set (os_operations s)
     \<and> (\<forall>p\<in>set (os_operations s). op_kind p = Op_Delete \<longrightarrow> op_id p \<notin> set (deployment_ids s))
     \<and> (\<forall>p\<in>set (os_operations s). terminal (op_state p) \<longrightarrow> outcome_recorded s p)"

lemma store_ok_core: "same_core s t \<Longrightarrow> store_ok t = store_ok s"
  by (simp add: same_core_def store_ok_def outcome_recorded_def)

lemma update_where_ids: "keeps_identity f \<Longrightarrow> op_id ` set (update_where chosen f ops) = op_id ` set ops"
  unfolding update_where_def set_map image_image by (intro image_cong) (auto simp: keeps_identity_def)

lemma update_where_mem:
  "q \<in> set (update_where chosen f ops) \<longleftrightarrow> (\<exists>p\<in>set ops. q = (if chosen p then f p else p))"
  by (auto simp: update_where_def)

text \<open>Recording the outcomes of rows.\<close>

lemma record_attempts_Inr:
  assumes "record_attempts ids s = Inr t" and "operations_ok (os_operations s)" and "distinct ids"
  shows "os_operations t = os_operations s \<and> os_job_cleanup t = os_job_cleanup s \<and> deployment_ids t = deployment_ids s
    \<and> (\<forall>p\<in>set (os_operations s). op_id p \<in> set ids \<longrightarrow> outcome_recorded t p)
    \<and> (\<forall>i attempt. i \<notin> set ids \<longrightarrow> os_attempts t (i, attempt) = os_attempts s (i, attempt))"
  using assms
proof (induction ids arbitrary: s)
  case (Cons i ids)
  obtain p where p: "operation_on i s = Inr p" and rest: "record_attempts ids (save_deployment_attempt p s) = Inr t"
    using Cons.prems(1) by (auto simp: and_then_Inr record_deployment_attempt_def split: sum.splits)
  note ih = Cons.IH [OF rest, simplified, OF Cons.prems(2)]
  have "outcome_recorded t q" if "q \<in> set (os_operations s)" "op_id q = i" for q
  proof -
    have "q = p" using same_id [OF Cons.prems(2)] operation_on_Inr [OF p] that by simp
    then show ?thesis using ih Cons.prems(3) that by (auto simp: outcome_recorded_def)
  qed
  with ih Cons.prems(3) operation_on_Inr [OF p] show ?case by auto
qed simp

section \<open>Updates of one row\<close>

lemma chosen_one:
  assumes "operations_ok ops" and "length (filter chosen ops) = 1" and "\<And>p. chosen p \<Longrightarrow> op_id p = i"
  obtains p where "p \<in> set ops" "op_id p = i" "chosen p"
    "\<And>f. update_where chosen f ops = update_where (\<lambda>q. op_id q = i) f ops"
proof -
  obtain p where "filter chosen ops = [p]" using assms(2) by (auto simp: length_Suc_conv)
  then have p: "p \<in> set ops" "chosen p" by (auto simp: filter_eq_Cons_iff)
  have "chosen q = (op_id q = i)" if "q \<in> set ops" for q
    using same_id [OF assms(1) that p(1)] assms(3) p(2) by auto
  then have "update_where chosen f ops = update_where (\<lambda>q. op_id q = i) f ops" for f
    by (auto simp: update_where_def)
  with p assms(3) show thesis by (intro that) auto
qed

lemma store_update:
  assumes ok: "store_ok s" and f: "keeps_identity f"
    and ops: "os_operations t = update_where chosen f (os_operations s)"
    and rows: "\<And>p. p \<in> set (os_operations s) \<Longrightarrow> chosen p \<Longrightarrow>
      row_ok (f p) \<and> (active (f p) \<longrightarrow> newest (os_operations s) p) \<and> (terminal (op_state (f p)) \<longrightarrow> outcome_recorded t (f p))"
    and others: "\<And>p. p \<in> set (os_operations s) \<Longrightarrow> \<not> chosen p \<Longrightarrow> outcome_recorded s p \<Longrightarrow> outcome_recorded t p"
    and t: "deployment_ids t = deployment_ids s" "set (os_job_cleanup t) \<subseteq> op_id ` set (os_operations s)"
  shows "store_ok t"
proof -
  have "operations_ok (os_operations t)"
    unfolding ops using ok rows by (intro operations_update f) (auto simp: store_ok_def)
  moreover have "op_id ` set (os_operations t) = op_id ` set (os_operations s)"
    unfolding ops by (rule update_where_ids [OF f])
  moreover have "terminal (op_state q) \<longrightarrow> outcome_recorded t q" if "q \<in> set (os_operations t)" for q
    using that rows others ok by (auto simp: ops update_where_mem store_ok_def)
  moreover have "op_id q \<notin> set (deployment_ids t)" if "q \<in> set (os_operations t)" "op_kind q = Op_Delete" for q
  proof -
    from that(1) have "\<exists>p\<in>set (os_operations s). q = (if chosen p then f p else p)"
      unfolding ops update_where_mem .
    then obtain p where p: "p \<in> set (os_operations s)" "q = (if chosen p then f p else p)" by blast
    then have "op_id q = op_id p" "op_kind p = Op_Delete" using f that(2) by (auto simp: keeps_identity_def split: if_splits)
    with ok p(1) t(1) show ?thesis by (simp add: store_ok_def)
  qed
  ultimately show ?thesis using ok t by (simp add: store_ok_def)
qed

lemma transition_row_identity: "keeps_identity (transition_row to failure now)"
  by (simp add: keeps_identity_def transition_row_def)

lemma transition_Inr:
  assumes ok: "operations_ok (os_operations s)" and tr: "transition_operation_on i old to failure now s = Inr t"
  obtains p where "p \<in> set (os_operations s)" "op_id p = i" "op_state p = old" "newest (os_operations s) p"
    "can_transition_to old to" "(failure \<noteq> None) = (to = Op_Failed)"
    "os_operations t = update_where (\<lambda>q. op_id q = i) (transition_row to failure now) (os_operations s)"
    "deployment_ids t = deployment_ids s" "set (os_job_cleanup t) \<subseteq> insert i (set (os_job_cleanup s))"
    "fails_job failure \<longrightarrow> i \<in> set (os_job_cleanup t)"
    "os_attempts t = (if terminal to \<and> i \<in> set (deployment_ids s)
       then (os_attempts s)((i, op_attempt (transition_row to failure now p)) \<mapsto> transition_row to failure now p)
       else os_attempts s)"
proof -
  let ?chosen = "\<lambda>p. op_id p = i \<and> op_state p = old \<and> is_latest (os_operations s) p"
  let ?f = "transition_row to failure now"
  have g: "can_transition_to old to" "(failure \<noteq> None) = (to = Op_Failed)" "length (filter ?chosen (os_operations s)) = 1"
    using tr by (auto simp: transition_operation_on_def Let_def split: if_splits)
  obtain p where p: "p \<in> set (os_operations s)" "op_id p = i" "?chosen p"
    and upd: "\<And>f. update_where ?chosen f (os_operations s) = update_where (\<lambda>q. op_id q = i) f (os_operations s)"
    by (rule chosen_one [OF ok g(3)]) auto
  define s1 where "s1 = s\<lparr>os_operations := update_where (\<lambda>q. op_id q = i) ?f (os_operations s)\<rparr>"
  define s2 where "s2 = (if fails_job failure then request_job_cleanup_on i s1 else s1)"
  have s2: "os_operations s2 = update_where (\<lambda>q. op_id q = i) ?f (os_operations s)" "deployment_ids s2 = deployment_ids s"
    "os_attempts s2 = os_attempts s" "set (os_job_cleanup s2) \<subseteq> insert i (set (os_job_cleanup s))"
    "fails_job failure \<longrightarrow> i \<in> set (os_job_cleanup s2)"
    by (auto simp: s2_def s1_def request_job_cleanup_on_def)
  obtain s3 where s3: "(if terminal to then record_deployment_attempt i s2 else Inr s2) = Inr s3" and t: "same_core s3 t"
    using tr g unfolding transition_operation_on_def Let_def upd s1_def [symmetric] s2_def [symmetric]
    by (auto simp: and_then_Inr dest: operation_event_core split: if_splits)
  have find: "operation_on i s2 = Inr (?f p)"
  proof -
    have "distinct (map op_id (os_operations s2))"
      using ok transition_row_identity [of to failure now]
      by (simp add: s2(1) operations_ok_def update_where_def keeps_identity_def if_distrib o_def cong: if_cong)
    moreover have "?f p \<in> set (os_operations s2)" "op_id (?f p) = i"
      using p by (auto simp: s2(1) update_where_mem transition_row_def)
    ultimately show ?thesis
      by (cases "List.find (\<lambda>q. op_id q = i) (os_operations s2)")
        (auto simp: operation_on_def find_none distinct_map inj_on_def dest: find_mem)
  qed
  have "os_attempts s3 = (if terminal to \<and> i \<in> set (deployment_ids s) then (os_attempts s)((i, op_attempt (?f p)) \<mapsto> ?f p) else os_attempts s)
    \<and> os_operations s3 = os_operations s2 \<and> deployment_ids s3 = deployment_ids s \<and> os_job_cleanup s3 = os_job_cleanup s2"
    using s3 find s2 p(2) by (auto simp: record_deployment_attempt_def transition_row_def split: if_splits)
  with t s2 g p is_latest_iff [OF ok p(1)] show thesis by (intro that [of p]) (auto simp: same_core_def)
qed

section \<open>Every operation keeps the invariant\<close>

lemma transition_row_ok:
  "row_ok p \<Longrightarrow> (failure \<noteq> None) = (to = Op_Failed) \<Longrightarrow> row_ok (transition_row to failure now p)"
  by (auto simp: row_ok_def transition_row_def terminal_def split: option.splits)

lemma transition_ok:
  assumes ok: "store_ok s" and tr: "transition_operation_on i old to failure now s = Inr t"
  shows "store_ok t"
proof -
  have ops: "operations_ok (os_operations s)" using ok by (simp add: store_ok_def)
  obtain p where p: "p \<in> set (os_operations s)" "op_id p = i" "op_state p = old" "newest (os_operations s) p"
    "can_transition_to old to" "(failure \<noteq> None) = (to = Op_Failed)"
    and t: "os_operations t = update_where (\<lambda>q. op_id q = i) (transition_row to failure now) (os_operations s)"
      "deployment_ids t = deployment_ids s" "set (os_job_cleanup t) \<subseteq> insert i (set (os_job_cleanup s))"
      "fails_job failure \<longrightarrow> i \<in> set (os_job_cleanup t)"
      "os_attempts t = (if terminal to \<and> i \<in> set (deployment_ids s)
         then (os_attempts s)((i, op_attempt (transition_row to failure now p)) \<mapsto> transition_row to failure now p)
         else os_attempts s)"
    by (rule transition_Inr [OF ops tr])
  show ?thesis
  proof (rule store_update [OF ok transition_row_identity t(1) _ _ t(2)])
    fix q assume q: "q \<in> set (os_operations s)" "op_id q = i"
    then have qp: "q = p" using same_id [OF ops _ p(1)] p(2) by simp
    have "row_ok p" using ops p(1) by (simp add: operations_ok_def)
    then have "row_ok (transition_row to failure now p)" using p(6) by (rule transition_row_ok)
    moreover have "terminal to \<Longrightarrow> outcome_recorded t (transition_row to failure now p)"
      using p(2) t(2,5) by (simp add: outcome_recorded_def) (simp add: transition_row_def)
    moreover have "op_state (transition_row to failure now p) = to" by (simp add: transition_row_def)
    ultimately show "row_ok (transition_row to failure now q)
        \<and> (active (transition_row to failure now q) \<longrightarrow> newest (os_operations s) q)
        \<and> (terminal (op_state (transition_row to failure now q)) \<longrightarrow> outcome_recorded t (transition_row to failure now q))"
      using p(4) unfolding qp by simp
  next
    fix q assume "q \<in> set (os_operations s)" "op_id q \<noteq> i" "outcome_recorded s q"
    then show "outcome_recorded t q" using t(2,5) by (auto simp: outcome_recorded_def)
  next
    show "set (os_job_cleanup t) \<subseteq> op_id ` set (os_operations s)"
      using t(3) p(1,2) ok by (auto simp: store_ok_def)
  qed
qed

text \<open>Updates that leave states alone, or reopen an operation, without touching outcomes.\<close>

lemma store_update_open:
  assumes ok: "store_ok s" and f: "keeps_identity f"
    and t: "os_operations t = update_where chosen f (os_operations s)" "deployment_ids t = deployment_ids s"
      "os_attempts t = os_attempts s" "os_job_cleanup t = os_job_cleanup s"
    and rows: "\<And>p. p \<in> set (os_operations s) \<Longrightarrow> chosen p \<Longrightarrow> row_ok p \<Longrightarrow>
      row_ok (f p) \<and> active (f p) \<and> newest (os_operations s) p"
  shows "store_ok t"
proof (rule store_update [OF ok f t(1) _ _ t(2)])
  fix p assume p: "p \<in> set (os_operations s)" "chosen p"
  then have "row_ok p" using ok by (simp add: store_ok_def operations_ok_def)
  from rows [OF p this] show "row_ok (f p) \<and> (active (f p) \<longrightarrow> newest (os_operations s) p)
      \<and> (terminal (op_state (f p)) \<longrightarrow> outcome_recorded t (f p))"
    by (auto simp: active_def terminal_def)
next
  fix p assume "outcome_recorded s p"
  then show "outcome_recorded t p" using t by (simp add: outcome_recorded_def)
qed (use ok t in \<open>auto simp: store_ok_def\<close>)

lemma running_newest: "store_ok s \<Longrightarrow> p \<in> set (os_operations s) \<Longrightarrow> op_state p = Op_Running \<Longrightarrow> newest (os_operations s) p"
  by (auto simp: store_ok_def operations_ok_def active_def)

lemma record_error_Inr:
  assumes "operations_ok (os_operations s)" and "record_operation_error i code message now s = Inr t"
  obtains u where "same_core u t" "deployment_ids u = deployment_ids s" "os_attempts u = os_attempts s"
    "os_job_cleanup u = os_job_cleanup s"
    "os_operations u = update_where (\<lambda>p. op_id p = i \<and> op_state p = Op_Running)
       (\<lambda>p. p\<lparr>op_consecutive_failures := op_consecutive_failures p + 1, op_error_code := Some code,
            op_error_message := Some message, op_updated_at_ms := now\<rparr>) (os_operations s)"
  using assms(2) unfolding record_operation_error_def Let_def
  by (auto split: if_splits option.splits dest!: operation_event_core intro!: that)

lemma record_error_ok:
  assumes ok: "store_ok s" and r: "record_operation_error i code message now s = Inr t"
  shows "store_ok t"
proof -
  have "operations_ok (os_operations s)" using ok by (simp add: store_ok_def)
  from this r obtain u where u: "same_core u t" "deployment_ids u = deployment_ids s" "os_attempts u = os_attempts s"
    "os_job_cleanup u = os_job_cleanup s"
    "os_operations u = update_where (\<lambda>p. op_id p = i \<and> op_state p = Op_Running)
       (\<lambda>p. p\<lparr>op_consecutive_failures := op_consecutive_failures p + 1, op_error_code := Some code,
            op_error_message := Some message, op_updated_at_ms := now\<rparr>) (os_operations s)"
    by (rule record_error_Inr)
  have "store_ok u"
    by (rule store_update_open [OF ok _ u(5,2,3,4)])
      (use running_newest [OF ok] in \<open>auto simp: keeps_identity_def row_ok_def active_def terminal_def\<close>)
  then show ?thesis using store_ok_core [OF u(1)] by simp
qed

lemma progress_ok:
  assumes ok: "store_ok s" and r: "progress i phase resource s = Inr t"
  shows "store_ok t"
proof -
  let ?chosen = "\<lambda>p. op_id p = i \<and> op_state p = Op_Running \<and> is_latest (os_operations s) p"
  have t: "t = s\<lparr>os_operations := update_where ?chosen (\<lambda>p. p\<lparr>op_phase := Some phase, op_resource := resource\<rparr>) (os_operations s)\<rparr>"
    using r by (simp add: progress_def Let_def split: if_splits)
  show ?thesis
    by (rule store_update_open [OF ok, of "\<lambda>p. p\<lparr>op_phase := Some phase, op_resource := resource\<rparr>" t ?chosen])
      (use running_newest [OF ok] in \<open>auto simp: t keeps_identity_def row_ok_def active_def terminal_def\<close>)
qed

lemma advance_generation_ok:
  assumes ok: "store_ok s"
    and running: "length (filter (\<lambda>p. op_id p = i \<and> op_state p = Op_Running \<and> is_latest (os_operations s) p) (os_operations s)) = 1"
  shows "store_ok (advance_generation i previous s)"
proof -
  let ?f = "\<lambda>p. p\<lparr>op_generation := previous + 1\<rparr>" and ?chosen = "\<lambda>p. op_id p = i \<and> op_generation p = previous"
  have ops: "operations_ok (os_operations s)" using ok by (simp add: store_ok_def)
  let ?running = "filter (\<lambda>p. op_id p = i \<and> op_state p = Op_Running \<and> is_latest (os_operations s) p) (os_operations s)"
  obtain p where "p \<in> set ?running" using running by (cases ?running) auto
  then have p: "p \<in> set (os_operations s)" "op_id p = i" "op_state p = Op_Running" by auto
  have chosen: "op_state q = Op_Running" if "q \<in> set (os_operations s)" "?chosen q" for q
    using same_id [OF ops that(1) p(1)] that(2) p(2,3) by simp
  show ?thesis
    by (rule store_update_open [OF ok, of ?f "advance_generation i previous s" ?chosen])
      (use chosen running_newest [OF ok] in \<open>auto simp: advance_generation_def keeps_identity_def row_ok_def active_def terminal_def\<close>)
qed

lemma set_status_core: "set_status_for_operation i state message now s = Inr (latest, t) \<Longrightarrow> same_core s t"
  by (auto simp: set_status_for_operation_def Let_def and_then_Inr same_core_def split: option.splits if_splits
      dest!: operation_event_core)

lemma retry_cases:
  assumes "retry_operation_on p now s = Inr (q, t)"
  obtains (unchanged) "t = s"
  | (reopened) u where "same_core u t" "deployment_ids u = deployment_ids s" "os_attempts u = os_attempts s"
      "os_job_cleanup u = os_job_cleanup s"
      "os_operations u = update_where (retryable (os_operations s) (op_id p)) (reopened now) (os_operations s)"
proof (cases "length (filter (retryable (os_operations s) (op_id p)) (os_operations s)) = 1")
  case False
  with assms unchanged show thesis
    by (auto simp: retry_operation_on_def Let_def and_then_Inr split: if_splits)
next
  case True
  let ?u = "s\<lparr>os_operations := update_where (retryable (os_operations s) (op_id p)) (reopened now) (os_operations s)\<rparr>"
  have "\<exists>i state. operation_event i ''reconciliation_requested'' None now (write_status (op_environment_id p) state now ?u) = Inr t"
    using assms True
    by (auto simp: retry_operation_on_def Let_def and_then_Inr)
  then have "same_core ?u t"
    using same_core_trans [OF write_status_core operation_event_core] by blast
  then show thesis by (rule reopened) simp_all
qed

lemma reopened_identity: "keeps_identity (reopened now)"
  by (simp add: keeps_identity_def reopened_def)

lemma retry_ok:
  assumes ok: "store_ok s" and r: "retry_operation_on p now s = Inr (q, t)"
  shows "store_ok t"
  using r
proof (cases rule: retry_cases)
  case (reopened u)
  have "operations_ok (os_operations s)" using ok by (simp add: store_ok_def)
  then have "store_ok u"
    by (intro store_update_open [OF ok reopened_identity reopened(5,2,3,4)])
      (auto simp: retryable_def is_latest_iff reopened_def row_ok_def active_def terminal_def)
  then show ?thesis using store_ok_core [OF reopened(1)] by simp
qed (use ok in simp)

lemma fold_save:
  assumes "\<And>p. op_id (f p) = op_id p"
  shows "os_operations (fold (\<lambda>p. save_deployment_attempt (f p)) ps s) = os_operations s
    \<and> os_job_cleanup (fold (\<lambda>p. save_deployment_attempt (f p)) ps s) = os_job_cleanup s
    \<and> deployment_ids (fold (\<lambda>p. save_deployment_attempt (f p)) ps s) = deployment_ids s
    \<and> (\<forall>i attempt. i \<notin> op_id ` set ps \<longrightarrow>
        os_attempts (fold (\<lambda>p. save_deployment_attempt (f p)) ps s) (i, attempt) = os_attempts s (i, attempt))"
  by (induction ps arbitrary: s) (auto simp: assms)

lemma recover_ops:
  "os_operations (snd (recover_interrupted now s)) = update_where (\<lambda>p. op_state p = Op_Running) (interrupted now) (os_operations s)"
  "deployment_ids (snd (recover_interrupted now s)) = deployment_ids s"
  "os_job_cleanup (snd (recover_interrupted now s)) = os_job_cleanup s"
  "i \<notin> op_id ` {p \<in> set (os_operations s). op_state p = Op_Running} \<Longrightarrow>
     os_attempts (snd (recover_interrupted now s)) (i, attempt) = os_attempts s (i, attempt)"
proof -
  let ?cancel = "\<lambda>p. p\<lparr>op_state := Op_Cancelled, op_updated_at_ms := now, op_finished_at_ms := Some now\<rparr>"
  note save = fold_save [of ?cancel "filter (\<lambda>p. op_state p = Op_Running) (os_operations s)"]
  show "os_operations (snd (recover_interrupted now s)) = update_where (\<lambda>p. op_state p = Op_Running) (interrupted now) (os_operations s)"
    "deployment_ids (snd (recover_interrupted now s)) = deployment_ids s"
    "os_job_cleanup (snd (recover_interrupted now s)) = os_job_cleanup s"
    "i \<notin> op_id ` {p \<in> set (os_operations s). op_state p = Op_Running} \<Longrightarrow>
       os_attempts (snd (recover_interrupted now s)) (i, attempt) = os_attempts s (i, attempt)"
    using save by (simp_all add: recover_interrupted_def Let_def)
qed

lemma interrupted_identity: "keeps_identity (interrupted now)"
  by (simp add: keeps_identity_def interrupted_def)

lemma recover_ok:
  assumes ok: "store_ok s"
  shows "store_ok (snd (recover_interrupted now s))"
proof (rule store_update [OF ok interrupted_identity recover_ops(1) _ _ recover_ops(2)])
  have ops: "operations_ok (os_operations s)" using ok by (simp add: store_ok_def)
  fix p assume p: "p \<in> set (os_operations s)"
  {
    assume r: "op_state p = Op_Running"
    moreover have "row_ok p" using ops p by (simp add: operations_ok_def)
    ultimately have "row_ok (interrupted now p) \<and> \<not> terminal (op_state (interrupted now p))"
      by (auto simp: row_ok_def interrupted_def terminal_def)
    with running_newest [OF ok p r] show "row_ok (interrupted now p)
        \<and> (active (interrupted now p) \<longrightarrow> newest (os_operations s) p)
        \<and> (terminal (op_state (interrupted now p)) \<longrightarrow> outcome_recorded (snd (recover_interrupted now s)) (interrupted now p))"
      by simp
  }
  assume "op_state p \<noteq> Op_Running" "outcome_recorded s p"
  moreover have "op_id p \<notin> op_id ` {p \<in> set (os_operations s). op_state p = Op_Running}"
    using same_id [OF ops p] \<open>op_state p \<noteq> Op_Running\<close> by auto
  ultimately show "outcome_recorded (snd (recover_interrupted now s)) p"
    by (simp add: outcome_recorded_def recover_ops)
qed (use ok in \<open>auto simp: store_ok_def recover_ops\<close>)

section \<open>Starting\<close>

lemma superseded_identity: "keeps_identity (superseded_row now)"
  by (simp add: keeps_identity_def superseded_row_def)

lemma supersede_Inr:
  assumes ok: "store_ok s" and r: "supersede_operations environment now s = Inr t"
  shows "os_operations t = update_where (\<lambda>p. op_environment_id p = environment \<and> active p) (superseded_row now) (os_operations s)"
    and "deployment_ids t = deployment_ids s" and "store_ok t"
proof -
  let ?chosen = "\<lambda>p. op_environment_id p = environment \<and> active p"
  let ?rows = "filter ?chosen (os_operations s)"
  let ?ops = "update_where ?chosen (superseded_row now) (os_operations s)"
  have ops: "operations_ok (os_operations s)" using ok by (simp add: store_ok_def)
  obtain u where u: "record_attempts (map op_id ?rows) u = Inr t" "os_operations u = ?ops"
    "deployment_ids u = deployment_ids s" "os_attempts u = os_attempts s" "os_job_cleanup u = os_job_cleanup s"
    using r by (auto simp: supersede_operations_def Let_def)
  have row: "row_ok (superseded_row now p) \<and> \<not> active (superseded_row now p)"
    if "p \<in> set (os_operations s)" "active p" for p
    using that ops by (auto simp: operations_ok_def row_ok_def superseded_row_def active_def terminal_def)
  have "operations_ok ?ops"
    using row by (intro operations_update ops superseded_identity) auto
  moreover have "distinct (map op_id ?rows)" using ops by (simp add: operations_ok_def distinct_map_filter)
  ultimately have t: "os_operations t = ?ops" "os_job_cleanup t = os_job_cleanup s" "deployment_ids t = deployment_ids s"
    "\<And>p. p \<in> set ?ops \<Longrightarrow> op_id p \<in> op_id ` set ?rows \<Longrightarrow> outcome_recorded t p"
    "\<And>i attempt. i \<notin> op_id ` set ?rows \<Longrightarrow> os_attempts t (i, attempt) = os_attempts s (i, attempt)"
    using record_attempts_Inr [OF u(1)] u by auto
  show "os_operations t = ?ops" "deployment_ids t = deployment_ids s" using t by simp_all
  show "store_ok t"
  proof (rule store_update [OF ok superseded_identity t(1) _ _ t(3)])
    fix p assume p: "p \<in> set (os_operations s)" "?chosen p"
    then have "superseded_row now p \<in> set ?ops" "op_id (superseded_row now p) \<in> op_id ` set ?rows"
      by (auto simp: update_where_mem superseded_row_def)
    with row p t(4) show "row_ok (superseded_row now p)
        \<and> (active (superseded_row now p) \<longrightarrow> newest (os_operations s) p)
        \<and> (terminal (op_state (superseded_row now p)) \<longrightarrow> outcome_recorded t (superseded_row now p))"
      by auto
  next
    fix p assume p: "p \<in> set (os_operations s)" "\<not> ?chosen p" "outcome_recorded s p"
    then have "op_id p \<notin> op_id ` set ?rows" using same_id [OF ops p(1)] by auto
    with p t show "outcome_recorded t p" by (simp add: outcome_recorded_def)
  qed (use t ok in \<open>auto simp: store_ok_def\<close>)
qed

lemma creation_time_later:
  "p \<in> set ops \<Longrightarrow> op_environment_id p = environment \<Longrightarrow> op_created_at_ms p < creation_time environment now ops"
proof -
  have grows: "t \<le> fold (\<lambda>p t. max t (op_created_at_ms p + 1)) ps t" for ps t
    by (induction ps arbitrary: t) (auto intro: order_trans [OF max.cobounded1])
  have "p \<in> set ps \<Longrightarrow> op_created_at_ms p < fold (\<lambda>p t. max t (op_created_at_ms p + 1)) ps t" for ps t
  proof (induction ps arbitrary: t)
    case (Cons q ps)
    show ?case
      using Cons grows [of "max t (op_created_at_ms q + 1)" ps] by (cases "p = q") auto
  qed simp
  then show "p \<in> set ops \<Longrightarrow> op_environment_id p = environment \<Longrightarrow> op_created_at_ms p < creation_time environment now ops"
    by (simp add: creation_time_def)
qed

lemma new_operation_ok: "row_ok (new_operation i environment generation kind created now)"
  by (simp add: row_ok_def new_operation_def terminal_def)

lemma insert_row_ok:
  assumes ok: "store_ok s" and r: "insert_operation_row fresh environment kind now s = Inr t"
    and idle: "\<And>p. p \<in> set (os_operations s) \<Longrightarrow> op_environment_id p = environment \<Longrightarrow> \<not> active p"
  shows "store_ok t"
proof (cases "environment_generation environment s")
  case (Some generation)
  let ?p = "new_operation fresh environment generation kind (creation_time environment now (os_operations s)) now"
  have t: "t = s\<lparr>os_operations := os_operations s @ [?p]\<rparr>" and fresh: "fresh \<notin> op_id ` set (os_operations s)"
    using r Some by (simp_all add: insert_operation_row_def split: if_splits)
  have "operations_ok (os_operations s @ [?p])"
    using ok fresh idle creation_time_later new_operation_ok
    by (intro operations_append) (auto simp: store_ok_def new_operation_def)
  moreover have "\<not> terminal (op_state ?p)" "op_id ?p \<notin> set (deployment_ids s)"
    using fresh ok by (auto simp: new_operation_def terminal_def store_ok_def)
  ultimately show ?thesis using ok by (auto simp: t store_ok_def outcome_recorded_def)
qed (use ok r in \<open>simp add: insert_operation_row_def\<close>)

lemma supersede_idle:
  assumes "store_ok s" and "supersede_operations environment now s = Inr t"
    and "p \<in> set (os_operations t)" and "op_environment_id p = environment"
  shows "\<not> active p"
proof -
  let ?chosen = "\<lambda>p. op_environment_id p = environment \<and> active p"
  obtain q where "p = (if ?chosen q then superseded_row now q else q)"
    using assms(3) unfolding supersede_Inr(1) [OF assms(1,2)] update_where_mem by blast
  then show ?thesis using assms(4) by (cases "?chosen q") (auto simp: superseded_row_def active_def)
qed

lemma start_Inr:
  assumes "start_operation fresh environment kind now s = Inr (p, t)"
  obtains u v where "supersede_operations environment now s = Inr u" "insert_operation_row fresh environment kind now u = Inr v"
    "same_core v t" "operation_on fresh t = Inr p"
proof -
  from assms obtain u v w where u: "supersede_operations environment now s = Inr u"
    "insert_operation_row fresh environment kind now u = Inr v" "operation_event fresh (request_event kind) None now v = Inr w"
    and t: "t = (if kind \<noteq> Op_Delete then mark_stopped_on environment False now w else w)" "operation_on fresh t = Inr p"
    by (auto simp: start_operation_def and_then_Inr Let_def)
  have "same_core w t" unfolding t(1) by (simp add: mark_stopped_core)
  with same_core_trans [OF operation_event_core [OF u(3)]] have "same_core v t" by blast
  then show thesis using t(2) by (rule that [OF u(1,2)])
qed

lemma start_ok:
  assumes ok: "store_ok s" and r: "start_operation fresh environment kind now s = Inr (p, t)"
  shows "store_ok t"
proof -
  obtain u v where u: "supersede_operations environment now s = Inr u"
    "insert_operation_row fresh environment kind now u = Inr v" "same_core v t" "operation_on fresh t = Inr p"
    by (rule start_Inr [OF r])
  have "store_ok v"
    by (rule insert_row_ok [OF supersede_Inr(3) [OF ok u(1)] u(2)]) (rule supersede_idle [OF ok u(1)])
  then show ?thesis using store_ok_core [OF u(3)] by simp
qed

lemma capture_ok:
  assumes ok: "store_ok s" and r: "capture_deployment rendered i environment s = Inr t"
    and open_row: "\<And>p. operation_on i s = Inr p \<Longrightarrow> \<not> terminal (op_state p) \<and> op_kind p \<noteq> Op_Delete"
  shows "store_ok t"
proof (cases "operation_on i s")
  case (Inl e)
  with r ok show ?thesis by (auto simp: capture_deployment_def split: if_splits option.splits)
next
  case (Inr p)
  then have t: "t = s\<lparr>os_deployments := os_deployments s
      @ [\<lparr>dr_id = i, dr_environment_id = op_environment_id p, dr_succeeded_at_ms = None\<rparr>]\<rparr>" "i \<notin> set (deployment_ids s)"
    using r by (auto simp: capture_deployment_def split: if_splits option.splits)
  have "p \<in> set (os_operations s)" "op_id p = i" using operation_on_Inr [OF Inr] by simp_all
  moreover have "\<not> terminal (op_state q) \<and> op_kind q \<noteq> Op_Delete" if "q \<in> set (os_operations s)" "op_id q = i" for q
    using that same_id [of "os_operations s" q p] ok calculation open_row [OF Inr] by (auto simp: store_ok_def)
  ultimately show ?thesis using ok t by (auto simp: store_ok_def outcome_recorded_def)
qed

lemma creation_time_update:
  assumes "\<And>p. op_environment_id (f p) = op_environment_id p" "\<And>p. op_created_at_ms (f p) = op_created_at_ms p"
  shows "creation_time environment now (update_where chosen f ops) = creation_time environment now ops"
  unfolding creation_time_def update_where_def
  by (induction ops arbitrary: now) (auto simp: assms)

lemma start_row:
  assumes ok: "store_ok s" and fresh: "fresh \<notin> op_id ` set (os_operations s)"
    and r: "start_operation fresh environment kind now s = Inr (p, t)"
  obtains generation created where "p = new_operation fresh environment generation kind created now"
    "os_operations t = update_where (\<lambda>p. op_environment_id p = environment \<and> active p) (superseded_row now)
      (os_operations s) @ [p]" "operation_on fresh t = Inr p"
    "created = creation_time environment now (os_operations s)"
proof -
  obtain u v where u: "supersede_operations environment now s = Inr u"
    "insert_operation_row fresh environment kind now u = Inr v" "same_core v t" "operation_on fresh t = Inr p"
    by (rule start_Inr [OF r])
  note uops = supersede_Inr(1) [OF ok u(1)]
  have p: "p \<in> set (os_operations v)" "op_id p = fresh"
    using operation_on_Inr [OF u(4)] u(3) by (auto simp: same_core_def)
  have ids: "op_id ` set (os_operations u) = op_id ` set (os_operations s)"
    unfolding uops by (rule update_where_ids [OF superseded_identity])
  then have new: "p \<notin> set (os_operations u)" using p(2) fresh by (metis imageI)
  then obtain generation where g: "environment_generation environment u = Some generation"
    using p(1) u(2) by (cases "environment_generation environment u") (auto simp: insert_operation_row_def)
  let ?new = "new_operation fresh environment generation kind (creation_time environment now (os_operations u)) now"
  have v: "os_operations v = os_operations u @ [?new]"
    using u(2) g by (auto simp: insert_operation_row_def split: if_splits)
  have "p = ?new" using p(1) new v by auto
  moreover have "creation_time environment now (os_operations u) = creation_time environment now (os_operations s)"
    unfolding uops by (rule creation_time_update) (simp_all add: superseded_row_def)
  ultimately show thesis using that [of generation "creation_time environment now (os_operations s)"] u(3,4) v
    by (simp add: same_core_def uops)
qed

lemma insert_Inr:
  assumes "insert_operation rendered fresh environment kind now s = Inr (p, t)"
  obtains u where "start_operation fresh environment kind now s = Inr (p, u)"
    "if kind = Op_Delete then t = u else capture_deployment rendered (op_id p) environment u = Inr t"
  using assms by (auto simp: insert_operation_def and_then_Inr split: if_splits)

lemma capture_operations: "capture_deployment rendered i environment s = Inr t \<Longrightarrow> os_operations t = os_operations s"
  by (auto simp: capture_deployment_def split: if_splits option.splits sum.splits)

lemma insert_ok:
  assumes ok: "store_ok s" and fresh: "fresh \<notin> op_id ` set (os_operations s)"
    and r: "insert_operation rendered fresh environment kind now s = Inr (p, t)"
  shows "store_ok t"
proof -
  obtain u where u: "start_operation fresh environment kind now s = Inr (p, u)"
    "if kind = Op_Delete then t = u else capture_deployment rendered (op_id p) environment u = Inr t"
    by (rule insert_Inr [OF r])
  obtain generation created where p: "p = new_operation fresh environment generation kind created now"
    "operation_on fresh u = Inr p"
    by (rule start_row [OF ok fresh u(1)])
  have row: "\<not> terminal (op_state p)" "op_id p = fresh" "op_kind p = kind"
    by (simp_all add: p(1) new_operation_def terminal_def)
  have "store_ok t" if "capture_deployment rendered fresh environment u = Inr t" "kind \<noteq> Op_Delete"
    by (rule capture_ok [OF start_ok [OF ok u(1)] that(1)]) (use p(2) row that(2) in simp)
  with u(2) start_ok [OF ok u(1)] row(2) show ?thesis by (auto split: if_splits)
qed

section \<open>Deleting\<close>

lemma retain_ok:
  assumes ok: "store_ok s"
  shows "store_ok (retain_operations keep s)"
proof -
  have ops: "operations_ok (os_operations s)" using ok by (simp add: store_ok_def)
  let ?gone = "op_id ` set (filter (\<lambda>p. \<not> keep p) (os_operations s))"
  have kept: "op_id p \<notin> ?gone" if "p \<in> set (os_operations s)" "keep p" for p
    using that same_id [OF ops that(1)] by auto
  have t: "os_operations (retain_operations keep s) = filter keep (os_operations s)"
    "deployment_ids (retain_operations keep s) = filter (\<lambda>i. i \<notin> ?gone) (deployment_ids s)"
    "os_job_cleanup (retain_operations keep s) = filter (\<lambda>i. i \<notin> ?gone) (os_job_cleanup s)"
    "\<And>i attempt. i \<notin> ?gone \<Longrightarrow> os_attempts (retain_operations keep s) (i, attempt) = os_attempts s (i, attempt)"
    by (auto simp: retain_operations_def Let_def filter_map o_def)
  have ids: "op_id ` set (filter keep (os_operations s)) = {i \<in> op_id ` set (os_operations s). i \<notin> ?gone}"
    using kept by auto
  have "outcome_recorded (retain_operations keep s) p"
    if "p \<in> set (os_operations s)" "keep p" "terminal (op_state p)" for p
    using that ok kept [OF that(1,2)] t(2,4) by (auto simp: store_ok_def outcome_recorded_def)
  moreover have "set (os_job_cleanup (retain_operations keep s)) \<subseteq> op_id ` set (filter keep (os_operations s))"
    unfolding t(3) ids using ok by (auto simp: store_ok_def)
  moreover have "set (deployment_ids (retain_operations keep s)) \<subseteq> op_id ` set (filter keep (os_operations s))"
    unfolding t(2) ids using ok by (auto simp: store_ok_def)
  ultimately show ?thesis
    using ok operations_filter [OF ops] by (auto simp: store_ok_def t(1,2) distinct_filter)
qed

lemma delete_environment_ok: "store_ok s \<Longrightarrow> store_ok (delete_environment_row i s)"
proof -
  assume ok: "store_ok s"
  let ?t = "s\<lparr>os_environments := filter (\<lambda>e. er_id e \<noteq> i) (os_environments s), os_status := (os_status s)(i := None)\<rparr>"
  have "store_ok ?t" using store_ok_core [of s ?t] ok by (simp add: same_core_def)
  then show ?thesis using retain_ok ok by (simp add: delete_environment_row_def)
qed

lemma finish_application_core: "same_core s (finish_application_delete_on i now_secs s)"
  by (simp add: finish_application_delete_on_def Let_def same_core_def)

lemma prune_ok: "store_ok s \<Longrightarrow> store_ok (prune_finished_operations cutoff s)"
  by (simp add: prune_finished_operations_def retain_ok)

lemma finish_delete_Inr:
  assumes "finish_delete_operation p now now_secs s = Inr t"
  obtains u v where "same_core u v" "deployment_ids u = deployment_ids s" "os_attempts u = os_attempts s"
    "os_job_cleanup u = os_job_cleanup s"
    "os_operations u = update_where (\<lambda>q. op_id q = op_id p \<and> op_kind q = Op_Delete \<and> op_state q = Op_Running)
       (deleted_row now) (os_operations s)"
    "same_core (delete_environment_row (op_environment_id p) v) t"
proof -
  let ?u = "s\<lparr>os_operations := update_where (\<lambda>q. op_id q = op_id p \<and> op_kind q = Op_Delete \<and> op_state q = Op_Running)
      (deleted_row now) (os_operations s)\<rparr>"
  let ?clean = "\<lambda>w. w\<lparr>os_notification_conditions := filter (\<lambda>c. c \<noteq> op_environment_id p) (os_notification_conditions w),
      os_dependency_observations := filter (\<lambda>c. c \<noteq> op_environment_id p) (os_dependency_observations w),
      os_active_actions := filter (\<lambda>c. c \<noteq> op_environment_id p) (os_active_actions w),
      os_receipts := filter (\<lambda>r. r \<noteq> Receipt_Environment (op_environment_id p)) (os_receipts w)\<rparr>"
  obtain w where w: "operation_event (op_id p) ''operation_succeeded'' None now ?u = Inr w"
    and t: "same_core (delete_environment_row (op_environment_id p) (?clean w)) t"
    using assms
    by (auto simp: finish_delete_operation_def Let_def and_then_Inr finish_application_core split: if_splits option.splits)
  have "same_core w (?clean w)" by (simp add: same_core_def)
  with operation_event_core [OF w] have "same_core ?u (?clean w)" by (rule same_core_trans)
  then show thesis
    by (rule that [of ?u "?clean w"]) (simp_all add: t)
qed

lemma finish_delete_ok:
  assumes ok: "store_ok s" and r: "finish_delete_operation p now now_secs s = Inr t"
  shows "store_ok t"
proof -
  let ?chosen = "\<lambda>q. op_id q = op_id p \<and> op_kind q = Op_Delete \<and> op_state q = Op_Running"
  obtain u v where u: "same_core u v" "deployment_ids u = deployment_ids s" "os_attempts u = os_attempts s"
    "os_job_cleanup u = os_job_cleanup s"
    "os_operations u = update_where ?chosen (deleted_row now) (os_operations s)"
    "same_core (delete_environment_row (op_environment_id p) v) t"
    by (rule finish_delete_Inr [OF r])
  have "store_ok u"
  proof (rule store_update [OF ok _ u(5) _ _ u(2)])
    show "keeps_identity (deleted_row now)" by (simp add: keeps_identity_def deleted_row_def)
    fix q assume q: "q \<in> set (os_operations s)" "?chosen q"
    then have "op_id q \<notin> set (deployment_ids s)" using ok unfolding store_ok_def by blast
    then show "row_ok (deleted_row now q) \<and> (active (deleted_row now q) \<longrightarrow> newest (os_operations s) q)
        \<and> (terminal (op_state (deleted_row now q)) \<longrightarrow> outcome_recorded u (deleted_row now q))"
      by (simp add: outcome_recorded_def u(2)) (simp add: deleted_row_def row_ok_def active_def terminal_def)
  next
    fix q assume "outcome_recorded s q"
    then show "outcome_recorded u q" using u by (simp add: outcome_recorded_def)
  qed (use ok u in \<open>auto simp: store_ok_def\<close>)
  then have "store_ok v" using store_ok_core [OF u(1)] by simp
  from delete_environment_ok [OF this] show ?thesis using store_ok_core [OF u(6)] by simp
qed

lemma stop_ok:
  assumes ok: "store_ok s" and r: "stop_on i expected now s = Inr (p, t)"
  shows "store_ok t"
proof -
  have m: "store_ok (mark_stopped_on i True now s)" using store_ok_core [OF mark_stopped_core] ok by blast
  show ?thesis using r m retry_ok [OF m]
    by (auto simp: stop_on_def and_then_Inr Let_def split: if_splits option.splits)
qed

lemma start_on_ok:
  assumes ok: "store_ok s" and r: "start_on i expected now s = Inr (p, t)"
  shows "store_ok t"
proof -
  have m: "store_ok (mark_stopped_on i False now s)" using store_ok_core [OF mark_stopped_core] ok by blast
  show ?thesis using r ok m retry_ok [OF ok] retry_ok [OF m]
    by (auto simp: start_on_def and_then_Inr Let_def split: if_splits option.splits)
qed

end
