(* ===== verification/Operation_Steps.thy ===== *)
theory Operation_Steps
  imports Operation_Facts
begin

text \<open>
  The store's operations as a step relation, the histories it reaches and what holds of them. Promotions
  and restores (\<open>store/promotion\<close>, \<open>store/restore\<close>) start a refresh and insert its deployment themselves;
  here that is \<open>inserted\<close> with nothing wrong in the rendering, as the stored documents are left out.
  \<open>resolved\<close> is the one write of another module to a modelled column: \<open>save_prepared\<close> moves the running,
  latest operation to the revision a repository read saved. The columns \<open>target_json\<close> and the actor's are
  left out. A transaction that changes several operations is a sequence of steps.
  \<open>elsewhere\<close> stands for everything other modules do to the tables they own; it is any change that
  leaves operations, deployments, outcomes and pending job cleanups alone. The generated id of a new
  operation is unused, as a UUID is.
\<close>

section \<open>Steps\<close>

inductive store_step :: "operation_store \<Rightarrow> operation_store \<Rightarrow> bool" where
  transition: "transition_operation_on i old to failure now s = Inr t \<Longrightarrow> store_step s t"
| failed_attempt: "record_operation_error i code message now s = Inr t \<Longrightarrow> store_step s t"
| progressed: "progress i phase resource s = Inr t \<Longrightarrow> store_step s t"
| resolved: "length (filter (\<lambda>p. op_id p = i \<and> op_state p = Op_Running \<and> is_latest (os_operations s) p) (os_operations s)) = 1 \<Longrightarrow>
    store_step s (advance_generation i previous s)"
| mutated: "mutation_event i now s = Inr t \<Longrightarrow> store_step s t"
| status: "set_status_for_operation i state message now s = Inr (latest, t) \<Longrightarrow> store_step s t"
| retried: "retry_operation_on p now s = Inr (q, t) \<Longrightarrow> store_step s t"
| recovered: "store_step s (snd (recover_interrupted now s))"
| inserted: "fresh \<notin> op_id ` set (os_operations s) \<Longrightarrow>
    insert_operation rendered fresh environment kind now s = Inr (p, t) \<Longrightarrow> store_step s t"
| deleted: "finish_delete_operation p now now_secs s = Inr t \<Longrightarrow> store_step s t"
| pruned: "store_step s (prune_finished_operations cutoff s)"
| stopped: "stop_on i expected now s = Inr (p, t) \<Longrightarrow> store_step s t"
| started: "start_on i expected now s = Inr (p, t) \<Longrightarrow> store_step s t"
| cleanup_requested: "i \<in> op_id ` set (os_operations s) \<Longrightarrow> store_step s (request_job_cleanup_on i s)"
| cleaned_up: "store_step s (finish_job_cleanup i s)"
| elsewhere: "same_core s t \<Longrightarrow> store_step s t"

inductive store_reachable :: "operation_store \<Rightarrow> bool" where
  initial: "os_operations s = [] \<Longrightarrow> os_deployments s = [] \<Longrightarrow> os_job_cleanup s = [] \<Longrightarrow> store_reachable s"
| step: "store_reachable s \<Longrightarrow> store_step s t \<Longrightarrow> store_reachable t"

inductive_cases store_stepE: "store_step s t"

lemma store_step_ok: "store_step s t \<Longrightarrow> store_ok s \<Longrightarrow> store_ok t"
proof (induction rule: store_step.induct)
  case (mutated i now s t)
  then show ?case using store_ok_core [OF operation_event_core] unfolding mutation_event_def by blast
next
  case (status i state message now s latest t)
  then show ?case using store_ok_core [OF set_status_core] by blast
next
  case (resolved i s previous)
  then show ?case by (blast intro: advance_generation_ok)
next
  case (cleanup_requested i s)
  then show ?case by (auto simp: store_ok_def request_job_cleanup_on_def outcome_recorded_def)
next
  case (cleaned_up s i)
  then show ?case by (auto simp: store_ok_def finish_job_cleanup_def outcome_recorded_def)
next
  case (elsewhere s t)
  then show ?case using store_ok_core by blast
qed (blast intro: transition_ok record_error_ok progress_ok retry_ok recover_ok insert_ok finish_delete_ok
  prune_ok stop_ok start_on_ok)+

lemma reachable_ok: "store_reachable s \<Longrightarrow> store_ok s"
proof (induction rule: store_reachable.induct)
  case (initial s)
  then show ?case by (simp add: store_ok_def operations_ok_def)
qed (rule store_step_ok)

section \<open>How operations move\<close>

definition moves :: "operation \<Rightarrow> operation \<Rightarrow> bool" where
  "moves p q \<longleftrightarrow> op_environment_id q = op_environment_id p \<and> op_kind q = op_kind p
     \<and> op_created_at_ms q = op_created_at_ms p \<and> can_transition_to (op_state p) (op_state q)
     \<and> op_attempt q = op_attempt p + (if op_state q = Op_Running \<and> op_state p \<noteq> Op_Running then 1 else 0)"

definition rows_move :: "operation list \<Rightarrow> operation list \<Rightarrow> bool" where
  "rows_move ops ops' \<longleftrightarrow> (\<forall>p\<in>set ops. \<forall>q\<in>set ops'. op_id p = op_id q \<longrightarrow> moves p q)"

lemma moves_refl [simp]: "moves p p" by (simp add: moves_def can_transition_to_def)

lemma rows_move_subset: "rows_move ops ops' \<Longrightarrow> set ops'' \<subseteq> set ops' \<Longrightarrow> rows_move ops ops''"
  unfolding rows_move_def by blast

lemma rows_move_same: "operations_ok ops \<Longrightarrow> rows_move ops ops"
  unfolding rows_move_def using same_id moves_refl by metis

lemma rows_move_append:
  "rows_move ops ops' \<Longrightarrow> (\<And>q. q \<in> set ops \<Longrightarrow> op_id q \<noteq> op_id p) \<Longrightarrow> rows_move ops (ops' @ [p])"
  by (auto simp: rows_move_def)

lemma rows_move_update:
  assumes ok: "operations_ok ops" and f: "keeps_identity f"
    and m: "\<And>p. p \<in> set ops \<Longrightarrow> chosen p \<Longrightarrow> moves p (f p)"
  shows "rows_move ops (update_where chosen f ops)"
  unfolding rows_move_def
proof (intro ballI impI)
  fix p q assume p: "p \<in> set ops" and q: "q \<in> set (update_where chosen f ops)" and i: "op_id p = op_id q"
  obtain r where r: "r \<in> set ops" "q = (if chosen r then f r else r)" using q unfolding update_where_mem by blast
  then have "op_id q = op_id r" using f by (simp add: keeps_identity_def)
  then have "p = r" using same_id [OF ok p r(1)] i by simp
  with r m show "moves p q" by simp
qed

lemma retry_moves:
  assumes ok: "operations_ok (os_operations s)" and r: "retry_operation_on p now s = Inr (q, t)"
  shows "rows_move (os_operations s) (os_operations t)"
  using r
proof (cases rule: retry_cases)
  case (reopened u)
  have "rows_move (os_operations s) (os_operations u)" unfolding reopened(5)
    by (rule rows_move_update [OF ok reopened_identity])
      (auto simp: retryable_def moves_def reopened_def can_transition_to_def)
  then show ?thesis using reopened(1) by (simp add: same_core_def)
qed (use rows_move_same [OF ok] in simp)

lemma insert_moves:
  assumes ok: "store_ok s" and fresh: "fresh \<notin> op_id ` set (os_operations s)"
    and r: "insert_operation rendered fresh environment kind now s = Inr (p, t)"
  shows "rows_move (os_operations s) (os_operations t)"
proof -
  have ops: "operations_ok (os_operations s)" using ok by (simp add: store_ok_def)
  let ?chosen = "\<lambda>p. op_environment_id p = environment \<and> active p"
  obtain u where u: "start_operation fresh environment kind now s = Inr (p, u)"
    "if kind = Op_Delete then t = u else capture_deployment rendered (op_id p) environment u = Inr t"
    by (rule insert_Inr [OF r])
  obtain generation created where p: "p = new_operation fresh environment generation kind created now"
    "os_operations u = update_where ?chosen (superseded_row now) (os_operations s) @ [p]"
    by (rule start_row [OF ok fresh u(1)])
  have "rows_move (os_operations s) (update_where ?chosen (superseded_row now) (os_operations s))"
    by (rule rows_move_update [OF ops superseded_identity])
      (auto simp: moves_def superseded_row_def active_def can_transition_to_def)
  moreover have "op_id p = fresh" by (simp add: p(1) new_operation_def)
  ultimately have "rows_move (os_operations s) (os_operations u)"
    using fresh unfolding p(2) by (intro rows_move_append) (simp, metis imageI)
  moreover have "os_operations t = os_operations u"
    using u(2) capture_operations by (auto split: if_splits)
  ultimately show ?thesis by simp
qed

lemma delete_environment_operations:
  "set (os_operations (delete_environment_row i s)) \<subseteq> set (os_operations s)"
  by (auto simp: delete_environment_row_def retain_operations_def Let_def)

lemma store_step_moves: "store_step s t \<Longrightarrow> store_ok s \<Longrightarrow> rows_move (os_operations s) (os_operations t)"
proof (induction rule: store_step.induct)
  case (transition i old to failure now s t)
  have ops: "operations_ok (os_operations s)" using transition by (simp add: store_ok_def)
  obtain p where p: "p \<in> set (os_operations s)" "op_id p = i" "op_state p = old" "can_transition_to old to"
    and t: "os_operations t = update_where (\<lambda>q. op_id q = i) (transition_row to failure now) (os_operations s)"
    by (rule transition_Inr [OF ops transition(1)])
  have "q = p" if "q \<in> set (os_operations s)" "op_id q = i" for q
    using same_id [OF ops that(1) p(1)] that(2) p(2) by simp
  then show ?case unfolding t
    by (intro rows_move_update [OF ops transition_row_identity]) (use p in \<open>auto simp: moves_def transition_row_def\<close>)
next
  case (failed_attempt i code message now s t)
  have ops: "operations_ok (os_operations s)" using failed_attempt by (simp add: store_ok_def)
  show ?case
    by (rule record_error_Inr [OF ops failed_attempt(1)])
      (auto simp: same_core_def keeps_identity_def moves_def can_transition_to_def intro!: rows_move_update [OF ops])
next
  case (progressed i phase resource s t)
  have ops: "operations_ok (os_operations s)" using progressed by (simp add: store_ok_def)
  show ?case using progressed(1)
    by (auto simp: progress_def Let_def keeps_identity_def moves_def can_transition_to_def
        intro!: rows_move_update [OF ops] split: if_splits)
next
  case (resolved i s previous)
  then show ?case unfolding advance_generation_def
    by (auto simp: store_ok_def keeps_identity_def moves_def can_transition_to_def intro!: rows_move_update)
next
  case (recovered s now)
  then show ?case unfolding recover_ops
    by (intro rows_move_update interrupted_identity)
      (auto simp: store_ok_def moves_def interrupted_def can_transition_to_def)
next
  case (deleted p now now_secs s t)
  have ops: "operations_ok (os_operations s)" using deleted by (simp add: store_ok_def)
  obtain u v where u: "same_core u v"
    "os_operations u = update_where (\<lambda>q. op_id q = op_id p \<and> op_kind q = Op_Delete \<and> op_state q = Op_Running)
       (deleted_row now) (os_operations s)"
    "same_core (delete_environment_row (op_environment_id p) v) t"
    by (rule finish_delete_Inr [OF deleted(1)])
  have "rows_move (os_operations s) (os_operations u)" unfolding u(2)
    by (rule rows_move_update [OF ops]) (auto simp: keeps_identity_def moves_def deleted_row_def can_transition_to_def)
  then have "rows_move (os_operations s) (os_operations v)" using u(1) by (simp add: same_core_def)
  from rows_move_subset [OF this delete_environment_operations] u(3) show ?case by (simp add: same_core_def)
next
  case (pruned s cutoff)
  then have "rows_move (os_operations s) (os_operations s)" by (simp add: rows_move_same store_ok_def)
  then show ?case
    by (rule rows_move_subset) (auto simp: prune_finished_operations_def retain_operations_def Let_def)
next
  case (retried p now s q t)
  then show ?case by (auto simp: store_ok_def intro: retry_moves)
next
  case (stopped i expected now s p t)
  have "os_operations (mark_stopped_on i True now s) = os_operations s"
    using mark_stopped_core [of s i True now] by (simp add: same_core_def)
  with stopped show ?case
    using retry_moves [of "mark_stopped_on i True now s"] rows_move_same
    by (auto simp: stop_on_def and_then_Inr Let_def store_ok_def split: if_splits option.splits)
next
  case (started i expected now s p t)
  have "os_operations (mark_stopped_on i False now s) = os_operations s"
    using mark_stopped_core [of s i False now] by (simp add: same_core_def)
  with started show ?case
    using retry_moves [of "mark_stopped_on i False now s"] retry_moves [of s] rows_move_same
    by (auto simp: start_on_def and_then_Inr Let_def store_ok_def split: if_splits option.splits)
next
  case (inserted fresh s rendered environment kind now p t)
  then show ?case using insert_moves by blast
next
  case (mutated i now s t)
  then show ?case using operation_event_core [of i _ None now s t] rows_move_same
    by (auto simp: mutation_event_def same_core_def store_ok_def)
next
  case (status i state message now s latest t)
  then show ?case using set_status_core [of i state message now s latest t] rows_move_same
    by (auto simp: same_core_def store_ok_def)
qed (auto simp: request_job_cleanup_on_def finish_job_cleanup_def same_core_def store_ok_def rows_move_same)

text \<open>Histories: any number of steps.\<close>

lemma superseded_step:
  assumes "store_step s t" "store_ok s" "p \<in> set (os_operations s)" "op_state p = Op_Superseded"
    and "q \<in> set (os_operations t)" "op_id q = op_id p"
  shows "op_state q = Op_Superseded"
  using store_step_moves [OF assms(1,2)] assms(3-)
  by (auto simp: rows_move_def moves_def can_transition_to_def)

lemma supersede_attempts:
  assumes ok: "store_ok s" and r: "supersede_operations environment now s = Inr t"
    and "i \<notin> op_id ` set (filter (\<lambda>q. op_environment_id q = environment \<and> active q) (os_operations s))"
  shows "os_attempts t (i, attempt) = os_attempts s (i, attempt)"
proof -
  let ?chosen = "\<lambda>p. op_environment_id p = environment \<and> active p"
  let ?ops = "update_where ?chosen (superseded_row now) (os_operations s)"
  have ops: "operations_ok (os_operations s)" using ok by (simp add: store_ok_def)
  have "operations_ok ?ops"
    using supersede_Inr(1,3) [OF ok r] by (simp add: store_ok_def)
  moreover have "distinct (map op_id (filter ?chosen (os_operations s)))"
    using ops by (simp add: operations_ok_def distinct_map_filter)
  moreover obtain u where "record_attempts (map op_id (filter ?chosen (os_operations s))) u = Inr t"
    "os_operations u = ?ops" "os_attempts u = os_attempts s"
    using r by (auto simp: supersede_operations_def Let_def)
  ultimately show ?thesis using record_attempts_Inr [of _ u t] assms(3) by simp
qed

lemma insert_attempts:
  assumes ok: "store_ok s" and fresh: "fresh \<notin> op_id ` set (os_operations s)"
    and r: "insert_operation rendered fresh environment kind now s = Inr (p, t)"
  shows "deployment_ids t = deployment_ids s @ (if kind = Op_Delete then [] else [fresh])"
    and "i \<notin> op_id ` set (filter (\<lambda>q. op_environment_id q = environment \<and> active q) (os_operations s)) \<Longrightarrow>
      os_attempts t (i, attempt) = os_attempts s (i, attempt)"
proof -
  obtain w where w: "start_operation fresh environment kind now s = Inr (p, w)"
    "if kind = Op_Delete then t = w else capture_deployment rendered (op_id p) environment w = Inr t"
    by (rule insert_Inr [OF r])
  obtain u v where u: "supersede_operations environment now s = Inr u"
    "insert_operation_row fresh environment kind now u = Inr v" "same_core v w" "operation_on fresh w = Inr p"
    by (rule start_Inr [OF w(1)])
  have v: "deployment_ids v = deployment_ids u" "os_attempts v = os_attempts u"
    using u(2) by (auto simp: insert_operation_row_def split: option.splits if_splits)
  have p: "op_id p = fresh" using operation_on_Inr [OF u(4)] by simp
  have t: "deployment_ids t = deployment_ids w @ (if kind = Op_Delete then [] else [fresh])" "os_attempts t = os_attempts w"
    using w(2) u(4) p by (auto simp: capture_deployment_def split: if_splits option.splits)
  show "deployment_ids t = deployment_ids s @ (if kind = Op_Delete then [] else [fresh])"
    using t v u(3) supersede_Inr(2) [OF ok u(1)] by (simp add: same_core_def)
  assume "i \<notin> op_id ` set (filter (\<lambda>q. op_environment_id q = environment \<and> active q) (os_operations s))"
  then show "os_attempts t (i, attempt) = os_attempts s (i, attempt)"
    using t v u(3) supersede_attempts [OF ok u(1)] by (simp add: same_core_def)
qed

section \<open>Operations\<close>

text \<open>C16: In every history, each row of the operations table is well formed (finished exactly when terminal,
  an error code exactly with a message, failed only with an error, started while running), an environment
  never has two requested or running operations and the only one it may have is its latest, and every
  finished operation that is a deployment has its outcome stored under its current attempt.\<close>

theorem only_the_latest_operation_is_active:
  assumes "store_reachable s"
  shows "distinct (map op_id (os_operations s))
    \<and> list_all (\<lambda>p. row_ok p \<and> (if active p then is_latest (os_operations s) p else True)
         \<and> (if terminal (op_state p) \<and> op_id p \<in> set (deployment_ids s)
            then os_attempts s (op_id p, op_attempt p) = Some p else True)) (os_operations s)"
  using reachable_ok [OF assms]
  by (auto simp: store_ok_def operations_ok_def list_all_iff outcome_recorded_def is_latest_iff)

text \<open>C19: Whatever happens to the store, an operation only moves along the lifecycle that
  \<open>can_transition_to\<close> describes; its environment, kind and creation time are fixed, and its attempt count
  grows by one exactly when it starts running.\<close>

theorem operations_follow_the_lifecycle:
  assumes "store_reachable s" and "store_step s t"
    and "p \<in> set (os_operations s)" and "q \<in> set (os_operations t)" and "op_id q = op_id p"
  shows "can_transition_to (op_state p) (op_state q)
    \<and> op_environment_id q = op_environment_id p \<and> op_kind q = op_kind p \<and> op_created_at_ms q = op_created_at_ms p
    \<and> op_attempt q = op_attempt p + (if op_state q = Op_Running \<and> op_state p \<noteq> Op_Running then 1 else 0)"
  using store_step_moves [OF assms(2) reachable_ok [OF assms(1)]] assms(3-) by (auto simp: rows_move_def moves_def)

text \<open>C28: Requesting an operation replaces what was going on: the new operation is requested at the end
  of its environment's history even if the clock went back, it is the latest, every operation that was
  requested or running there is superseded, and no other operation changes. The outcome of each
  superseded operation that has a deployment is stored as that deployment's attempt, under the number the
  operation had, no other operation's attempts change, and the new operation gets a deployment unless it
  is a deletion.\<close>

theorem new_operations_supersede:
  assumes "store_reachable s" and "fresh \<notin> op_id ` set (os_operations s)"
    and "insert_operation rendered fresh environment kind now s = Inr (p, t)"
  shows "os_operations t = update_where (\<lambda>q. op_environment_id q = environment \<and> active q) (superseded_row now)
      (os_operations s) @ [p]
    \<and> op_id p = fresh \<and> op_environment_id p = environment \<and> op_kind p = kind \<and> op_state p = Op_Requested
    \<and> op_created_at_ms p = creation_time environment now (os_operations s)
    \<and> is_latest (os_operations t) p
    \<and> (\<forall>q\<in>set (os_operations s). op_environment_id q = environment \<and> active q \<and> op_id q \<in> set (deployment_ids s) \<longrightarrow>
         os_attempts t (op_id q, op_attempt q) = Some (superseded_row now q))
    \<and> (\<forall>i attempt. i \<notin> op_id ` set (filter (\<lambda>q. op_environment_id q = environment \<and> active q) (os_operations s)) \<longrightarrow>
         os_attempts t (i, attempt) = os_attempts s (i, attempt))
    \<and> deployment_ids t = deployment_ids s @ (if kind = Op_Delete then [] else [fresh])"
proof -
  have ok: "store_ok s" by (rule reachable_ok [OF assms(1)])
  have okt: "store_ok t" by (rule insert_ok [OF ok assms(2,3)])
  then have t: "operations_ok (os_operations t)" by (simp add: store_ok_def)
  note deployments = insert_attempts [OF ok assms(2,3)]
  obtain u where u: "start_operation fresh environment kind now s = Inr (p, u)"
    "if kind = Op_Delete then t = u else capture_deployment rendered (op_id p) environment u = Inr t"
    by (rule insert_Inr [OF assms(3)])
  then have same: "os_operations t = os_operations u" using capture_operations by (auto split: if_splits)
  obtain generation created where p: "p = new_operation fresh environment generation kind created now"
    "os_operations u = update_where (\<lambda>q. op_environment_id q = environment \<and> active q) (superseded_row now)
       (os_operations s) @ [p]" "created = creation_time environment now (os_operations s)"
    by (rule start_row [OF ok assms(2) u(1)])
  have "active p" by (simp add: p(1) new_operation_def active_def)
  then have "is_latest (os_operations t) p"
    using t is_latest_iff [OF t, of p] same p(2) by (auto simp: operations_ok_def)
  moreover have "os_attempts t (op_id q, op_attempt q) = Some (superseded_row now q)"
    if "q \<in> set (os_operations s)" "op_environment_id q = environment \<and> active q \<and> op_id q \<in> set (deployment_ids s)" for q
  proof -
    have "superseded_row now q \<in> set (os_operations t)"
      using that unfolding same p(2) by (auto simp: update_where_mem)
    moreover have "terminal (op_state (superseded_row now q))" by (simp add: superseded_row_def terminal_def)
    ultimately have "outcome_recorded t (superseded_row now q)" using okt by (simp add: store_ok_def)
    then show ?thesis using that(2) deployments(1) by (simp add: outcome_recorded_def superseded_row_def)
  qed
  ultimately show ?thesis using same p deployments by (simp add: new_operation_def)
qed

text \<open>C30: Stale work is refused: once an environment has a newer operation, no transition of the old one
  is recorded, and the store does not change.\<close>

theorem stale_transitions_are_refused:
  assumes "store_reachable s" and "p \<in> set (os_operations s)" and "q \<in> set (os_operations s)"
    and "op_environment_id q = op_environment_id p" and "op_created_at_ms p < op_created_at_ms q"
  shows "transition_operation_on (op_id p) old to failure now s = Inl Store_Illegal_Transition"
proof -
  have ops: "operations_ok (os_operations s)" using reachable_ok [OF assms(1)] by (simp add: store_ok_def)
  have "\<not> newest (os_operations s) p" using assms(3-) by (force simp: newest_def)
  then have "\<not> (op_id r = op_id p \<and> op_state r = old \<and> is_latest (os_operations s) r)" if "r \<in> set (os_operations s)" for r
    using same_id [OF ops that assms(2)] is_latest_iff [OF ops assms(2)] by auto
  then have "filter (\<lambda>r. op_id r = op_id p \<and> op_state r = old \<and> is_latest (os_operations s) r) (os_operations s) = []"
    by (simp add: filter_empty_conv)
  then show ?thesis by (simp add: transition_operation_on_def Let_def)
qed

section \<open>An environment deployed twice\<close>

definition example_store :: operation_store where
  "example_store =
     \<lparr>os_operations = [], os_promoted = [], os_events = [], os_deployments = [], os_attempts = (\<lambda>_. None),
      os_job_cleanup = [],
      os_environments = [\<lparr>er_id = ''env-1'', er_application_id = ''app-1'', er_name = ''production'', er_preview = False,
        er_delete_intent = False, er_stopped = False, er_updated_at_ms = 0\<rparr>],
      os_status = (\<lambda>_. None),
      os_applications = [\<lparr>apr_id = ''app-1'', apr_generation = 1, apr_delete_intent = False\<rparr>],
      os_notification_conditions = [], os_dependency_observations = [], os_active_actions = [],
      os_receipts = [], os_credentials = [], os_grants = []\<rparr>"

definition request_1 :: "store_error + operation \<times> operation_store" where
  "request_1 = insert_operation None ''operation-1'' ''env-1'' Op_Apply 100 example_store"

definition store_1 :: operation_store where "store_1 = snd (projr request_1)"

definition run_1 :: "store_error + operation_store" where
  "run_1 = transition_operation_on ''operation-1'' Op_Requested Op_Running None 110 store_1"

definition store_2 :: operation_store where "store_2 = projr run_1"

definition request_2 :: "store_error + operation \<times> operation_store" where
  "request_2 = insert_operation None ''operation-2'' ''env-1'' Op_Refresh 50 store_2"

definition store_3 :: operation_store where "store_3 = snd (projr request_2)"

lemma example_results: "\<not> isl request_1" "\<not> isl run_1" "\<not> isl request_2"
  by code_simp+

lemma example_requests:
  "insert_operation None ''operation-1'' ''env-1'' Op_Apply 100 example_store = Inr (fst (projr request_1), store_1)"
  "transition_operation_on ''operation-1'' Op_Requested Op_Running None 110 store_1 = Inr store_2"
  "insert_operation None ''operation-2'' ''env-1'' Op_Refresh 50 store_2 = Inr (fst (projr request_2), store_3)"
  unfolding request_1_def [symmetric] run_1_def [symmetric] request_2_def [symmetric]
  using example_results
  by (cases request_1; cases run_1; cases request_2; simp add: store_1_def store_2_def store_3_def)+

lemma example_fresh:
  "''operation-1'' \<notin> op_id ` set (os_operations example_store)" "''operation-2'' \<notin> op_id ` set (os_operations store_2)"
  by code_simp+

lemma example_stores: "store_reachable store_2" "store_step store_2 store_3" "store_reachable store_3"
proof -
  have "store_reachable example_store" by (rule store_reachable.initial) (simp_all add: example_store_def)
  moreover have "store_step example_store store_1" by (rule store_step.inserted [OF example_fresh(1) example_requests(1)])
  moreover have "store_step store_1 store_2" by (rule store_step.transition [OF example_requests(2)])
  ultimately show r: "store_reachable store_2" by (blast intro: store_reachable.step)
  show "store_step store_2 store_3" by (rule store_step.inserted [OF example_fresh(2) example_requests(3)])
  with r show "store_reachable store_3" by (rule store_reachable.step)
qed

definition old_operation :: "operation_store \<Rightarrow> operation" where
  "old_operation s = hd (os_operations s)"

definition new_operation_of :: "operation_store \<Rightarrow> operation" where
  "new_operation_of s = last (os_operations s)"

lemma example_rows: "old_operation store_2 \<in> set (os_operations store_2)" "old_operation store_3 \<in> set (os_operations store_3)"
  "new_operation_of store_3 \<in> set (os_operations store_3)" "op_id (old_operation store_3) = op_id (old_operation store_2)"
  "op_environment_id (new_operation_of store_3) = op_environment_id (old_operation store_3)"
  "op_created_at_ms (old_operation store_3) < op_created_at_ms (new_operation_of store_3)"
  by code_simp+

lemma only_the_latest_operation_is_active_witness:
  "distinct (map op_id (os_operations store_3))
    \<and> list_all (\<lambda>p. row_ok p \<and> (if active p then is_latest (os_operations store_3) p else True)
         \<and> (if terminal (op_state p) \<and> op_id p \<in> set (deployment_ids store_3)
            then os_attempts store_3 (op_id p, op_attempt p) = Some p else True)) (os_operations store_3)
    \<and> map op_state (os_operations store_3) = [Op_Superseded, Op_Requested]"
  using only_the_latest_operation_is_active [OF example_stores(3)] by (intro conjI; (blast | code_simp))

lemma operations_follow_the_lifecycle_witness:
  "can_transition_to (op_state (old_operation store_2)) (op_state (old_operation store_3))
    \<and> op_environment_id (old_operation store_3) = op_environment_id (old_operation store_2)
    \<and> op_kind (old_operation store_3) = op_kind (old_operation store_2)
    \<and> op_created_at_ms (old_operation store_3) = op_created_at_ms (old_operation store_2)
    \<and> op_attempt (old_operation store_3) = op_attempt (old_operation store_2)
      + (if op_state (old_operation store_3) = Op_Running \<and> op_state (old_operation store_2) \<noteq> Op_Running then 1 else 0)"
  by (rule operations_follow_the_lifecycle [OF example_stores(1,2) example_rows(1,2,4)])

lemma new_operations_supersede_witness:
  "os_operations store_3 = update_where (\<lambda>q. op_environment_id q = ''env-1'' \<and> active q) (superseded_row 50)
      (os_operations store_2) @ [fst (projr request_2)]
    \<and> op_id (fst (projr request_2)) = ''operation-2'' \<and> is_latest (os_operations store_3) (fst (projr request_2))
    \<and> os_attempts store_3 (''operation-1'', 1) = Some (superseded_row 50 (old_operation store_2))
    \<and> deployment_ids store_3 = [''operation-1'', ''operation-2'']"
proof -
  note t = new_operations_supersede [OF example_stores(1) example_fresh(2) example_requests(3)]
  have "op_environment_id (old_operation store_2) = ''env-1'' \<and> active (old_operation store_2)
      \<and> op_id (old_operation store_2) \<in> set (deployment_ids store_2)"
    "op_id (old_operation store_2) = ''operation-1''" "op_attempt (old_operation store_2) = 1"
    "deployment_ids store_2 = [''operation-1'']"
    by code_simp+
  with t example_rows(1) show ?thesis by fastforce
qed

lemma stale_transitions_are_refused_witness:
  "transition_operation_on (op_id (old_operation store_3)) Op_Superseded Op_Superseded None 60 store_3
     = Inl Store_Illegal_Transition"
  by (rule stale_transitions_are_refused [OF example_stores(3) example_rows(2,3,5,6)])

text \<open>
  A retry that is superseded before it runs overwrites the outcome of the attempt before it: the
  attempt is counted when the operation starts running, so the superseded retry still has the old number.
\<close>

definition failed_then_superseded :: "store_error + operation \<times> operation_store" where
  "failed_then_superseded =
     and_then (transition_operation_on ''operation-1'' Op_Running Op_Failed (Some (''job_failed'', ''exit 1'')) 120 store_2) (\<lambda>s.
     and_then (retry_operation_on (old_operation s) 130 s) (\<lambda>(p, s).
       insert_operation None ''operation-2'' ''env-1'' Op_Refresh 140 s))"

lemma superseded_retry_overwrites_outcome:
  "(case failed_then_superseded of Inl e \<Rightarrow> None
    | Inr (p, s) \<Rightarrow> map_option op_state (os_attempts s (''operation-1'', 1))) = Some Op_Superseded"
  by code_simp

end
