(* ===== verification/Templates.thy ===== *)
theory Templates
  imports Str
begin

text \<open>
  Templates: text of a manifest that may reference variables with \<open>${{ namespace.name }}\<close>
  (\<open>crates/piqueld-core/src/manifest/variables.rs\<close>, the types \<open>Template\<close>, \<open>Segment\<close>, \<open>Reference\<close>,
  \<open>SystemVariable\<close>, \<open>TemplateError\<close> and \<open>Typed\<close>). The parser is a loop over the rest of the text, shown
  to end by the length of that rest; the lemmas describe it byte by byte, which gives the round
  trips of literal text and of parsed templates.
\<close>

section \<open>Validation errors (validation/errors.rs, codes.rs)\<close>

record validation_error =
  ve_code :: string
  ve_path :: string
  ve_message :: string

definition validation_error_new :: "string \<Rightarrow> string \<Rightarrow> string \<Rightarrow> validation_error" where
  "validation_error_new code path message = \<lparr>ve_code = code, ve_path = path, ve_message = message\<rparr>"

type_synonym validation_errors = "validation_error list"

text \<open>\<open>ValidationErrors::sorted\<close>: a stable sort by path, then code.\<close>

definition sorted_errors :: "validation_error list \<Rightarrow> validation_errors" where
  "sorted_errors errors = sort_key (\<lambda>e. (ve_path e, ve_code e)) errors"

definition TEMPLATE_INVALID :: string where "TEMPLATE_INVALID = ''template_invalid''"
definition VARIABLE_RESERVED :: string where "VARIABLE_RESERVED = ''variable_reserved''"
definition VARIABLE_NAMESPACE_UNKNOWN :: string where "VARIABLE_NAMESPACE_UNKNOWN = ''variable_namespace_unknown''"
definition VARIABLE_UNKNOWN :: string where "VARIABLE_UNKNOWN = ''variable_unknown''"

section \<open>References\<close>

type_synonym template = string

definition OPEN :: string where "OPEN = ''${{''"
definition ESCAPED_OPEN :: string where "ESCAPED_OPEN = ''$${{''"
definition CLOSE :: string where "CLOSE = ''}}''"

datatype system_variable = AppName | EnvName | EnvSlug | GitBranch | GitSha | DeploymentId

definition system_variable_all :: "system_variable list" where
  "system_variable_all = [AppName, EnvName, EnvSlug, GitBranch, GitSha, DeploymentId]"

fun system_variable_as_str :: "system_variable \<Rightarrow> string" where
  "system_variable_as_str AppName = ''app.name''"
| "system_variable_as_str EnvName = ''env.name''"
| "system_variable_as_str EnvSlug = ''env.slug''"
| "system_variable_as_str GitBranch = ''git.branch''"
| "system_variable_as_str GitSha = ''git.sha''"
| "system_variable_as_str DeploymentId = ''deployment.id''"

definition system_variable_parse :: "string \<Rightarrow> system_variable option" where
  "system_variable_parse = string_enum_parse system_variable_all system_variable_as_str"

fun needs_repository :: "system_variable \<Rightarrow> bool" where
  "needs_repository GitBranch = True"
| "needs_repository GitSha = True"
| "needs_repository _ = False"

datatype reference = Ref_Variable string | Ref_System system_variable

datatype template_error =
    Unterminated
  | Malformed string
  | Reserved string
  | UnknownNamespace string
  | UnknownSystemVariable string

datatype segment = Seg_Text string | Seg_Reference reference

definition valid_identifier :: "string \<Rightarrow> bool" where
  "valid_identifier s \<longleftrightarrow>
     length s \<le> 63
     \<and> (case s of [] \<Rightarrow> False | b # _ \<Rightarrow> is_ascii_alphabetic b \<or> b = CHR ''_'')
     \<and> list_all (\<lambda>b. is_ascii_alphanumeric b \<or> b = CHR ''_'' \<or> b = CHR ''-'') s"

definition echo :: "string \<Rightarrow> string" where
  "echo t = take_chars 64 t"

definition reference_parse :: "string \<Rightarrow> template_error + reference" where
  "reference_parse inner =
     (case split_once (CHR ''.'') inner of
        None \<Rightarrow> Inl (Malformed (echo inner))
      | Some (namespace, name) \<Rightarrow>
          if \<not> (valid_identifier namespace \<and> valid_identifier name)
          then Inl (Malformed (echo inner))
          else if namespace = ''vars'' then Inr (Ref_Variable name)
          else if namespace = ''secrets'' then Inl (Reserved (echo inner))
          else if namespace \<in> {''app'', ''env'', ''git'', ''deployment''}
          then (case system_variable_parse inner of
                  Some v \<Rightarrow> Inr (Ref_System v)
                | None \<Rightarrow> Inl (UnknownSystemVariable (echo inner)))
          else Inl (UnknownNamespace (echo namespace)))"

text \<open>\<open>Display for Reference\<close>\<close>

fun show_reference :: "reference \<Rightarrow> string" where
  "show_reference (Ref_Variable name) = ''vars.'' @ name"
| "show_reference (Ref_System v) = system_variable_as_str v"

section \<open>Parsing\<close>

text \<open>The text collected so far becomes a segment unless it is empty.\<close>

definition flush_text :: "segment list \<Rightarrow> string \<Rightarrow> segment list" where
  "flush_text segs t = (if t = [] then segs else segs @ [Seg_Text t])"

function segments_loop :: "segment list \<Rightarrow> string \<Rightarrow> string \<Rightarrow> template_error + segment list" where
  "segments_loop segs t rest =
     (case position (\<lambda>c. c = CHR ''$'') rest of
        None \<Rightarrow> Inr (flush_text segs (t @ rest))
      | Some index \<Rightarrow>
          (let t = t @ take index rest; rest = drop index rest in
           case strip_prefix ESCAPED_OPEN rest of
             Some after \<Rightarrow> segments_loop segs (t @ OPEN) after
           | None \<Rightarrow>
               (case strip_prefix OPEN rest of
                  Some after \<Rightarrow>
                    (case find_str CLOSE after of
                       None \<Rightarrow> Inl Unterminated
                     | Some stop \<Rightarrow>
                         (case reference_parse (trim_str (take stop after)) of
                            Inl e \<Rightarrow> Inl e
                          | Inr reference \<Rightarrow>
                              segments_loop (flush_text segs t @ [Seg_Reference reference]) []
                                (drop (stop + length CLOSE) after)))
                | None \<Rightarrow> segments_loop segs (t @ ''$'') (drop 1 rest))))"
  by pat_completeness auto
termination
  by (relation "measure (\<lambda>(segs, t, rest). length rest)")
    (auto simp: strip_prefix_iff ESCAPED_OPEN_def OPEN_def
      dest!: position_some arg_cong [where f = length])

declare segments_loop.simps [simp del]

definition segments :: "template \<Rightarrow> template_error + segment list" where
  "segments t = segments_loop [] [] t"

text \<open>\<open>Template::literal\<close>, \<open>as_literal\<close> and \<open>mentions_reference\<close>. The fold of \<open>as_literal\<close> stops with
  \<open>None\<close> at the first reference.\<close>

definition template_literal :: "string \<Rightarrow> template" where
  "template_literal t = replace_str OPEN ESCAPED_OPEN t"

fun literal_fold :: "string \<Rightarrow> segment list \<Rightarrow> string option" where
  "literal_fold t [] = Some t"
| "literal_fold t (Seg_Text part # segs) = literal_fold (t @ part) segs"
| "literal_fold t (Seg_Reference r # segs) = None"

definition as_literal :: "template \<Rightarrow> string option" where
  "as_literal t =
     (if \<not> contains_str OPEN t then Some t
      else (case segments t of Inl _ \<Rightarrow> None | Inr segs \<Rightarrow> literal_fold [] segs))"

definition mentions_reference :: "string \<Rightarrow> bool" where
  "mentions_reference t = contains_str OPEN t"

fun template_error_code :: "template_error \<Rightarrow> string" where
  "template_error_code Unterminated = TEMPLATE_INVALID"
| "template_error_code (Malformed _) = TEMPLATE_INVALID"
| "template_error_code (Reserved _) = VARIABLE_RESERVED"
| "template_error_code (UnknownNamespace _) = VARIABLE_NAMESPACE_UNKNOWN"
| "template_error_code (UnknownSystemVariable _) = VARIABLE_UNKNOWN"

text \<open>\<open>Display for TemplateError\<close> and \<open>TemplateError::at\<close>. A backquote is written as its byte.\<close>

definition quoted :: "string \<Rightarrow> string" where
  "quoted t = [CHR 0x60] @ t @ [CHR 0x60]"

fun template_error_message :: "template_error \<Rightarrow> string" where
  "template_error_message Unterminated =
     quoted OPEN @ '' must be closed by '' @ quoted CLOSE @ ''; write '' @ quoted ESCAPED_OPEN
     @ '' for a literal '' @ quoted OPEN"
| "template_error_message (Malformed t) =
     quoted t @ '' is not a '' @ quoted ''namespace.name'' @ '' reference''"
| "template_error_message (Reserved t) =
     quoted t @ '' is reserved for secret references, which are not supported yet''"
| "template_error_message (UnknownNamespace t) =
     ''unknown namespace '' @ quoted t @ ''; references use vars, app, env, git, or deployment''"
| "template_error_message (UnknownSystemVariable t) = ''unknown system variable '' @ quoted t"

definition template_error_at :: "template_error \<Rightarrow> string \<Rightarrow> validation_error" where
  "template_error_at e path = validation_error_new (template_error_code e) path (template_error_message e)"

text \<open>\<open>Template::check\<close> with its \<open>find_map\<close> over the references.\<close>

fun first_problem :: "(reference \<Rightarrow> (string \<times> string) option) \<Rightarrow> segment list \<Rightarrow> (string \<times> string) option" where
  "first_problem problem [] = None"
| "first_problem problem (Seg_Text _ # segs) = first_problem problem segs"
| "first_problem problem (Seg_Reference r # segs) =
     (case problem r of Some p \<Rightarrow> Some p | None \<Rightarrow> first_problem problem segs)"

definition template_check ::
  "(reference \<Rightarrow> (string \<times> string) option) \<Rightarrow> string \<Rightarrow> template \<Rightarrow> validation_error list
   \<Rightarrow> validation_error list" where
  "template_check problem path t errors =
     (case segments t of
        Inl source \<Rightarrow> errors @ [template_error_at source path]
      | Inr segs \<Rightarrow>
          (case first_problem problem segs of
             Some (code, message) \<Rightarrow> errors @ [validation_error_new code path message]
           | None \<Rightarrow> errors))"

section \<open>Typed values\<close>

text \<open>\<open>Typed<T>\<close>; reading one from text (\<open>FromStr\<close>) takes the parser of \<open>T\<close>.\<close>

datatype 'a typed = Typed_Literal 'a | Typed_Template template

fun typed_literal :: "'a typed \<Rightarrow> 'a option" where
  "typed_literal (Typed_Literal v) = Some v"
| "typed_literal (Typed_Template _) = None"

fun typed_template :: "'a typed \<Rightarrow> template option" where
  "typed_template (Typed_Literal _) = None"
| "typed_template (Typed_Template t) = Some t"

definition typed_from_str :: "(string \<Rightarrow> 'e + 'a) \<Rightarrow> string \<Rightarrow> 'e + 'a typed" where
  "typed_from_str parse s =
     (if contains_str OPEN s then Inr (Typed_Template s)
      else (case parse s of Inl e \<Rightarrow> Inl e | Inr v \<Rightarrow> Inr (Typed_Literal v)))"

section \<open>The parser, byte by byte\<close>

lemma loop_nil [simp]: "segments_loop segs t [] = Inr (flush_text segs t)"
  by (subst segments_loop.simps) simp

lemma loop_other:
  assumes "c \<noteq> CHR ''$''"
  shows "segments_loop segs t (c # rest) = segments_loop segs (t @ [c]) rest"
proof (cases "position (\<lambda>c. c = CHR ''$'') rest")
  case None
  then show ?thesis using assms by (subst (1 2) segments_loop.simps) simp
next
  case (Some i)
  then show ?thesis using assms by (subst (1 2) segments_loop.simps) simp
qed

lemma loop_escaped: "segments_loop segs t (ESCAPED_OPEN @ after) = segments_loop segs (t @ OPEN) after"
  by (subst segments_loop.simps) (simp add: ESCAPED_OPEN_def strip_prefix_def)

lemma loop_open:
  "segments_loop segs t (OPEN @ after) =
     (case find_str CLOSE after of
        None \<Rightarrow> Inl Unterminated
      | Some stop \<Rightarrow>
          (case reference_parse (trim_str (take stop after)) of
             Inl e \<Rightarrow> Inl e
           | Inr reference \<Rightarrow>
               segments_loop (flush_text segs t @ [Seg_Reference reference]) []
                 (drop (stop + length CLOSE) after)))"
  by (subst segments_loop.simps) (simp add: ESCAPED_OPEN_def OPEN_def strip_prefix_def)

lemma loop_dollar:
  assumes "\<not> prefix ESCAPED_OPEN (CHR ''$'' # rest)" and "\<not> prefix OPEN (CHR ''$'' # rest)"
  shows "segments_loop segs t (CHR ''$'' # rest) = segments_loop segs (t @ ''$'') rest"
  using assms by (subst segments_loop.simps) (simp add: strip_prefix_def)

section \<open>Literal text\<close>

lemma replace_id: "\<not> contains_str p s \<Longrightarrow> replace_str p new s = s"
proof (induction p new s rule: replace_str.induct)
  case (2 p new c s)
  have no: "\<not> prefix p (c # s)" and rest: "\<not> contains_str p s"
    using 2(3) by (auto simp: contains_str_def split: if_splits)
  with 2(2) show ?case by simp
qed simp

lemma replace_contains:
  assumes "p \<noteq> []" "contains_str p s"
  shows "\<exists>a b. replace_str p new s = a @ new @ b"
  using assms
proof (induction p new s rule: replace_str.induct)
  case (2 p new c s)
  show ?case
  proof (cases "prefix p (c # s)")
    case True
    then have "replace_str p new (c # s) = [] @ new @ replace_str p new (drop (length p) (c # s))"
      using 2(3) by simp
    then show ?thesis by blast
  next
    case False
    then have "contains_str p s" using 2(4) by (auto simp: contains_str_def)
    with 2(2,3) False obtain a b where "replace_str p new s = a @ new @ b" by blast
    then show ?thesis using False by (intro exI [of _ "c # a"] exI [of _ b]) simp
  qed
qed (auto simp: contains_str_def)

text \<open>What the escaped text starts with tells what the text starts with.\<close>

lemma replace_brace:
  "template_literal s = CHR ''{'' # r \<Longrightarrow> \<exists>s'. s = CHR ''{'' # s' \<and> r = template_literal s'"
  by (cases s) (auto simp: template_literal_def ESCAPED_OPEN_def split: if_splits)

lemma literal_braces: "prefix ''{{'' (template_literal s) \<Longrightarrow> prefix ''{{'' s"
proof -
  assume "prefix ''{{'' (template_literal s)"
  then obtain z where "template_literal s = CHR ''{'' # CHR ''{'' # z" by (auto simp: prefix_def)
  from replace_brace [OF this] obtain s' where s: "s = CHR ''{'' # s'"
    and "template_literal s' = CHR ''{'' # z" by auto
  from replace_brace [OF this(2)] show "prefix ''{{'' s" by (auto simp: s)
qed

lemma literal_no_new_open:
  assumes "\<not> prefix OPEN (CHR ''$'' # s)"
  shows "\<not> prefix OPEN (CHR ''$'' # template_literal s)"
    and "\<not> prefix ESCAPED_OPEN (CHR ''$'' # template_literal s)"
proof -
  show "\<not> prefix OPEN (CHR ''$'' # template_literal s)"
    using assms literal_braces [of s] by (auto simp: OPEN_def)
  show "\<not> prefix ESCAPED_OPEN (CHR ''$'' # template_literal s)"
  proof
    assume "prefix ESCAPED_OPEN (CHR ''$'' # template_literal s)"
    then have p: "prefix OPEN (template_literal s)" by (simp add: ESCAPED_OPEN_def OPEN_def)
    then obtain c s' where s: "s = c # s'" by (cases s) (auto simp: template_literal_def OPEN_def)
    show False
    proof (cases "prefix OPEN s")
      case True
      then obtain u where "s = OPEN @ u" by (auto simp: prefix_def)
      then have "template_literal s = ESCAPED_OPEN @ template_literal u"
        by (simp add: template_literal_def OPEN_def)
      with p show False by (simp add: OPEN_def ESCAPED_OPEN_def)
    next
      case False
      then have "template_literal s = c # template_literal s'" using s by (simp add: template_literal_def)
      with p have c: "c = CHR ''$''" and "prefix ''{{'' (template_literal s')" by (auto simp: OPEN_def)
      from literal_braces [OF this(2)] have "prefix OPEN s" by (simp add: OPEN_def s c)
      with False show False by contradiction
    qed
  qed
qed

lemma loop_literal: "segments_loop segs t (template_literal s) = Inr (flush_text segs (t @ s))"
proof (induction "length s" arbitrary: s t rule: less_induct)
  case less
  show ?case
  proof (cases s)
    case Nil
    then show ?thesis by (simp add: template_literal_def)
  next
    case (Cons c r)
    consider (opened) "prefix OPEN s" | (dollar) "\<not> prefix OPEN s" "c = CHR ''$''"
      | (other) "c \<noteq> CHR ''$''" by blast
    then show ?thesis
    proof cases
      case opened
      then obtain u where u: "s = OPEN @ u" by (auto simp: prefix_def)
      then have "template_literal s = ESCAPED_OPEN @ template_literal u"
        by (simp add: template_literal_def OPEN_def)
      moreover have "length u < length s" by (simp add: u OPEN_def)
      ultimately show ?thesis by (simp add: loop_escaped less u)
    next
      case dollar
      then have "template_literal s = CHR ''$'' # template_literal r"
        by (simp add: template_literal_def Cons)
      moreover have "\<not> prefix OPEN (CHR ''$'' # r)" using dollar Cons by simp
      ultimately show ?thesis
        using less [of r] dollar(2) by (simp add: loop_dollar literal_no_new_open Cons)
    next
      case other
      then have "template_literal s = c # template_literal r"
        by (simp add: template_literal_def Cons OPEN_def)
      then show ?thesis using less [of r] other by (simp add: loop_other Cons)
    qed
  qed
qed

lemma segments_literal: "segments (template_literal s) = Inr (flush_text [] s)"
  by (simp add: segments_def loop_literal)

lemma literal_fold_flush [simp]: "literal_fold [] (flush_text [] s) = Some s"
  by (simp add: flush_text_def)

lemma as_literal_literal: "as_literal (template_literal s) = Some s"
proof (cases "contains_str OPEN s")
  case True
  then obtain a b where "template_literal s = a @ ESCAPED_OPEN @ b"
    unfolding template_literal_def using replace_contains [of OPEN s ESCAPED_OPEN] by (auto simp: OPEN_def)
  then have "template_literal s = (a @ ''$'') @ OPEN @ b" by (simp add: ESCAPED_OPEN_def OPEN_def)
  then have "contains_str OPEN (template_literal s)" unfolding contains_str_iff by blast
  then show ?thesis by (simp add: as_literal_def segments_literal)
next
  case False
  then show ?thesis by (simp add: as_literal_def template_literal_def replace_id)
qed

text \<open>Plain text is its own template, and parses to itself.\<close>

lemma segments_plain: "\<not> contains_str OPEN s \<Longrightarrow> segments s = Inr (flush_text [] s)"
  using segments_literal [of s] by (simp add: template_literal_def replace_id)

lemma as_literal_segments:
  "as_literal s = (case segments s of Inl _ \<Rightarrow> None | Inr segs \<Rightarrow> literal_fold [] segs)"
  by (simp add: as_literal_def segments_plain)

lemma literal_fold_none: "literal_fold t segs = None \<longleftrightarrow> (\<exists>r. Seg_Reference r \<in> set segs)"
  by (induction t segs rule: literal_fold.induct) auto

section \<open>Printing templates\<close>

text \<open>The template that parses to given segments.\<close>

fun show_segment :: "segment \<Rightarrow> template" where
  "show_segment (Seg_Text t) = template_literal t"
| "show_segment (Seg_Reference r) = OPEN @ '' '' @ show_reference r @ '' '' @ CLOSE"

definition show_segments :: "segment list \<Rightarrow> template" where
  "show_segments segs = concat (map show_segment segs)"

text \<open>What the parser produces: texts are neither empty nor adjacent, a text before a reference
  does not end in a dollar (which would escape it), and references are spelled like identifiers.\<close>

fun valid_reference :: "reference \<Rightarrow> bool" where
  "valid_reference (Ref_Variable name) = valid_identifier name"
| "valid_reference (Ref_System _) = True"

fun text_before :: "string \<Rightarrow> segment list \<Rightarrow> bool" where
  "text_before t [] = True"
| "text_before t (Seg_Text _ # _) = False"
| "text_before t (Seg_Reference _ # _) = (last t \<noteq> CHR ''$'')"

fun canonical_segments :: "segment list \<Rightarrow> bool" where
  "canonical_segments [] = True"
| "canonical_segments (Seg_Text t # segs) = (t \<noteq> [] \<and> text_before t segs \<and> canonical_segments segs)"
| "canonical_segments (Seg_Reference r # segs) = (valid_reference r \<and> canonical_segments segs)"

subsection \<open>Identifiers and whitespace\<close>

text \<open>The bytes of identifiers and dots are neither whitespace nor part of its encodings.\<close>

definition identifier_byte :: "char \<Rightarrow> bool" where
  "identifier_byte b \<longleftrightarrow>
     is_ascii_alphanumeric b \<or> b = CHR ''_'' \<or> b = CHR ''-'' \<or> b = CHR ''.''"

lemma identifier_byte_range: "identifier_byte b \<Longrightarrow> 33 \<le> byte b \<and> byte b \<le> 122"
  by (auto simp: identifier_byte_def is_ascii_alphanumeric_def is_ascii_alphabetic_def ascii_bytes)

lemma identifier_byte_other:
  "identifier_byte b \<Longrightarrow> b \<noteq> CHR ''$'' \<and> b \<noteq> CHR ''}'' \<and> b \<noteq> CHR ''{'' \<and> b \<noteq> CHR '' ''"
  by (auto simp: identifier_byte_def ascii_defs)

lemma whitespace_ends:
  "w \<in> set WHITESPACE \<Longrightarrow> w \<noteq> [] \<and> (byte (hd w) < 33 \<or> 122 < byte (hd w)) \<and> (byte (last w) < 33 \<or> 122 < byte (last w))"
proof -
  have "list_all (\<lambda>w. w \<noteq> [] \<and> (byte (hd w) < 33 \<or> 122 < byte (hd w))
      \<and> (byte (last w) < 33 \<or> 122 < byte (last w))) WHITESPACE"
    by code_simp
  then show "w \<in> set WHITESPACE \<Longrightarrow> ?thesis" by (simp add: list_all_iff)
qed

lemma strip_all_stop:
  assumes "\<And>w. w \<in> set ws \<Longrightarrow> \<not> (w \<noteq> [] \<and> prefix w s)"
  shows "strip_all ws s = s"
proof -
  have "List.find (\<lambda>w. w \<noteq> [] \<and> prefix w s) ws = None"
    using assms by (auto simp: find_none)
  then show ?thesis by (subst strip_all.simps) simp
qed

text \<open>A byte that is neither whitespace nor part of its encodings.\<close>

definition solid_byte :: "char \<Rightarrow> bool" where
  "solid_byte b \<longleftrightarrow> 33 \<le> byte b \<and> byte b \<le> 122"

lemma strip_all_solid:
  assumes "s \<noteq> []" "solid_byte (hd s)" "ws = WHITESPACE \<or> ws = map rev WHITESPACE"
  shows "strip_all ws s = s"
proof (rule strip_all_stop, rule notI)
  fix w assume w: "w \<in> set ws" "w \<noteq> [] \<and> prefix w s"
  then have "hd w = hd s" by (metis hd_append2 prefix_def)
  moreover have "byte (hd w) < 33 \<or> 122 < byte (hd w)"
  proof (cases "w \<in> set WHITESPACE")
    case True
    then show ?thesis using whitespace_ends by blast
  next
    case False
    then obtain v where "v \<in> set WHITESPACE" "w = rev v" using w(1) assms(3) by auto
    with whitespace_ends [of v] show ?thesis by (simp add: hd_rev)
  qed
  ultimately show False using assms(2) by (auto simp: solid_byte_def)
qed

lemma trim_solid:
  assumes "s \<noteq> []" "solid_byte (hd s)" "solid_byte (last s)"
  shows "trim_str s = s"
  using assms strip_all_solid [of s WHITESPACE] strip_all_solid [of "rev s" "map rev WHITESPACE"]
  by (simp add: trim_str_def hd_rev)

lemma strip_all_space:
  assumes "s \<noteq> []" "identifier_byte (hd s)" "ws = WHITESPACE \<or> ws = map rev WHITESPACE"
  shows "strip_all ws (CHR '' '' # s) = s"
proof -
  have stop: "strip_all ws s = s"
    using assms identifier_byte_range by (intro strip_all_solid) (auto simp: solid_byte_def)
  have single: "w = '' ''" if member: "w \<in> set ws" and ne: "w \<noteq> []" and pre: "prefix w (CHR '' '' # s)" for w
  proof (cases w)
    case (Cons c w')
    have "list_all (\<lambda>w. w = '' '' \<or> hd w \<noteq> CHR '' '' \<and> last w \<noteq> CHR '' '') WHITESPACE" by code_simp
    then have ends: "v = '' '' \<or> hd v \<noteq> CHR '' '' \<and> last v \<noteq> CHR '' ''" if "v \<in> set WHITESPACE" for v
      using that by (auto simp: list_all_iff)
    have "w = '' '' \<or> hd w \<noteq> CHR '' ''"
    proof (cases "w \<in> set WHITESPACE")
      case False
      then obtain v where "v \<in> set WHITESPACE" "w = rev v" using member assms(3) by auto
      with ends [of v] show ?thesis by (auto simp: hd_rev)
    qed (use ends in blast)
    with pre Cons show ?thesis by auto
  qed (use ne in simp)
  have space: "'' '' \<in> set ws"
  proof -
    have "List.find (\<lambda>w. w = '' '') WHITESPACE = Some '' ''"
      and "List.find (\<lambda>w. w = '' '') (map rev WHITESPACE) = Some '' ''" by code_simp+
    then have "'' '' \<in> set WHITESPACE" and "'' '' \<in> set (map rev WHITESPACE)"
      by (blast dest: find_mem)+
    with assms(3) show ?thesis by blast
  qed
  have "List.find (\<lambda>w. w \<noteq> [] \<and> prefix w (CHR '' '' # s)) ws = Some '' ''"
  proof (cases "List.find (\<lambda>w. w \<noteq> [] \<and> prefix w (CHR '' '' # s)) ws")
    case None
    then have "\<not> ('' '' \<noteq> [] \<and> prefix '' '' (CHR '' '' # s))" using space unfolding find_none by blast
    then show ?thesis by simp
  next
    case (Some w)
    then show ?thesis using find_mem [OF Some] single by blast
  qed
  then show ?thesis by (subst strip_all.simps) (simp add: stop)
qed

lemma trim_padded:
  assumes "list_all identifier_byte s" "s \<noteq> []"
  shows "trim_str ('' '' @ s @ '' '') = s"
proof -
  have ends: "identifier_byte (hd s)" "identifier_byte (last s)"
    using assms by (auto simp: list_all_iff)
  have "strip_all WHITESPACE (CHR '' '' # s @ '' '') = s @ '' ''"
    using assms ends by (intro strip_all_space) auto
  moreover have "strip_all (map rev WHITESPACE) (CHR '' '' # rev s) = rev s"
    using assms ends by (intro strip_all_space) (auto simp: hd_rev)
  ultimately show ?thesis by (simp add: trim_str_def)
qed

subsection \<open>References read back\<close>

lemma identifier_bytes: "valid_identifier s \<Longrightarrow> s \<noteq> [] \<and> list_all identifier_byte s \<and> CHR ''.'' \<notin> set s"
  by (auto simp: valid_identifier_def identifier_byte_def list_all_iff ascii_defs split: list.splits)

lemma show_reference_bytes:
  assumes "valid_reference r"
  shows "show_reference r \<noteq> [] \<and> list_all identifier_byte (show_reference r)"
proof (cases r)
  case (Ref_Variable name)
  then show ?thesis using assms identifier_bytes [of name]
    by (auto simp: identifier_byte_def ascii_defs)
next
  case (Ref_System v)
  then show ?thesis by (cases v) (simp_all add: identifier_byte_def ascii_defs)
qed

lemma reference_parse_system: "reference_parse (system_variable_as_str v) = Inr (Ref_System v)"
proof -
  have "list_all (\<lambda>v. reference_parse (system_variable_as_str v) = Inr (Ref_System v)) system_variable_all"
    by code_simp
  then show ?thesis by (cases v) (simp_all add: system_variable_all_def)
qed

lemma reference_parse_show:
  assumes "valid_reference r"
  shows "reference_parse (show_reference r) = Inr r"
proof (cases r)
  case (Ref_Variable name)
  have "split_once (CHR ''.'') (''vars.'' @ name) = Some (''vars'', name)"
    by (simp add: split_once_iff)
  moreover have "valid_identifier ''vars''" by code_simp
  ultimately show ?thesis using assms Ref_Variable by (simp add: reference_parse_def)
next
  case (Ref_System v)
  then show ?thesis by (simp add: reference_parse_system)
qed

lemma reference_parse_valid: "reference_parse inner = Inr r \<Longrightarrow> valid_reference r"
  by (auto simp: reference_parse_def split: option.splits prod.splits if_splits)

lemma find_close:
  "CHR ''}'' \<notin> set s \<Longrightarrow> find_str CLOSE (s @ CLOSE @ rest) = Some (length s)"
  by (induction s) (auto simp: CLOSE_def)

lemma loop_reference:
  assumes "valid_reference r"
  shows "segments_loop segs t (show_segment (Seg_Reference r) @ rest) =
     segments_loop (flush_text segs t @ [Seg_Reference r]) [] rest"
proof -
  let ?inner = "'' '' @ show_reference r @ '' ''"
  have bytes: "show_reference r \<noteq> []" "list_all identifier_byte (show_reference r)"
    using show_reference_bytes [OF assms] by auto
  then have "CHR ''}'' \<notin> set ?inner"
    using identifier_byte_other by (auto simp: list_all_iff)
  then have "find_str CLOSE (?inner @ CLOSE @ rest) = Some (length ?inner)" by (rule find_close)
  moreover have "reference_parse (trim_str ?inner) = Inr r"
    using trim_padded [OF bytes(2,1)] reference_parse_show [OF assms] by simp
  moreover have "show_segment (Seg_Reference r) @ rest = OPEN @ (?inner @ CLOSE @ rest)" by simp
  ultimately show ?thesis
    by (simp only: loop_open) simp
qed

subsection \<open>Templates read back\<close>

text \<open>Literal text parses as itself also when other segments follow, unless its last dollar meets the
  braces of a reference.\<close>

lemma literal_empty: "template_literal s = [] \<longleftrightarrow> s = []"
  by (cases s) (auto simp: template_literal_def ESCAPED_OPEN_def)

lemma prefix_before_dollar:
  assumes "rest = [] \<or> hd rest = CHR ''$''"
  shows "prefix ''{{'' (x @ rest) \<Longrightarrow> prefix ''{{'' x"
    and "x \<noteq> [] \<Longrightarrow> prefix OPEN (x @ rest) \<Longrightarrow> prefix OPEN x"
proof -
  have rest: "\<not> prefix (CHR ''{'' # p) rest" for p
    using assms by (cases rest) auto
  have braces: "prefix ''{{'' (y @ rest) \<Longrightarrow> prefix ''{{'' y" for y
  proof -
    assume p: "prefix ''{{'' (y @ rest)"
    consider "y = []" | a where "y = [a]" | a b z where "y = a # b # z"
      by (metis list.exhaust)
    then show "prefix ''{{'' y"
      using p rest [of "''{''"] rest [of "[]"] by cases auto
  qed
  show "prefix ''{{'' (x @ rest) \<Longrightarrow> prefix ''{{'' x" by (rule braces)
  show "x \<noteq> [] \<Longrightarrow> prefix OPEN (x @ rest) \<Longrightarrow> prefix OPEN x"
    using braces [of "tl x"] by (cases x) (auto simp: OPEN_def)
qed

lemma literal_no_new_open_append:
  assumes "\<not> prefix OPEN (CHR ''$'' # s)" "s \<noteq> []" "rest = [] \<or> hd rest = CHR ''$''"
  shows "\<not> prefix OPEN (CHR ''$'' # template_literal s @ rest)"
    and "\<not> prefix ESCAPED_OPEN (CHR ''$'' # template_literal s @ rest)"
proof -
  show "\<not> prefix OPEN (CHR ''$'' # template_literal s @ rest)"
    using literal_no_new_open(1) [OF assms(1)] prefix_before_dollar(1) [OF assms(3), of "template_literal s"]
    by (auto simp: OPEN_def)
  show "\<not> prefix ESCAPED_OPEN (CHR ''$'' # template_literal s @ rest)"
    using literal_no_new_open(2) [OF assms(1)] prefix_before_dollar(2) [OF assms(3), of "template_literal s"]
      literal_empty [of s] assms(2)
    by (auto simp: ESCAPED_OPEN_def OPEN_def)
qed

lemma loop_literal_append:
  assumes "s \<noteq> [] \<longrightarrow> last s \<noteq> CHR ''$''" "rest = [] \<or> hd rest = CHR ''$''"
  shows "segments_loop segs t (template_literal s @ rest) = segments_loop segs (t @ s) rest"
  using assms(1)
proof (induction "length s" arbitrary: s t rule: less_induct)
  case less
  show ?case
  proof (cases s)
    case Nil
    then show ?thesis by (simp add: template_literal_def)
  next
    case (Cons c r)
    consider (opened) "prefix OPEN s" | (dollar) "\<not> prefix OPEN s" "c = CHR ''$''"
      | (other) "c \<noteq> CHR ''$''" by blast
    then show ?thesis
    proof cases
      case opened
      then obtain u where u: "s = OPEN @ u" by (auto simp: prefix_def)
      then have "template_literal s = ESCAPED_OPEN @ template_literal u"
        by (simp add: template_literal_def OPEN_def)
      moreover have "length u < length s" by (simp add: u OPEN_def)
      moreover have "u \<noteq> [] \<longrightarrow> last u \<noteq> CHR ''$''" using less(2) by (auto simp: u)
      ultimately show ?thesis by (simp add: loop_escaped less u)
    next
      case dollar
      have r: "r \<noteq> []" "last r \<noteq> CHR ''$''" using less(2) dollar(2) Cons by (auto split: if_splits)
      have lit: "template_literal s = CHR ''$'' # template_literal r"
        using dollar by (simp add: template_literal_def Cons)
      have "\<not> prefix OPEN (CHR ''$'' # template_literal r @ rest)"
        "\<not> prefix ESCAPED_OPEN (CHR ''$'' # template_literal r @ rest)"
        using literal_no_new_open_append [of r rest] dollar r assms(2) Cons by auto
      then show ?thesis
        using less(1) [of r] dollar(2) r lit by (simp add: loop_dollar Cons)
    next
      case other
      then have "template_literal s = c # template_literal r"
        by (simp add: template_literal_def Cons OPEN_def)
      moreover have "r \<noteq> [] \<longrightarrow> last r \<noteq> CHR ''$''" using less(2) Cons by (auto split: if_splits)
      ultimately show ?thesis using less(1) [of r] other by (simp add: loop_other Cons)
    qed
  qed
qed

lemma show_segments_hd:
  "segs = [] \<or> (\<exists>r rest. segs = Seg_Reference r # rest) \<Longrightarrow>
   show_segments segs = [] \<or> hd (show_segments segs) = CHR ''$''"
  by (auto simp: show_segments_def OPEN_def)

lemma loop_show_segments:
  "canonical_segments segs \<Longrightarrow>
   segments_loop done [] (show_segments segs) = Inr (done @ segs)"
proof (induction segs arbitrary: "done" rule: canonical_segments.induct)
  case (2 s segs)
  then have s: "s \<noteq> []" "text_before s segs" "canonical_segments segs" by auto
  show ?case
  proof (cases segs)
    case Nil
    then show ?thesis using s by (simp add: show_segments_def loop_literal flush_text_def)
  next
    case (Cons seg rest)
    then obtain r where r: "segs = Seg_Reference r # rest" "last s \<noteq> CHR ''$''"
      using s by (cases seg) auto
    have shown: "show_segments segs = show_segment (Seg_Reference r) @ show_segments rest"
      by (simp add: show_segments_def r)
    have "segments_loop done [] (show_segments (Seg_Text s # segs)) = segments_loop done s (show_segments segs)"
      using loop_literal_append [of s "show_segments segs" "done" "[]"] show_segments_hd [of segs] r
      by (simp add: show_segments_def)
    also have "\<dots> = segments_loop (done @ [Seg_Text s]) [] (show_segments segs)"
      using s r loop_reference [of r "done" s "show_segments rest"]
        loop_reference [of r "done @ [Seg_Text s]" "[]" "show_segments rest"]
      unfolding shown by (simp del: show_segment.simps add: flush_text_def)
    also have "\<dots> = Inr ((done @ [Seg_Text s]) @ segs)" using 2 s by blast
    finally show ?thesis by simp
  qed
next
  case (3 r segs)
  then show ?case
    using loop_reference [of r "done" "[]" "show_segments segs"]
    by (simp del: show_segment.simps add: show_segments_def flush_text_def)
qed (simp add: show_segments_def flush_text_def)

text \<open>The parser only produces canonical segments: the text collected so far never ends in a dollar
  in front of braces.\<close>

fun dollar_kept :: "string \<Rightarrow> string \<Rightarrow> bool" where
  "dollar_kept t rest = (t = [] \<or> last t \<noteq> CHR ''$'' \<or> \<not> prefix OPEN rest)"

fun closed_segments :: "segment list \<Rightarrow> bool" where
  "closed_segments segs = (canonical_segments segs \<and> (segs = [] \<or> (\<exists>r. last segs = Seg_Reference r)))"

lemma canonical_append:
  "canonical_segments segs \<Longrightarrow> segs = [] \<or> (\<exists>r. last segs = Seg_Reference r) \<Longrightarrow> canonical_segments tail \<Longrightarrow>
   canonical_segments (segs @ tail)"
proof (induction segs rule: canonical_segments.induct)
  case (2 s segs)
  then have "segs \<noteq> []" by auto
  with 2 show ?case by (cases segs rule: canonical_segments.cases) auto
next
  case (3 r segs)
  then show ?case by (cases "segs = []") auto
qed simp

lemma loop_canonical:
  "segments_loop segs t rest = Inr out \<Longrightarrow> closed_segments segs \<Longrightarrow> dollar_kept t rest \<Longrightarrow>
   canonical_segments out"
proof (induction "length rest" arbitrary: segs t rest rule: less_induct)
  case less
  show ?case
  proof (cases rest)
    case Nil
    then show ?thesis using less(2,3) canonical_append [of segs "[Seg_Text t]"]
      by (auto simp: flush_text_def split: if_splits)
  next
    case (Cons c r)
    consider (escaped) u where "rest = ESCAPED_OPEN @ u" | (opened) u where "rest = OPEN @ u"
      | (dollar) "\<not> prefix ESCAPED_OPEN rest" "\<not> prefix OPEN rest" "c = CHR ''$''"
      | (other) "c \<noteq> CHR ''$''" by (auto simp: prefix_def)
    then show ?thesis
    proof cases
      case escaped
      have "dollar_kept (t @ OPEN) u" by (simp add: OPEN_def)
      moreover have "length u < length rest" by (simp add: escaped ESCAPED_OPEN_def)
      ultimately show ?thesis using less(1) [of u segs "t @ OPEN"] less(2,3) by (simp add: escaped loop_escaped)
    next
      case opened
      then obtain stop ref where stop: "find_str CLOSE u = Some stop"
        and ref: "reference_parse (trim_str (take stop u)) = Inr ref"
        and out: "segments_loop (flush_text segs t @ [Seg_Reference ref]) [] (drop (stop + length CLOSE) u) = Inr out"
        using less(2) by (auto simp: loop_open split: option.splits sum.splits)
      have "canonical_segments [Seg_Text t, Seg_Reference ref]" if "t \<noteq> []"
        using that less(4) reference_parse_valid [OF ref] by (auto simp: opened)
      then have "closed_segments (flush_text segs t @ [Seg_Reference ref])"
        using less(3) reference_parse_valid [OF ref]
          canonical_append [of segs "[Seg_Text t, Seg_Reference ref]"]
          canonical_append [of segs "[Seg_Reference ref]"]
        by (auto simp: flush_text_def)
      moreover have "length (drop (stop + length CLOSE) u) < length rest" by (simp add: opened OPEN_def)
      ultimately show ?thesis using less(1) [OF _ out] by simp
    next
      case dollar
      have "dollar_kept (t @ ''$'') r"
        using dollar Cons by (auto simp: ESCAPED_OPEN_def OPEN_def)
      then show ?thesis
        using less(1) [of r segs "t @ ''$''"] less(2,3) dollar Cons by (simp add: loop_dollar)
    next
      case other
      then have "dollar_kept (t @ [c]) r" by simp
      then show ?thesis using less(1) [of r segs "t @ [c]"] less(2,3) other Cons by (simp add: loop_other)
    qed
  qed
qed

lemma segments_canonical: "segments t = Inr segs \<Longrightarrow> canonical_segments segs"
  using loop_canonical [of "[]" "[]" t segs] by (simp add: segments_def)

lemma segments_show: "canonical_segments segs \<Longrightarrow> segments (show_segments segs) = Inr segs"
  using loop_show_segments [of segs "[]"] by (simp add: segments_def)

section \<open>What parsing and escaping guarantee\<close>

text \<open>C24: Literal text survives its escaped form, and a template's parts survive being printed. The template
  \<open>literal\<close> writes for any text reads as that text and consists of it alone, so no text of a caller is
  taken for a reference; and when a template parses, writing its parts back, with literal parts escaped,
  parses to the same parts.\<close>

theorem literal_text_round_trip:
  "as_literal (template_literal s) = Some s
   \<and> segments (template_literal s) = Inr (if s = [] then [] else [Seg_Text s])
   \<and> (case segments t of Inl _ \<Rightarrow> True | Inr parts \<Rightarrow> segments (show_segments parts) = Inr parts)"
  by (simp add: as_literal_literal segments_literal flush_text_def segments_show segments_canonical split: sum.splits)

end
