(* ===== verification/Manifest_Input.thy ===== *)
theory Manifest_Input
  imports Domain Templates
begin

text \<open>
  The editable manifest: \<open>crates/piqueld-core/src/manifest/input.rs\<close>, with the input shapes of
  \<open>rollout.rs\<close> and \<open>links.rs\<close>, the render targets of \<open>variables.rs\<close>, and the operations that change a
  specification before it is validated. An \<open>i64\<close> is an \<open>int\<close> whose bounds are part of the
  statements that need them.
\<close>

section \<open>Variables (input.rs)\<close>

datatype variable = Var_Boolean bool | Var_Integer int | Var_String template

definition QUOTE :: char where "QUOTE = CHR 0x22"

definition variable_from_text :: "string \<Rightarrow> variable" where
  "variable_from_text t =
     (case Option.bind (strip_prefix [QUOTE] t) (strip_suffix [QUOTE]) of
        Some quoted_text \<Rightarrow> Var_String quoted_text
      | None \<Rightarrow>
          (case (parse_bool t, parse_i64 t) of
             (Some b, _) \<Rightarrow> Var_Boolean b
           | (None, Some i) \<Rightarrow> Var_Integer i
           | (None, None) \<Rightarrow> Var_String t))"

text \<open>\<open>Display for Variable\<close>\<close>

fun show_variable :: "variable \<Rightarrow> string" where
  "show_variable (Var_Boolean b) = show_bool b"
| "show_variable (Var_Integer i) = show_int i"
| "show_variable (Var_String t) = t"

definition variable_to_text :: "variable \<Rightarrow> string" where
  "variable_to_text v =
     (case v of
        Var_String t \<Rightarrow>
          if trim_str t = [] \<or> variable_from_text t \<noteq> v then [QUOTE] @ t @ [QUOTE]
          else show_variable v
      | _ \<Rightarrow> show_variable v)"

section \<open>Environments and previews (input.rs)\<close>

record environment_config =
  ec_branch :: "string option"
  ec_commit :: "string option"
  ec_promote_from :: "string option"
  ec_sync :: "bool option"
  ec_visibility :: visibility
  ec_rollback :: "rollback option"
  ec_variables :: "(string, variable) mapping"

definition environment_config_default :: environment_config where
  "environment_config_default =
     \<lparr>ec_branch = None, ec_commit = None, ec_promote_from = None, ec_sync = None,
      ec_visibility = Public, ec_rollback = None, ec_variables = Mapping.empty\<rparr>"

definition sets_source :: "environment_config \<Rightarrow> bool" where
  "sets_source config \<longleftrightarrow>
     ec_branch config \<noteq> None \<or> ec_commit config \<noteq> None
     \<or> ec_promote_from config \<noteq> None \<or> ec_sync config \<noteq> None"

record preview_config =
  pc_visibility :: visibility
  pc_variables :: "(string, variable) mapping"

definition preview_config_default :: preview_config where
  "preview_config_default = \<lparr>pc_visibility = Private, pc_variables = Mapping.empty\<rparr>"

section \<open>Services (input.rs, rollout.rs)\<close>

datatype build_input =
  Input_Docker (bi_dockerfile: template) (bi_context: template)
    (bi_args: "(string, template) mapping") (bi_target: "template option")

datatype source_input = Input_Image template | Input_Git source_repository build_input

datatype health_input =
    Input_Http (hi_port: "u16 typed") (hi_path: template) (hi_interval: "u32 typed")
      (hi_timeout: "u32 typed") (hi_start_period: "u32 typed") (hi_retries: "u32 typed")
  | Input_Command (hi_command: "template list") (hi_interval: "u32 typed")
      (hi_timeout: "u32 typed") (hi_start_period: "u32 typed") (hi_retries: "u32 typed")

record limits_input =
  li_cpu_millis :: "u32 typed option"
  li_memory_bytes :: "u64 typed option"

record rollout_input =
  ri_order :: "rollout_order typed option"
  ri_monitor_seconds :: "u32 typed option"

record secret_input =
  si_name :: template
  si_target :: string

record mount_input =
  mi_volume :: string
  mi_target :: string
  mi_read_only :: bool

record service_input =
  svi_name :: string
  svi_source :: source_input
  svi_replicas :: "u16 typed"
  svi_environment :: "(string, template) mapping"
  svi_command :: "template list"
  svi_arguments :: "template list"
  svi_mounts :: "mount_input list"
  svi_secrets :: "secret_input list"
  svi_files :: "service_file list"
  svi_healthcheck :: "health_input option"
  svi_resources :: "limits_input option"
  svi_depends_on :: "string list"
  svi_rollout :: rollout_input
  svi_receives_telemetry :: bool

record job_input =
  ji_name :: string
  ji_service :: string
  ji_command :: "template list"
  ji_environment :: "(string, template) mapping"
  ji_secrets :: "secret_input list"
  ji_run :: job_run
  ji_timeout_seconds :: u32
  ji_volume_access :: job_volume_access
  ji_stop_service :: bool

section \<open>Routes and links (input.rs, links.rs)\<close>

record redirect_input =
  rdi_to :: template
  rdi_status :: u16
  rdi_preserve_path :: bool

record route_input =
  rti_hostname :: template
  rti_name :: "string option"
  rti_visibility :: visibility
  rti_service :: "string option"
  rti_port :: "u16 option"
  rti_redirect :: "redirect_input option"

definition route_to_service :: "string \<Rightarrow> visibility \<Rightarrow> string \<Rightarrow> u16 \<Rightarrow> route_input" where
  "route_to_service hostname visibility service port =
     \<lparr>rti_hostname = hostname, rti_name = None, rti_visibility = visibility,
      rti_service = Some service, rti_port = Some port, rti_redirect = None\<rparr>"

definition route_to_redirect :: "string \<Rightarrow> visibility \<Rightarrow> redirect_input \<Rightarrow> route_input" where
  "route_to_redirect hostname visibility redirect =
     \<lparr>rti_hostname = hostname, rti_name = None, rti_visibility = visibility,
      rti_service = None, rti_port = None, rti_redirect = Some redirect\<rparr>"

definition route_named :: "route_input \<Rightarrow> string option \<Rightarrow> route_input" where
  "route_named route name = route\<lparr>rti_name := name\<rparr>"

record export_input =
  xi_service :: string
  xi_applications :: "string list"
  xi_previews :: bool

record import_input =
  ii_application :: string
  ii_service :: string
  ii_environment :: "template option"

section \<open>The specification (input.rs)\<close>

record application_spec =
  as_manifest :: "repository_manifest option"
  as_services :: "service_input list"
  as_volumes :: "string list"
  as_routes :: "route_input list"
  as_secrets :: "secret_declaration list"
  as_jobs :: "job_input list"
  as_exports :: "export_input list"
  as_imports :: "import_input list"
  as_variables :: "(string, variable) mapping"
  as_environments :: "(string, environment_config) mapping"
  as_previews :: preview_config

record application_manifest =
  am_api_version :: string
  am_kind :: string
  am_name :: string
  am_spec :: application_spec

text \<open>\<open>RenderTarget\<close>\<close>

datatype render_target = Target_Environment string | Target_Preview_Slug string

fun target_name :: "render_target \<Rightarrow> string" where
  "target_name (Target_Environment name) = name"
| "target_name (Target_Preview_Slug slug) = slug"

fun show_target :: "render_target \<Rightarrow> string" where
  "show_target (Target_Environment name) = ''environment '' @ name"
| "show_target (Target_Preview_Slug slug) = ''preview '' @ slug"

section \<open>Operations\<close>

definition sync_is_off :: "repository_sync \<Rightarrow> bool" where
  "sync_is_off sync \<longleftrightarrow> sync = Sync_Off"

definition manifest_syncs :: "repository_manifest \<Rightarrow> bool" where
  "manifest_syncs manifest \<longleftrightarrow> \<not> sync_is_off (rm_sync manifest)"

definition deploys_on_push :: "application_spec \<Rightarrow> repository_manifest option \<Rightarrow> bool" where
  "deploys_on_push spec current \<longleftrightarrow>
     (case as_manifest spec of None \<Rightarrow> False | Some m \<Rightarrow> manifest_syncs m)
     \<and> (\<not> (case current of None \<Rightarrow> False | Some m \<Rightarrow> manifest_syncs m)
        \<or> (\<exists>environment \<in> Mapping.keys (as_environments spec).
             case Mapping.lookup (as_environments spec) environment of
               None \<Rightarrow> False | Some config \<Rightarrow> ec_sync config = Some True))"

definition input_secret_mounts :: "application_spec \<Rightarrow> secret_input list" where
  "input_secret_mounts spec =
     concat (map svi_secrets (as_services spec)) @ concat (map ji_secrets (as_jobs spec))"

fun resolve_source :: "git_repository \<Rightarrow> source_input \<Rightarrow> source_input" where
  "resolve_source manifest (Input_Image img) = Input_Image img"
| "resolve_source manifest (Input_Git repository build) =
     Input_Git (resolve_manifest manifest repository) build"

definition disconnect :: "application_spec \<Rightarrow> application_spec" where
  "disconnect spec =
     (case as_manifest spec of
        None \<Rightarrow> spec
      | Some previous \<Rightarrow>
          spec\<lparr>as_manifest := None,
               as_services := map (\<lambda>service. service\<lparr>svi_source :=
                   resolve_source (rm_repository previous) (svi_source service)\<rparr>) (as_services spec),
               as_environments := Mapping.map_values
                   (\<lambda>_ config. config\<lparr>ec_branch := None, ec_commit := None, ec_sync := None\<rparr>)
                   (as_environments spec)\<rparr>)"

definition set_environment_visibility ::
  "string \<Rightarrow> visibility \<Rightarrow> application_spec \<Rightarrow> application_spec" where
  "set_environment_visibility environment visibility spec =
     (case Mapping.lookup (as_environments spec) environment of
        Some config \<Rightarrow>
          spec\<lparr>as_environments := Mapping.update environment (config\<lparr>ec_visibility := visibility\<rparr>)
                 (as_environments spec)\<rparr>
      | None \<Rightarrow>
          if visibility = Public then spec
          else spec\<lparr>as_environments := Mapping.update environment
                      (environment_config_default\<lparr>ec_visibility := visibility\<rparr>)
                      (as_environments spec)\<rparr>)"

definition set_environment_rollback ::
  "string \<Rightarrow> rollback option \<Rightarrow> application_spec \<Rightarrow> application_spec" where
  "set_environment_rollback environment rollback spec =
     (case Mapping.lookup (as_environments spec) environment of
        Some config \<Rightarrow>
          spec\<lparr>as_environments := Mapping.update environment (config\<lparr>ec_rollback := rollback\<rparr>)
                 (as_environments spec)\<rparr>
      | None \<Rightarrow>
          if rollback = None then spec
          else spec\<lparr>as_environments := Mapping.update environment
                      (environment_config_default\<lparr>ec_rollback := rollback\<rparr>)
                      (as_environments spec)\<rparr>)"

definition spec_rollback :: "application_spec \<Rightarrow> string \<Rightarrow> bool \<Rightarrow> rollback" where
  "spec_rollback spec environment promoted =
     rollback_effective
       (Option.bind (Mapping.lookup (as_environments spec) environment) ec_rollback) promoted"

text \<open>\<open>cap_visibility\<close>: environments without a block restrict nothing.\<close>

definition visibility_ceiling :: "application_spec \<Rightarrow> render_target \<Rightarrow> visibility" where
  "visibility_ceiling spec target =
     (case target of
        Target_Environment name \<Rightarrow>
          (case Mapping.lookup (as_environments spec) name of
             None \<Rightarrow> Public | Some config \<Rightarrow> ec_visibility config)
      | Target_Preview_Slug _ \<Rightarrow> pc_visibility (as_previews spec))"

definition cap_visibility :: "render_target \<Rightarrow> application_spec \<Rightarrow> application_spec" where
  "cap_visibility target spec =
     (let ceiling = visibility_ceiling spec target
      in spec\<lparr>as_routes := map (\<lambda>route. route\<lparr>rti_visibility := capped (rti_visibility route) ceiling\<rparr>)
                (as_routes spec)\<rparr>)"

definition overrides :: "application_spec \<Rightarrow> render_target \<Rightarrow> (string \<times> (string, variable) mapping) option" where
  "overrides spec target =
     (case target of
        Target_Environment name \<Rightarrow>
          map_option (\<lambda>config. (''spec.environments.'' @ name @ ''.variables'', ec_variables config))
            (Mapping.lookup (as_environments spec) name)
      | Target_Preview_Slug _ \<Rightarrow> Some (''spec.previews.variables'', pc_variables (as_previews spec)))"

section \<open>Values typed as text read back\<close>

lemma first_char_no_bool: "c \<noteq> CHR ''t'' \<Longrightarrow> c \<noteq> CHR ''f'' \<Longrightarrow> parse_bool (c # s) = None"
  by (simp add: parse_bool_def)

lemma show_int_hd: "\<exists>c s. show_int i = c # s \<and> (c = CHR ''-'' \<or> is_ascii_digit c)"
proof (cases "i < 0")
  case False
  obtain c s where "show_nat (nat i) = c # s"
    using show_nat_digits [of "nat i"] by (cases "show_nat (nat i)") auto
  with False show ?thesis using show_nat_hd by (auto simp: show_int_def)
qed (simp add: show_int_def)

lemma unquoted: "c \<noteq> QUOTE \<Longrightarrow> Option.bind (strip_prefix [QUOTE] (c # s)) (strip_suffix [QUOTE]) = None"
  by (simp add: strip_prefix_def)

lemma from_text_quoted: "variable_from_text ([QUOTE] @ t @ [QUOTE]) = Var_String t"
proof -
  have "strip_suffix [QUOTE] (t @ [QUOTE]) = Some t" by (simp add: strip_suffix_iff)
  moreover have "strip_prefix [QUOTE] ([QUOTE] @ t @ [QUOTE]) = Some (t @ [QUOTE])"
    by (rule strip_prefix_append)
  ultimately show ?thesis by (simp add: variable_from_text_def)
qed

lemma from_text_bool: "variable_from_text (show_bool b) = Var_Boolean b"
  by (cases b) (simp_all add: variable_from_text_def show_bool_def strip_prefix_def QUOTE_def parse_bool_def)

lemma from_text_int:
  assumes "I64_MIN \<le> i" "i \<le> I64_MAX"
  shows "variable_from_text (show_int i) = Var_Integer i"
proof -
  obtain c s where s: "show_int i = c # s" and c: "c = CHR ''-'' \<or> is_ascii_digit c"
    using show_int_hd by blast
  from c have "c \<noteq> QUOTE" "c \<noteq> CHR ''t''" "c \<noteq> CHR ''f''"
    by (auto simp: QUOTE_def ascii_bytes)
  then show ?thesis using parse_show_int [OF assms]
    by (simp add: variable_from_text_def s unquoted first_char_no_bool)
qed

lemma show_int_solid: "s = show_int i \<Longrightarrow> s \<noteq> [] \<and> solid_byte (hd s) \<and> solid_byte (last s)"
proof -
  assume s: "s = show_int i"
  have digit: "is_ascii_digit c \<Longrightarrow> solid_byte c" for c by (simp add: ascii_bytes solid_byte_def)
  have nat: "show_nat n \<noteq> []" "solid_byte (hd (show_nat n))" "solid_byte (last (show_nat n))" for n
    using show_nat_digits [of n] digit by (auto simp: list_all_iff)
  then show ?thesis by (auto simp: s show_int_def solid_byte_def)
qed

lemma quoted_solid: "trim_str ([QUOTE] @ t @ [QUOTE]) \<noteq> []"
  using trim_solid [of "[QUOTE] @ t @ [QUOTE]"] by (simp add: solid_byte_def QUOTE_def)

text \<open>The integers an \<open>i64\<close> holds.\<close>

definition variable_in_range :: "variable \<Rightarrow> bool" where
  "variable_in_range v = (case v of Var_Integer i \<Rightarrow> I64_MIN \<le> i \<and> i \<le> I64_MAX | _ \<Rightarrow> True)"

text \<open>A variable's value survives the text field: what \<open>to_text\<close> shows is never blank, and
  \<open>from_text\<close> reads it back as the same value with the same type.\<close>

theorem variable_text_round_trip:
  assumes "variable_in_range v"
  shows "variable_from_text (variable_to_text v) = v \<and> trim_str (variable_to_text v) \<noteq> []"
proof (cases v)
  case (Var_Boolean b)
  then show ?thesis using trim_solid [of "show_bool b"]
      from_text_bool [of b]
    by (cases b) (auto simp: variable_to_text_def show_bool_def solid_byte_def)
next
  case (Var_Integer i)
  then show ?thesis
    using assms from_text_int show_int_solid [of "show_int i"] trim_solid [of "show_int i"]
    by (simp add: variable_to_text_def variable_in_range_def)
next
  case (Var_String t)
  then show ?thesis using from_text_quoted [of t] quoted_solid [of t]
    by (auto simp: variable_to_text_def)
qed

theorem variable_text_round_trip_witness:
  "variable_from_text (variable_to_text (Var_String ''42'')) = Var_String ''42''
   \<and> trim_str (variable_to_text (Var_String ''42'')) \<noteq> []"
  using variable_text_round_trip [of "Var_String ''42''"] by (simp add: variable_in_range_def)

end
