(* ===== verification/Rendering.thy ===== *)
theory Rendering
  imports Manifest_Input
begin

text \<open>
  Rendering a manifest for one environment (\<open>crates/piqueld-core/src/manifest/variables.rs\<close>): the visit
  of every value that may reference variables, the scope of values, and the replacement of every
  reference. The code visits slots in place through a closure; here a \<open>visitor\<close> holds the closure's
  action on each kind of slot (text, and one per type a \<open>TypedSlot\<close> erases), and a visit returns the
  visited value and the closure's state. A \<open>BTreeMap\<close> is visited in the order of its keys. What
  \<open>serde_json\<close> shows and decodes is the parameter \<open>json_api\<close>.

  The lemmas relate the visit to the flat list of slots (\<open>spec_slots\<close>): the visited specification has
  the slots that visiting the list one by one gives, so facts about rendering are facts about one
  slot.
\<close>

section \<open>Paths\<close>

definition indexed :: "string \<Rightarrow> nat \<Rightarrow> string" where
  "indexed base index = base @ ''['' @ show_nat index @ '']''"

fun char_boundary :: "string \<Rightarrow> nat \<Rightarrow> nat" where
  "char_boundary key 0 = 0"
| "char_boundary key (Suc n) =
     (if Suc n \<ge> length key \<or> \<not> is_continuation (key ! Suc n) then Suc n else char_boundary key n)"

definition path_key :: "string \<Rightarrow> string" where
  "path_key key = take (char_boundary key (min (length key) 255)) key"

section \<open>Visiting values\<close>

record 's visitor =
  on_text :: "string \<Rightarrow> template \<Rightarrow> 's \<Rightarrow> template \<times> 's"
  on_u16 :: "string \<Rightarrow> u16 typed \<Rightarrow> 's \<Rightarrow> u16 typed \<times> 's"
  on_u32 :: "string \<Rightarrow> u32 typed \<Rightarrow> 's \<Rightarrow> u32 typed \<times> 's"
  on_u64 :: "string \<Rightarrow> u64 typed \<Rightarrow> 's \<Rightarrow> u64 typed \<times> 's"
  on_order :: "string \<Rightarrow> rollout_order typed \<Rightarrow> 's \<Rightarrow> rollout_order typed \<times> 's"

text \<open>Iteration over the elements of a list, the entries of a map, and an optional value.\<close>

fun visit_list :: "(nat \<Rightarrow> 'a \<Rightarrow> 's \<Rightarrow> 'a \<times> 's) \<Rightarrow> nat \<Rightarrow> 'a list \<Rightarrow> 's \<Rightarrow> 'a list \<times> 's" where
  "visit_list f n [] s = ([], s)"
| "visit_list f n (x # xs) s =
     (let (x, s) = f n x s; (xs, s) = visit_list f (Suc n) xs s in (x # xs, s))"

fun visit_entries ::
  "(string \<Rightarrow> 'a \<Rightarrow> 's \<Rightarrow> 'a \<times> 's) \<Rightarrow> string list \<Rightarrow> (string, 'a) mapping \<Rightarrow> 's
   \<Rightarrow> (string, 'a) mapping \<times> 's" where
  "visit_entries f [] m s = (m, s)"
| "visit_entries f (k # ks) m s =
     (case Mapping.lookup m k of
        None \<Rightarrow> visit_entries f ks m s
      | Some v \<Rightarrow> (let (v, s) = f k v s in visit_entries f ks (Mapping.update k v m) s))"

definition sorted_keys :: "(string, 'a) mapping \<Rightarrow> string list" where
  "sorted_keys m = sorted_list_of_set (Mapping.keys m)"

definition visit_map ::
  "(string \<Rightarrow> 'a \<Rightarrow> 's \<Rightarrow> 'a \<times> 's) \<Rightarrow> (string, 'a) mapping \<Rightarrow> 's \<Rightarrow> (string, 'a) mapping \<times> 's" where
  "visit_map f m s = visit_entries f (sorted_keys m) m s"

definition visit_option :: "('a \<Rightarrow> 's \<Rightarrow> 'a \<times> 's) \<Rightarrow> 'a option \<Rightarrow> 's \<Rightarrow> 'a option \<times> 's" where
  "visit_option f x s = (case x of None \<Rightarrow> (None, s) | Some v \<Rightarrow> (let (v, s) = f v s in (Some v, s)))"

definition visit_texts :: "'s visitor \<Rightarrow> string \<Rightarrow> template list \<Rightarrow> 's \<Rightarrow> template list \<times> 's" where
  "visit_texts v base texts s = visit_list (\<lambda>i. on_text v (indexed base i)) 0 texts s"

definition visit_secret :: "'s visitor \<Rightarrow> string \<Rightarrow> nat \<Rightarrow> secret_input \<Rightarrow> 's \<Rightarrow> secret_input \<times> 's" where
  "visit_secret v base i secret s =
     (let (name, s) = on_text v (indexed (base @ ''.secrets'') i @ ''.name'') (si_name secret) s
      in (secret\<lparr>si_name := name\<rparr>, s))"

definition visit_container ::
  "'s visitor \<Rightarrow> string \<Rightarrow> (string, template) mapping \<Rightarrow> secret_input list \<Rightarrow> 's
   \<Rightarrow> ((string, template) mapping \<times> secret_input list) \<times> 's" where
  "visit_container v base environment secrets s =
     (let (environment, s) = visit_map (\<lambda>k. on_text v (base @ ''.environment.'' @ path_key k)) environment s;
          (secrets, s) = visit_list (visit_secret v base) 0 secrets s
      in ((environment, secrets), s))"

fun visit_health :: "'s visitor \<Rightarrow> string \<Rightarrow> health_input \<Rightarrow> 's \<Rightarrow> health_input \<times> 's" where
  "visit_health v base (Input_Http port path interval timeout start retries) s =
     (let (port, s) = on_u16 v (base @ ''.port'') port s;
          (path, s) = on_text v (base @ ''.path'') path s;
          (interval, s) = on_u32 v (base @ ''.interval_seconds'') interval s;
          (timeout, s) = on_u32 v (base @ ''.timeout_seconds'') timeout s;
          (start, s) = on_u32 v (base @ ''.start_period_seconds'') start s;
          (retries, s) = on_u32 v (base @ ''.retries'') retries s
      in (Input_Http port path interval timeout start retries, s))"
| "visit_health v base (Input_Command command interval timeout start retries) s =
     (let (command, s) = visit_texts v (base @ ''.command'') command s;
          (interval, s) = on_u32 v (base @ ''.interval_seconds'') interval s;
          (timeout, s) = on_u32 v (base @ ''.timeout_seconds'') timeout s;
          (start, s) = on_u32 v (base @ ''.start_period_seconds'') start s;
          (retries, s) = on_u32 v (base @ ''.retries'') retries s
      in (Input_Command command interval timeout start retries, s))"

fun visit_source :: "'s visitor \<Rightarrow> string \<Rightarrow> source_input \<Rightarrow> 's \<Rightarrow> source_input \<times> 's" where
  "visit_source v base (Input_Image img) s =
     (let (img, s) = on_text v (base @ ''.image'') img s in (Input_Image img, s))"
| "visit_source v base (Input_Git repository (Input_Docker dockerfile context args target)) s =
     (let build = base @ ''.build'';
          (dockerfile, s) = on_text v (build @ ''.dockerfile'') dockerfile s;
          (context, s) = on_text v (build @ ''.context'') context s;
          (args, s) = visit_map (\<lambda>k. on_text v (build @ ''.args.'' @ path_key k)) args s;
          (target, s) = visit_option (on_text v (build @ ''.target'')) target s
      in (Input_Git repository (Input_Docker dockerfile context args target), s))"

definition visit_limits :: "'s visitor \<Rightarrow> string \<Rightarrow> limits_input \<Rightarrow> 's \<Rightarrow> limits_input \<times> 's" where
  "visit_limits v base limits s =
     (let (cpu, s) = visit_option (on_u32 v (base @ ''.resources.cpu_millis'')) (li_cpu_millis limits) s;
          (memory, s) = visit_option (on_u64 v (base @ ''.resources.memory_bytes'')) (li_memory_bytes limits) s
      in (limits\<lparr>li_cpu_millis := cpu, li_memory_bytes := memory\<rparr>, s))"

definition visit_rollout :: "'s visitor \<Rightarrow> string \<Rightarrow> rollout_input \<Rightarrow> 's \<Rightarrow> rollout_input \<times> 's" where
  "visit_rollout v base rollout s =
     (let (order, s) = visit_option (on_order v (base @ ''.rollout.order'')) (ri_order rollout) s;
          (monitor, s) = visit_option (on_u32 v (base @ ''.rollout.monitor_seconds'')) (ri_monitor_seconds rollout) s
      in (rollout\<lparr>ri_order := order, ri_monitor_seconds := monitor\<rparr>, s))"

definition visit_service :: "'s visitor \<Rightarrow> nat \<Rightarrow> service_input \<Rightarrow> 's \<Rightarrow> service_input \<times> 's" where
  "visit_service v index service s =
     (let base = indexed ''spec.services'' index;
          (source, s) = visit_source v (base @ ''.source'') (svi_source service) s;
          (replicas, s) = on_u16 v (base @ ''.replicas'') (svi_replicas service) s;
          ((environment, secrets), s) =
            visit_container v base (svi_environment service) (svi_secrets service) s;
          (command, s) = visit_texts v (base @ ''.command'') (svi_command service) s;
          (arguments, s) = visit_texts v (base @ ''.arguments'') (svi_arguments service) s;
          (healthcheck, s) = visit_option (visit_health v (base @ ''.healthcheck'')) (svi_healthcheck service) s;
          (resources, s) = visit_option (visit_limits v base) (svi_resources service) s;
          (rollout, s) = visit_rollout v base (svi_rollout service) s
      in (service\<lparr>svi_source := source, svi_replicas := replicas, svi_environment := environment,
             svi_command := command, svi_arguments := arguments, svi_secrets := secrets,
             svi_healthcheck := healthcheck, svi_resources := resources, svi_rollout := rollout\<rparr>, s))"

definition visit_redirect :: "'s visitor \<Rightarrow> string \<Rightarrow> redirect_input \<Rightarrow> 's \<Rightarrow> redirect_input \<times> 's" where
  "visit_redirect v path redirect s =
     (let (to, s) = on_text v path (rdi_to redirect) s in (redirect\<lparr>rdi_to := to\<rparr>, s))"

definition visit_route :: "'s visitor \<Rightarrow> nat \<Rightarrow> route_input \<Rightarrow> 's \<Rightarrow> route_input \<times> 's" where
  "visit_route v index route s =
     (let base = indexed ''spec.routes'' index;
          (hostname, s) = on_text v (base @ ''.hostname'') (rti_hostname route) s;
          (redirect, s) = visit_option (visit_redirect v (base @ ''.redirect.to'')) (rti_redirect route) s
      in (route\<lparr>rti_hostname := hostname, rti_redirect := redirect\<rparr>, s))"

definition visit_job :: "'s visitor \<Rightarrow> nat \<Rightarrow> job_input \<Rightarrow> 's \<Rightarrow> job_input \<times> 's" where
  "visit_job v index job s =
     (let base = indexed ''spec.jobs'' index;
          (command, s) = visit_texts v (base @ ''.command'') (ji_command job) s;
          ((environment, secrets), s) = visit_container v base (ji_environment job) (ji_secrets job) s
      in (job\<lparr>ji_command := command, ji_environment := environment, ji_secrets := secrets\<rparr>, s))"

definition visit_import :: "'s visitor \<Rightarrow> nat \<Rightarrow> import_input \<Rightarrow> 's \<Rightarrow> import_input \<times> 's" where
  "visit_import v index i s =
     (let (environment, s) =
        visit_option (on_text v (indexed ''spec.imports'' index @ ''.environment'')) (ii_environment i) s
      in (i\<lparr>ii_environment := environment\<rparr>, s))"

definition visit_values :: "'s visitor \<Rightarrow> application_spec \<Rightarrow> 's \<Rightarrow> application_spec \<times> 's" where
  "visit_values v spec s =
     (let (services, s) = visit_list (visit_service v) 0 (as_services spec) s;
          (routes, s) = visit_list (visit_route v) 0 (as_routes spec) s;
          (jobs, s) = visit_list (visit_job v) 0 (as_jobs spec) s;
          (imports, s) = visit_list (visit_import v) 0 (as_imports spec) s
      in (spec\<lparr>as_services := services, as_routes := routes, as_jobs := jobs, as_imports := imports\<rparr>, s))"

section \<open>The slots of a specification\<close>

datatype slot =
    Slot_Text template
  | Slot_U16 "u16 typed"
  | Slot_U32 "u32 typed"
  | Slot_U64 "u64 typed"
  | Slot_Order "rollout_order typed"

type_synonym slots = "(string \<times> slot) list"

text \<open>\<open>Slot::template\<close>\<close>

fun slot_template :: "slot \<Rightarrow> template option" where
  "slot_template (Slot_Text t) = Some t"
| "slot_template (Slot_U16 x) = typed_template x"
| "slot_template (Slot_U32 x) = typed_template x"
| "slot_template (Slot_U64 x) = typed_template x"
| "slot_template (Slot_Order x) = typed_template x"

fun visit_slot :: "'s visitor \<Rightarrow> string \<Rightarrow> slot \<Rightarrow> 's \<Rightarrow> slot \<times> 's" where
  "visit_slot v path (Slot_Text x) s = map_prod Slot_Text id (on_text v path x s)"
| "visit_slot v path (Slot_U16 x) s = map_prod Slot_U16 id (on_u16 v path x s)"
| "visit_slot v path (Slot_U32 x) s = map_prod Slot_U32 id (on_u32 v path x s)"
| "visit_slot v path (Slot_U64 x) s = map_prod Slot_U64 id (on_u64 v path x s)"
| "visit_slot v path (Slot_Order x) s = map_prod Slot_Order id (on_order v path x s)"

fun visit_slots :: "'s visitor \<Rightarrow> slots \<Rightarrow> 's \<Rightarrow> slots \<times> 's" where
  "visit_slots v [] s = ([], s)"
| "visit_slots v ((path, x) # xs) s =
     (let (x, s) = visit_slot v path x s; (xs, s) = visit_slots v xs s in ((path, x) # xs, s))"

fun slots_list :: "(nat \<Rightarrow> 'a \<Rightarrow> slots) \<Rightarrow> nat \<Rightarrow> 'a list \<Rightarrow> slots" where
  "slots_list g n [] = []"
| "slots_list g n (x # xs) = g n x @ slots_list g (Suc n) xs"

definition slots_keys :: "(string \<Rightarrow> 'a \<Rightarrow> slots) \<Rightarrow> string list \<Rightarrow> (string, 'a) mapping \<Rightarrow> slots" where
  "slots_keys g ks m = concat (map (\<lambda>k. case Mapping.lookup m k of None \<Rightarrow> [] | Some x \<Rightarrow> g k x) ks)"

definition slots_map :: "(string \<Rightarrow> 'a \<Rightarrow> slots) \<Rightarrow> (string, 'a) mapping \<Rightarrow> slots" where
  "slots_map g m = slots_keys g (sorted_keys m) m"

definition slots_option :: "('a \<Rightarrow> slots) \<Rightarrow> 'a option \<Rightarrow> slots" where
  "slots_option g x = (case x of None \<Rightarrow> [] | Some x \<Rightarrow> g x)"

definition text_slot :: "string \<Rightarrow> template \<Rightarrow> slots" where
  "text_slot path x = [(path, Slot_Text x)]"

definition u16_slot :: "string \<Rightarrow> u16 typed \<Rightarrow> slots" where
  "u16_slot path x = [(path, Slot_U16 x)]"

definition u32_slot :: "string \<Rightarrow> u32 typed \<Rightarrow> slots" where
  "u32_slot path x = [(path, Slot_U32 x)]"

definition slots_texts :: "string \<Rightarrow> template list \<Rightarrow> slots" where
  "slots_texts base texts = slots_list (\<lambda>i. text_slot (indexed base i)) 0 texts"

definition slots_container :: "string \<Rightarrow> (string, template) mapping \<Rightarrow> secret_input list \<Rightarrow> slots" where
  "slots_container base environment secrets =
     slots_map (\<lambda>k. text_slot (base @ ''.environment.'' @ path_key k)) environment
     @ slots_list (\<lambda>i secret. text_slot (indexed (base @ ''.secrets'') i @ ''.name'') (si_name secret)) 0 secrets"

fun slots_health :: "string \<Rightarrow> health_input \<Rightarrow> slots" where
  "slots_health base (Input_Http port path interval timeout start retries) =
     u16_slot (base @ ''.port'') port @ text_slot (base @ ''.path'') path
     @ u32_slot (base @ ''.interval_seconds'') interval @ u32_slot (base @ ''.timeout_seconds'') timeout
     @ u32_slot (base @ ''.start_period_seconds'') start @ u32_slot (base @ ''.retries'') retries"
| "slots_health base (Input_Command command interval timeout start retries) =
     slots_texts (base @ ''.command'') command
     @ u32_slot (base @ ''.interval_seconds'') interval @ u32_slot (base @ ''.timeout_seconds'') timeout
     @ u32_slot (base @ ''.start_period_seconds'') start @ u32_slot (base @ ''.retries'') retries"

fun slots_source :: "string \<Rightarrow> source_input \<Rightarrow> slots" where
  "slots_source base (Input_Image img) = text_slot (base @ ''.image'') img"
| "slots_source base (Input_Git repository (Input_Docker dockerfile context args target)) =
     text_slot (base @ ''.build'' @ ''.dockerfile'') dockerfile
     @ text_slot (base @ ''.build'' @ ''.context'') context
     @ slots_map (\<lambda>k. text_slot (base @ ''.build'' @ ''.args.'' @ path_key k)) args
     @ slots_option (text_slot (base @ ''.build'' @ ''.target'')) target"

definition slots_limits :: "string \<Rightarrow> limits_input \<Rightarrow> slots" where
  "slots_limits base limits =
     slots_option (u32_slot (base @ ''.resources.cpu_millis'')) (li_cpu_millis limits)
     @ slots_option (\<lambda>x. [(base @ ''.resources.memory_bytes'', Slot_U64 x)]) (li_memory_bytes limits)"

definition slots_rollout :: "string \<Rightarrow> rollout_input \<Rightarrow> slots" where
  "slots_rollout base rollout =
     slots_option (\<lambda>x. [(base @ ''.rollout.order'', Slot_Order x)]) (ri_order rollout)
     @ slots_option (u32_slot (base @ ''.rollout.monitor_seconds'')) (ri_monitor_seconds rollout)"

definition slots_service :: "nat \<Rightarrow> service_input \<Rightarrow> slots" where
  "slots_service index service =
     (let base = indexed ''spec.services'' index
      in slots_source (base @ ''.source'') (svi_source service)
         @ u16_slot (base @ ''.replicas'') (svi_replicas service)
         @ slots_container base (svi_environment service) (svi_secrets service)
         @ slots_texts (base @ ''.command'') (svi_command service)
         @ slots_texts (base @ ''.arguments'') (svi_arguments service)
         @ slots_option (slots_health (base @ ''.healthcheck'')) (svi_healthcheck service)
         @ slots_option (slots_limits base) (svi_resources service)
         @ slots_rollout base (svi_rollout service))"

definition slots_route :: "nat \<Rightarrow> route_input \<Rightarrow> slots" where
  "slots_route index route =
     text_slot (indexed ''spec.routes'' index @ ''.hostname'') (rti_hostname route)
     @ slots_option (\<lambda>r. text_slot (indexed ''spec.routes'' index @ ''.redirect.to'') (rdi_to r)) (rti_redirect route)"

definition slots_job :: "nat \<Rightarrow> job_input \<Rightarrow> slots" where
  "slots_job index job =
     slots_texts (indexed ''spec.jobs'' index @ ''.command'') (ji_command job)
     @ slots_container (indexed ''spec.jobs'' index) (ji_environment job) (ji_secrets job)"

definition slots_import :: "nat \<Rightarrow> import_input \<Rightarrow> slots" where
  "slots_import index i =
     slots_option (text_slot (indexed ''spec.imports'' index @ ''.environment'')) (ii_environment i)"

definition spec_slots :: "application_spec \<Rightarrow> slots" where
  "spec_slots spec =
     slots_list slots_service 0 (as_services spec) @ slots_list slots_route 0 (as_routes spec)
     @ slots_list slots_job 0 (as_jobs spec) @ slots_list slots_import 0 (as_imports spec)"

subsection \<open>The visit is a visit of the slots\<close>

text \<open>\<open>tracks v f g\<close>: the visit \<open>f\<close> with \<open>v\<close> does to a value what visiting its slots \<open>g\<close> does to them.\<close>

definition tracks :: "'s visitor \<Rightarrow> ('a \<Rightarrow> 's \<Rightarrow> 'a \<times> 's) \<Rightarrow> ('a \<Rightarrow> slots) \<Rightarrow> bool" where
  "tracks v f g \<longleftrightarrow> (\<forall>x s. visit_slots v (g x) s = (g (fst (f x s)), snd (f x s)))"

named_theorems track_simps

lemma tracksI: "(\<And>x s. visit_slots v (g x) s = (g (fst (f x s)), snd (f x s))) \<Longrightarrow> tracks v f g"
  by (simp add: tracks_def)

lemma tracksD: "tracks v f g \<Longrightarrow> visit_slots v (g x) s = (g (fst (f x s)), snd (f x s))"
  by (simp add: tracks_def)

lemma visit_slots_append [track_simps]:
  "visit_slots v (xs @ ys) s =
     (fst (visit_slots v xs s) @ fst (visit_slots v ys (snd (visit_slots v xs s))),
      snd (visit_slots v ys (snd (visit_slots v xs s))))"
proof (induction xs arbitrary: s)
  case (Cons x xs)
  then show ?case by (cases x) (simp add: split_def Let_def)
qed simp

lemma tracks_base [track_simps]:
  "visit_slots v (text_slot p t) s = (text_slot p (fst (on_text v p t s)), snd (on_text v p t s))"
  "visit_slots v (u16_slot p x) s = (u16_slot p (fst (on_u16 v p x s)), snd (on_u16 v p x s))"
  "visit_slots v (u32_slot p y) s = (u32_slot p (fst (on_u32 v p y s)), snd (on_u32 v p y s))"
  "visit_slots v [(p, Slot_U64 z)] s = ([(p, Slot_U64 (fst (on_u64 v p z s)))], snd (on_u64 v p z s))"
  "visit_slots v [(p, Slot_Order w)] s = ([(p, Slot_Order (fst (on_order v p w s)))], snd (on_order v p w s))"
  by (simp_all add: text_slot_def u16_slot_def u32_slot_def split_def Let_def)

lemma tracks_list:
  assumes "\<And>n. tracks v (f n) (g n)"
  shows "tracks v (visit_list f n) (slots_list g n)"
proof (rule tracksI)
  fix xs s
  show "visit_slots v (slots_list g n xs) s
      = (slots_list g n (fst (visit_list f n xs s)), snd (visit_list f n xs s))"
    by (induction xs arbitrary: n s)
      (simp_all add: visit_slots_append tracksD [OF assms] split_def Let_def)
qed

lemma tracks_option:
  assumes "tracks v f g"
  shows "tracks v (visit_option f) (slots_option g)"
  by (rule tracksI)
    (simp add: visit_option_def slots_option_def tracksD [OF assms] split_def Let_def split: option.splits)

lemma visit_entries_other: "k \<notin> set ks \<Longrightarrow> Mapping.lookup (fst (visit_entries f ks m s)) k = Mapping.lookup m k"
  by (induction ks arbitrary: m s)
    (auto simp: lookup_update_if split_def Let_def split: option.splits)

lemma visit_entries_keys: "Mapping.keys (fst (visit_entries f ks m s)) = Mapping.keys m"
proof (induction ks arbitrary: m s)
  case (Cons k ks)
  have "Mapping.keys (Mapping.update k v m) = Mapping.keys m" if "Mapping.lookup m k \<noteq> None" for v
    using that by (auto simp: mapping_keys_iff)
  with Cons show ?case by (simp add: split_def Let_def split: option.splits)
qed simp

lemma slots_keys_cong:
  "(\<And>k. k \<in> set ks \<Longrightarrow> Mapping.lookup m k = Mapping.lookup m' k) \<Longrightarrow> slots_keys g ks m = slots_keys g ks m'"
  unfolding slots_keys_def by (intro arg_cong [where f = concat] map_cong) auto

lemma slots_keys_Cons:
  "slots_keys g (k # ks) m = (case Mapping.lookup m k of None \<Rightarrow> [] | Some x \<Rightarrow> g k x) @ slots_keys g ks m"
  by (simp add: slots_keys_def)

lemma tracks_entries:
  assumes "\<And>k. tracks v (f k) (g k)" "distinct ks"
  shows "visit_slots v (slots_keys g ks m) s
     = (slots_keys g ks (fst (visit_entries f ks m s)), snd (visit_entries f ks m s))"
  using assms(2)
proof (induction ks arbitrary: m s)
  case Nil
  then show ?case by (simp add: slots_keys_def)
next
  case (Cons k ks)
  show ?case
  proof (cases "Mapping.lookup m k")
    case None
    then show ?thesis
      using Cons by (simp add: slots_keys_Cons visit_entries_other)
  next
    case (Some x)
    let ?m = "Mapping.update k (fst (f k x s)) m"
    have "slots_keys g ks m = slots_keys g ks ?m"
      using Cons.prems by (intro slots_keys_cong) (auto simp: lookup_update_if)
    then show ?thesis
      using Cons Some
      by (simp add: slots_keys_Cons visit_slots_append tracksD [OF assms(1)] visit_entries_other
          lookup_update_if split_def Let_def)
  qed
qed

lemma tracks_map:
  assumes "\<And>k. tracks v (f k) (g k)"
  shows "tracks v (visit_map f) (slots_map g)"
proof (rule tracksI)
  fix m s
  have "sorted_keys (fst (visit_map f m s)) = sorted_keys m"
    by (simp add: visit_map_def visit_entries_keys sorted_keys_def)
  then show "visit_slots v (slots_map g m) s = (slots_map g (fst (visit_map f m s)), snd (visit_map f m s))"
    using tracks_entries [where ks = "sorted_keys m" and m = m and s = s, OF assms]
    by (simp add: slots_map_def visit_map_def sorted_keys_def)
qed

lemma tracks_text: "tracks v (on_text v p) (text_slot p)"
  by (rule tracksI) (simp add: track_simps)

lemma track_options [track_simps]:
  "visit_slots v (slots_option (text_slot p) t) s =
     (slots_option (text_slot p) (fst (visit_option (on_text v p) t s)), snd (visit_option (on_text v p) t s))"
  "visit_slots v (slots_option (u32_slot p) y) s =
     (slots_option (u32_slot p) (fst (visit_option (on_u32 v p) y s)), snd (visit_option (on_u32 v p) y s))"
  "visit_slots v (slots_option (\<lambda>x. [(p, Slot_U64 x)]) z) s =
     (slots_option (\<lambda>x. [(p, Slot_U64 x)]) (fst (visit_option (on_u64 v p) z s)), snd (visit_option (on_u64 v p) z s))"
  "visit_slots v (slots_option (\<lambda>x. [(p, Slot_Order x)]) w) s =
     (slots_option (\<lambda>x. [(p, Slot_Order x)]) (fst (visit_option (on_order v p) w s)), snd (visit_option (on_order v p) w s))"
  by (simp_all add: slots_option_def visit_option_def track_simps split_def Let_def split: option.splits)

lemma track_texts [track_simps]:
  "visit_slots v (slots_texts base ts) s
     = (slots_texts base (fst (visit_texts v base ts s)), snd (visit_texts v base ts s))"
  unfolding slots_texts_def visit_texts_def by (rule tracksD, rule tracks_list, rule tracks_text)

lemma track_container [track_simps]:
  "visit_slots v (slots_container base e secrets) s =
     (case fst (visit_container v base e secrets s) of (e, secrets) \<Rightarrow> slots_container base e secrets,
      snd (visit_container v base e secrets s))"
proof -
  have map: "visit_slots v (slots_map (\<lambda>k. text_slot (p k)) m) s =
      (slots_map (\<lambda>k. text_slot (p k)) (fst (visit_map (\<lambda>k. on_text v (p k)) m s)),
       snd (visit_map (\<lambda>k. on_text v (p k)) m s))" for p m s
    by (rule tracksD, rule tracks_map, rule tracks_text)
  have list: "visit_slots v (slots_list (\<lambda>i secret. text_slot (indexed (base @ ''.secrets'') i @ ''.name'') (si_name secret)) 0 xs) s =
      (slots_list (\<lambda>i secret. text_slot (indexed (base @ ''.secrets'') i @ ''.name'') (si_name secret)) 0
         (fst (visit_list (visit_secret v base) 0 xs s)), snd (visit_list (visit_secret v base) 0 xs s))" for xs s
    by (rule tracksD, rule tracks_list, rule tracksI)
      (simp add: visit_secret_def track_simps split_def Let_def)
  show ?thesis
    by (simp add: slots_container_def visit_container_def map list track_simps split_def Let_def)
qed

lemma track_health [track_simps]:
  "visit_slots v (slots_health base h) s = (slots_health base (fst (visit_health v base h s)), snd (visit_health v base h s))"
  by (cases h) (simp_all add: track_simps split_def Let_def)

lemma track_map_text [track_simps]:
  "visit_slots v (slots_map (\<lambda>k. text_slot (p k)) m) s =
     (slots_map (\<lambda>k. text_slot (p k)) (fst (visit_map (\<lambda>k. on_text v (p k)) m s)),
      snd (visit_map (\<lambda>k. on_text v (p k)) m s))"
  by (rule tracksD, rule tracks_map, rule tracks_text)

lemma track_source [track_simps]:
  "visit_slots v (slots_source base x) s = (slots_source base (fst (visit_source v base x s)), snd (visit_source v base x s))"
proof (cases x)
  case (Input_Git r b)
  then show ?thesis by (cases b) (simp add: track_simps split_def Let_def)
qed (simp add: track_simps split_def Let_def)

lemma track_limits [track_simps]:
  "visit_slots v (slots_limits base x) s = (slots_limits base (fst (visit_limits v base x s)), snd (visit_limits v base x s))"
  by (simp add: slots_limits_def visit_limits_def track_simps split_def Let_def)

lemma track_rollout [track_simps]:
  "visit_slots v (slots_rollout base x) s = (slots_rollout base (fst (visit_rollout v base x s)), snd (visit_rollout v base x s))"
  by (simp add: slots_rollout_def visit_rollout_def track_simps split_def Let_def)

lemma track_some [track_simps]:
  "visit_slots v (slots_option (slots_health base) h) s =
     (slots_option (slots_health base) (fst (visit_option (visit_health v base) h s)), snd (visit_option (visit_health v base) h s))"
  "visit_slots v (slots_option (slots_limits base) x) s =
     (slots_option (slots_limits base) (fst (visit_option (visit_limits v base) x s)), snd (visit_option (visit_limits v base) x s))"
  by (simp_all add: slots_option_def visit_option_def track_simps split_def Let_def split: option.splits)

lemma track_service: "tracks v (visit_service v i) (slots_service i)"
  by (rule tracksI) (simp add: slots_service_def visit_service_def track_simps split_def Let_def)

lemma track_route: "tracks v (visit_route v i) (slots_route i)"
  by (rule tracksI)
    (simp add: slots_route_def visit_route_def slots_option_def visit_option_def visit_redirect_def
      track_simps split_def Let_def split: option.splits)

lemma track_job: "tracks v (visit_job v i) (slots_job i)"
  by (rule tracksI) (simp add: slots_job_def visit_job_def track_simps split_def Let_def)

lemma track_import: "tracks v (visit_import v i) (slots_import i)"
  by (rule tracksI) (simp add: slots_import_def visit_import_def track_simps split_def Let_def)

lemmas track_lists [track_simps] =
  tracksD [OF tracks_list, OF track_service] tracksD [OF tracks_list, OF track_route]
  tracksD [OF tracks_list, OF track_job] tracksD [OF tracks_list, OF track_import]

lemma visit_values_slots:
  "visit_slots v (spec_slots spec) s = (spec_slots (fst (visit_values v spec s)), snd (visit_values v spec s))"
  by (simp add: spec_slots_def visit_values_def track_simps split_def Let_def)

section \<open>What a manifest renders for\<close>

datatype variable_value = Value_Boolean bool | Value_Integer int | Value_String string

text \<open>\<open>Display for VariableValue\<close>\<close>

fun show_value :: "variable_value \<Rightarrow> string" where
  "show_value (Value_Boolean b) = show_bool b"
| "show_value (Value_Integer i) = show_int i"
| "show_value (Value_String t) = t"

record git_revision =
  gv_branch :: string
  gv_sha :: string

record render_context =
  rx_target :: render_target
  rx_git :: "git_revision option"
  rx_deployment :: "string option"

definition PREVIEW_DEPLOYMENT_ID :: string where "PREVIEW_DEPLOYMENT_ID = ''preview''"

definition deployment_context :: "render_target \<Rightarrow> string \<Rightarrow> render_context" where
  "deployment_context target deployment =
     \<lparr>rx_target = target, rx_git = None, rx_deployment = Some deployment\<rparr>"

definition preview_context :: "render_target \<Rightarrow> repository_manifest option \<Rightarrow> render_context" where
  "preview_context target repository =
     \<lparr>rx_target = target,
      rx_git = map_option (\<lambda>manifest.
          \<lparr>gv_branch = gr_branch (rm_repository manifest),
           gv_sha = (case gr_commit (rm_repository manifest) of
               Some commit \<Rightarrow> commit | None \<Rightarrow> replicate 40 (CHR ''0''))\<rparr>) repository,
      rx_deployment = Some PREVIEW_DEPLOYMENT_ID\<rparr>"

definition saved_context :: "render_target \<Rightarrow> render_context" where
  "saved_context target = \<lparr>rx_target = target, rx_git = None, rx_deployment = None\<rparr>"

section \<open>Declared variables\<close>

text \<open>The entries of a map in key order, the declarations with their paths, and each declared
  variable with the value \<open>target\<close> gives it.\<close>

definition map_entries :: "(string, 'a) mapping \<Rightarrow> (string \<times> 'a) list" where
  "map_entries m = List.map_filter (\<lambda>k. map_option (Pair k) (Mapping.lookup m k)) (sorted_keys m)"

definition declarations :: "application_spec \<Rightarrow> (string \<times> string \<times> variable) list" where
  "declarations spec =
     map (\<lambda>(name, v). (''spec.variables.'' @ path_key name, name, v)) (map_entries (as_variables spec))
     @ concat (map (\<lambda>(environment, config).
           map (\<lambda>(name, v). (''spec.environments.'' @ path_key environment @ ''.variables.'' @ path_key name, name, v))
             (map_entries (ec_variables config)))
         (map_entries (as_environments spec)))
     @ map (\<lambda>(name, v). (''spec.previews.variables.'' @ path_key name, name, v))
         (map_entries (pc_variables (as_previews spec)))"

definition declared_names :: "application_spec \<Rightarrow> string list" where
  "declared_names spec = sorted_list_of_set (set (map (\<lambda>(_, name, _). name) (declarations spec)))"

definition variable_for :: "application_spec \<Rightarrow> render_target \<Rightarrow> string \<Rightarrow> variable option" where
  "variable_for spec target name =
     (case Option.bind (overrides spec target) (\<lambda>(_, table). Mapping.lookup table name) of
        Some v \<Rightarrow> Some v
      | None \<Rightarrow> Mapping.lookup (as_variables spec) name)"

definition variables_for :: "application_spec \<Rightarrow> render_target \<Rightarrow> (string \<times> variable option) list" where
  "variables_for spec target = map (\<lambda>name. (name, variable_for spec target name)) (declared_names spec)"

section \<open>The scope\<close>

definition MAX_RENDERED_BYTES :: int where "MAX_RENDERED_BYTES = 4194304"

text \<open>The values a rendering resolves references to; the counter of rendered bytes and the reported
  errors are the state the code passes along.\<close>

record value_scope =
  sc_context :: render_context
  sc_values :: "(reference, variable_value) mapping"

record render_state =
  rs_rendered :: int
  rs_errors :: "validation_error list"

definition report :: "string \<Rightarrow> string \<Rightarrow> string \<Rightarrow> render_state \<Rightarrow> render_state" where
  "report code path message s = s\<lparr>rs_errors := rs_errors s @ [validation_error_new code path message]\<rparr>"

definition VARIABLE_VALUE_MISSING :: string where "VARIABLE_VALUE_MISSING = ''variable_value_missing''"
definition VARIABLE_UNAVAILABLE :: string where "VARIABLE_UNAVAILABLE = ''variable_unavailable''"
definition VARIABLE_TYPE_INVALID :: string where "VARIABLE_TYPE_INVALID = ''variable_type_invalid''"
definition VARIABLE_VALUE_EXCESSIVE :: string where "VARIABLE_VALUE_EXCESSIVE = ''variable_value_excessive''"

definition scope_lookup :: "value_scope \<Rightarrow> reference \<Rightarrow> string \<Rightarrow> render_state \<Rightarrow> variable_value option \<times> render_state" where
  "scope_lookup sc reference path s =
     (case Mapping.lookup (sc_values sc) reference of
        Some v \<Rightarrow> (Some v, s)
      | None \<Rightarrow>
          (let target = show_target (rx_target (sc_context sc));
               (code, message) = (case reference of
                   Ref_Variable _ \<Rightarrow>
                     (VARIABLE_VALUE_MISSING, show_reference reference @ '' has no value for '' @ target)
                 | Ref_System DeploymentId \<Rightarrow>
                     (VARIABLE_UNAVAILABLE, show_reference reference @ '' is only set when deploying '' @ target)
                 | Ref_System _ \<Rightarrow>
                     (VARIABLE_UNAVAILABLE, show_reference reference
                        @ '' is only set for repository-backed deployments of '' @ target))
           in (None, report code path message s)))"

fun render_segments ::
  "value_scope \<Rightarrow> string \<Rightarrow> segment list \<Rightarrow> string \<Rightarrow> render_state \<Rightarrow> string option \<times> render_state" where
  "render_segments sc path [] t s = (Some t, s)"
| "render_segments sc path (segment # segs) t s =
     (let (part, s) = (case segment of
            Seg_Text part \<Rightarrow> (Some part, s)
          | Seg_Reference reference \<Rightarrow> map_prod (map_option show_value) id (scope_lookup sc reference path s))
      in case part of
           None \<Rightarrow> (None, s)
         | Some part \<Rightarrow>
             (let rendered = rs_rendered s in
              if rendered > MAX_RENDERED_BYTES then (None, s)
              else
                (let s = s\<lparr>rs_rendered := rendered + int (length part)\<rparr> in
                 if rendered + int (length part) > MAX_RENDERED_BYTES
                 then (None, report VARIABLE_VALUE_EXCESSIVE path
                         (''the manifest renders to more than '' @ show_int MAX_RENDERED_BYTES @ '' bytes of text'') s)
                 else render_segments sc path segs (t @ part) s)))"

definition render_text :: "value_scope \<Rightarrow> string \<Rightarrow> template \<Rightarrow> render_state \<Rightarrow> string option \<times> render_state" where
  "render_text sc path t s =
     (case segments t of
        Inl source \<Rightarrow> (None, s\<lparr>rs_errors := rs_errors s @ [template_error_at source path]\<rparr>)
      | Inr segs \<Rightarrow> render_segments sc path segs [] s)"

definition system_values :: "string \<Rightarrow> render_context \<Rightarrow> (reference, variable_value) mapping" where
  "system_values application context =
     (let system = (\<lambda>v t. Mapping.update (Ref_System v) (Value_String t));
          m = system AppName application Mapping.empty;
          m = system EnvName (target_name (rx_target context)) m;
          m = system EnvSlug (target_name (rx_target context)) m;
          m = (case rx_git context of None \<Rightarrow> m
               | Some git \<Rightarrow> system GitSha (gv_sha git) (system GitBranch (gv_branch git) m))
      in case rx_deployment context of None \<Rightarrow> m | Some deployment \<Rightarrow> system DeploymentId deployment m)"

definition declare_variable ::
  "application_spec \<Rightarrow> string \<times> variable option \<Rightarrow> value_scope \<times> render_state \<Rightarrow> value_scope \<times> render_state" where
  "declare_variable spec entry state =
     (let (name, v) = entry; (sc, s) = state in
      case v of
        None \<Rightarrow> (sc, s)
      | Some v \<Rightarrow>
          (let path = (case overrides spec (rx_target (sc_context sc)) of
                 Some (table, variables) \<Rightarrow>
                   if Mapping.lookup variables name \<noteq> None then table @ ''.'' @ name
                   else ''spec.variables.'' @ name
               | None \<Rightarrow> ''spec.variables.'' @ name);
               (rendered, s) = (case v of
                   Var_Boolean b \<Rightarrow> (Some (Value_Boolean b), s)
                 | Var_Integer i \<Rightarrow> (Some (Value_Integer i), s)
                 | Var_String template \<Rightarrow>
                     map_prod (map_option Value_String) id (render_text sc path template s))
           in case rendered of
                None \<Rightarrow> (sc, s)
              | Some r \<Rightarrow> (sc\<lparr>sc_values := Mapping.update (Ref_Variable name) r (sc_values sc)\<rparr>, s)))"

definition scope_new ::
  "string \<Rightarrow> application_spec \<Rightarrow> render_context \<Rightarrow> validation_error list \<Rightarrow> value_scope \<times> render_state" where
  "scope_new application spec context errors =
     fold (declare_variable spec) (variables_for spec (rx_target context))
       (\<lparr>sc_context = context, sc_values = system_values application context\<rparr>,
        \<lparr>rs_rendered = 0, rs_errors = errors\<rparr>)"

section \<open>Rendering\<close>

text \<open>\<open>serde_json\<close>: the text of a value, and decoding a value as the type of a setting.\<close>

record json_api =
  ja_show :: "variable_value \<Rightarrow> string"
  ja_u16 :: "variable_value \<Rightarrow> u16 option"
  ja_u32 :: "variable_value \<Rightarrow> u32 option"
  ja_u64 :: "variable_value \<Rightarrow> u64 option"
  ja_order :: "variable_value \<Rightarrow> rollout_order option"

text \<open>\<open>Expected::EXPECTED\<close>\<close>

definition EXPECTED_U16 :: string where "EXPECTED_U16 = ''an integer from 0 to 65535''"
definition EXPECTED_U32 :: string where "EXPECTED_U32 = ''an integer from 0 to 4294967295''"
definition EXPECTED_U64 :: string where "EXPECTED_U64 = ''an integer from 0 to 18446744073709551615''"
definition EXPECTED_ORDER :: string where
  "EXPECTED_ORDER = quoted ''start-first'' @ '' or '' @ quoted ''stop-first''"

definition render_slot_text :: "value_scope \<Rightarrow> string \<Rightarrow> template \<Rightarrow> render_state \<Rightarrow> template \<times> render_state" where
  "render_slot_text sc path t s =
     (let (rendered, s) = render_text sc path t s
      in (case rendered of Some r \<Rightarrow> template_literal r | None \<Rightarrow> t, s))"

text \<open>The value of a typed setting's template: a template that is one reference takes the variable's own
  value, any other its text.\<close>

definition render_whole :: "value_scope \<Rightarrow> string \<Rightarrow> template \<Rightarrow> render_state \<Rightarrow> variable_value option \<times> render_state" where
  "render_whole sc path t s =
     (case segments t of
        Inr [Seg_Reference reference] \<Rightarrow> scope_lookup sc reference path s
      | _ \<Rightarrow> map_prod (map_option Value_String) id (render_text sc path t s))"

definition render_typed ::
  "json_api \<Rightarrow> (variable_value \<Rightarrow> 'a option) \<Rightarrow> string \<Rightarrow> value_scope \<Rightarrow> string \<Rightarrow> 'a typed \<Rightarrow> render_state
   \<Rightarrow> 'a typed \<times> render_state" where
  "render_typed json decode expected sc path x s =
     (case typed_template x of
        None \<Rightarrow> (x, s)
      | Some template \<Rightarrow>
          (let (v, s) = render_whole sc path template s
           in case v of
                None \<Rightarrow> (x, s)
              | Some v \<Rightarrow>
                  (case decode v of
                     Some decoded \<Rightarrow> (Typed_Literal decoded, s)
                   | None \<Rightarrow>
                       (x, report VARIABLE_TYPE_INVALID path
                             (''renders to '' @ echo (ja_show json v) @ '', expected '' @ expected) s))))"

definition render_visitor :: "json_api \<Rightarrow> value_scope \<Rightarrow> render_state visitor" where
  "render_visitor json sc =
     \<lparr>on_text = render_slot_text sc,
      on_u16 = render_typed json (ja_u16 json) EXPECTED_U16 sc,
      on_u32 = render_typed json (ja_u32 json) EXPECTED_U32 sc,
      on_u64 = render_typed json (ja_u64 json) EXPECTED_U64 sc,
      on_order = render_typed json (ja_order json) EXPECTED_ORDER sc\<rparr>"

text \<open>References are ordered as derived: variables by name, then the system variables as listed.\<close>

fun reference_key :: "reference \<Rightarrow> nat \<times> string \<times> nat" where
  "reference_key (Ref_Variable name) = (0, name, 0)"
| "reference_key (Ref_System v) = (1, [], the (position (\<lambda>x. x = v) system_variable_all))"

lemma reference_key_inject: "reference_key a = reference_key b \<longleftrightarrow> a = b"
proof (cases a; cases b)
  fix v w assume "a = Ref_System v" "b = Ref_System w"
  then show ?thesis by (cases v; cases w) (simp_all add: system_variable_all_def)
qed simp_all

instantiation reference :: linorder
begin
definition "a \<le> b \<longleftrightarrow> reference_key a \<le> reference_key b"
definition "a < b \<longleftrightarrow> reference_key a < reference_key b"
instance
  by standard (auto simp: less_eq_reference_def less_reference_def reference_key_inject less_le_not_le)
end

definition values_by_text :: "(reference, variable_value) mapping \<Rightarrow> (string, variable_value) mapping" where
  "values_by_text values =
     fold (\<lambda>r m. case Mapping.lookup values r of
              None \<Rightarrow> m | Some v \<Rightarrow> Mapping.update (show_reference r) v m)
       (sorted_list_of_set (Mapping.keys values)) Mapping.empty"

text \<open>\<open>ApplicationSpec::render\<close>: the rendered specification, the values in scope and the errors.\<close>

definition spec_render ::
  "json_api \<Rightarrow> string \<Rightarrow> render_context \<Rightarrow> application_spec \<Rightarrow> validation_error list
   \<Rightarrow> application_spec \<times> (string, variable_value) mapping \<times> validation_error list" where
  "spec_render json application context spec errors =
     (let (sc, s) = scope_new application spec context errors;
          (spec, s) = visit_values (render_visitor json sc) spec s;
          spec = cap_visibility (rx_target context) spec
      in (spec\<lparr>as_variables := Mapping.empty, as_environments := Mapping.empty,
               as_previews := (as_previews spec)\<lparr>pc_variables := Mapping.empty\<rparr>\<rparr>,
          values_by_text (sc_values sc), rs_errors s))"

text \<open>\<open>ApplicationSpec::values\<close>: each declared variable's value, or \<open>None\<close> when it has none.\<close>

definition spec_values :: "string \<Rightarrow> render_context \<Rightarrow> application_spec \<Rightarrow> (string \<times> variable_value option) list" where
  "spec_values application context spec =
     (let sc = fst (scope_new application spec context [])
      in map (\<lambda>(name, _). (name, Mapping.lookup (sc_values sc) (Ref_Variable name)))
           (variables_for spec (rx_target context)))"

end
