(* ===== verification/Rendering_Facts.thy ===== *)
theory Rendering_Facts
  imports Rendering
begin

text \<open>
  What rendering guarantees: a rendering that reports nothing replaces every slot by its value, so no
  reference is left; it stays within the budget; and it reports at most one problem per value.
\<close>

section \<open>What rendering does to a slot\<close>

text \<open>The text a template stands for under given values, and the slot it becomes: the specification of
  rendering.\<close>

fun segment_value :: "(reference, variable_value) mapping \<Rightarrow> segment \<Rightarrow> string option" where
  "segment_value vals (Seg_Text t) = Some t"
| "segment_value vals (Seg_Reference r) = map_option show_value (Mapping.lookup vals r)"

definition segments_value :: "(reference, variable_value) mapping \<Rightarrow> segment list \<Rightarrow> string option" where
  "segments_value vals segs = map_option concat (those (map (segment_value vals) segs))"

definition template_value :: "(reference, variable_value) mapping \<Rightarrow> template \<Rightarrow> string option" where
  "template_value vals t =
     (case segments t of Inl _ \<Rightarrow> None | Inr segs \<Rightarrow> segments_value vals segs)"

definition whole_value :: "(reference, variable_value) mapping \<Rightarrow> template \<Rightarrow> variable_value option" where
  "whole_value vals t =
     (case segments t of
        Inr [Seg_Reference r] \<Rightarrow> Mapping.lookup vals r
      | _ \<Rightarrow> map_option Value_String (template_value vals t))"

definition typed_value ::
  "(variable_value \<Rightarrow> 'a option) \<Rightarrow> (reference, variable_value) mapping \<Rightarrow> 'a typed \<Rightarrow> 'a option" where
  "typed_value decode vals x =
     (case x of
        Typed_Literal v \<Rightarrow> Some v
      | Typed_Template t \<Rightarrow> Option.bind (whole_value vals t) decode)"

fun slot_value :: "json_api \<Rightarrow> (reference, variable_value) mapping \<Rightarrow> slot \<Rightarrow> slot option" where
  "slot_value json vals (Slot_Text t) = map_option (Slot_Text \<circ> template_literal) (template_value vals t)"
| "slot_value json vals (Slot_U16 x) = map_option (Slot_U16 \<circ> Typed_Literal) (typed_value (ja_u16 json) vals x)"
| "slot_value json vals (Slot_U32 x) = map_option (Slot_U32 \<circ> Typed_Literal) (typed_value (ja_u32 json) vals x)"
| "slot_value json vals (Slot_U64 x) = map_option (Slot_U64 \<circ> Typed_Literal) (typed_value (ja_u64 json) vals x)"
| "slot_value json vals (Slot_Order x) = map_option (Slot_Order \<circ> Typed_Literal) (typed_value (ja_order json) vals x)"

definition slot_text_length :: "slot \<Rightarrow> int" where
  "slot_text_length x =
     (case x of Slot_Text t \<Rightarrow> (case as_literal t of None \<Rightarrow> 0 | Some r \<Rightarrow> int (length r)) | _ \<Rightarrow> 0)"

text \<open>The budget is kept while nothing is reported; reports only add.\<close>

definition within_budget :: "render_state \<Rightarrow> bool" where
  "within_budget s \<longleftrightarrow> (rs_errors s = [] \<longrightarrow> rs_rendered s \<le> MAX_RENDERED_BYTES)"

definition extends :: "render_state \<Rightarrow> render_state \<Rightarrow> bool" where
  "extends s s' \<longleftrightarrow>
     length (rs_errors s') \<le> Suc (length (rs_errors s)) \<and> prefix (rs_errors s) (rs_errors s')
     \<and> rs_rendered s \<le> rs_rendered s' \<and> (within_budget s \<longrightarrow> within_budget s')"

lemma extends_refl [simp]: "extends s s"
  by (simp add: extends_def)

lemma extends_report: "extends s (report code path message s)"
  by (simp add: extends_def report_def within_budget_def)

lemma extends_errors: "extends s s' \<Longrightarrow> rs_errors s' = [] \<Longrightarrow> rs_errors s = []"
  by (simp add: extends_def)

lemma scope_lookup_some: "Mapping.lookup (sc_values sc) r = Some v \<Longrightarrow> scope_lookup sc r path s = (Some v, s)"
  by (simp add: scope_lookup_def)

lemma scope_lookup_none:
  assumes "Mapping.lookup (sc_values sc) r = None"
  obtains code message where "scope_lookup sc r path s = (None, report code path message s)"
  using assms by (simp add: scope_lookup_def split_def Let_def)

lemma segments_value_Nil [simp]: "segments_value vals [] = Some []"
  by (simp add: segments_value_def)

lemma segments_value_Cons [simp]:
  "segments_value vals (x # xs) =
     (case segment_value vals x of None \<Rightarrow> None
      | Some p \<Rightarrow> map_option ((@) p) (segments_value vals xs))"
  by (cases "those (map (segment_value vals) xs)") (simp_all add: segments_value_def split: option.splits)

text \<open>One step of \<open>render_segments\<close>.\<close>

lemma render_segments_missing:
  assumes "segment_value (sc_values sc) x = None"
  obtains code message where "render_segments sc path (x # segs) t s = (None, report code path message s)"
proof -
  obtain r where r: "x = Seg_Reference r" "Mapping.lookup (sc_values sc) r = None"
    using assms by (cases x) auto
  from scope_lookup_none [OF r(2)] obtain code message
    where "scope_lookup sc r path s = (None, report code path message s)" .
  then show thesis by (intro that) (simp add: r)
qed

lemma render_segments_part:
  assumes "segment_value (sc_values sc) x = Some p"
  shows "render_segments sc path (x # segs) t s =
     (if rs_rendered s > MAX_RENDERED_BYTES then (None, s)
      else
        (let s = s\<lparr>rs_rendered := rs_rendered s + int (length p)\<rparr> in
         if rs_rendered s > MAX_RENDERED_BYTES
         then (None, report VARIABLE_VALUE_EXCESSIVE path
                 (''the manifest renders to more than '' @ show_int MAX_RENDERED_BYTES @ '' bytes of text'') s)
         else render_segments sc path segs (t @ p) s))"
proof (cases x)
  case (Seg_Reference r)
  then obtain v where "Mapping.lookup (sc_values sc) r = Some v" "show_value v = p"
    using assms by auto
  with Seg_Reference show ?thesis by (simp add: scope_lookup_some Let_def)
qed (use assms in \<open>simp add: Let_def\<close>)

lemma render_segments_spec:
  assumes "render_segments sc path segs t s = (r, s')"
  shows "extends s s' \<and> (r \<noteq> None \<longrightarrow> rs_errors s' = rs_errors s) \<and>
    (within_budget s \<longrightarrow> rs_errors s' = [] \<longrightarrow>
      (\<exists>u. segments_value (sc_values sc) segs = Some u \<and> r = Some (t @ u)
         \<and> rs_rendered s' = rs_rendered s + int (length u)))"
  using assms
proof (induction segs arbitrary: t s)
  case (Cons x segs)
  show ?case
  proof (cases "segment_value (sc_values sc) x")
    case None
    then obtain code message where "s' = report code path message s" "r = None"
      using render_segments_missing [of sc x path segs t s] Cons.prems by (metis prod.inject)
    then show ?thesis using extends_report by (simp add: report_def)
  next
    case (Some p)
    let ?s = "s\<lparr>rs_rendered := rs_rendered s + int (length p)\<rparr>"
    note step = Cons.prems [unfolded render_segments_part [OF Some] Let_def]
    consider (over) "rs_rendered s > MAX_RENDERED_BYTES"
      | (exceeds) "rs_rendered s \<le> MAX_RENDERED_BYTES" "rs_rendered s + int (length p) > MAX_RENDERED_BYTES"
      | (fits) "rs_rendered s \<le> MAX_RENDERED_BYTES" "rs_rendered s + int (length p) \<le> MAX_RENDERED_BYTES"
      by linarith
    then show ?thesis
    proof cases
      case over
      then have "r = None" "s' = s" using step by auto
      then show ?thesis using over by (simp add: within_budget_def)
    next
      case exceeds
      then obtain code message where "s' = report code path message ?s" "r = None" using step by auto
      then show ?thesis by (simp add: extends_def report_def within_budget_def)
    next
      case fits
      then have "render_segments sc path segs (t @ p) ?s = (r, s')" using step by simp
      note later = Cons.IH [OF this]
      then have "extends s s'" using fits by (auto simp: extends_def within_budget_def)
      moreover have "\<exists>u. segments_value (sc_values sc) (x # segs) = Some u \<and> r = Some (t @ u)
          \<and> rs_rendered s' = rs_rendered s + int (length u)"
        if wb: "within_budget s" and quiet: "rs_errors s' = []"
      proof -
        have "within_budget ?s" using fits by (simp add: within_budget_def)
        then obtain u where "segments_value (sc_values sc) segs = Some u" "r = Some ((t @ p) @ u)"
          "rs_rendered s' = rs_rendered ?s + int (length u)"
          using later quiet by blast
        then show ?thesis using Some by simp
      qed
      moreover have "r \<noteq> None \<longrightarrow> rs_errors s' = rs_errors s" using later by simp
      ultimately show ?thesis by blast
    qed
  qed
qed simp

lemma render_text_spec:
  assumes "render_text sc path t s = (r, s')"
  shows "extends s s' \<and> (r \<noteq> None \<longrightarrow> rs_errors s' = rs_errors s) \<and>
    (within_budget s \<longrightarrow> rs_errors s' = [] \<longrightarrow>
      (\<exists>u. template_value (sc_values sc) t = Some u \<and> r = Some u
         \<and> rs_rendered s' = rs_rendered s + int (length u)))"
proof (cases "segments t")
  case (Inl e)
  then have "s' = s\<lparr>rs_errors := rs_errors s @ [template_error_at e path]\<rparr>" "r = None"
    using assms by (simp_all add: render_text_def)
  then show ?thesis by (simp add: extends_def within_budget_def)
next
  case (Inr segs)
  then have "render_segments sc path segs [] s = (r, s')" using assms by (simp add: render_text_def)
  from render_segments_spec [OF this] Inr show ?thesis by (simp add: template_value_def)
qed

lemma render_whole_spec:
  assumes "render_whole sc path t s = (v, s')"
  shows "extends s s' \<and> (v \<noteq> None \<longrightarrow> rs_errors s' = rs_errors s) \<and>
    (within_budget s \<longrightarrow> rs_errors s' = [] \<longrightarrow> v = whole_value (sc_values sc) t \<and> v \<noteq> None)"
proof (cases "\<exists>r. segments t = Inr [Seg_Reference r]")
  case True
  then obtain r where r: "segments t = Inr [Seg_Reference r]" by blast
  show ?thesis
  proof (cases "Mapping.lookup (sc_values sc) r")
    case None
    from scope_lookup_none [OF this] obtain code message
      where "scope_lookup sc r path s = (None, report code path message s)" .
    then show ?thesis using assms r extends_report by (auto simp: report_def render_whole_def)
  next
    case (Some w)
    then have "v = Some w" "s' = s" "whole_value (sc_values sc) t = Some w"
      using assms r by (simp_all add: scope_lookup_some render_whole_def whole_value_def)
    then show ?thesis by simp
  qed
next
  case False
  then have whole: "whole_value (sc_values sc) t = map_option Value_String (template_value (sc_values sc) t)"
    and rendered: "render_whole sc path t s = map_prod (map_option Value_String) id (render_text sc path t s)"
    by (auto simp: whole_value_def render_whole_def split: sum.splits list.splits segment.splits)
  obtain r where r: "render_text sc path t s = (r, s')" "v = map_option Value_String r"
    using assms rendered by (cases "render_text sc path t s") auto
  show ?thesis using render_text_spec [OF r(1)] by (auto simp: whole r(2))
qed

lemma render_slot_text_spec:
  assumes "render_slot_text sc path t s = (t', s')"
  shows "extends s s' \<and>
    (within_budget s \<longrightarrow> rs_errors s' = [] \<longrightarrow>
      (\<exists>u. template_value (sc_values sc) t = Some u \<and> t' = template_literal u
         \<and> rs_rendered s' = rs_rendered s + int (length u)))"
proof -
  obtain r s1 where r: "render_text sc path t s = (r, s1)" by fastforce
  then have "s1 = s'" and t': "t' = (case r of Some r \<Rightarrow> template_literal r | None \<Rightarrow> t)"
    using assms by (auto simp: render_slot_text_def)
  with render_text_spec [OF r] show ?thesis by auto
qed

lemma render_typed_spec:
  assumes "render_typed json decode expected sc path x s = (x', s')"
  shows "prefix (rs_errors s) (rs_errors s') \<and> rs_rendered s \<le> rs_rendered s'
    \<and> length (rs_errors s') \<le> Suc (length (rs_errors s)) \<and> (within_budget s \<longrightarrow> within_budget s')
    \<and> (within_budget s \<longrightarrow> rs_errors s' = [] \<longrightarrow>
        (\<exists>v. typed_value decode (sc_values sc) x = Some v \<and> x' = Typed_Literal v))"
proof (cases x)
  case (Typed_Literal v)
  then show ?thesis using assms by (auto simp: render_typed_def typed_value_def)
next
  case (Typed_Template t)
  obtain v s1 where step: "render_whole sc path t s = (v, s1)" by fastforce
  note whole = render_whole_spec [OF step]
  show ?thesis
  proof (cases v)
    case None
    then have "x' = x" "s' = s1" using assms step by (auto simp: render_typed_def Typed_Template)
    then show ?thesis using whole None by (auto simp: extends_def)
  next
    case (Some w)
    show ?thesis
    proof (cases "decode w")
      case None
      then obtain code message where s': "s' = report code path message s1"
        using assms step Some by (auto simp: render_typed_def Typed_Template)
      have "rs_errors s1 = rs_errors s" "extends s s1" using whole Some by auto
      then show ?thesis by (auto simp: s' report_def extends_def within_budget_def)
    next
      case (Some d)
      then have x': "x' = Typed_Literal d" and s': "s' = s1"
        using assms step \<open>v = Some w\<close> by (auto simp: render_typed_def Typed_Template)
      have decoded: "typed_value decode (sc_values sc) x = Some d" if wb: "within_budget s" "rs_errors s1 = []"
      proof -
        have "whole_value (sc_values sc) t = Some w" using whole wb \<open>v = Some w\<close> by simp
        with Some show ?thesis by (simp add: typed_value_def Typed_Template)
      qed
      have "extends s s1" using whole by blast
      with decoded show ?thesis by (simp add: x' s' extends_def)
    qed
  qed
qed

text \<open>The same for a slot that holds the typed value.\<close>

lemma render_typed_slot:
  assumes "visit_slot (render_visitor json sc) path x s = (x', s')"
    and "visit_slot (render_visitor json sc) path x s
      = map_prod C id (render_typed json decode expected sc path y s)"
    and "slot_value json (sc_values sc) x = map_option (C \<circ> Typed_Literal) (typed_value decode (sc_values sc) y)"
    and "\<And>y. slot_text_length (C y) = 0"
  shows "extends s s' \<and>
    (within_budget s \<longrightarrow> rs_errors s' = [] \<longrightarrow>
      slot_value json (sc_values sc) x = Some x' \<and> rs_rendered s + slot_text_length x' \<le> rs_rendered s')"
proof -
  obtain y' where y': "render_typed json decode expected sc path y s = (y', s')" and x': "x' = C y'"
    using assms(1,2) by (cases "render_typed json decode expected sc path y s") auto
  from render_typed_spec [OF y'] show ?thesis
    by (auto simp: assms(3,4) x' extends_def)
qed

subsection \<open>Slots and lists of slots\<close>

text \<open>What one slot costs and reports; \<open>done_with\<close> is the state reached without a report.\<close>

lemma visit_slot_spec:
  assumes "visit_slot (render_visitor json sc) path x s = (x', s')"
  shows "extends s s' \<and>
    (within_budget s \<longrightarrow> rs_errors s' = [] \<longrightarrow>
      slot_value json (sc_values sc) x = Some x' \<and> rs_rendered s + slot_text_length x' \<le> rs_rendered s')"
proof (cases x)
  case (Slot_Text t)
  then obtain t' where t': "render_slot_text sc path t s = (t', s')" "x' = Slot_Text t'"
    using assms by (cases "render_slot_text sc path t s") (auto simp: render_visitor_def)
  from render_slot_text_spec [OF t'(1)] Slot_Text t'(2) show ?thesis
    by (auto simp: slot_text_length_def as_literal_literal)
next
  case (Slot_U16 y)
  show ?thesis by (rule render_typed_slot [OF assms, where C = Slot_U16 and decode = "ja_u16 json"
      and expected = EXPECTED_U16 and y = y]) (simp_all add: Slot_U16 render_visitor_def slot_text_length_def)
next
  case (Slot_U32 y)
  show ?thesis by (rule render_typed_slot [OF assms, where C = Slot_U32 and decode = "ja_u32 json"
      and expected = EXPECTED_U32 and y = y]) (simp_all add: Slot_U32 render_visitor_def slot_text_length_def)
next
  case (Slot_U64 y)
  show ?thesis by (rule render_typed_slot [OF assms, where C = Slot_U64 and decode = "ja_u64 json"
      and expected = EXPECTED_U64 and y = y]) (simp_all add: Slot_U64 render_visitor_def slot_text_length_def)
next
  case (Slot_Order y)
  show ?thesis by (rule render_typed_slot [OF assms, where C = Slot_Order and decode = "ja_order json"
      and expected = EXPECTED_ORDER and y = y]) (simp_all add: Slot_Order render_visitor_def slot_text_length_def)
qed

lemma visit_slots_spec:
  assumes "visit_slots (render_visitor json sc) xs s = (xs', s')"
  shows "map fst xs' = map fst xs \<and> prefix (rs_errors s) (rs_errors s')
    \<and> length (rs_errors s') \<le> length (rs_errors s) + length xs
    \<and> (within_budget s \<longrightarrow> within_budget s')
    \<and> (within_budget s \<longrightarrow> rs_errors s' = [] \<longrightarrow>
        map (\<lambda>p. slot_value json (sc_values sc) (snd p)) xs = map (\<lambda>p. Some (snd p)) xs'
        \<and> rs_rendered s + (\<Sum>p\<leftarrow>xs'. slot_text_length (snd p)) \<le> rs_rendered s')"
  using assms
proof (induction xs arbitrary: s xs')
  case (Cons p xs)
  obtain path x where p: "p = (path, x)" by (cases p)
  obtain x1 s1 where one: "visit_slot (render_visitor json sc) path x s = (x1, s1)" by fastforce
  obtain xs1 where rest: "visit_slots (render_visitor json sc) xs s1 = (xs1, s')" and xs': "xs' = (path, x1) # xs1"
    using Cons.prems p one by (cases "visit_slots (render_visitor json sc) xs s1") auto
  note first = visit_slot_spec [OF one] and later = Cons.IH [OF rest]
  have quiet: "rs_errors s1 = []" if "rs_errors s' = []" using later that by simp
  have "prefix (rs_errors s) (rs_errors s')" "length (rs_errors s') \<le> length (rs_errors s) + length (p # xs)"
    "within_budget s \<longrightarrow> within_budget s'"
    using first later by (auto simp: extends_def intro: prefix_order.trans)
  moreover have "map (\<lambda>p. slot_value json (sc_values sc) (snd p)) (p # xs) = map (\<lambda>p. Some (snd p)) xs'
      \<and> rs_rendered s + (\<Sum>p\<leftarrow>xs'. slot_text_length (snd p)) \<le> rs_rendered s'"
    if wb: "within_budget s" and no: "rs_errors s' = []"
  proof -
    have "within_budget s1" using first wb by (simp add: extends_def)
    then show ?thesis using first later wb no quiet p by (simp add: xs')
  qed
  ultimately show ?case using later p xs' by simp
qed simp

subsection \<open>The scope and the whole specification\<close>

lemma declare_variable_spec:
  assumes "declare_variable spec entry (sc, s) = (sc', s')"
  shows "sc_context sc' = sc_context sc \<and> extends s s'"
proof -
  obtain name v where entry: "entry = (name, v)" by fastforce
  show ?thesis
  proof (cases v)
    case None
    then show ?thesis using assms by (simp add: declare_variable_def entry)
  next
    case (Some w)
    show ?thesis
    proof (cases w)
      case (Var_String t)
      then obtain path where s': "s' = snd (render_text sc path t s)"
          and sc': "sc_context sc' = sc_context sc"
        using assms Some
        by (auto simp: declare_variable_def entry split_def Let_def split: option.splits if_splits)
      have "extends s s'" using render_text_spec [of sc path t s "fst (render_text sc path t s)" s'] s' by simp
      with sc' show ?thesis by simp
    qed (use assms Some in \<open>auto simp: declare_variable_def entry Let_def\<close>)
  qed
qed

lemma declare_variables_spec:
  assumes "fold (declare_variable spec) entries (sc, s) = (sc', s')"
  shows "sc_context sc' = sc_context sc \<and> prefix (rs_errors s) (rs_errors s')
    \<and> length (rs_errors s') \<le> length (rs_errors s) + length entries
    \<and> rs_rendered s \<le> rs_rendered s' \<and> (within_budget s \<longrightarrow> within_budget s')"
  using assms
proof (induction entries arbitrary: sc s)
  case (Cons entry entries)
  obtain sc1 s1 where step: "declare_variable spec entry (sc, s) = (sc1, s1)" by fastforce
  then have "fold (declare_variable spec) entries (sc1, s1) = (sc', s')" using Cons.prems by simp
  from Cons.IH [OF this] declare_variable_spec [OF step] show ?case
    by (auto simp: extends_def intro: prefix_order.trans)
qed simp

lemma scope_new_spec:
  assumes "scope_new application spec context errors = (sc, s)"
  shows "sc_context sc = context \<and> prefix errors (rs_errors s)
    \<and> length (rs_errors s) \<le> length errors + length (variables_for spec (rx_target context))
    \<and> 0 \<le> rs_rendered s \<and> within_budget s"
  using declare_variables_spec [OF assms [unfolded scope_new_def]]
  by (simp add: within_budget_def MAX_RENDERED_BYTES_def)

lemma slots_list_map:
  "(\<And>n x. g n (h x) = g n x) \<Longrightarrow> slots_list g n (map h xs) = slots_list g n xs"
  by (induction xs arbitrary: n) auto

lemma spec_slots_cap: "spec_slots (cap_visibility target spec) = spec_slots spec"
  by (simp add: spec_slots_def cap_visibility_def Let_def slots_list_map slots_route_def)

lemma spec_slots_clear:
  "spec_slots (spec\<lparr>as_variables := v, as_environments := e, as_previews := p\<rparr>) = spec_slots spec"
  by (simp add: spec_slots_def)

lemma spec_render_errors:
  "scope_new application spec context errors = (sc, s) \<Longrightarrow>
   snd (snd (spec_render json application context spec errors))
     = rs_errors (snd (visit_values (render_visitor json sc) spec s))"
  by (simp add: spec_render_def split_def Let_def)

lemma spec_render_spec:
  assumes "spec_render json application context spec errors = (spec', vals, errors')"
    and "scope_new application spec context errors = (sc, s)"
  shows "map fst (spec_slots spec') = map fst (spec_slots spec)
    \<and> length errors' \<le> length errors + length (variables_for spec (rx_target context)) + length (spec_slots spec)
    \<and> prefix errors errors'
    \<and> (errors' = [] \<longrightarrow>
        map (\<lambda>p. slot_value json (sc_values sc) (snd p)) (spec_slots spec) = map (\<lambda>p. Some (snd p)) (spec_slots spec')
        \<and> (\<Sum>p\<leftarrow>spec_slots spec'. slot_text_length (snd p)) \<le> MAX_RENDERED_BYTES)"
proof -
  obtain spec1 s1 where visit: "visit_values (render_visitor json sc) spec s = (spec1, s1)" by fastforce
  have slots: "visit_slots (render_visitor json sc) (spec_slots spec) s = (spec_slots spec1, s1)"
    using visit_values_slots [of "render_visitor json sc" spec s] by (simp add: visit)
  have spec': "spec_slots spec' = spec_slots spec1" and errors': "errors' = rs_errors s1"
    using assms visit by (auto simp: spec_render_def Let_def spec_slots_clear spec_slots_cap)
  note scope = scope_new_spec [OF assms(2)] and visited = visit_slots_spec [OF slots]
  have "(\<Sum>p\<leftarrow>spec_slots spec1. slot_text_length (snd p)) \<le> MAX_RENDERED_BYTES" if "errors' = []"
  proof -
    have "within_budget s1" using scope visited by blast
    then have "rs_rendered s1 \<le> MAX_RENDERED_BYTES" using that errors' by (simp add: within_budget_def)
    moreover have "rs_rendered s + (\<Sum>p\<leftarrow>spec_slots spec1. slot_text_length (snd p)) \<le> rs_rendered s1"
      using scope visited that errors' by simp
    ultimately show ?thesis using scope by linarith
  qed
  then show ?thesis
    using scope visited by (auto simp: spec' errors' intro: prefix_order.trans)
qed

text \<open>What a rendered slot must be: literal text, or a typed setting that holds its value.\<close>

fun slot_rendered :: "slot \<Rightarrow> bool" where
  "slot_rendered (Slot_Text t) \<longleftrightarrow> (case as_literal t of None \<Rightarrow> False | Some text \<Rightarrow> t = template_literal text)"
| "slot_rendered (Slot_U16 x) \<longleftrightarrow> typed_literal x \<noteq> None"
| "slot_rendered (Slot_U32 x) \<longleftrightarrow> typed_literal x \<noteq> None"
| "slot_rendered (Slot_U64 x) \<longleftrightarrow> typed_literal x \<noteq> None"
| "slot_rendered (Slot_Order x) \<longleftrightarrow> typed_literal x \<noteq> None"

lemma slot_value_rendered: "slot_value json vals x = Some x' \<Longrightarrow> slot_rendered x'"
  by (cases x) (auto simp: as_literal_literal)

section \<open>Properties\<close>

text \<open>C22: Rendering is substitution. When it reports nothing, every value of the rendered manifest is
  the value its slot has under the values in scope: text with each reference replaced by the
  variable's text, a typed setting decoded from the variable's own value; at the same paths, and
  nothing else is rendered.\<close>

theorem rendering_is_substitution:
  assumes "spec_render json application context spec [] = (spec', vals, [])"
  shows "map fst (spec_slots spec') = map fst (spec_slots spec)
    \<and> map (\<lambda>p. Some (snd p)) (spec_slots spec') =
        map (\<lambda>p. slot_value json (sc_values (fst (scope_new application spec context []))) (snd p))
          (spec_slots spec)"
proof -
  obtain sc s where scope: "scope_new application spec context [] = (sc, s)" by fastforce
  show ?thesis using spec_render_spec [OF assms scope] by (simp add: scope)
qed


text \<open>C25: Rendering bounds its output: at most one problem is reported per variable and per value, and
  a rendering that reports nothing produces at most \<open>MAX_RENDERED_BYTES\<close> of text, however often a
  large variable is repeated.\<close>

theorem rendering_is_bounded:
  "case spec_render json application context spec [] of (spec', vals, errors) \<Rightarrow>
     length errors \<le> length (variables_for spec (rx_target context)) + length (spec_slots spec)
     \<and> (if errors = [] then (\<Sum>p\<leftarrow>spec_slots spec'. slot_text_length (snd p)) \<le> 4194304 else True)"
proof -
  obtain spec' vals errors where r: "spec_render json application context spec [] = (spec', vals, errors)"
    by (cases "spec_render json application context spec []") auto
  obtain sc s where scope: "scope_new application spec context [] = (sc, s)" by fastforce
  show ?thesis using spec_render_spec [OF r scope] by (simp add: r MAX_RENDERED_BYTES_def)
qed

subsection \<open>An example\<close>

definition rendered_example_json :: json_api where
  "rendered_example_json =
     \<lparr>ja_show = show_value,
      ja_u16 = (\<lambda>v. case v of Value_Integer i \<Rightarrow> if 0 \<le> i \<and> i \<le> 65535 then Some (word_of_int i) else None | _ \<Rightarrow> None),
      ja_u32 = (\<lambda>v. case v of Value_Integer i \<Rightarrow> if 0 \<le> i \<and> i \<le> 4294967295 then Some (word_of_int i) else None | _ \<Rightarrow> None),
      ja_u64 = (\<lambda>v. case v of Value_Integer i \<Rightarrow> if 0 \<le> i then Some (word_of_int i) else None | _ \<Rightarrow> None),
      ja_order = (\<lambda>v. case v of
          Value_String t \<Rightarrow> if t = ''stop-first'' then Some StopFirst else if t = ''start-first'' then Some StartFirst else None
        | _ \<Rightarrow> None)\<rparr>"

definition rendered_example_service :: service_input where
  "rendered_example_service =
     \<lparr>svi_name = ''web'', svi_source = Input_Image ''a:${{env.name}}'',
      svi_replicas = Typed_Template ''${{vars.n}}'', svi_environment = Mapping.empty,
      svi_command = [], svi_arguments = [], svi_mounts = [], svi_secrets = [], svi_files = [],
      svi_healthcheck = None, svi_resources = None, svi_depends_on = [],
      svi_rollout = \<lparr>ri_order = None, ri_monitor_seconds = None\<rparr>, svi_receives_telemetry = False\<rparr>"

definition rendered_example_spec :: application_spec where
  "rendered_example_spec =
     \<lparr>as_manifest = None, as_services = [rendered_example_service], as_volumes = [], as_routes = [], as_secrets = [],
      as_jobs = [], as_exports = [], as_imports = [],
      as_variables = Mapping.of_alist [(''n'', Var_Integer 2)],
      as_environments = Mapping.empty, as_previews = preview_config_default\<rparr>"

definition rendered_example_context :: render_context where
  "rendered_example_context = saved_context (Target_Environment ''p'')"

definition rendered_example_scope :: value_scope where
  "rendered_example_scope = \<lparr>sc_context = rendered_example_context,
     sc_values = Mapping.of_alist [(Ref_Variable ''n'', Value_Integer 2), (Ref_System EnvSlug, Value_String ''p''),
       (Ref_System EnvName, Value_String ''p''), (Ref_System AppName, Value_String ''x'')]\<rparr>"

lemma rendered_example_scope_new:
  "scope_new ''x'' rendered_example_spec rendered_example_context [] = (rendered_example_scope, \<lparr>rs_rendered = 0, rs_errors = []\<rparr>)"
  by code_simp

definition rendered_example_visit :: "application_spec \<times> render_state" where
  "rendered_example_visit = visit_values (render_visitor rendered_example_json rendered_example_scope) rendered_example_spec \<lparr>rs_rendered = 0, rs_errors = []\<rparr>"

lemma example_slots:
  "spec_slots rendered_example_spec =
     [(''spec.services[0].source.image'', Slot_Text ''a:${{env.name}}''),
      (''spec.services[0].replicas'', Slot_U16 (Typed_Template ''${{vars.n}}''))]"
  by code_simp

lemma example_image:
  "render_slot_text rendered_example_scope path ''a:${{env.name}}'' \<lparr>rs_rendered = 0, rs_errors = []\<rparr>
     = (''a:p'', \<lparr>rs_rendered = 3, rs_errors = []\<rparr>)"
  by code_simp

lemma example_replicas:
  "render_typed rendered_example_json (ja_u16 rendered_example_json) EXPECTED_U16 rendered_example_scope path (Typed_Template ''${{vars.n}}'')
      \<lparr>rs_rendered = 3, rs_errors = []\<rparr>
     = (Typed_Literal 2, \<lparr>rs_rendered = 3, rs_errors = []\<rparr>)"
  by code_simp

lemma rendered_example_visited:
  "(spec_slots (fst rendered_example_visit), snd rendered_example_visit) =
     ([(''spec.services[0].source.image'', Slot_Text ''a:p''),
       (''spec.services[0].replicas'', Slot_U16 (Typed_Literal 2))],
      \<lparr>rs_rendered = 3, rs_errors = []\<rparr>)"
  unfolding rendered_example_visit_def visit_values_slots [symmetric] example_slots
  by (simp add: render_visitor_def example_image example_replicas)

definition rendered_example_rendering :: "application_spec \<times> (string, variable_value) mapping \<times> validation_error list" where
  "rendered_example_rendering = spec_render rendered_example_json ''x'' rendered_example_context rendered_example_spec []"

lemma rendered_example_rendering_quiet:
  "spec_render rendered_example_json ''x'' rendered_example_context rendered_example_spec [] = (fst rendered_example_rendering, fst (snd rendered_example_rendering), [])"
proof -
  have "snd (snd rendered_example_rendering) = rs_errors (snd rendered_example_visit)"
    unfolding rendered_example_rendering_def rendered_example_visit_def by (rule spec_render_errors [OF rendered_example_scope_new])
  also have "\<dots> = []" using rendered_example_visited by (simp del: spec_slots_def)
  finally show ?thesis
    unfolding rendered_example_rendering_def [symmetric] by (intro prod_eqI) simp_all
qed


theorem rendering_is_substitution_witness:
  "map fst (spec_slots (fst rendered_example_rendering)) = map fst (spec_slots rendered_example_spec)
    \<and> map (\<lambda>p. Some (snd p)) (spec_slots (fst rendered_example_rendering)) =
        map (\<lambda>p. slot_value rendered_example_json (sc_values (fst (scope_new ''x'' rendered_example_spec rendered_example_context []))) (snd p))
          (spec_slots rendered_example_spec)"
  by (rule rendering_is_substitution [OF rendered_example_rendering_quiet])

end
