(* ===== verification/Hostnames.thy ===== *)
theory Hostnames
  imports Domain Str
begin

text \<open>
  Hostnames, route hostnames that may be wildcards, and redirect URLs:
  \<open>crates/piqueld-core/src/manifest/routes.rs\<close>. A wildcard serves the names one label below its
  parent; the lemmas characterise what it matches and which names are left to probe.
\<close>

section \<open>Splitting text\<close>

text \<open>\<open>str::split\<close> with a character: at least one part.\<close>

fun split_on :: "char \<Rightarrow> string \<Rightarrow> string list" where
  "split_on c [] = [[]]"
| "split_on c (x # s) =
     (if x = c then [] # split_on c s
      else (case split_on c s of [] \<Rightarrow> [[x]] | p # ps \<Rightarrow> (x # p) # ps))"

lemma split_on_nonempty [simp]: "split_on c s \<noteq> []"
  by (induction s) (auto split: list.splits)

lemma split_on_no_sep: "c \<notin> set s \<Longrightarrow> split_on c s = [s]"
  by (induction s) auto

lemma split_on_append: "c \<notin> set a \<Longrightarrow> split_on c (a @ c # s) = a # split_on c s"
  by (induction a) auto

lemma split_on_parts: "p \<in> set (split_on c s) \<Longrightarrow> c \<notin> set p \<and> set p \<subseteq> set s"
proof (induction s arbitrary: p)
  case (Cons x s)
  obtain q qs where q: "split_on c s = q # qs" using split_on_nonempty by (cases "split_on c s") auto
  show ?case using Cons.prems Cons.IH [of p] Cons.IH [of q] q by (auto split: if_splits)
qed simp

section \<open>Hostnames\<close>

definition valid_hostname :: "string \<Rightarrow> bool" where
  "valid_hostname s \<longleftrightarrow>
     length s \<le> 253
     \<and> CHR ''.'' \<in> set s
     \<and> list_all (\<lambda>label. is_lowercase_label label dns_label) (split_on (CHR ''.'') s)
     \<and> (let tld = last (split_on (CHR ''.'') s)
        in list_ex is_ascii_lowercase tld \<and> tld \<notin> {''localhost'', ''local'', ''internal''})"

definition parse_hostname :: "string \<Rightarrow> string option" where
  "parse_hostname = validated_parse valid_hostname"

definition hostname_within :: "string \<Rightarrow> string \<Rightarrow> bool" where
  "hostname_within hostname domain \<longleftrightarrow>
     (case strip_suffix domain hostname of
        None \<Rightarrow> False
      | Some p \<Rightarrow> p = [] \<or> suffix ''.'' p)"

definition hostname_parent :: "string \<Rightarrow> string option" where
  "hostname_parent hostname =
     Option.bind (split_once (CHR ''.'') hostname) (\<lambda>(_, parent). parse_hostname parent)"

section \<open>Route hostnames\<close>

definition WILDCARD :: string where "WILDCARD = ''*.''"

definition valid_route_hostname :: "string \<Rightarrow> bool" where
  "valid_route_hostname s \<longleftrightarrow>
     length s \<le> 253
     \<and> parse_hostname (case strip_prefix WILDCARD s of Some parent \<Rightarrow> parent | None \<Rightarrow> s) \<noteq> None"

definition parse_route_hostname :: "string \<Rightarrow> string option" where
  "parse_route_hostname = validated_parse valid_route_hostname"

definition canonicalize_hostname :: "string \<Rightarrow> string" where
  "canonicalize_hostname hostname =
     map to_ascii_lowercase (case strip_suffix ''.'' hostname of Some s \<Rightarrow> s | None \<Rightarrow> hostname)"

definition route_wildcard :: "string \<Rightarrow> string option" where
  "route_wildcard hostname = strip_prefix WILDCARD hostname"

definition route_domain :: "string \<Rightarrow> string" where
  "route_domain hostname = (case route_wildcard hostname of Some parent \<Rightarrow> parent | None \<Rightarrow> hostname)"

definition route_within :: "string \<Rightarrow> string \<Rightarrow> bool" where
  "route_within hostname domain = hostname_within (route_domain hostname) domain"

definition route_matches :: "string \<Rightarrow> string \<Rightarrow> bool" where
  "route_matches route hostname \<longleftrightarrow>
     (case route_wildcard route of
        Some parent \<Rightarrow> (case hostname_parent hostname of None \<Rightarrow> False | Some other \<Rightarrow> other = parent)
      | None \<Rightarrow> route = hostname)"

definition PROBE_LABELS :: string where
  "PROBE_LABELS = ''abcdefghijklmnopqrstuvwxyz0123456789''"

definition route_served :: "string \<Rightarrow> string list \<Rightarrow> string option" where
  "route_served route exact =
     (case route_wildcard route of
        None \<Rightarrow> Some (route_domain route)
      | Some parent \<Rightarrow>
          List.find (\<lambda>name. name \<notin> set exact)
            (List.map_filter (\<lambda>label. parse_hostname ([label] @ ''.'' @ parent)) PROBE_LABELS))"

definition same_listener :: "validated_route \<Rightarrow> validated_route \<Rightarrow> bool" where
  "same_listener a b \<longleftrightarrow> vr_hostname a = vr_hostname b \<and> vr_visibility a = vr_visibility b"

section \<open>Redirect URLs\<close>

text \<open>\<open>RedirectUrl::parts\<close>: host, port and path of a candidate.\<close>

definition redirect_parts :: "string \<Rightarrow> (string \<times> string option \<times> string) option" where
  "redirect_parts s =
     Option.bind
       (case strip_prefix ''https://'' s of Some rest \<Rightarrow> Some rest | None \<Rightarrow> strip_prefix ''http://'' s)
       (\<lambda>rest.
          let at = (case position (\<lambda>c. c = CHR ''/'') rest of Some i \<Rightarrow> i | None \<Rightarrow> length rest);
              authority = take at rest;
              path = drop at rest
          in Some (case split_once (CHR '':'') authority of
                     Some (host, port) \<Rightarrow> (host, Some port, path)
                   | None \<Rightarrow> (authority, None, path)))"

definition valid_port :: "string \<Rightarrow> bool" where
  "valid_port port \<longleftrightarrow>
     \<not> prefix ''0'' port \<and> list_all is_ascii_digit port
     \<and> (case parse_digits port of None \<Rightarrow> False | Some n \<Rightarrow> 0 < n \<and> n < 65536)"

definition is_ascii_graphic :: "char \<Rightarrow> bool" where
  "is_ascii_graphic c \<longleftrightarrow> 33 \<le> byte c \<and> byte c \<le> 126"

definition valid_redirect_url :: "string \<Rightarrow> bool" where
  "valid_redirect_url s \<longleftrightarrow>
     length s \<le> 2048
     \<and> (case redirect_parts s of
          None \<Rightarrow> False
        | Some (host, port, path) \<Rightarrow>
            parse_hostname host \<noteq> None
            \<and> (case port of None \<Rightarrow> True | Some port \<Rightarrow> valid_port port)
            \<and> list_all (\<lambda>b. is_ascii_graphic b \<and> b \<notin> set ''?#{}'' \<and> b \<noteq> CHR 0x5C) path)"

definition parse_redirect_url :: "string \<Rightarrow> string option" where
  "parse_redirect_url = validated_parse valid_redirect_url"

definition redirect_hostname :: "string \<Rightarrow> string" where
  "redirect_hostname s = (case redirect_parts s of None \<Rightarrow> [] | Some (host, _) \<Rightarrow> host)"

section \<open>Facts\<close>

lemma parse_hostname_iff: "parse_hostname s = Some t \<longleftrightarrow> valid_hostname s \<and> t = s"
  by (auto simp: parse_hostname_def validated_parse_def)

lemma parse_hostname_none: "parse_hostname s = None \<longleftrightarrow> \<not> valid_hostname s"
  by (simp add: parse_hostname_def validated_parse_def)

text \<open>The name one label above a hostname.\<close>

lemma hostname_parent_iff:
  assumes "valid_hostname h"
  shows "hostname_parent h = Some p \<longleftrightarrow>
     valid_hostname p \<and> (\<exists>label. h = label @ ''.'' @ p \<and> CHR ''.'' \<notin> set label)"
proof -
  obtain a b where ab: "split_once (CHR ''.'') h = Some (a, b)"
  proof -
    have "split_once (CHR ''.'') h \<noteq> None"
      using assms position_none [of "\<lambda>x. x = CHR ''.''" h]
      by (auto simp: split_once_def valid_hostname_def list_all_iff)
    then show ?thesis using that by auto
  qed
  then have h: "h = a @ ''.'' @ b" "CHR ''.'' \<notin> set a" by (auto simp: split_once_iff)
  have uniq: "b = p" if "h = label @ ''.'' @ p" "CHR ''.'' \<notin> set label" for label
  proof -
    have "split_once (CHR ''.'') h = Some (label, p)" using that by (simp add: split_once_iff)
    with ab show ?thesis by simp
  qed
  have "hostname_parent h = parse_hostname b" by (simp add: hostname_parent_def ab)
  moreover have "(\<exists>label. h = label @ ''.'' @ p \<and> CHR ''.'' \<notin> set label) \<longleftrightarrow> b = p"
    using h uniq by blast
  ultimately show ?thesis by (auto simp: parse_hostname_iff)
qed

lemma valid_route_cases:
  "valid_route_hostname r \<longleftrightarrow>
     (case route_wildcard r of
        None \<Rightarrow> valid_hostname r
      | Some parent \<Rightarrow> valid_hostname parent \<and> length parent \<le> 251 \<and> r = WILDCARD @ parent)"
proof (cases "route_wildcard r")
  case None
  then show ?thesis
    by (auto simp: valid_route_hostname_def route_wildcard_def parse_hostname_iff valid_hostname_def)
next
  case (Some parent)
  then have "r = WILDCARD @ parent" by (simp add: route_wildcard_def strip_prefix_iff)
  then have "length r = length parent + 2" by (simp add: WILDCARD_def)
  with Some \<open>r = WILDCARD @ parent\<close> show ?thesis
    by (auto simp: valid_route_hostname_def route_wildcard_def parse_hostname_iff)
qed

lemma probe_label_valid:
  "c \<in> set PROBE_LABELS \<Longrightarrow> is_lowercase_label [c] dns_label \<and> c \<noteq> CHR ''.''"
proof -
  have "list_all (\<lambda>c. is_lowercase_label [c] dns_label \<and> c \<noteq> CHR ''.'') PROBE_LABELS" by code_simp
  then show "c \<in> set PROBE_LABELS \<Longrightarrow> ?thesis" by (simp add: list_all_iff)
qed

lemma valid_hostname_below:
  assumes "valid_hostname p" "length p \<le> 251" "c \<in> set PROBE_LABELS"
  shows "valid_hostname ([c] @ ''.'' @ p)"
proof -
  have c: "is_lowercase_label [c] dns_label" "c \<noteq> CHR ''.''" using probe_label_valid [OF assms(3)] by auto
  then have "split_on (CHR ''.'') ([c] @ ''.'' @ p) = [c] # split_on (CHR ''.'') p"
    using split_on_append [of "CHR ''.''" "[c]" p] by simp
  then show ?thesis using assms(1,2) c by (simp add: valid_hostname_def Let_def)
qed

text \<open>What a route serves.\<close>

definition names_below :: "string \<Rightarrow> string list" where
  "names_below parent = map (\<lambda>c. [c] @ ''.'' @ parent) PROBE_LABELS"

lemma served_candidates:
  assumes "valid_hostname p" "length p \<le> 251"
  shows "List.map_filter (\<lambda>label. parse_hostname ([label] @ ''.'' @ p)) PROBE_LABELS = names_below p"
proof -
  have "List.map_filter (\<lambda>label. parse_hostname ([label] @ ''.'' @ p)) cs = map (\<lambda>c. [c] @ ''.'' @ p) cs"
    if "set cs \<subseteq> set PROBE_LABELS" for cs
    using that
  proof (induction cs)
    case (Cons c cs)
    then have "parse_hostname ([c] @ ''.'' @ p) = Some ([c] @ ''.'' @ p)"
      using valid_hostname_below [OF assms] by (auto simp: parse_hostname_iff)
    with Cons show ?case by (simp add: List.map_filter_simps)
  qed (simp add: List.map_filter_simps)
  then show ?thesis by (simp add: names_below_def)
qed

lemma matches_wildcard:
  assumes "valid_hostname h"
  shows "route_matches (WILDCARD @ p) h \<longleftrightarrow>
     valid_hostname p \<and> (\<exists>label. h = label @ ''.'' @ p \<and> CHR ''.'' \<notin> set label)"
  using hostname_parent_iff [OF assms, of p]
  by (auto simp: route_matches_def route_wildcard_def split: option.splits)

text \<open>A route probes a hostname it serves: \<open>served\<close> gives the hostname of an exact route, and for a
  wildcard a valid name one label below its parent that no exact route claims; it gives none only
  when exact routes claim all thirty-six candidates, since a one-character label always fits.\<close>

theorem served_names_are_unclaimed:
  assumes "valid_route_hostname r"
  shows "case route_served r exact of
       Some h \<Rightarrow> valid_hostname h \<and> route_matches r h \<and> (if route_wildcard r = None then True else h \<notin> set exact)
     | None \<Rightarrow> \<exists>parent. r = WILDCARD @ parent \<and> set (names_below parent) \<subseteq> set exact"
proof (cases "route_wildcard r")
  case None
  then have "valid_hostname r" using assms by (simp add: valid_route_cases)
  with None show ?thesis by (simp add: route_served_def route_domain_def route_matches_def)
next
  case (Some p)
  then have p: "valid_hostname p" "length p \<le> 251" "r = WILDCARD @ p"
    using assms by (simp_all add: valid_route_cases)
  have served: "route_served r exact = List.find (\<lambda>name. name \<notin> set exact) (names_below p)"
    using Some served_candidates [OF p(1,2)] by (simp add: route_served_def)
  show ?thesis
  proof (cases "route_served r exact")
    case None
    then have "\<forall>name\<in>set (names_below p). \<not> name \<notin> set exact" unfolding served find_none .
    then show ?thesis using None p(3) by auto
  next
    case h: (Some h)
    then have "h \<in> set (names_below p)" "h \<notin> set exact" using served find_mem by fastforce+
    then obtain c where c: "c \<in> set PROBE_LABELS" "h = [c] @ ''.'' @ p" by (auto simp: names_below_def)
    then have "valid_hostname h" using valid_hostname_below p by blast
    moreover have "route_matches r h"
      using matches_wildcard [OF \<open>valid_hostname h\<close>, of p] p c probe_label_valid [OF c(1)] by auto
    ultimately show ?thesis using h \<open>h \<notin> set exact\<close> by simp
  qed
qed

theorem served_names_are_unclaimed_witness:
  "case route_served ''*.example.com'' [''a.example.com''] of
       Some h \<Rightarrow> valid_hostname h \<and> route_matches ''*.example.com'' h
         \<and> (if route_wildcard ''*.example.com'' = None then True else h \<notin> set [''a.example.com''])
     | None \<Rightarrow> \<exists>parent. ''*.example.com'' = WILDCARD @ parent \<and> set (names_below parent) \<subseteq> set [''a.example.com'']"
  by (rule served_names_are_unclaimed) code_simp

end
