(* ===== verification/Manifest_Checks.thy ===== *)
theory Manifest_Checks
  imports Hostnames Manifest_Input
begin

text \<open>
  The checks of single manifest values: \<open>crates/piqueld-core/src/manifest/validation/images.rs\<close>,
  \<open>validation/sources.rs\<close>, the helpers of \<open>validation/mod.rs\<close> and \<open>TrackedBranch\<close> of
  \<open>environment.rs\<close>. A check that pushes onto the list of errors returns the errors it pushes, in
  order; its callers append them.
\<close>

section \<open>Errors\<close>

definition push_when :: "bool \<Rightarrow> string \<Rightarrow> string \<Rightarrow> string \<Rightarrow> validation_error list" where
  "push_when b code path message = (if b then [validation_error_new code path message] else [])"

lemma push_when_nil [simp]: "push_when b code path message = [] \<longleftrightarrow> \<not> b"
  by (simp add: push_when_def)

text \<open>Checks of the elements of a list with their indices.\<close>

fun check_list :: "(nat \<Rightarrow> 'a \<Rightarrow> 'e list) \<Rightarrow> nat \<Rightarrow> 'a list \<Rightarrow> 'e list" where
  "check_list f n [] = []"
| "check_list f n (x # xs) = f n x @ check_list f (Suc n) xs"

lemma check_list_nil: "check_list f n xs = [] \<longleftrightarrow> (\<forall>i < length xs. f (n + i) (xs ! i) = [])"
proof (induction xs arbitrary: n)
  case (Cons x xs)
  show ?case
  proof
    assume "check_list f n (x # xs) = []"
    then have "f n x = []" "\<forall>i < length xs. f (Suc n + i) (xs ! i) = []" using Cons by auto
    then show "\<forall>i < length (x # xs). f (n + i) ((x # xs) ! i) = []"
      by (auto simp: nth_Cons split: nat.split)
  next
    assume all: "\<forall>i < length (x # xs). f (n + i) ((x # xs) ! i) = []"
    from all have "f n x = []" by (auto dest: spec [of _ 0])
    moreover have "f (Suc n + i) (xs ! i) = []" if "i < length xs" for i
      using all that by (auto dest: spec [of _ "Suc i"])
    ultimately show "check_list f n (x # xs) = []" using Cons by simp
  qed
qed simp

lemma check_list_mem: "check_list f n xs = [] \<Longrightarrow> x \<in> set xs \<Longrightarrow> \<exists>i. f i x = []"
  by (auto simp: check_list_nil in_set_conv_nth)

section \<open>Characters\<close>

text \<open>\<open>char::is_whitespace\<close> and \<open>char::is_control\<close> of some character of a text.\<close>

definition any_whitespace :: "string \<Rightarrow> bool" where
  "any_whitespace s \<longleftrightarrow> list_ex (\<lambda>w. contains_str w s) WHITESPACE"

definition any_control :: "string \<Rightarrow> bool" where
  "any_control s \<longleftrightarrow>
     list_ex (\<lambda>c. byte c < 32 \<or> byte c = 127) s
     \<or> list_ex (\<lambda>b. contains_str (utf8 [194, b]) s) [128..<160]"

definition contains_any :: "string \<Rightarrow> string \<Rightarrow> bool" where
  "contains_any chars s \<longleftrightarrow> list_ex (\<lambda>c. c \<in> set chars) s"

definition BACKSLASH :: char where "BACKSLASH = CHR 0x5C"

section \<open>Image references (images.rs)\<close>

definition registry_component :: "string \<Rightarrow> string option" where
  "registry_component name =
     (case split_once (CHR ''/'') name of
        None \<Rightarrow> None
      | Some (first, _) \<Rightarrow>
          if contains_any ''.:'' first \<or> map to_ascii_lowercase first = ''localhost'' then Some first else None)"

definition rsplit_once :: "char \<Rightarrow> string \<Rightarrow> (string \<times> string) option" where
  "rsplit_once c s = map_option (\<lambda>(a, b). (rev b, rev a)) (split_once c (rev s))"

definition parse_u16 :: "string \<Rightarrow> nat option" where
  "parse_u16 s =
     Option.bind (parse_digits (case s of c # rest \<Rightarrow> if c = CHR ''+'' then rest else s | [] \<Rightarrow> []))
       (\<lambda>n. if n < 65536 then Some n else None)"

definition valid_registry_authority :: "string \<Rightarrow> bool" where
  "valid_registry_authority s \<longleftrightarrow>
     (let (host, port) = (case rsplit_once (CHR '':'') s of
            Some (host, port) \<Rightarrow> (host, Some port) | None \<Rightarrow> (s, None))
      in (case port of None \<Rightarrow> True
          | Some port \<Rightarrow> (case parse_u16 port of None \<Rightarrow> False | Some n \<Rightarrow> n \<noteq> 0))
         \<and> (let lowered = map to_ascii_lowercase host
            in lowered = ''localhost''
               \<or> list_all (\<lambda>label. is_label label (1, length label) \<and> \<not> list_ex is_ascii_uppercase label
                     \<and> label \<noteq> []) (split_on (CHR ''.'') lowered)))"

definition lower_or_digit :: "char \<Rightarrow> bool" where
  "lower_or_digit c \<longleftrightarrow> is_ascii_lowercase c \<or> is_ascii_digit c"

text \<open>The loop over runs and separators: \<open>takeWhile\<close> and \<open>dropWhile\<close> are its two inner loops.\<close>

function repository_runs :: "string \<Rightarrow> bool" where
  "repository_runs s =
     (if s = [] then True
      else
        (let rest = dropWhile lower_or_digit s in
         if rest = [] then True
         else
           (let separator = takeWhile (\<lambda>c. c \<in> set ''._-'') rest;
                after = dropWhile (\<lambda>c. c \<in> set ''._-'') rest
            in if separator = [] \<or> after = []
                  \<or> \<not> (separator = ''.'' \<or> separator = ''_'' \<or> separator = ''__''
                      \<or> list_all (\<lambda>c. c = CHR ''-'') separator)
               then False
               else repository_runs after)))"
  by pat_completeness auto
termination
proof (relation "measure length", goal_cases)
  case (2 s rest separator after)
  have "length after < length rest"
    using 2(3,4,5,6) length_dropWhile_le [of "\<lambda>c. c \<in> set ''._-''" "tl rest"]
    by (cases rest) (auto split: if_splits)
  moreover have "length rest \<le> length s" unfolding 2(2) by (rule length_dropWhile_le)
  ultimately show ?case by simp
qed simp

declare repository_runs.simps [simp del]

definition valid_repository_component :: "string \<Rightarrow> bool" where
  "valid_repository_component s \<longleftrightarrow>
     s \<noteq> [] \<and> lower_or_digit (hd s) \<and> lower_or_digit (last s) \<and> repository_runs s"

fun split_any :: "string \<Rightarrow> string \<Rightarrow> string list" where
  "split_any cs [] = [[]]"
| "split_any cs (x # s) =
     (if x \<in> set cs then [] # split_any cs s
      else (case split_any cs s of [] \<Rightarrow> [[x]] | p # ps \<Rightarrow> (x # p) # ps))"

definition valid_image_digest :: "string \<Rightarrow> bool" where
  "valid_image_digest s \<longleftrightarrow>
     (case split_once (CHR '':'') s of
        None \<Rightarrow> False
      | Some (algorithm, encoded) \<Rightarrow>
          list_all (\<lambda>part. part \<noteq> [] \<and> is_ascii_lowercase (hd part) \<and> list_all lower_or_digit part)
            (split_any ''_+.-'' algorithm)
          \<and> 32 \<le> length encoded
          \<and> list_all (\<lambda>b. is_ascii_alphanumeric b \<or> b \<in> set ''=_-'') encoded)"

definition valid_tag :: "string \<Rightarrow> bool" where
  "valid_tag tag \<longleftrightarrow>
     tag \<noteq> [] \<and> length tag \<le> 128 \<and> (is_ascii_alphanumeric (hd tag) \<or> hd tag = CHR ''_'')
     \<and> list_all (\<lambda>b. is_ascii_alphanumeric b \<or> b \<in> set ''_.-'') tag"

text \<open>The tag follows the last colon, unless a slash follows that colon.\<close>

definition split_tag :: "string \<Rightarrow> string \<times> string option" where
  "split_tag s =
     (case rsplit_once (CHR '':'') s of
        None \<Rightarrow> (s, None)
      | Some (name, tag) \<Rightarrow> if CHR ''/'' \<in> set tag then (s, None) else (name, Some tag))"

definition valid_image_reference :: "string \<Rightarrow> bool" where
  "valid_image_reference s \<longleftrightarrow>
     \<not> (s = [] \<or> 512 < length s \<or> any_whitespace s \<or> any_control s \<or> contains_str ''//'' s
        \<or> contains_any ''?#'' s)
     \<and> (case split_on (CHR ''@'') s of
          [] \<Rightarrow> False
        | name_and_tag # digests \<Rightarrow>
            (case digests of [] \<Rightarrow> True | [digest] \<Rightarrow> valid_image_digest digest | _ \<Rightarrow> False)
            \<and> (let (name, tag) = split_tag name_and_tag
               in (case tag of None \<Rightarrow> True | Some tag \<Rightarrow> valid_tag tag)
                  \<and> name \<noteq> [] \<and> length name \<le> 255
                  \<and> list_all (\<lambda>part. part \<noteq> []) (split_on (CHR ''/'') name)
                  \<and> (case registry_component name of
                       None \<Rightarrow> list_all valid_repository_component (split_on (CHR ''/'') name)
                     | Some registry \<Rightarrow>
                         valid_registry_authority registry
                         \<and> list_all valid_repository_component
                             (split_on (CHR ''/'') (drop (length registry + 1) name)))))"

definition canonicalize_image_reference :: "string \<Rightarrow> string" where
  "canonicalize_image_reference s =
     (if \<not> valid_image_reference s then s
      else
        (let (name, digest) = (case split_once (CHR ''@'') s of
               Some (name, digest) \<Rightarrow> (name, Some digest) | None \<Rightarrow> (s, None))
         in case registry_component name of
              None \<Rightarrow> s
            | Some registry \<Rightarrow>
                (let lowered = map to_ascii_lowercase registry in
                 if lowered = registry then s
                 else (let normalized = lowered @ drop (length registry) name
                       in case digest of Some digest \<Rightarrow> normalized @ ''@'' @ digest | None \<Rightarrow> normalized))))"

section \<open>Git branches, commits and paths (sources.rs)\<close>

definition valid_git_branch :: "string \<Rightarrow> bool" where
  "valid_git_branch branch \<longleftrightarrow>
     \<not> (branch = [] \<or> 255 < length branch \<or> branch = ''@''
        \<or> hd branch \<in> set ''-/'' \<or> last branch \<in> set ''/.''
        \<or> contains_str ''..'' branch \<or> contains_str [CHR ''@'', CHR ''{''] branch \<or> contains_str ''//'' branch
        \<or> list_ex (\<lambda>component. prefix ''.'' component \<or> strip_suffix ''.lock'' component \<noteq> None)
            (split_on (CHR ''/'') branch)
        \<or> any_whitespace branch \<or> any_control branch
        \<or> contains_any (''~^:?*['' @ [BACKSLASH]) branch)"

definition valid_git_commit :: "string \<Rightarrow> bool" where
  "valid_git_commit s \<longleftrightarrow>
     (length s = 40 \<or> length s = 64)
     \<and> list_all (\<lambda>b. is_ascii_digit b \<or> (CHR ''a'' \<le> b \<and> b \<le> CHR ''f'')) s"

definition valid_repository_path :: "string \<Rightarrow> bool" where
  "valid_repository_path s \<longleftrightarrow>
     s \<noteq> [] \<and> length s \<le> 4096 \<and> \<not> any_control s \<and> BACKSLASH \<notin> set s \<and> CHR '':'' \<notin> set s
     \<and> hd s \<noteq> CHR ''/''
     \<and> list_all (\<lambda>part. part \<noteq> ''..'' \<and> part \<noteq> ''.git'') (split_on (CHR ''/'') s)"

definition MAX_IDENTIFIER_BYTES :: nat where "MAX_IDENTIFIER_BYTES = 255"

definition valid_build_target :: "string \<Rightarrow> bool" where
  "valid_build_target s \<longleftrightarrow>
     length s \<le> MAX_IDENTIFIER_BYTES
     \<and> (case s of [] \<Rightarrow> False | b # _ \<Rightarrow> is_ascii_alphabetic b)
     \<and> list_all (\<lambda>b. is_ascii_alphanumeric b \<or> b \<in> set ''-_.'') s"

section \<open>Tracked branches (environment.rs)\<close>

record tracked_branch =
  tb_branch :: string
  tb_commit :: "string option"

definition GIT_BRANCH_INVALID :: string where "GIT_BRANCH_INVALID = ''git_branch_invalid''"
definition GIT_COMMIT_INVALID :: string where "GIT_COMMIT_INVALID = ''git_commit_invalid''"

definition tracked_branch_new :: "string \<Rightarrow> string option \<Rightarrow> validation_errors + tracked_branch" where
  "tracked_branch_new branch commit =
     (let errors =
        push_when (\<not> valid_git_branch branch) GIT_BRANCH_INVALID ''branch''
          ''branch must be a valid Git branch name''
        @ push_when (case commit of None \<Rightarrow> False | Some c \<Rightarrow> \<not> valid_git_commit c) GIT_COMMIT_INVALID ''commit''
          ''commit must be a full lowercase hexadecimal Git hash''
      in if errors = [] then Inr \<lparr>tb_branch = branch, tb_commit = commit\<rparr> else Inl errors)"

definition tracked_branch_of :: "git_repository \<Rightarrow> validation_errors + tracked_branch" where
  "tracked_branch_of repository = tracked_branch_new (gr_branch repository) (gr_commit repository)"

fun tracked_branch_at :: "tracked_branch \<Rightarrow> manifest_revision \<Rightarrow> validation_errors + tracked_branch" where
  "tracked_branch_at b (Revision_Branch branch) = tracked_branch_new branch None"
| "tracked_branch_at b (Revision_Commit commit) = tracked_branch_new (tb_branch b) (Some commit)"

definition in_repository :: "tracked_branch \<Rightarrow> repository_manifest \<Rightarrow> repository_manifest" where
  "in_repository b connection =
     \<lparr>rm_repository = \<lparr>gr_url = gr_url (rm_repository connection), gr_branch = tb_branch b,
        gr_commit = tb_commit b\<rparr>,
      rm_path = rm_path connection, rm_sync = rm_sync connection\<rparr>"

text \<open>A tracked branch is valid, and reads back what the repository at a revision names.\<close>

definition valid_tracked_branch :: "tracked_branch \<Rightarrow> bool" where
  "valid_tracked_branch b \<longleftrightarrow>
     valid_git_branch (tb_branch b) \<and> (case tb_commit b of None \<Rightarrow> True | Some c \<Rightarrow> valid_git_commit c)"

lemma tracked_branch_new_iff:
  "tracked_branch_new branch commit = Inr b \<longleftrightarrow>
     b = \<lparr>tb_branch = branch, tb_commit = commit\<rparr> \<and> valid_tracked_branch b"
  by (cases commit) (auto simp: tracked_branch_new_def valid_tracked_branch_def Let_def)

lemma tracked_branch_at_repository:
  "tracked_branch_of repository = Inr b \<Longrightarrow>
   tracked_branch_of (repository_at repository revision) = tracked_branch_at b revision"
  by (cases revision) (auto simp: tracked_branch_of_def tracked_branch_new_iff)

end
