(* ===== verification/Service_Checks.thy ===== *)
theory Service_Checks
  imports Manifest_Checks Rendering Dependencies
begin

text \<open>
  Validation of services and jobs and what they are made of: \<open>validation/services.rs\<close>,
  \<open>validation/sources.rs\<close> and the shared rules of \<open>validation/mod.rs\<close> below
  \<open>crates/piqueld-core/src/manifest\<close>. As in \<open>Manifest_Checks\<close>, a check returns the errors it pushes.
  A set of targets that the code passes from check to check is an argument and a result.
\<close>

section \<open>Shared rules (mod.rs)\<close>

text \<open>\<open>Option::is_some_and\<close> and \<open>is_none_or\<close>.\<close>

definition is_some_and :: "('a \<Rightarrow> bool) \<Rightarrow> 'a option \<Rightarrow> bool" where
  "is_some_and P x \<longleftrightarrow> (case x of None \<Rightarrow> False | Some v \<Rightarrow> P v)"

definition is_none_or :: "('a \<Rightarrow> bool) \<Rightarrow> 'a option \<Rightarrow> bool" where
  "is_none_or P x \<longleftrightarrow> (case x of None \<Rightarrow> True | Some v \<Rightarrow> P v)"

lemma is_some_and_simps [simp]: "\<not> is_some_and P None" "is_some_and P (Some v) = P v"
  by (simp_all add: is_some_and_def)

lemma is_none_or_simps [simp]: "is_none_or P None" "is_none_or P (Some v) = P v"
  by (simp_all add: is_none_or_def)

definition MAX_VARIABLE_ENTRIES :: nat where "MAX_VARIABLE_ENTRIES = 256"
definition MAX_VARIABLE_VALUE_BYTES :: nat where "MAX_VARIABLE_VALUE_BYTES = 65536"
definition MAX_PROCESS_ELEMENTS :: nat where "MAX_PROCESS_ELEMENTS = 128"
definition MAX_PROCESS_ELEMENT_BYTES :: nat where "MAX_PROCESS_ELEMENT_BYTES = 4096"
definition MAX_CPU_MILLIS :: u32 where "MAX_CPU_MILLIS = 1048576"
definition MIN_REPLICAS :: u16 where "MIN_REPLICAS = 1"
definition MAX_REPLICAS :: u16 where "MAX_REPLICAS = 100"

definition validate_name :: "string \<Rightarrow> string \<Rightarrow> validation_error list" where
  "validate_name value_text path =
     (if mentions_reference value_text
      then [validation_error_new ''variable_not_allowed'' path ''names cannot reference variables'']
      else push_when (\<not> valid_logical_name value_text) ''name_invalid'' path
        ''names must be 1-63 lowercase letters, digits, or hyphens, start with a letter, and end with a letter or digit'')"

definition valid_env_name :: "string \<Rightarrow> bool" where
  "valid_env_name s \<longleftrightarrow>
     s \<noteq> [] \<and> \<not> is_ascii_digit (hd s) \<and> list_all (\<lambda>b. is_ascii_alphanumeric b \<or> b = CHR ''_'') s"

text \<open>\<open>unique_names\<close>: the duplicates it reports; the set it returns is that of the names.\<close>

fun duplicate_names :: "string \<Rightarrow> string \<Rightarrow> nat \<Rightarrow> string set \<Rightarrow> string list \<Rightarrow> validation_error list" where
  "duplicate_names path code index found [] = []"
| "duplicate_names path code index found (name # names) =
     push_when (name \<in> found) code (indexed path index @ ''.name'') ''name is duplicated''
     @ duplicate_names path code (Suc index) (insert name found) names"

definition unique_names :: "string list \<Rightarrow> string \<Rightarrow> string \<Rightarrow> validation_error list" where
  "unique_names names path code = duplicate_names path code 0 {} names"

text \<open>\<open>safe_key_echo\<close>: control characters of the first 64 become \<open>U+FFFD\<close>.\<close>

fun replace_controls :: "string \<Rightarrow> string" where
  "replace_controls [] = []"
| "replace_controls (c # s) =
     (if byte c < 32 \<or> byte c = 127 then utf8 [239, 191, 189] @ replace_controls s
      else if byte c = 194 \<and> s \<noteq> [] \<and> 128 \<le> byte (hd s) \<and> byte (hd s) < 160
      then utf8 [239, 191, 189] @ replace_controls (tl s)
      else c # replace_controls s)"

definition safe_key_echo :: "string \<Rightarrow> string" where
  "safe_key_echo key = [CHR 0x27] @ replace_controls (take_chars 64 key) @ [CHR 0x27]"

text \<open>Checks of the entries of a map in the order of its keys.\<close>

definition check_map :: "(string \<Rightarrow> 'a \<Rightarrow> 'e list) \<Rightarrow> (string, 'a) mapping \<Rightarrow> 'e list" where
  "check_map f m =
     concat (map (\<lambda>k. case Mapping.lookup m k of None \<Rightarrow> [] | Some v \<Rightarrow> f k v) (sorted_keys m))"

definition validate_process_arguments :: "template list \<Rightarrow> string \<Rightarrow> string \<Rightarrow> validation_error list" where
  "validate_process_arguments texts path excessive_code =
     push_when (MAX_PROCESS_ELEMENTS < length texts) excessive_code path
       (''the list must contain at most '' @ show_nat MAX_PROCESS_ELEMENTS @ '' elements'')
     @ check_list (\<lambda>index text.
         case as_literal text of
           None \<Rightarrow> []
         | Some v \<Rightarrow>
             push_when (nul \<in> set v) ''process_argument_invalid'' (indexed path index)
               ''container process arguments cannot contain NUL''
             @ push_when (MAX_PROCESS_ELEMENT_BYTES < length v) excessive_code (indexed path index)
               (''each element must be at most '' @ show_nat MAX_PROCESS_ELEMENT_BYTES @ '' bytes'')) 0 texts"

section \<open>Variable maps (mod.rs)\<close>

record variable_map =
  nm_noun :: string
  nm_field :: string
  nm_reserved :: "string option"
  nm_name_invalid :: string
  nm_value_invalid :: string
  nm_count_excessive :: string
  nm_value_excessive :: string

definition VARIABLE_MAP_ENVIRONMENT :: variable_map where
  "VARIABLE_MAP_ENVIRONMENT =
     \<lparr>nm_noun = ''environment'', nm_field = ''environment'', nm_reserved = Some ''PIQUELD_INGRESS_PROXIES'',
      nm_name_invalid = ''environment_name_invalid'', nm_value_invalid = ''environment_value_invalid'',
      nm_count_excessive = ''environment_count_excessive'', nm_value_excessive = ''environment_value_excessive''\<rparr>"

definition VARIABLE_MAP_BUILD_ARGS :: variable_map where
  "VARIABLE_MAP_BUILD_ARGS =
     \<lparr>nm_noun = ''build argument'', nm_field = ''args'', nm_reserved = None,
      nm_name_invalid = ''build_arg_name_invalid'', nm_value_invalid = ''build_arg_value_invalid'',
      nm_count_excessive = ''build_arg_count_excessive'', nm_value_excessive = ''build_arg_value_excessive''\<rparr>"

definition variable_map_entry ::
  "variable_map \<Rightarrow> string \<Rightarrow> string \<Rightarrow> template \<Rightarrow> validation_error list" where
  "variable_map_entry rules path key v =
     (let key_echo = safe_key_echo key; noun = nm_noun rules in
      (if mentions_reference key
       then [validation_error_new ''variable_not_allowed'' (path @ ''.name'')
               (noun @ '' key '' @ key_echo @ '' cannot reference variables'')]
       else push_when (\<not> valid_env_name key \<or> MAX_IDENTIFIER_BYTES < length key) (nm_name_invalid rules)
              (path @ ''.name'')
              (noun @ '' key '' @ key_echo @ '' is invalid: names must use letters, digits, and underscores, cannot start with a digit, and must be at most ''
               @ show_nat MAX_IDENTIFIER_BYTES @ '' bytes''))
      @ push_when (nm_reserved rules = Some key) (nm_name_invalid rules) (path @ ''.name'')
          (noun @ '' key '' @ key_echo @ '' is reserved for piqueld ingress'')
      @ (case as_literal v of
           None \<Rightarrow> []
         | Some text \<Rightarrow>
             push_when (nul \<in> set text) (nm_value_invalid rules) (path @ ''.value'')
               (noun @ '' value for key '' @ key_echo @ '' cannot contain NUL'')
             @ push_when (MAX_VARIABLE_VALUE_BYTES < length text) (nm_value_excessive rules) (path @ ''.value'')
               (noun @ '' value for key '' @ key_echo @ '' must be at most ''
                @ show_nat MAX_VARIABLE_VALUE_BYTES @ '' bytes'')))"

definition variable_map_validate ::
  "variable_map \<Rightarrow> (string, template) mapping \<Rightarrow> string \<Rightarrow> validation_error list" where
  "variable_map_validate rules m base =
     (let path = base @ ''.'' @ nm_field rules in
      push_when (MAX_VARIABLE_ENTRIES < length (sorted_keys m)) (nm_count_excessive rules) path
        (''at most '' @ show_nat MAX_VARIABLE_ENTRIES @ '' '' @ nm_noun rules @ '' entries are allowed'')
      @ check_map (variable_map_entry rules path) m)"

section \<open>Container paths, secrets, files and mounts (services.rs)\<close>

definition validate_absolute_path :: "string \<Rightarrow> string \<Rightarrow> validation_error list" where
  "validate_absolute_path s path =
     (if mentions_reference s
      then [validation_error_new ''variable_not_allowed'' path ''container paths cannot reference variables'']
      else push_when
        (\<not> prefix ''/'' s \<or> s = ''/'' \<or> suffix ''/'' s \<or> 4096 < length s \<or> BACKSLASH \<in> set s \<or> any_control s
         \<or> list_ex (\<lambda>part. part = [] \<or> 255 < length part \<or> part = ''..'' \<or> part = ''.'')
             (drop 1 (split_on (CHR ''/'') s)))
        ''mount_target_unsafe'' path
        ''mount target must be an absolute, normalized container path below root'')"

definition MAX_SECRET_MOUNTS :: nat where "MAX_SECRET_MOUNTS = 64"

definition SECRETS_DIRECTORY :: string where "SECRETS_DIRECTORY = ''/run/secrets/''"

fun validate_secret_list ::
  "string \<Rightarrow> nat \<Rightarrow> string set \<Rightarrow> secret_input list \<Rightarrow> validation_error list \<times> string set" where
  "validate_secret_list base index targets [] = ([], targets)"
| "validate_secret_list base index targets (secret # secrets) =
     (let path = indexed (base @ ''.secrets'') index;
          safe = prefix SECRETS_DIRECTORY (si_target secret);
          (errors, targets') = validate_secret_list base (Suc index)
             (if safe then insert (si_target secret) targets else targets) secrets
      in ((case as_literal (si_name secret) of
             None \<Rightarrow> [] | Some name \<Rightarrow> validate_name name (path @ ''.name''))
          @ validate_absolute_path (si_target secret) (path @ ''.target'')
          @ push_when (\<not> safe \<or> si_target secret \<in> targets) ''secret_target_invalid'' path
              ''secret targets must be unique file paths under /run/secrets''
          @ errors, targets'))"

definition validate_secrets ::
  "secret_input list \<Rightarrow> string \<Rightarrow> string set \<Rightarrow> validation_error list \<times> string set" where
  "validate_secrets secrets base targets =
     (let (errors, targets) = validate_secret_list base 0 targets secrets
      in (errors
          @ push_when (MAX_SECRET_MOUNTS < length secrets) ''secrets_excessive'' base
              (''at most '' @ show_nat MAX_SECRET_MOUNTS @ '' secret file mounts per service or job''), targets))"

definition MAX_FILES_PER_SERVICE :: nat where "MAX_FILES_PER_SERVICE = 32"
definition MAX_FILE_BYTES :: nat where "MAX_FILE_BYTES = 512000"
definition MAX_TOTAL_FILE_BYTES :: nat where "MAX_TOTAL_FILE_BYTES = 2097152"

fun validate_file_source :: "bool \<Rightarrow> string \<Rightarrow> file_source \<Rightarrow> validation_error list" where
  "validate_file_source manifest_backed path (File_Path relative) =
     (if \<not> manifest_backed
      then [validation_error_new ''file_requires_repository'' (path @ ''.path'')
              ''only applications whose manifest comes from a repository can mount repository files; set content instead'']
      else push_when (\<not> valid_repository_path relative) ''repository_path_invalid'' (path @ ''.path'')
              ''file path must remain within the repository root'')"
| "validate_file_source manifest_backed path (File_Content content) =
     (if content = []
      then [validation_error_new ''file_empty'' (path @ ''.content'') ''file content cannot be empty'']
      else push_when (MAX_FILE_BYTES < length content) ''file_too_large'' (path @ ''.content'')
              (''file content must be at most '' @ show_nat MAX_FILE_BYTES @ '' bytes''))"

fun validate_file_list ::
  "string \<Rightarrow> bool \<Rightarrow> string set \<Rightarrow> nat \<Rightarrow> string set \<Rightarrow> service_file list \<Rightarrow> validation_error list" where
  "validate_file_list base manifest_backed others index targets [] = []"
| "validate_file_list base manifest_backed others index targets (file # files) =
     (let path = indexed (base @ ''.files'') index;
          shadows = reserved_target file \<or> (\<exists>other \<in> others. file_contains file other)
      in validate_absolute_path (sf_target file) (path @ ''.target'')
         @ push_when (shadows \<or> sf_target file \<in> targets) ''file_target_invalid'' (path @ ''.target'')
             (''file targets must be unique among the service's mount, secret, and file targets, contain none of them, and stay clear of ''
              @ join '' and '' RESERVED_DIRECTORIES)
         @ validate_file_source manifest_backed path (sf_source file)
         @ validate_file_list base manifest_backed others (Suc index)
             (if shadows then targets else insert (sf_target file) targets) files)"

definition validate_files ::
  "service_file list \<Rightarrow> string \<Rightarrow> bool \<Rightarrow> string set \<Rightarrow> validation_error list" where
  "validate_files files base manifest_backed targets =
     push_when (MAX_FILES_PER_SERVICE < length files) ''file_count_excessive'' (base @ ''.files'')
       (''a service must mount at most '' @ show_nat MAX_FILES_PER_SERVICE @ '' files'')
     @ validate_file_list base manifest_backed (targets \<union> set (map sf_target files)) 0 targets files"

definition MAX_MOUNTS_PER_SERVICE :: nat where "MAX_MOUNTS_PER_SERVICE = 32"

definition TELEMETRY_DIRECTORY :: string where "TELEMETRY_DIRECTORY = ''/run/piqueld/telemetry''"

definition reserved_mounts :: "(string \<times> string) list" where
  "reserved_mounts = [(PROBE_CONTAINER_PATH, ''health probe''), (TELEMETRY_DIRECTORY, ''telemetry socket'')]"

fun validate_mount_list ::
  "string \<Rightarrow> string set \<Rightarrow> nat \<Rightarrow> string set \<Rightarrow> mount_input list \<Rightarrow> validation_error list" where
  "validate_mount_list base volume_names index targets [] = []"
| "validate_mount_list base volume_names index targets (mount # mounts) =
     (let path = indexed (base @ ''.mounts'') index
      in push_when (mi_volume mount \<notin> volume_names) ''mount_volume_missing'' (path @ ''.volume'')
           ''mount references an undeclared volume''
         @ validate_absolute_path (mi_target mount) (path @ ''.target'')
         @ concat (map (\<lambda>(reserved, purpose).
             push_when (mi_target mount = reserved \<or> prefix (reserved @ ''/'') (mi_target mount))
               ''mount_target_unsafe'' (path @ ''.target'')
               (''mount target '' @ reserved @ '' is reserved for piqueld's '' @ purpose)) reserved_mounts)
         @ push_when (mi_target mount \<in> targets) ''mount_target_duplicate'' (path @ ''.target'')
             ''mount target is duplicated in this service''
         @ validate_mount_list base volume_names (Suc index) (insert (mi_target mount) targets) mounts)"

definition validate_mounts :: "mount_input list \<Rightarrow> string \<Rightarrow> string set \<Rightarrow> validation_error list" where
  "validate_mounts mounts base volume_names =
     push_when (MAX_MOUNTS_PER_SERVICE < length mounts) ''mount_count_excessive'' (base @ ''.mounts'')
       (''a service must declare at most '' @ show_nat MAX_MOUNTS_PER_SERVICE @ '' mounts'')
     @ validate_mount_list base volume_names 0 {} mounts"

section \<open>Rollouts, limits and health checks (services.rs)\<close>

definition MAX_MONITOR_SECONDS :: u32 where "MAX_MONITOR_SECONDS = 3600"

definition rollout_validate :: "rollout_input \<Rightarrow> string \<Rightarrow> validation_error list" where
  "rollout_validate rollout base =
     push_when (is_some_and (\<lambda>seconds. \<not> (1 \<le> seconds \<and> seconds \<le> MAX_MONITOR_SECONDS))
         (Option.bind (ri_monitor_seconds rollout) typed_literal))
       ''rollout_monitor_invalid'' (base @ ''.rollout.monitor_seconds'')
       (''rollout monitor must be between 1 and '' @ show_nat (unat MAX_MONITOR_SECONDS) @ '' seconds'')"

definition limits_validate :: "limits_input \<Rightarrow> string \<Rightarrow> validation_error list" where
  "limits_validate limits base =
     (let cpu_millis = Option.bind (li_cpu_millis limits) typed_literal;
          memory_bytes = Option.bind (li_memory_bytes limits) typed_literal
      in push_when (li_cpu_millis limits = None \<and> li_memory_bytes limits = None) ''resource_limits_empty''
           (base @ ''.resources'') ''resource limits must configure CPU, memory, or both''
         @ push_when (cpu_millis = Some 0) ''cpu_limit_invalid'' (base @ ''.resources.cpu_millis'')
             ''CPU limit must be greater than zero''
         @ push_when (is_some_and (\<lambda>v. MAX_CPU_MILLIS < v) cpu_millis) ''cpu_limit_excessive''
             (base @ ''.resources.cpu_millis'')
             (''CPU limit must be at most '' @ show_nat (unat MAX_CPU_MILLIS) @ '' millicores'')
         @ push_when (memory_bytes = Some 0 \<or> is_some_and (\<lambda>v. 2 ^ 63 \<le> unat v) memory_bytes)
             ''memory_limit_invalid'' (base @ ''.resources.memory_bytes'')
             ''memory limit must be greater than zero and fit the runtime value'')"

definition MAX_HEALTHCHECK_INTERVAL_SECONDS :: u32 where "MAX_HEALTHCHECK_INTERVAL_SECONDS = 3600"
definition MAX_HEALTHCHECK_START_PERIOD_SECONDS :: u32 where "MAX_HEALTHCHECK_START_PERIOD_SECONDS = 3600"
definition MIN_HEALTHCHECK_RETRIES :: u32 where "MIN_HEALTHCHECK_RETRIES = 1"
definition MAX_HEALTHCHECK_RETRIES :: u32 where "MAX_HEALTHCHECK_RETRIES = 100"

definition validate_interval :: "u32 \<Rightarrow> u32 option \<Rightarrow> string \<Rightarrow> validation_error list" where
  "validate_interval interval timeout path =
     push_when (interval = 0) ''healthcheck_interval_invalid'' (path @ ''.interval_seconds'')
       ''health-check interval must be greater than zero''
     @ push_when (MAX_HEALTHCHECK_INTERVAL_SECONDS < interval) ''healthcheck_interval_excessive''
         (path @ ''.interval_seconds'')
         (''health-check interval must be at most '' @ show_nat (unat MAX_HEALTHCHECK_INTERVAL_SECONDS) @ '' seconds'')
     @ push_when (0 < interval \<and> is_some_and (\<lambda>t. t = 0 \<or> interval < t) timeout) ''healthcheck_timeout_invalid''
         (path @ ''.timeout_seconds'')
         ''health-check timeout must be greater than zero and no longer than its interval''"

definition validate_timing :: "health_input \<Rightarrow> string \<Rightarrow> validation_error list" where
  "validate_timing check path =
     push_when (is_some_and (\<lambda>s. MAX_HEALTHCHECK_START_PERIOD_SECONDS < s) (typed_literal (hi_start_period check)))
       ''healthcheck_start_period_excessive'' (path @ ''.start_period_seconds'')
       (''health-check start period must be at most ''
        @ show_nat (unat MAX_HEALTHCHECK_START_PERIOD_SECONDS) @ '' seconds'')
     @ push_when (is_some_and (\<lambda>r. \<not> (MIN_HEALTHCHECK_RETRIES \<le> r \<and> r \<le> MAX_HEALTHCHECK_RETRIES))
           (typed_literal (hi_retries check)))
         ''healthcheck_retries_invalid'' (path @ ''.retries'')
         (''health-check retries must be between '' @ show_nat (unat MIN_HEALTHCHECK_RETRIES) @ '' and ''
          @ show_nat (unat MAX_HEALTHCHECK_RETRIES))
     @ (case typed_literal (hi_interval check) of
          None \<Rightarrow> []
        | Some interval \<Rightarrow> validate_interval interval (typed_literal (hi_timeout check)) path)"

definition valid_request_path :: "string \<Rightarrow> bool" where
  "valid_request_path s \<longleftrightarrow>
     \<not> (2048 < length s
        \<or> \<not> (s = ''/''
              \<or> (prefix ''/'' s \<and> \<not> suffix ''/'' s
                  \<and> list_all (\<lambda>part. part \<noteq> [] \<and> part \<noteq> ''.'' \<and> part \<noteq> ''..'') (drop 1 (split_on (CHR ''/'') s))))
        \<or> contains_any (BACKSLASH # ''?#'') s \<or> any_whitespace s \<or> any_control s)"

definition blank_literal :: "template \<Rightarrow> bool" where
  "blank_literal t \<longleftrightarrow> is_some_and (\<lambda>s. trim_str s = []) (as_literal t)"

fun health_validate :: "health_input \<Rightarrow> string \<Rightarrow> validation_error list" where
  "health_validate (Input_Http port request_path i t s r) path =
     push_when (typed_literal port = Some 0) ''port_invalid'' (path @ ''.port'')
       ''health-check port must be between 1 and 65535''
     @ push_when (\<not> valid_request_path (case as_literal request_path of None \<Rightarrow> ''/'' | Some p \<Rightarrow> p))
         ''healthcheck_path_invalid'' (path @ ''.path'')
         ''HTTP health-check path must start with / and contain no whitespace''
     @ validate_timing (Input_Http port request_path i t s r) path"
| "health_validate (Input_Command command i t s r) path =
     push_when ((case command of [] \<Rightarrow> True | c # _ \<Rightarrow> blank_literal c)
           \<or> list_ex (\<lambda>c. is_some_and (\<lambda>v. nul \<in> set v) (as_literal c)) command)
       ''healthcheck_command_invalid'' (path @ ''.command'')
       ''health-check command must contain at least one NUL-free argument''
     @ validate_process_arguments command (path @ ''.command'') ''process_command_excessive''
     @ validate_timing (Input_Command command i t s r) path"

section \<open>Sources (sources.rs)\<close>

definition MAX_BUILD_ARG_TOTAL_BYTES :: nat where "MAX_BUILD_ARG_TOTAL_BYTES = 262144"

definition build_arg_total :: "(string, template) mapping \<Rightarrow> nat" where
  "build_arg_total args =
     sum_list (map (\<lambda>key. case Option.bind (Mapping.lookup args key) as_literal of
         None \<Rightarrow> 0 | Some v \<Rightarrow> length key + length v + 1) (sorted_keys args))"

fun build_validate :: "build_input \<Rightarrow> string \<Rightarrow> validation_error list" where
  "build_validate (Input_Docker dockerfile context args target) path =
     concat (map (\<lambda>(field, v).
         push_when (is_some_and (\<lambda>s. \<not> valid_repository_path s) (as_literal v)) ''repository_path_invalid''
           (path @ ''.'' @ field) ''path must be relative to the repository root and remain within it'')
       [(''dockerfile'', dockerfile), (''context'', context)])
     @ variable_map_validate VARIABLE_MAP_BUILD_ARGS args path
     @ push_when (MAX_BUILD_ARG_TOTAL_BYTES < build_arg_total args) ''build_arg_total_excessive'' (path @ ''.args'')
         (''build arguments must total at most '' @ show_nat MAX_BUILD_ARG_TOTAL_BYTES @ '' bytes'')
     @ push_when (is_some_and (\<lambda>s. \<not> valid_build_target s) (Option.bind target as_literal))
         ''build_target_invalid'' (path @ ''.target'')
         (''build target must start with a letter, use letters, digits, '-', '_', or '.', and be at most ''
          @ show_nat MAX_IDENTIFIER_BYTES @ '' bytes'')"

definition inline_credentials :: "string \<Rightarrow> bool" where
  "inline_credentials url \<longleftrightarrow>
     is_some_and (\<lambda>i.
       (let scheme = map to_ascii_lowercase (take i url);
            authority = takeWhile (\<lambda>c. c \<notin> set (BACKSLASH # ''/?#'')) (drop (i + 3) url)
        in is_some_and (\<lambda>(userinfo, _). scheme = ''http'' \<or> scheme = ''https'' \<or> CHR '':'' \<in> set userinfo)
             (rsplit_once (CHR ''@'') authority)))
       (find_str ''://'' url)"

definition git_repository_validate :: "git_repository \<Rightarrow> string \<Rightarrow> validation_error list" where
  "git_repository_validate repository path =
     push_when (mentions_reference (gr_url repository) \<or> mentions_reference (gr_branch repository)
         \<or> is_some_and mentions_reference (gr_commit repository))
       ''variable_not_allowed'' path ''repository URLs, branches, and commits cannot reference variables''
     @ push_when (inline_credentials (gr_url repository)) ''git_credentials_inline'' path
         ''configure Git credentials on the host, not in repository URLs''
     @ push_when (gr_url repository = [] \<or> 4096 < length (gr_url repository) \<or> prefix ''-'' (gr_url repository)
           \<or> any_control (gr_url repository))
         ''git_repository_invalid'' path ''repository URL must be a nonempty Git location''
     @ (case tracked_branch_new (gr_branch repository) (gr_commit repository) of
          Inl invalid \<Rightarrow> map (\<lambda>e. e\<lparr>ve_path := path\<rparr>) invalid
        | Inr _ \<Rightarrow> [])"

definition unbacked :: "string \<Rightarrow> validation_error list" where
  "unbacked path =
     [validation_error_new ''manifest_repository_required'' path
        ''the manifest repository applies only when spec.manifest is configured'']"

text \<open>\<open>ManifestRevision::apply\<close>\<close>

definition revision_apply ::
  "manifest_revision \<Rightarrow> repository_manifest option \<Rightarrow> validation_errors + repository_manifest option" where
  "revision_apply revision manifest =
     (let path = ''spec.manifest.repository'' in
      case manifest of
        None \<Rightarrow> Inl (unbacked path)
      | Some m \<Rightarrow>
          (let repository = repository_at (rm_repository m) revision;
               errors = git_repository_validate repository path
           in if errors = [] then Inr (Some (m\<lparr>rm_repository := repository\<rparr>)) else Inl errors))"

fun validate_git :: "source_input \<Rightarrow> string \<Rightarrow> bool \<Rightarrow> validation_error list" where
  "validate_git (Input_Image _) base manifest_backed = []"
| "validate_git (Input_Git repository build) base manifest_backed =
     (case repository of
        Source_Git r \<Rightarrow> git_repository_validate r (base @ ''.source.repository'')
      | Source_Manifest \<Rightarrow> if manifest_backed then [] else unbacked (base @ ''.source.repository''))
     @ build_validate build (base @ ''.source.build'')"

section \<open>Services (services.rs)\<close>

fun validate_image :: "source_input \<Rightarrow> string \<Rightarrow> validation_error list" where
  "validate_image (Input_Image img) base =
     push_when (is_some_and (\<lambda>s. \<not> valid_image_reference s) (as_literal img)) ''image_invalid''
       (base @ ''.source.image'')
       ''image must be a valid registry reference without credentials or a URL scheme''"
| "validate_image (Input_Git _ _) base = []"

definition service_validate ::
  "service_input \<Rightarrow> string \<Rightarrow> string set \<Rightarrow> bool \<Rightarrow> validation_error list" where
  "service_validate service base volume_names manifest_backed =
     (let (secret_errors, targets) =
            validate_secrets (svi_secrets service) base (set (map mi_target (svi_mounts service)))
      in validate_name (svi_name service) (base @ ''.name'')
         @ push_when (is_some_and (\<lambda>r. \<not> (MIN_REPLICAS \<le> r \<and> r \<le> MAX_REPLICAS)) (typed_literal (svi_replicas service)))
             ''replicas_out_of_range'' (base @ ''.replicas'')
             (''replicas must be between '' @ show_nat (unat MIN_REPLICAS) @ '' and '' @ show_nat (unat MAX_REPLICAS))
         @ validate_image (svi_source service) base
         @ validate_git (svi_source service) base manifest_backed
         @ secret_errors
         @ validate_files (svi_files service) base manifest_backed targets
         @ variable_map_validate VARIABLE_MAP_ENVIRONMENT (svi_environment service) base
         @ validate_mounts (svi_mounts service) base volume_names
         @ validate_process_arguments (svi_command service) (base @ ''.command'') ''process_command_excessive''
         @ validate_process_arguments (svi_arguments service) (base @ ''.arguments'') ''process_arguments_excessive''
         @ push_when (case svi_command service of [] \<Rightarrow> False | c # _ \<Rightarrow> blank_literal c)
             ''process_command_invalid'' (base @ ''.command[0]'')
             ''an explicit container command must start with a non-empty executable''
         @ (case svi_healthcheck service of None \<Rightarrow> [] | Some check \<Rightarrow> health_validate check (base @ ''.healthcheck''))
         @ (case svi_resources service of None \<Rightarrow> [] | Some limits \<Rightarrow> limits_validate limits base)
         @ rollout_validate (svi_rollout service) base)"

section \<open>Jobs (services.rs)\<close>

definition validate_additions :: "job_input \<Rightarrow> service_input \<Rightarrow> string \<Rightarrow> validation_error list" where
  "validate_additions job service base =
     variable_map_validate VARIABLE_MAP_ENVIRONMENT (ji_environment job) base
     @ concat (map (\<lambda>key.
         push_when (Mapping.lookup (svi_environment service) key \<noteq> None) ''job_setting_conflict''
           (base @ ''.environment.name'')
           (''environment key '' @ safe_key_echo key @ '' is already set by service '' @ svi_name service))
         (sorted_keys (ji_environment job)))
     @ fst (validate_secrets (ji_secrets job) base {})
     @ (let service_targets = set (map mi_target (svi_mounts service) @ map si_target (svi_secrets service)
                                   @ map sf_target (svi_files service))
        in check_list (\<lambda>index secret.
             push_when (si_target secret \<in> service_targets) ''job_setting_conflict''
               (indexed (base @ ''.secrets'') index @ ''.target'')
               (si_target secret @ '' is already mounted by service '' @ svi_name service)) 0 (ji_secrets job))"

definition validate_exclusive_access ::
  "job_input \<Rightarrow> service_input list \<Rightarrow> string set \<Rightarrow> string \<Rightarrow> validation_error list" where
  "validate_exclusive_access job services dependencies base =
     (case find_service svi_name services (ji_service job) of
        None \<Rightarrow> []
      | Some service \<Rightarrow>
          (let volumes = set (map mi_volume (filter (\<lambda>m. \<not> mi_read_only m) (svi_mounts service)))
           in push_when (volumes = {}) ''job_volume_access_invalid'' (base @ ''.volume_access'')
                (''exclusive volume access requires service '' @ ji_service job @ '' to mount a writable volume'')
              @ concat (map (\<lambda>dependency. concat (map (\<lambda>mount.
                    push_when (mi_volume mount \<in> volumes) ''job_volume_access_invalid'' (base @ ''.volume_access'')
                      (''startup dependency '' @ svi_name dependency @ '' mounts volume '' @ mi_volume mount
                       @ '', which job '' @ ji_name job @ '' needs exclusively'')) (svi_mounts dependency)))
                  (filter (\<lambda>s. svi_name s \<in> dependencies) services))))"

end
