(* ===== verification/Environments.thy ===== *)
theory Environments
  imports Manifest_Checks
begin

text \<open>
  Environments and previews as the API shows them: \<open>EnvironmentKind\<close>, \<open>Preview\<close> and
  \<open>EnvironmentSource\<close> of \<open>crates/piqueld-core/src/environment.rs\<close>, \<open>EnvironmentView\<close> of \<open>api.rs\<close>, and
  whether pushes deploy them (\<open>sync.rs\<close>).
\<close>

section \<open>Kinds and sources (environment.rs)\<close>

record preview_identity =
  pi_branch :: string
  pi_slot :: "string option"
  pi_slug :: string

datatype view_kind = Kind_Environment | Kind_Preview preview_identity

fun records_releases :: "view_kind \<Rightarrow> bool" where
  "records_releases Kind_Environment = True"
| "records_releases (Kind_Preview _) = False"

datatype environment_source =
    From_Saved
  | From_Branch tracked_branch
  | From_Promoted environment_id

definition source_select ::
  "repository_manifest option \<Rightarrow> tracked_branch option \<Rightarrow> validation_errors + environment_source" where
  "source_select connection branch =
     (case (connection, branch) of
        (Some _, Some branch) \<Rightarrow> Inr (From_Branch branch)
      | (Some connection, None) \<Rightarrow>
          (case tracked_branch_of (rm_repository connection) of
             Inl e \<Rightarrow> Inl e | Inr branch \<Rightarrow> Inr (From_Branch branch))
      | (None, None) \<Rightarrow> Inr From_Saved
      | (None, Some _) \<Rightarrow>
          Inl [validation_error_new ''manifest_repository_required'' ''branch''
                 ''only environments of a repository-backed application follow a branch; connect a manifest repository first''])"

fun source_branch :: "environment_source \<Rightarrow> tracked_branch option" where
  "source_branch (From_Branch branch) = Some branch"
| "source_branch _ = None"

fun source_promoted_from :: "environment_source \<Rightarrow> environment_id option" where
  "source_promoted_from (From_Promoted e) = Some e"
| "source_promoted_from _ = None"

text \<open>\<open>Display\<close> of a tracked branch and of a source.\<close>

definition show_tracked_branch :: "tracked_branch \<Rightarrow> string" where
  "show_tracked_branch b =
     (case tb_commit b of Some commit \<Rightarrow> tb_branch b @ ''@'' @ commit | None \<Rightarrow> tb_branch b)"

fun show_environment_source :: "environment_source \<Rightarrow> string" where
  "show_environment_source From_Saved = ''the saved manifest''"
| "show_environment_source (From_Branch branch) = ''branch '' @ show_tracked_branch branch"
| "show_environment_source (From_Promoted e) = ''releases promoted from '' @ e"

section \<open>Views (api.rs)\<close>

record synced_head =
  sh_commit :: "string option"
  sh_at_ms :: int

datatype run_state = Run_Running | Run_Stopped

definition run_state_new :: "bool \<Rightarrow> run_state" where
  "run_state_new stopped = (if stopped then Run_Stopped else Run_Running)"

record environment_view =
  ev_id :: environment_id
  ev_application_id :: application_id
  ev_name :: logical_name
  ev_source :: environment_source
  ev_kind :: view_kind
  ev_sync :: bool
  ev_synced :: "synced_head option"
  ev_telemetry :: bool
  ev_run_state :: run_state
  ev_resolved_generation :: "u64 option"
  ev_delete_intent :: bool
  ev_created_at_ms :: int
  ev_updated_at_ms :: int

definition view_stopped :: "environment_view \<Rightarrow> bool" where
  "view_stopped view \<longleftrightarrow> ev_run_state view = Run_Stopped"

definition view_target :: "environment_view \<Rightarrow> render_target" where
  "view_target view =
     (case ev_kind view of
        Kind_Environment \<Rightarrow> Target_Environment (ev_name view)
      | Kind_Preview identity \<Rightarrow> Target_Preview_Slug (pi_slug identity))"

definition view_preview :: "environment_view \<Rightarrow> preview_identity option" where
  "view_preview view =
     (case ev_kind view of Kind_Environment \<Rightarrow> None | Kind_Preview identity \<Rightarrow> Some identity)"

section \<open>Following pushes (sync.rs)\<close>

datatype sync_state =
  Sync_Following | Sync_Is_Off | Sync_Pinned | Sync_Not_Opted_In | Sync_Stopped | Sync_Awaiting_Deployment

fun sync_listed :: "sync_state \<Rightarrow> bool" where
  "sync_listed Sync_Following = True"
| "sync_listed Sync_Awaiting_Deployment = True"
| "sync_listed _ = False"

fun show_sync_state :: "sync_state \<Rightarrow> string" where
  "show_sync_state Sync_Following = ''following''"
| "show_sync_state Sync_Is_Off = ''off''"
| "show_sync_state Sync_Pinned = ''pinned''"
| "show_sync_state Sync_Not_Opted_In = ''not opted in''"
| "show_sync_state Sync_Stopped = ''stopped''"
| "show_sync_state Sync_Awaiting_Deployment = ''waiting for a deployment''"

definition view_sync_state :: "environment_view \<Rightarrow> repository_manifest option \<Rightarrow> sync_state" where
  "view_sync_state view connection =
     (case (connection, source_branch (ev_source view)) of
        (None, _) \<Rightarrow> Sync_Is_Off
      | (_, None) \<Rightarrow> Sync_Is_Off
      | (Some connection, Some branch) \<Rightarrow>
          if sync_is_off (rm_sync connection) then Sync_Is_Off
          else if tb_commit branch \<noteq> None then Sync_Pinned
          else if view_preview view = None \<and> \<not> ev_sync view then Sync_Not_Opted_In
          else if view_stopped view then Sync_Stopped
          else if ev_synced view = None then Sync_Awaiting_Deployment
          else Sync_Following)"

text \<open>\<open>RepositorySync::validate\<close> and its constants.\<close>

definition SYNC_DEFAULT_INTERVAL :: u32 where "SYNC_DEFAULT_INTERVAL = 300"
definition SYNC_MIN_INTERVAL :: u32 where "SYNC_MIN_INTERVAL = 60"
definition SYNC_MAX_INTERVAL :: u32 where "SYNC_MAX_INTERVAL = 86400"

fun sync_validate :: "string \<Rightarrow> repository_sync \<Rightarrow> validation_error list" where
  "sync_validate path (Sync_Poll interval_seconds) =
     push_when (\<not> (SYNC_MIN_INTERVAL \<le> interval_seconds \<and> interval_seconds \<le> SYNC_MAX_INTERVAL))
       ''sync_interval_invalid'' (path @ ''.interval_seconds'')
       (''the poll interval must be between '' @ show_nat (unat SYNC_MIN_INTERVAL) @ '' and ''
        @ show_nat (unat SYNC_MAX_INTERVAL) @ '' seconds'')"
| "sync_validate path _ = []"

fun show_repository_sync :: "repository_sync \<Rightarrow> string" where
  "show_repository_sync Sync_Off = ''off''"
| "show_repository_sync (Sync_Poll interval_seconds) = ''poll every '' @ show_nat (unat interval_seconds) @ ''s''"
| "show_repository_sync Sync_Webhook = ''webhook''"

definition short_commit :: "string \<Rightarrow> string" where
  "short_commit commit = take_chars 12 commit"

text \<open>Sync lists a branch only for what pushes can deploy: an application that syncs, a branch that is
  not pinned, and an environment that opted in, or a preview; never while it is stopped.\<close>

lemma sync_listed_iff:
  "sync_listed (view_sync_state view connection) \<longleftrightarrow>
   (\<exists>c b. connection = Some c \<and> source_branch (ev_source view) = Some b \<and> \<not> sync_is_off (rm_sync c)
      \<and> tb_commit b = None \<and> (view_preview view = None \<longrightarrow> ev_sync view) \<and> \<not> view_stopped view)"
  by (cases connection; cases "source_branch (ev_source view)") (auto simp: view_sync_state_def)

end
