(* ===== verification/Declarations.thy ===== *)
theory Declarations
  imports Environments Rendering
begin

text \<open>
  The environments a manifest declares and how an application's environments differ from them:
  \<open>crates/piqueld-core/src/manifest/declaration.rs\<close>. The map \<open>declared\<close> of the code, filled in the
  order of the manifest's keys, is an association list in that order. The walk up a chain of promotion
  sources is a function on the chain walked so far; it ends because the chain never repeats a name.
\<close>

section \<open>Declarations\<close>

datatype declared_source = Declared_Saved | Declared_Branch tracked_branch | Declared_Promoted logical_name

fun show_declared_source :: "declared_source \<Rightarrow> string" where
  "show_declared_source Declared_Saved = ''the saved manifest''"
| "show_declared_source (Declared_Branch branch) = ''branch '' @ show_tracked_branch branch"
| "show_declared_source (Declared_Promoted e) = ''releases promoted from '' @ e"

record env_declaration =
  dn_name :: logical_name
  dn_source :: declared_source
  dn_sync :: bool
  dn_manages_source :: bool

definition is_promoted :: "declared_source \<Rightarrow> bool" where
  "is_promoted source \<longleftrightarrow> (case source of Declared_Promoted _ \<Rightarrow> True | _ \<Rightarrow> False)"

definition DEFAULT_ENVIRONMENT :: logical_name where "DEFAULT_ENVIRONMENT = ''production''"

definition first_building :: "env_declaration list \<Rightarrow> logical_name" where
  "first_building ds =
     (case List.find (\<lambda>d. \<not> is_promoted (dn_source d)) ds of
        None \<Rightarrow> DEFAULT_ENVIRONMENT | Some d \<Rightarrow> dn_name d)"

text \<open>\<open>ApplicationSpec::declare\<close>: a promoted environment, one of an application without a repository, or
  one following a branch.\<close>

definition declare_promoted ::
  "string \<Rightarrow> logical_name \<Rightarrow> environment_config \<Rightarrow> string \<Rightarrow> validation_error list + env_declaration" where
  "declare_promoted path name config origin =
     (if ec_branch config \<noteq> None \<or> ec_commit config \<noteq> None \<or> ec_sync config \<noteq> None
      then Inl [validation_error_new ''environment_source_conflict'' (path @ ''.promote_from'')
                  ''a promoted environment never builds: remove branch, commit and sync'']
      else
        (case parse_logical_name origin of
           None \<Rightarrow> Inl [validation_error_new ''promotion_source_invalid'' (path @ ''.promote_from'')
                         (echo origin @ '' is not an environment name'')]
         | Some origin \<Rightarrow>
             Inr \<lparr>dn_name = name, dn_source = Declared_Promoted origin, dn_sync = False,
                  dn_manages_source = True\<rparr>))"

definition declare_saved ::
  "string \<Rightarrow> logical_name \<Rightarrow> environment_config \<Rightarrow> validation_error list + env_declaration" where
  "declare_saved path name config =
     (let errors = map (\<lambda>(field, _). validation_error_new ''manifest_repository_required'' (path @ ''.'' @ field)
             ''only environments of a repository-backed application follow a branch; add spec.manifest first'')
           (filter snd [(''branch'', ec_branch config \<noteq> None), (''commit'', ec_commit config \<noteq> None),
                        (''sync'', ec_sync config = Some True)])
      in if errors = []
         then Inr \<lparr>dn_name = name, dn_source = Declared_Saved, dn_sync = False,
                   dn_manages_source = sets_source config\<rparr>
         else Inl errors)"

definition declare_branch ::
  "string \<Rightarrow> logical_name \<Rightarrow> environment_config \<Rightarrow> git_repository \<Rightarrow> validation_error list + env_declaration" where
  "declare_branch path name config repository =
     (let (branch, commit) =
        (case ec_branch config of
           Some branch \<Rightarrow> (branch, ec_commit config)
         | None \<Rightarrow> (gr_branch repository,
                    case ec_commit config of Some c \<Rightarrow> Some c | None \<Rightarrow> gr_commit repository))
      in case tracked_branch_new branch commit of
           Inl invalid \<Rightarrow>
             Inl (map (\<lambda>e. validation_error_new (ve_code e) (path @ ''.'' @ ve_path e) (ve_message e))
               (filter (\<lambda>e. if ve_path e = ''branch'' then ec_branch config \<noteq> None
                            else ec_commit config \<noteq> None) invalid))
         | Inr branch \<Rightarrow>
             (let sync = (case ec_sync config of None \<Rightarrow> False | Some b \<Rightarrow> b)
              in if sync \<and> ec_commit config \<noteq> None
                 then Inl [validation_error_new ''environment_sync_pinned'' (path @ ''.sync'')
                             ''pinned environments never sync: remove commit, or sync'']
                 else Inr \<lparr>dn_name = name, dn_source = Declared_Branch branch, dn_sync = sync,
                           dn_manages_source = sets_source config\<rparr>))"

definition declare_environment ::
  "application_spec \<Rightarrow> logical_name \<Rightarrow> environment_config \<Rightarrow> string \<Rightarrow> validation_error list + env_declaration" where
  "declare_environment spec name config path =
     (case ec_promote_from config of
        Some origin \<Rightarrow> declare_promoted path name config origin
      | None \<Rightarrow>
          (case as_manifest spec of
             None \<Rightarrow> declare_saved path name config
           | Some connection \<Rightarrow> declare_branch path name config (rm_repository connection)))"

text \<open>The first pass of \<open>declared_environments_since\<close>: one declaration or errors per block.\<close>

definition declare_block ::
  "application_spec \<Rightarrow> application_spec option \<Rightarrow> string \<Rightarrow> environment_config \<Rightarrow> validation_error list + env_declaration" where
  "declare_block spec previous name config =
     (case parse_logical_name name of
        None \<Rightarrow>
          Inl [validation_error_new ''name_invalid'' ''spec.environments''
                 (''[spec.environments.'' @ echo name @ '']: environment names must be 1-63 lowercase letters, digits, or hyphens, start with a letter, and end with a letter or digit'')]
      | Some parsed \<Rightarrow>
          map_sum id
            (\<lambda>d. d\<lparr>dn_manages_source := dn_manages_source d
                     \<or> (case Option.bind previous (\<lambda>p. Mapping.lookup (as_environments p) name) of
                          None \<Rightarrow> False | Some config \<Rightarrow> sets_source config)\<rparr>)
            (declare_environment spec parsed config (''spec.environments.'' @ name)))"

fun declare_all ::
  "(string \<Rightarrow> validation_error list + env_declaration) \<Rightarrow> string list
   \<Rightarrow> validation_error list \<times> (string \<times> env_declaration) list" where
  "declare_all f [] = ([], [])"
| "declare_all f (name # names) =
     (let (errors, declared) = declare_all f names
      in case f name of
           Inl invalid \<Rightarrow> (invalid @ errors, declared)
         | Inr d \<Rightarrow> (errors, (name, d) # declared))"

section \<open>Ordering the declarations\<close>

text \<open>Walking up the chain of promotion sources: the chain, and what it reports.\<close>

definition promote_from_path :: "string \<Rightarrow> string" where
  "promote_from_path name = ''spec.environments.'' @ name @ ''.promote_from''"

definition LEFT_ARROW :: string where "LEFT_ARROW = utf8 [32, 226, 134, 144, 32]"

function walk_chain ::
  "(string \<times> env_declaration) list \<Rightarrow> (string \<Rightarrow> bool) \<Rightarrow> string set \<Rightarrow> string list
   \<Rightarrow> string list \<times> validation_error list" where
  "walk_chain declared known placed chain =
     (case map_option dn_source (map_of declared (last chain)) of
        Some (Declared_Promoted origin) \<Rightarrow>
          if origin \<in> placed then (chain, [])
          else if map_of declared origin = None then
            (chain,
             push_when (\<not> known origin) ''promotion_source_invalid'' (promote_from_path (last chain))
               (origin @ '' is not declared: promotion sources are environments of spec.environments''))
          else
            (case position (\<lambda>name. name = origin) chain of
               Some start \<Rightarrow>
                 (chain, [validation_error_new ''promotion_cycle'' (promote_from_path (last chain))
                    (''an environment cannot promote from itself: ''
                     @ join LEFT_ARROW (drop start chain @ [origin]))])
             | None \<Rightarrow> walk_chain declared known placed (chain @ [origin]))
      | _ \<Rightarrow> (chain, []))"
  by pat_completeness auto
termination
proof (relation "measure (\<lambda>(declared, known, placed, chain). card (fst ` set declared - set chain))", goal_cases)
  case (2 declared known placed chain source origin)
  then have "origin \<in> fst ` set declared" by (auto simp: map_of_eq_None_iff)
  moreover have "origin \<notin> set chain"
    using 2(5) by (auto simp: position_none list_all_iff)
  ultimately have "fst ` set declared - set (chain @ [origin]) \<subset> fst ` set declared - set chain" by auto
  then show ?case by (auto intro: psubset_card_mono)
qed simp

declare walk_chain.simps [simp del]

text \<open>Placing a chain from the top down.\<close>

definition place ::
  "(string \<times> env_declaration) list \<Rightarrow> string \<Rightarrow> string set \<times> env_declaration list \<Rightarrow> string set \<times> env_declaration list" where
  "place declared name st =
     (if name \<in> fst st then st
      else (insert name (fst st), snd st @ [the (map_of declared name)]))"

fun order_declared ::
  "(string \<times> env_declaration) list \<Rightarrow> (string \<Rightarrow> bool) \<Rightarrow> string list \<Rightarrow> string set \<times> env_declaration list
   \<Rightarrow> validation_error list \<times> env_declaration list" where
  "order_declared declared known [] st = ([], snd st)"
| "order_declared declared known (name # names) st =
     (if name \<in> fst st then order_declared declared known names st
      else
        (let (chain, found) = walk_chain declared known (fst st) [name];
             (errors, ordered) =
               order_declared declared known names (fold (place declared) (rev chain) st)
         in (found @ errors, ordered)))"

definition declared_block ::
  "application_spec \<Rightarrow> application_spec option \<Rightarrow> string \<Rightarrow> validation_error list + env_declaration" where
  "declared_block spec previous name =
     declare_block spec previous name (the (Mapping.lookup (as_environments spec) name))"

definition declared_environments_since ::
  "application_spec \<Rightarrow> application_spec option \<Rightarrow> validation_errors + env_declaration list" where
  "declared_environments_since spec previous =
     (let environments = as_environments spec;
          (errors, declared) = declare_all (declared_block spec previous) (sorted_keys environments);
          (found, ordered) =
            order_declared declared (\<lambda>name. Mapping.lookup environments name \<noteq> None) (map fst declared) ({}, [])
      in if errors @ found = [] then Inr ordered else Inl (sorted_errors (errors @ found)))"

definition declared_environments :: "application_spec \<Rightarrow> validation_errors + env_declaration list" where
  "declared_environments spec = declared_environments_since spec None"

section \<open>Chains of promotion sources\<close>

text \<open>The environments an environment promotes from: none or one.\<close>

definition origins :: "(string \<times> env_declaration) list \<Rightarrow> string \<Rightarrow> string set" where
  "origins declared name =
     (case map_option dn_source (map_of declared name) of
        Some (Declared_Promoted origin) \<Rightarrow> {origin} | _ \<Rightarrow> {})"

definition promotes :: "(string \<times> env_declaration) list \<Rightarrow> (string \<times> string) set" where
  "promotes declared = {(a, b). b \<in> origins declared a}"

text \<open>Names in an order in which every promotion source is placed before what promotes from it.\<close>

fun placeable :: "(string \<times> env_declaration) list \<Rightarrow> string set \<Rightarrow> string list \<Rightarrow> bool" where
  "placeable declared placed [] \<longleftrightarrow> True"
| "placeable declared placed (x # xs) \<longleftrightarrow>
     origins declared x \<subseteq> placed \<and> placeable declared (insert x placed) xs"

lemma placeable_append:
  "placeable declared placed (xs @ ys) \<longleftrightarrow>
   placeable declared placed xs \<and> placeable declared (placed \<union> set xs) ys"
  by (induction xs arbitrary: placed) auto

lemma placeable_nth:
  "placeable declared placed xs \<Longrightarrow> i < length xs \<Longrightarrow> origins declared (xs ! i) \<subseteq> placed \<union> set (take i xs)"
proof (induction xs arbitrary: placed i)
  case (Cons x xs)
  then show ?case by (cases i) fastforce+
qed simp

lemma placeable_chain:
  "successively (\<lambda>a b. origins declared a = {b}) chain \<Longrightarrow> chain \<noteq> [] \<Longrightarrow>
   origins declared (last chain) \<subseteq> placed \<Longrightarrow> placeable declared placed (rev chain)"
proof (induction chain)
  case (Cons x xs)
  show ?case
  proof (cases xs)
    case (Cons y ys)
    with Cons.prems Cons.IH have "placeable declared placed (rev xs)" "origins declared x = {y}" by auto
    with Cons show ?thesis by (auto simp: placeable_append)
  qed (use Cons.prems in simp)
qed simp

text \<open>A walk that reports nothing extends the chain up to an environment whose source is placed.\<close>

definition chain_ok :: "(string \<times> env_declaration) list \<Rightarrow> string set \<Rightarrow> string list \<Rightarrow> bool" where
  "chain_ok declared placed chain \<longleftrightarrow>
     chain \<noteq> [] \<and> distinct chain \<and> set chain \<subseteq> fst ` set declared \<and> set chain \<inter> placed = {}
     \<and> successively (\<lambda>a b. origins declared a = {b}) chain"

lemma chain_ok_snoc:
  "chain_ok declared placed chain \<Longrightarrow> origins declared (last chain) = {x} \<Longrightarrow> x \<notin> set chain \<Longrightarrow>
   x \<notin> placed \<Longrightarrow> x \<in> fst ` set declared \<Longrightarrow> chain_ok declared placed (chain @ [x])"
  by (auto simp: chain_ok_def successively_append_iff)

lemma chain_path: "chain_ok declared placed chain \<Longrightarrow> i < length chain \<Longrightarrow>
    (chain ! i, last chain) \<in> (promotes declared)\<^sup>*"
proof (induction "length chain - i" arbitrary: i)
  case (Suc n)
  show ?case
  proof (cases "Suc i < length chain")
    case True
    then have "(chain ! Suc i, last chain) \<in> (promotes declared)\<^sup>*" using Suc by simp
    moreover have "(chain ! i, chain ! Suc i) \<in> promotes declared"
      using Suc.prems(1) True by (auto simp: chain_ok_def successively_conv_nth promotes_def)
    ultimately show ?thesis by (rule converse_rtrancl_into_rtrancl [rotated])
  next
    case False
    then have "i = length chain - 1" using Suc.prems by simp
    then show ?thesis using Suc.prems by (simp add: chain_ok_def last_conv_nth)
  qed
qed simp

lemma declared_iff: "map_of declared x = None \<longleftrightarrow> x \<notin> fst ` set declared"
  by (simp add: map_of_eq_None_iff)

lemma walk_chain_spec:
  assumes "chain_ok declared placed chain" "\<And>name. known name \<Longrightarrow> name \<in> fst ` set declared"
  shows "walk_chain declared known placed chain = (result, found) \<Longrightarrow>
      chain_ok declared placed result \<and> prefix chain result
      \<and> (if found = [] then origins declared (last result) \<subseteq> placed
         else \<not> acyclic (promotes declared) \<or> \<not> Range (promotes declared) \<subseteq> fst ` set declared)"
  using assms
proof (induction declared known placed chain rule: walk_chain.induct)
  case (1 declared known placed chain)
  note walk = 1(2) and ok = 1(3) and known = 1(4)
  show ?case
  proof (cases "\<exists>origin. map_option dn_source (map_of declared (last chain)) = Some (Declared_Promoted origin)")
    case False
    then have "origins declared (last chain) = {}"
      by (auto simp: origins_def split: option.splits declared_source.splits)
    moreover have "walk_chain declared known placed chain = (chain, [])"
      using False by (subst walk_chain.simps) (auto split: option.splits declared_source.splits)
    ultimately show ?thesis using walk ok by auto
  next
    case True
    then obtain origin where source: "map_option dn_source (map_of declared (last chain)) = Some (Declared_Promoted origin)"
      by blast
    have origins: "origins declared (last chain) = {origin}" unfolding origins_def source by simp
    consider (placed) "origin \<in> placed" | (missing) "origin \<notin> placed" "origin \<notin> fst ` set declared"
      | (cycle) start where "origin \<notin> placed" "origin \<in> fst ` set declared" "position (\<lambda>name. name = origin) chain = Some start"
      | (longer) "origin \<notin> placed" "origin \<in> fst ` set declared" "position (\<lambda>name. name = origin) chain = None"
      by (cases "position (\<lambda>name. name = origin) chain") auto
    then show ?thesis
    proof cases
      case placed
      then have "walk_chain declared known placed chain = (chain, [])"
        by (subst walk_chain.simps) (simp add: source)
      with walk ok origins placed show ?thesis by auto
    next
      case missing
      then have "\<not> known origin" using known by blast
      with missing have "result = chain" "found \<noteq> []"
        using walk by (subst (asm) walk_chain.simps, auto simp: source declared_iff push_when_def)+
      moreover have "origin \<in> Range (promotes declared)" using origins by (auto simp: promotes_def)
      ultimately show ?thesis using ok missing by auto
    next
      case cycle
      then have "result = chain" "found \<noteq> []"
        using walk by (subst (asm) walk_chain.simps, auto simp: source declared_iff map_of_eq_None_iff)+
      moreover have "start < length chain" "chain ! start = origin" using cycle(3) by (auto dest: position_some)
      then have "(origin, last chain) \<in> (promotes declared)\<^sup>*" using chain_path [OF ok] by blast
      then have "(origin, origin) \<in> (promotes declared)\<^sup>+"
        using origins by (auto simp: promotes_def intro: rtrancl_into_trancl1)
      then have "\<not> acyclic (promotes declared)" by (auto simp: acyclic_def)
      ultimately show ?thesis using ok by auto
    next
      case longer
      then have step: "walk_chain declared known placed chain = walk_chain declared known placed (chain @ [origin])"
        by (subst walk_chain.simps) (auto simp: source map_of_eq_None_iff)
      have ok': "chain_ok declared placed (chain @ [origin])"
        using chain_ok_snoc [OF ok origins] longer by (auto simp: position_none list_all_iff)
      have "map_of declared origin \<noteq> None" using longer(2) by (simp add: map_of_eq_None_iff)
      from 1(1) [OF source _ longer(1) this longer(3)] walk ok' known step
      show ?thesis by (auto dest: append_prefixD)
    qed
  qed
qed

text \<open>Placing a chain and the whole pass over the declarations.\<close>

definition declared_of :: "(string \<times> env_declaration) list \<Rightarrow> string list \<Rightarrow> env_declaration list" where
  "declared_of declared names = map (\<lambda>name. the (map_of declared name)) names"

lemma place_chain:
  "distinct names \<Longrightarrow> set names \<inter> fst st = {} \<Longrightarrow>
   fold (place declared) names st = (fst st \<union> set names, snd st @ declared_of declared names)"
  by (induction names arbitrary: st) (auto simp: place_def declared_of_def)

text \<open>The state of the pass: the names placed so far, in a placeable order.\<close>

definition placed_ok :: "(string \<times> env_declaration) list \<Rightarrow> string list \<Rightarrow> bool" where
  "placed_ok declared names \<longleftrightarrow>
     distinct names \<and> set names \<subseteq> fst ` set declared \<and> placeable declared {} names"

lemma placed_ok_chain:
  assumes "placed_ok declared names" "chain_ok declared (set names) chain"
    and "origins declared (last chain) \<subseteq> set names"
  shows "placed_ok declared (names @ rev chain)"
  using assms placeable_chain [of declared chain "set names"]
  by (auto simp: placed_ok_def chain_ok_def placeable_append)

lemma order_declared_spec:
  assumes "\<And>name. known name \<Longrightarrow> name \<in> fst ` set declared" "set todo \<subseteq> fst ` set declared"
    and "distinct names" "set names \<subseteq> fst ` set declared"
    and "order_declared declared known todo (set names, declared_of declared names) = (errors, ordered)"
  shows "if errors = []
    then placed_ok declared names \<longrightarrow>
      (\<exists>placed. ordered = declared_of declared placed \<and> placed_ok declared placed
         \<and> set names \<union> set todo \<subseteq> set placed)
    else \<not> acyclic (promotes declared) \<or> \<not> Range (promotes declared) \<subseteq> fst ` set declared"
  using assms(2-5)
proof (induction todo arbitrary: names errors)
  case (Cons name todo)
  show ?case
  proof (cases "name \<in> set names")
    case True
    with Cons.prems Cons.IH [of names errors] show ?thesis by (auto split: if_splits)
  next
    case False
    obtain chain found where walk: "walk_chain declared known (set names) [name] = (chain, found)" by fastforce
    have "chain_ok declared (set names) [name]" using False Cons.prems(1) by (simp add: chain_ok_def)
    note spec = walk_chain_spec [OF this assms(1) walk]
    then have chain: "chain_ok declared (set names) chain" and member: "name \<in> set chain"
      by (auto dest: set_mono_prefix)
    let ?names = "names @ rev chain"
    have "fold (place declared) (rev chain) (set names, declared_of declared names)
        = (set ?names, declared_of declared ?names)"
      using chain place_chain [of "rev chain" "(set names, declared_of declared names)" declared]
      by (auto simp: chain_ok_def declared_of_def)
    then obtain rest where rest: "order_declared declared known todo (set ?names, declared_of declared ?names) = (rest, ordered)"
      and errors: "errors = found @ rest"
      using Cons.prems(4) False by (auto simp: walk split: prod.splits)
    have "distinct ?names" "set ?names \<subseteq> fst ` set declared"
      using Cons.prems(2,3) chain by (auto simp: chain_ok_def)
    note IH = Cons.IH [OF _ this rest]
    show ?thesis
    proof (cases "found = []")
      case False
      then show ?thesis using spec errors by simp
    next
      case True
      show ?thesis
      proof (cases "rest = []")
        case False
        then show ?thesis using IH Cons.prems(1) True errors by simp
      next
        case rest_nil: True
        have "placed_ok declared names \<Longrightarrow> placed_ok declared ?names"
          using placed_ok_chain [OF _ chain] spec True by simp
        then have "placed_ok declared names \<longrightarrow>
            (\<exists>placed. ordered = declared_of declared placed \<and> placed_ok declared placed
              \<and> set ?names \<union> set todo \<subseteq> set placed)"
          using IH Cons.prems(1) rest_nil by auto
        then show ?thesis using True rest_nil errors member by (auto 4 4)
      qed
    qed
  qed
qed auto

lemma placeable_acyclic:
  assumes "placed_ok declared names" "fst ` set declared \<subseteq> set names"
  shows "acyclic (promotes declared) \<and> Range (promotes declared) \<subseteq> fst ` set declared"
proof -
  have origin: "b \<in> set (take i names)" if "i < length names" "b \<in> origins declared (names ! i)" for i b
    using placeable_nth [of declared "{}" names i] assms(1) that by (auto simp: placed_ok_def)
  have member: "a \<in> set names" if "(a, b) \<in> promotes declared" for a b
    using that assms(2) by (force simp: promotes_def origins_def map_of_eq_None_iff dest: map_of_SomeD split: option.splits)
  have edge: "\<exists>i j. i < j \<and> j < length names \<and> names ! j = a \<and> names ! i = b" if promoted: "(a, b) \<in> promotes declared" for a b
  proof -
    obtain j where "j < length names" "names ! j = a" using member [OF promoted] by (auto simp: in_set_conv_nth)
    moreover from this origin [of j b] promoted obtain i where "i < j" "names ! i = b"
      by (auto simp: promotes_def in_set_conv_nth)
    ultimately show ?thesis by blast
  qed
  have path: "\<exists>i j. i < j \<and> j < length names \<and> names ! j = a \<and> names ! i = b" if "(a, b) \<in> (promotes declared)\<^sup>+" for a b
    using that
  proof induction
    case (base b)
    then show ?case by (rule edge)
  next
    case (step b c)
    obtain i j where 1: "i < j" "j < length names" "names ! j = a" "names ! i = b" using step.IH by blast
    obtain k l where 2: "k < l" "l < length names" "names ! l = b" "names ! k = c" using edge [OF step.hyps(2)] by blast
    have "i = l" using 1 2 assms(1) by (auto simp: placed_ok_def nth_eq_iff_index_eq)
    then show ?case using 1 2 by (blast intro: less_trans)
  qed
  have "(a, a) \<notin> (promotes declared)\<^sup>+" for a
  proof
    assume "(a, a) \<in> (promotes declared)\<^sup>+"
    then obtain i j where "i < j" "j < length names" "names ! j = names ! i" using path by metis
    then show False using assms(1) by (auto simp: placed_ok_def nth_eq_iff_index_eq)
  qed
  moreover have "b \<in> fst ` set declared" if "(a, b) \<in> promotes declared" for a b
    using edge [OF that] assms(1) by (auto simp: placed_ok_def)
  ultimately show ?thesis by (auto simp: acyclic_def)
qed

text \<open>The first pass.\<close>

lemma declare_all_spec:
  "declare_all f names = (errors, declared) \<Longrightarrow>
   (errors = [] \<longleftrightarrow> list_all (\<lambda>name. case f name of Inl invalid \<Rightarrow> invalid = [] | Inr _ \<Rightarrow> True) names)
   \<and> map fst declared = filter (\<lambda>name. \<exists>d. f name = Inr d) names
   \<and> list_all (\<lambda>(name, d). f name = Inr d) declared"
  by (induction names arbitrary: errors declared) (auto split: prod.splits sum.splits)

section \<open>What the declarations guarantee\<close>

text \<open>The connection names a valid branch, which validation checks at \<open>spec.manifest\<close>.\<close>

definition connection_ok :: "application_spec \<Rightarrow> bool" where
  "connection_ok spec \<longleftrightarrow>
     (case as_manifest spec of
        None \<Rightarrow> True | Some m \<Rightarrow> valid_git_branch (gr_branch (rm_repository m))
          \<and> (case gr_commit (rm_repository m) of None \<Rightarrow> True | Some c \<Rightarrow> valid_git_commit c))"

text \<open>Which environment promotes from which.\<close>

definition promotion :: "application_spec \<Rightarrow> application_spec option \<Rightarrow> (string \<times> string) set" where
  "promotion spec previous =
     {(a, b). a \<in> set (sorted_keys (as_environments spec))
        \<and> (\<exists>d. declared_block spec previous a = Inr d \<and> dn_source d = Declared_Promoted b)}"

lemma declare_block_name: "declare_block spec previous name config = Inr d \<Longrightarrow> dn_name d = name"
  by (auto simp: declare_block_def declare_environment_def declare_promoted_def declare_saved_def declare_branch_def
      parse_logical_name_def validated_parse_def map_sum.simps Let_def
      split: option.splits if_splits sum.splits prod.splits)

lemma map_sum_eq_Inl: "map_sum id f x = Inl e \<longleftrightarrow> x = Inl e"
  by (cases x) simp_all

lemma declare_block_reports:
  assumes "connection_ok spec" shows "declare_block spec previous name config \<noteq> Inl []"
proof -
  have "declare_branch path n config r \<noteq> Inl []" if "as_manifest spec = Some m" "r = rm_repository m" for path n m r
    using assms that
    by (cases "ec_branch config"; cases "ec_commit config"; cases "gr_commit r")
      (auto simp: declare_branch_def connection_ok_def tracked_branch_new_def Let_def push_when_def
        validation_error_new_def split: if_splits)
  then have "declare_environment spec n config path \<noteq> Inl []" for n path
    by (auto simp: declare_environment_def declare_promoted_def declare_saved_def Let_def split: option.splits)
  then show ?thesis
    by (simp add: declare_block_def map_sum_eq_Inl split: option.splits)
qed

lemma promotes_blocks:
  assumes "declare_all (declared_block spec previous) names = (errors, declared)"
    and "names = sorted_keys (as_environments spec)" "map fst declared = names"
  shows "promotes declared = promotion spec previous"
proof -
  have distinct: "distinct (map fst declared)" using assms(2,3) by (simp add: sorted_keys_def)
  have all: "list_all (\<lambda>(name, d). declared_block spec previous name = Inr d) declared"
    using declare_all_spec [OF assms(1)] by blast
  have "map_of declared a = Some d \<longleftrightarrow> a \<in> set names \<and> declared_block spec previous a = Inr d" for a d
  proof -
    have "(a, d) \<in> set declared \<longleftrightarrow> a \<in> fst ` set declared \<and> declared_block spec previous a = Inr d"
      using all by (force simp: list_all_iff)
    then show ?thesis using distinct assms(3) by (metis list.set_map map_of_eq_Some_iff)
  qed
  then show ?thesis
    by (auto simp: promotes_def promotion_def origins_def assms(2) split: option.splits declared_source.splits)
qed

text \<open>C3: A manifest's environments are declared in promotion order. When it is accepted, every environment
  block declares exactly one environment, and each comes after the environment it promotes from, so no
  promotion leads back to itself; and it is refused only when a block is invalid, a promotion source is
  not declared or promotions form a cycle. The walk up the chains of promotion sources always ends.\<close>

theorem declared_environments_are_ordered:
  assumes "connection_ok spec"
  shows "case declared_environments_since spec previous of
      Inr ds \<Rightarrow>
        mset (map dn_name ds) = mset (sorted_keys (as_environments spec))
        \<and> list_all (\<lambda>d. declared_block spec previous (dn_name d) = Inr d) ds
        \<and> list_all (\<lambda>i. case dn_source (ds ! i) of
              Declared_Promoted origin \<Rightarrow> origin \<in> set (map dn_name (take i ds)) | _ \<Rightarrow> True) [0..<length ds]
    | Inl errors \<Rightarrow>
        \<not> (list_all (\<lambda>name. \<exists>d. declared_block spec previous name = Inr d) (sorted_keys (as_environments spec))
           \<and> acyclic (promotion spec previous)
           \<and> Range (promotion spec previous) \<subseteq> set (sorted_keys (as_environments spec)))"
proof -
  let ?keys = "sorted_keys (as_environments spec)" and ?block = "declared_block spec previous"
  let ?known = "\<lambda>name. Mapping.lookup (as_environments spec) name \<noteq> None"
  obtain errors declared where all: "declare_all ?block ?keys = (errors, declared)" by fastforce
  obtain found ordered where order: "order_declared declared ?known (map fst declared) ({}, []) = (found, ordered)"
    by fastforce
  have result: "declared_environments_since spec previous =
      (if errors @ found = [] then Inr ordered else Inl (sorted_errors (errors @ found)))"
    unfolding declared_environments_since_def Let_def all prod.case order by simp
  note blocks = declare_all_spec [OF all]
  have reports: "?block name \<noteq> Inl []" for name
    unfolding declared_block_def by (rule declare_block_reports [OF assms])
  show ?thesis
  proof (cases "list_all (\<lambda>name. \<exists>d. ?block name = Inr d) ?keys")
    case False
    then have "errors \<noteq> []"
      using blocks reports by (auto simp: list_all_iff split: sum.splits)
    with False show ?thesis by (simp add: result)
  next
    case True
    then have keys: "map fst declared = ?keys" and no_errors: "errors = []"
      using blocks by (auto simp: list_all_iff filter_id_conv split: sum.splits)
    then have keys_set: "fst ` set declared = set ?keys" by (metis list.set_map)
    have known: "name \<in> fst ` set declared" if "?known name" "?keys \<noteq> []" for name
    proof -
      have "finite (Mapping.keys (as_environments spec))"
        using that(2) by (metis sorted_keys_def sorted_list_of_set.fold_insort_key.infinite)
      then show ?thesis using that(1) unfolding keys_set by (simp add: sorted_keys_def mapping_keys_iff)
    qed
    show ?thesis
    proof (cases "?keys = []")
      case True
      then have "declared_environments_since spec previous = Inr []"
        using order keys no_errors by (auto simp: result)
      with True show ?thesis by simp
    next
      case False
      have "order_declared declared ?known (map fst declared) (set [], declared_of declared []) = (found, ordered)"
        using order by (simp add: declared_of_def)
      note spec = order_declared_spec [OF known [OF _ False] _ _ _ this, simplified]
      show ?thesis
      proof (cases "found = []")
        case True
        obtain placed where placed: "ordered = declared_of declared placed" "placed_ok declared placed"
          and covers: "fst ` set declared \<subseteq> set placed"
          using spec True by (auto simp: placed_ok_def)
        have block: "?block name = Inr (the (map_of declared name)) \<and> dn_name (the (map_of declared name)) = name"
          if "name \<in> set placed" for name
        proof -
          have "name \<in> fst ` set declared" using that placed(2) by (auto simp: placed_ok_def)
          then obtain d where d: "map_of declared name = Some d"
            by (cases "map_of declared name") (simp_all add: declared_iff)
          then have "?block name = Inr d" using blocks by (auto simp: list_all_iff dest: map_of_SomeD)
          with d show ?thesis by (auto simp: declared_block_def dest: declare_block_name)
        qed
        then have names: "map dn_name ordered = placed"
          unfolding placed(1) declared_of_def by (auto simp: map_idI)
        have mset: "mset placed = mset ?keys"
          using placed(2) covers keys_set by (intro set_eq_iff_mset_eq_distinct [THEN iffD1])
            (auto simp: placed_ok_def sorted_keys_def)
        have before: "origin \<in> set (map dn_name (take i ordered))"
          if "i < length ordered" "dn_source (ordered ! i) = Declared_Promoted origin" for i origin
        proof -
          have i: "i < length placed" using that(1) names by (metis length_map)
          have "origins declared (placed ! i) \<subseteq> set (take i placed)"
            using placeable_nth [of declared "{}" placed i] placed(2) i by (simp add: placed_ok_def)
          moreover have "ordered ! i = the (map_of declared (placed ! i))"
            using i by (simp add: placed(1) declared_of_def)
          moreover have "map_of declared (placed ! i) \<noteq> None"
            using i placed(2) by (auto simp: placed_ok_def map_of_eq_None_iff)
          ultimately have "origin \<in> set (take i placed)"
            using that(2) by (auto simp: origins_def)
          then show ?thesis by (simp add: names flip: take_map)
        qed
        have declares: "list_all (\<lambda>d. ?block (dn_name d) = Inr d) ordered"
          using block by (auto simp: placed(1) declared_of_def list_all_iff)
        have "declared_environments_since spec previous = Inr ordered" by (simp add: result no_errors True)
        then show ?thesis
          using mset declares before by (auto simp: names list_all_iff split: declared_source.splits)
      next
        case False
        then have "\<not> acyclic (promotion spec previous) \<or> \<not> Range (promotion spec previous) \<subseteq> set ?keys"
          using spec promotes_blocks [OF all refl keys] keys_set by auto
        then show ?thesis using False by (auto simp: result)
      qed
    qed
  qed
qed

section \<open>Changes\<close>

datatype environment_change =
    Change_Create logical_name declared_source bool
  | Change_Source logical_name declared_source declared_source
  | Change_Sync logical_name bool
  | Change_Undeclared logical_name

text \<open>\<open>EnvironmentChange::named\<close>: the source, naming the environment it promotes from.\<close>

definition source_named :: "environment_source \<Rightarrow> environment_view list \<Rightarrow> declared_source option" where
  "source_named source environments =
     (case source of
        From_Saved \<Rightarrow> Some Declared_Saved
      | From_Branch branch \<Rightarrow> Some (Declared_Branch branch)
      | From_Promoted origin \<Rightarrow>
          map_option (\<lambda>e. Declared_Promoted (ev_name e)) (List.find (\<lambda>e. ev_id e = origin) environments))"

definition live_environments :: "environment_view list \<Rightarrow> environment_view list" where
  "live_environments environments = filter (\<lambda>e. \<not> ev_delete_intent e \<and> view_preview e = None) environments"

definition declaration_changes ::
  "environment_view list \<Rightarrow> env_declaration \<Rightarrow> environment_change list" where
  "declaration_changes environments d =
     (case List.find (\<lambda>current. ev_name current = dn_name d) (live_environments environments) of
        None \<Rightarrow> [Change_Create (dn_name d) (dn_source d) (dn_sync d)]
      | Some current \<Rightarrow>
          if \<not> dn_manages_source d then []
          else
            (case source_named (ev_source current) environments of
               None \<Rightarrow> []
             | Some origin \<Rightarrow>
                 if origin \<noteq> dn_source d then [Change_Source (dn_name d) origin (dn_source d)] else [])
            @ (if \<not> is_promoted (dn_source d) \<and> ev_sync current \<noteq> dn_sync d
               then [Change_Sync (dn_name d) (dn_sync d)] else []))"

definition changes_between :: "env_declaration list \<Rightarrow> environment_view list \<Rightarrow> environment_change list" where
  "changes_between ds environments =
     (if ds = [] then []
      else concat (map (declaration_changes environments) ds)
           @ map (\<lambda>current. Change_Undeclared (ev_name current))
               (filter (\<lambda>current. \<not> list_ex (\<lambda>d. dn_name d = ev_name current) ds) (live_environments environments)))"

text \<open>\<open>ApplicationSpec::environment_changes\<close>: a new application without declarations gets
  \<open>production\<close>.\<close>

definition environment_changes ::
  "application_spec \<Rightarrow> env_declaration list \<Rightarrow> environment_view list option
   \<Rightarrow> validation_errors + environment_change list" where
  "environment_changes spec ds environments =
     (case environments of
        Some environments \<Rightarrow> Inr (changes_between ds environments)
      | None \<Rightarrow>
          if ds = [] then
            (case as_manifest spec of
               Some connection \<Rightarrow>
                 (case tracked_branch_of (rm_repository connection) of
                    Inl e \<Rightarrow> Inl e
                  | Inr branch \<Rightarrow> Inr [Change_Create DEFAULT_ENVIRONMENT (Declared_Branch branch) False])
             | None \<Rightarrow> Inr [Change_Create DEFAULT_ENVIRONMENT Declared_Saved False])
          else Inr (changes_between ds []))"

fun change_environment :: "environment_change \<Rightarrow> logical_name" where
  "change_environment (Change_Create name _ _) = name"
| "change_environment (Change_Source name _ _) = name"
| "change_environment (Change_Sync name _) = name"
| "change_environment (Change_Undeclared name) = name"

fun change_summary :: "environment_change \<Rightarrow> string" where
  "change_summary (Change_Create _ source sync) =
     ''created, deploys from '' @ show_declared_source source @ (if sync then '', follows pushes'' else [])"
| "change_summary (Change_Source _ origin to) =
     ''deploys from '' @ show_declared_source to @ '' instead of '' @ show_declared_source origin"
| "change_summary (Change_Sync _ sync) = (if sync then ''follows pushes'' else ''no longer follows pushes'')"
| "change_summary (Change_Undeclared _) =
     ''no longer declared; kept until deleted with '' @ quoted ''piquelctl env delete''"

text \<open>Nothing changes exactly when every declared environment is live, deploys from its declared source
  where its block manages it, and every live environment is declared.\<close>

lemma no_changes_iff:
  assumes "ds \<noteq> []"
  shows "changes_between ds environments = [] \<longleftrightarrow>
     (\<forall>d \<in> set ds. \<exists>e. List.find (\<lambda>current. ev_name current = dn_name d) (live_environments environments) = Some e
        \<and> (dn_manages_source d \<longrightarrow>
             (case source_named (ev_source e) environments of None \<Rightarrow> True | Some origin \<Rightarrow> origin = dn_source d)
             \<and> (\<not> is_promoted (dn_source d) \<longrightarrow> ev_sync e = dn_sync d)))
     \<and> list_all (\<lambda>e. list_ex (\<lambda>d. dn_name d = ev_name e) ds) (live_environments environments)"
proof -
  have "declaration_changes environments d = [] \<longleftrightarrow>
      (\<exists>e. List.find (\<lambda>current. ev_name current = dn_name d) (live_environments environments) = Some e
        \<and> (dn_manages_source d \<longrightarrow>
             (case source_named (ev_source e) environments of None \<Rightarrow> True | Some origin \<Rightarrow> origin = dn_source d)
             \<and> (\<not> is_promoted (dn_source d) \<longrightarrow> ev_sync e = dn_sync d)))" for d
    by (auto simp: declaration_changes_def split: option.splits)
  then show ?thesis
    using assms by (auto simp: changes_between_def filter_empty_conv list_all_iff)
qed

section \<open>An example\<close>

definition example_declarations :: application_spec where
  "example_declarations =
     \<lparr>as_manifest = None, as_services = [], as_volumes = [], as_routes = [], as_secrets = [],
      as_jobs = [], as_exports = [], as_imports = [], as_variables = Mapping.empty,
      as_environments = Mapping.of_alist
        [(''prod'', environment_config_default\<lparr>ec_promote_from := Some ''stage''\<rparr>), (''stage'', environment_config_default)],
      as_previews = preview_config_default\<rparr>"

lemma example_declared:
  "map_sum (\<lambda>_. ()) (map dn_name) (declared_environments_since example_declarations None) = Inr [''stage'', ''prod'']"
  by code_simp

theorem declared_environments_are_ordered_witness:
  "\<exists>ds. declared_environments_since example_declarations None = Inr ds
     \<and> mset (map dn_name ds) = mset (sorted_keys (as_environments example_declarations))"
proof -
  have "connection_ok example_declarations" by (simp add: connection_ok_def example_declarations_def)
  from declared_environments_are_ordered [OF this, of None] example_declared show ?thesis
    by (cases "declared_environments_since example_declarations None") auto
qed

end
