(* ===== verification/Validation.thy ===== *)
theory Validation
  imports Service_Checks Declarations
begin

text \<open>
  Validation of a whole manifest: \<open>validate_template\<close> of \<open>crates/piqueld-core/src/manifest/validation/mod.rs\<close>
  with the checks of links (\<open>links.rs\<close>) and variables (\<open>variables.rs\<close>). A check returns the errors it
  pushes; \<open>validate_routes\<close> also returns the routes whose hostnames it canonicalized.
\<close>

section \<open>Paths of decode errors (mod.rs)\<close>

definition DECODE_FIELDS :: "string list" where
  "DECODE_FIELDS =
     [''api_version'', ''kind'', ''metadata'', ''name'', ''spec'', ''manifest'', ''services'', ''volumes'',
      ''source'', ''replicas'', ''environment'', ''command'', ''arguments'', ''mounts'', ''secrets'',
      ''healthcheck'', ''resources'', ''type'', ''image'', ''repository'', ''url'', ''branch'', ''commit'',
      ''build'', ''dockerfile'', ''context'', ''args'', ''volume'', ''target'', ''read_only'', ''port'',
      ''routes'', ''jobs'', ''run'', ''hostname'', ''service'', ''path'', ''interval_seconds'',
      ''timeout_seconds'', ''start_period_seconds'', ''retries'', ''cpu_millis'', ''memory_bytes'',
      ''generate'', ''bytes'', ''encoding'', ''bits'', ''depends_on'', ''rollout'', ''order'',
      ''monitor_seconds'', ''variables'', ''environments'', ''exports'', ''imports'', ''application'',
      ''applications'', ''previews'', ''files'', ''content'', ''mode'', ''redirect'', ''to'', ''status'',
      ''preserve_path'', ''visibility'', ''promote_from'', ''sync'', ''volume_access'']"

function valid_path_indices :: "string \<Rightarrow> bool" where
  "valid_path_indices s =
     (if s = [] then True
      else
        (case strip_prefix ''['' s of
           None \<Rightarrow> False
         | Some after_open \<Rightarrow>
             (case position (\<lambda>c. c = CHR '']'') after_open of
                None \<Rightarrow> False
              | Some close \<Rightarrow>
                  if close = 0 \<or> \<not> list_all is_ascii_digit (take close after_open) then False
                  else valid_path_indices (drop (close + 1) after_open))))"
  by pat_completeness auto
termination
proof (relation "measure length", goal_cases)
  case (2 s after_open close)
  then show ?case by (auto simp: strip_prefix_def prefix_def split: if_splits)
qed simp

declare valid_path_indices.simps [simp del]

definition safe_component :: "string \<Rightarrow> bool" where
  "safe_component component \<longleftrightarrow>
     (let field_end = (case position (\<lambda>c. c = CHR ''['') component of None \<Rightarrow> length component | Some i \<Rightarrow> i)
      in take field_end component \<in> set DECODE_FIELDS \<and> valid_path_indices (drop field_end component))"

definition safe_decode_path :: "string \<Rightarrow> string" where
  "safe_decode_path path =
     (let safe = takeWhile safe_component (split_on (CHR ''.'') path)
      in if safe = [] then ''$'' else join ''.'' safe)"

section \<open>Routes (mod.rs)\<close>

definition ROUTE_TARGET_MESSAGE :: string where
  "ROUTE_TARGET_MESSAGE =
     ''route must set either both '' @ quoted ''service'' @ '' and '' @ quoted ''port'' @ '', or '' @ quoted ''redirect''"

definition REDIRECT_URL_MESSAGE :: string where
  "REDIRECT_URL_MESSAGE =
     ''redirect target must be an http(s) URL with a lowercase public hostname, an optional port and path, and no query, fragment, or braces''"

definition REDIRECT_STATUS_MESSAGE :: string where
  "REDIRECT_STATUS_MESSAGE = ''redirect status must be 301, 302, 303, 307, or 308''"

definition redirect_validate :: "redirect_input \<Rightarrow> string \<Rightarrow> validation_error list" where
  "redirect_validate redirect path =
     push_when (is_some_and (\<lambda>to. parse_redirect_url to = None) (as_literal (rdi_to redirect)))
       ''route_redirect_invalid'' (path @ ''.redirect.to'') REDIRECT_URL_MESSAGE
     @ push_when (redirect_status_of (rdi_status redirect) = None) ''route_redirect_status_invalid''
         (path @ ''.redirect.status'') REDIRECT_STATUS_MESSAGE"

definition redirect_loops :: "string \<Rightarrow> string \<Rightarrow> string set \<Rightarrow> bool" where
  "redirect_loops hostname to exact \<longleftrightarrow>
     parse_route_hostname hostname \<noteq> None \<and> parse_redirect_url to \<noteq> None
     \<and> (hostname = redirect_hostname to
        \<or> is_some_and (\<lambda>to. route_matches hostname to \<and> to \<notin> exact) (parse_hostname (redirect_hostname to)))"

definition route_target_validate ::
  "service_input list \<Rightarrow> string \<Rightarrow> route_input \<Rightarrow> validation_error list" where
  "route_target_validate services path route =
     (case (rti_service route, rti_port route, rti_redirect route) of
        (Some service, Some port, None) \<Rightarrow>
          push_when (\<not> list_ex (\<lambda>s. svi_name s = service) services) ''route_service_missing'' (path @ ''.service'')
            ''route must reference a service in this application''
          @ push_when (port = 0) ''route_port_invalid'' (path @ ''.port'') ''HTTP backend port must be 1..=65535''
      | (None, None, Some redirect) \<Rightarrow> redirect_validate redirect path
      | _ \<Rightarrow> [validation_error_new ''route_target_invalid'' path ROUTE_TARGET_MESSAGE])"

definition canonical_literal :: "template \<Rightarrow> string option" where
  "canonical_literal hostname = map_option canonicalize_hostname (as_literal hostname)"

definition canonical_route :: "route_input \<Rightarrow> route_input" where
  "canonical_route route =
     (case canonical_literal (rti_hostname route) of
        None \<Rightarrow> route | Some hostname \<Rightarrow> route\<lparr>rti_hostname := template_literal hostname\<rparr>)"

definition route_validate ::
  "service_input list \<Rightarrow> nat \<Rightarrow> string set \<Rightarrow> string set \<Rightarrow> route_input \<Rightarrow> validation_error list" where
  "route_validate services index hostnames names route =
     (let path = indexed ''spec.routes'' index; hostname = canonical_literal (rti_hostname route)
      in (case rti_name route of
            None \<Rightarrow> []
          | Some name \<Rightarrow>
              validate_name name (path @ ''.name'')
              @ push_when (name \<in> names) ''route_name_duplicate'' (path @ ''.name'')
                  ''route name is already used in this application'')
         @ push_when (is_some_and (\<lambda>h. parse_route_hostname h = None) hostname) ''route_hostname_invalid''
             (path @ ''.hostname'')
             (''an exact public ASCII DNS hostname, or '' @ quoted ''*.'' @ '' followed by one, is required'')
         @ push_when (is_some_and (\<lambda>h. h \<in> hostnames) hostname) ''route_hostname_duplicate'' (path @ ''.hostname'')
             ''hostname is already used in this application''
         @ route_target_validate services path route)"

fun validate_route_list ::
  "service_input list \<Rightarrow> nat \<Rightarrow> string set \<Rightarrow> string set \<Rightarrow> route_input list \<Rightarrow> validation_error list" where
  "validate_route_list services index hostnames names [] = []"
| "validate_route_list services index hostnames names (route # routes) =
     route_validate services index hostnames names route
     @ validate_route_list services (Suc index)
         (hostnames \<union> set_option (canonical_literal (rti_hostname route)))
         (names \<union> set_option (rti_name route)) routes"

definition canonical_hostnames :: "route_input list \<Rightarrow> string set" where
  "canonical_hostnames routes = (\<Union>route \<in> set routes. set_option (canonical_literal (rti_hostname route)))"

definition loop_validate :: "string set \<Rightarrow> nat \<Rightarrow> route_input \<Rightarrow> validation_error list" where
  "loop_validate hostnames index route =
     (case (as_literal (rti_hostname route), Option.bind (rti_redirect route) (\<lambda>r. as_literal (rdi_to r))) of
        (Some hostname, Some to) \<Rightarrow>
          push_when (redirect_loops hostname to hostnames) ''route_redirect_loop''
            (indexed ''spec.routes'' index @ ''.redirect.to'')
            ''redirect must target a hostname the route does not serve''
      | _ \<Rightarrow> [])"

definition validate_routes :: "application_spec \<Rightarrow> application_spec \<times> validation_error list" where
  "validate_routes spec =
     (let routes = map canonical_route (as_routes spec)
      in (spec\<lparr>as_routes := routes\<rparr>,
          validate_route_list (as_services spec) 0 {} {} (as_routes spec)
          @ check_list (loop_validate (canonical_hostnames (as_routes spec))) 0 routes))"

section \<open>Budgets (mod.rs, links.rs)\<close>

definition MAX_ROUTES :: nat where "MAX_ROUTES = 64"
definition MAX_SERVICES :: nat where "MAX_SERVICES = 64"
definition MAX_VOLUMES :: nat where "MAX_VOLUMES = 64"
definition MAX_GENERATED_SECRETS :: nat where "MAX_GENERATED_SECRETS = 64"
definition MAX_JOBS_PER_APPLICATION :: nat where "MAX_JOBS_PER_APPLICATION = 16"
definition MAX_LINKS :: nat where "MAX_LINKS = 64"

definition links_within_budget :: "application_spec \<Rightarrow> validation_error list" where
  "links_within_budget spec =
     concat (map (\<lambda>(path, count).
         push_when (MAX_LINKS < count) ''link_count_excessive'' path
           (''an application must declare at most '' @ show_nat MAX_LINKS @ '' of these''))
       [(''spec.exports'', length (as_exports spec)), (''spec.imports'', length (as_imports spec))])
     @ check_list (\<lambda>index e.
         push_when (MAX_LINKS < length (xi_applications e)) ''link_count_excessive''
           (indexed ''spec.exports'' index @ ''.applications'')
           (''an export must grant at most '' @ show_nat MAX_LINKS @ '' applications'')) 0 (as_exports spec)"

text \<open>The errors of \<open>within_budgets\<close>, which is true when there are none.\<close>

definition within_budgets :: "application_spec \<Rightarrow> validation_error list" where
  "within_budgets spec =
     push_when (MAX_ROUTES < length (as_routes spec)) ''routes_limit'' ''spec.routes''
       (''at most '' @ show_nat MAX_ROUTES @ '' routes are allowed per application'')
     @ (if MAX_SERVICES < length (as_services spec)
        then [validation_error_new ''service_count_excessive'' ''spec.services''
                (''an application must declare at most '' @ show_nat MAX_SERVICES @ '' services'')]
        else check_list (\<lambda>index service.
               push_when (MAX_SERVICES < length (svi_depends_on service)) ''service_dependency_count_excessive''
                 (indexed ''spec.services'' index @ ''.depends_on'')
                 (''a service must list at most '' @ show_nat MAX_SERVICES @ '' dependencies'')) 0 (as_services spec))
     @ push_when (MAX_VOLUMES < length (as_volumes spec)) ''volume_count_excessive'' ''spec.volumes''
         (''an application must declare at most '' @ show_nat MAX_VOLUMES @ '' volumes'')
     @ push_when (MAX_GENERATED_SECRETS < length (as_secrets spec)) ''secrets_excessive'' ''spec.secrets''
         (''an application must declare at most '' @ show_nat MAX_GENERATED_SECRETS @ '' secrets'')
     @ push_when (MAX_JOBS_PER_APPLICATION < length (as_jobs spec)) ''job_count_excessive'' ''spec.jobs''
         (''an application must declare at most '' @ show_nat MAX_JOBS_PER_APPLICATION @ '' jobs'')
     @ links_within_budget spec"

section \<open>Dependencies, telemetry, volumes and secrets (mod.rs)\<close>

fun validate_dependency_list ::
  "string set \<Rightarrow> string \<Rightarrow> nat \<Rightarrow> string set \<Rightarrow> string list \<Rightarrow> validation_error list" where
  "validate_dependency_list names base index listed [] = []"
| "validate_dependency_list names base index listed (dependency # dependencies) =
     (let path = indexed (base @ ''.depends_on'') index
      in (if dependency \<notin> names
          then [validation_error_new ''service_dependency_missing'' path
                  ''dependency must name a service in this application'']
          else push_when (dependency \<in> listed) ''service_dependency_duplicate'' path
                  ''dependency is listed more than once'')
         @ validate_dependency_list names base (Suc index)
             (if dependency \<in> names then insert dependency listed else listed) dependencies)"

definition validate_dependencies :: "service_input list \<Rightarrow> validation_error list" where
  "validate_dependencies services =
     (let names = set (map svi_name services);
          cyclic = set (map svi_name (snd (startup_order svi_name svi_depends_on services)))
      in check_list (\<lambda>index service.
           validate_dependency_list names (indexed ''spec.services'' index) 0 {} (svi_depends_on service)) 0 services
         @ check_list (\<lambda>index service.
             push_when (svi_name service \<in> cyclic) ''service_dependency_cycle''
               (indexed ''spec.services'' index @ ''.depends_on'')
               ''dependencies must not form or lead into a cycle'') 0 services)"

fun validate_receivers :: "nat \<Rightarrow> bool \<Rightarrow> service_input list \<Rightarrow> validation_error list" where
  "validate_receivers index found [] = []"
| "validate_receivers index found (service # services) =
     (if svi_receives_telemetry service
      then push_when found ''telemetry_receiver_duplicate'' (indexed ''spec.services'' index @ ''.receives_telemetry'')
             ''at most one service of an application may receive telemetry''
           @ push_when (is_some_and (\<lambda>r. 1 < r) (typed_literal (svi_replicas service)))
               ''telemetry_receiver_replicas'' (indexed ''spec.services'' index @ ''.replicas'')
               ''a service receiving telemetry runs at most one replica, since one collector listens on its socket''
           @ validate_receivers (Suc index) True services
      else validate_receivers (Suc index) found services)"

definition validate_telemetry_receiver :: "service_input list \<Rightarrow> validation_error list" where
  "validate_telemetry_receiver services = validate_receivers 0 False services"

text \<open>\<open>inline_file_bytes\<close> (\<open>files.rs\<close>): the bytes of the inline files of all services.\<close>

definition inline_file_bytes :: "application_spec \<Rightarrow> nat" where
  "inline_file_bytes spec =
     sum_list (map (\<lambda>file. case sf_source file of File_Content content \<Rightarrow> length content | File_Path _ \<Rightarrow> 0)
       (concat (map svi_files (as_services spec))))"

definition validate_volumes :: "string list \<Rightarrow> validation_error list" where
  "validate_volumes volumes =
     check_list (\<lambda>index volume. validate_name volume (indexed ''spec.volumes'' index @ ''.name'')) 0 volumes"

definition MIN_RANDOM_SECRET_BYTES :: u16 where "MIN_RANDOM_SECRET_BYTES = 16"
definition MAX_RANDOM_SECRET_BYTES :: u16 where "MAX_RANDOM_SECRET_BYTES = 512"
definition RSA_SECRET_BITS :: "u16 list" where "RSA_SECRET_BITS = [2048, 3072, 4096]"

fun generator_validate :: "string \<Rightarrow> secret_generator \<Rightarrow> validation_error list" where
  "generator_validate path (Generate_Random bytes _) =
     push_when (\<not> (MIN_RANDOM_SECRET_BYTES \<le> bytes \<and> bytes \<le> MAX_RANDOM_SECRET_BYTES))
       ''secret_generator_invalid'' (path @ ''.generate.bytes'')
       (''random secrets must use '' @ show_nat (unat MIN_RANDOM_SECRET_BYTES) @ ''-''
        @ show_nat (unat MAX_RANDOM_SECRET_BYTES) @ '' bytes'')"
| "generator_validate path (Generate_Rsa bits) =
     push_when (bits \<notin> set RSA_SECRET_BITS) ''secret_generator_invalid'' (path @ ''.generate.bits'')
       ''RSA keys must use 2048, 3072, or 4096 bits''"

definition validate_generated_secrets :: "secret_declaration list \<Rightarrow> validation_error list" where
  "validate_generated_secrets secrets =
     unique_names (map sd_name secrets) ''spec.secrets'' ''secret_name_duplicate''
     @ check_list (\<lambda>index secret.
         (let path = indexed ''spec.secrets'' index
          in validate_name (sd_name secret) (path @ ''.name'') @ generator_validate path (sd_generate secret))) 0 secrets"

section \<open>Jobs (mod.rs)\<close>

definition MAX_TIMEOUT_SECONDS :: u32 where "MAX_TIMEOUT_SECONDS = 86400"

text \<open>The jobs that must run before a job, among itself and those declared after it.\<close>

definition job_order_errors :: "string set \<Rightarrow> string \<Rightarrow> job_input \<Rightarrow> job_input list \<Rightarrow> validation_error list" where
  "job_order_errors dependencies base job later =
     map (\<lambda>prerequisite. validation_error_new ''job_dependency_order_invalid'' (base @ ''.service'')
         (''job '' @ ji_name prerequisite @ '' for dependency service '' @ ji_service prerequisite
          @ '' must run before job '' @ ji_name job))
       (filter (\<lambda>prerequisite. ji_service prerequisite \<in> dependencies) later)"

definition job_validate :: "service_input list \<Rightarrow> nat \<Rightarrow> job_input \<Rightarrow> job_input list \<Rightarrow> validation_error list" where
  "job_validate services index job rest =
     (let base = indexed ''spec.jobs'' index;
          dependencies = dependencies_of svi_name svi_depends_on services (ji_service job)
      in validate_name (ji_name job) (base @ ''.name'')
         @ push_when (\<not> list_ex (\<lambda>s. svi_name s = ji_service job) services) ''job_service_missing'' (base @ ''.service'')
             ''job must reference a service in this application''
         @ job_order_errors dependencies base job (job # rest)
         @ push_when (case ji_command job of [] \<Rightarrow> True | c # _ \<Rightarrow> blank_literal c) ''process_command_invalid''
             (base @ ''.command'') ''a job command must start with a non-empty executable''
         @ validate_process_arguments (ji_command job) (base @ ''.command'') ''process_command_excessive''
         @ (case find_service svi_name services (ji_service job) of
              None \<Rightarrow> [] | Some service \<Rightarrow> validate_additions job service base)
         @ (if ji_volume_access job = Access_Exclusive
            then validate_exclusive_access job services dependencies base else [])
         @ push_when (\<not> (1 \<le> ji_timeout_seconds job \<and> ji_timeout_seconds job \<le> MAX_TIMEOUT_SECONDS))
             ''job_timeout_invalid'' (base @ ''.timeout_seconds'')
             (''job timeout must be between 1 and '' @ show_nat (unat MAX_TIMEOUT_SECONDS) @ '' seconds''))"

fun validate_job_list :: "service_input list \<Rightarrow> nat \<Rightarrow> job_input list \<Rightarrow> validation_error list" where
  "validate_job_list services index [] = []"
| "validate_job_list services index (job # jobs) =
     job_validate services index job jobs @ validate_job_list services (Suc index) jobs"

definition validate_jobs :: "service_input list \<Rightarrow> job_input list \<Rightarrow> validation_error list" where
  "validate_jobs services jobs =
     unique_names (map ji_name jobs) ''spec.jobs'' ''job_name_duplicate'' @ validate_job_list services 0 jobs"

section \<open>Links (links.rs)\<close>

fun validate_granted :: "string \<Rightarrow> nat \<Rightarrow> string set \<Rightarrow> string list \<Rightarrow> validation_error list" where
  "validate_granted base index granted [] = []"
| "validate_granted base index granted (application # applications) =
     (let path = indexed base index
      in validate_name application path
         @ push_when (application \<in> granted) ''export_duplicate'' path ''the application is already granted''
         @ validate_granted base (Suc index) (insert application granted) applications)"

fun validate_exports ::
  "string set \<Rightarrow> nat \<Rightarrow> string set \<Rightarrow> export_input list \<Rightarrow> validation_error list" where
  "validate_exports services index exported [] = []"
| "validate_exports services index exported (e # exports) =
     (let path = indexed ''spec.exports'' index
      in validate_name (xi_service e) (path @ ''.service'')
         @ push_when (xi_service e \<notin> services) ''export_service_missing'' (path @ ''.service'')
             ''an export must reference a service in this application''
         @ push_when (xi_service e \<in> exported) ''export_duplicate'' (path @ ''.service'')
             ''the service is already exported''
         @ push_when (xi_applications e = []) ''export_applications_empty'' (path @ ''.applications'')
             ''an export must grant at least one application''
         @ validate_granted (path @ ''.applications'') 0 {} (xi_applications e)
         @ validate_exports services (Suc index) (insert (xi_service e) exported) exports)"

definition ENVIRONMENT_NAME_MESSAGE :: string where
  "ENVIRONMENT_NAME_MESSAGE =
     ''environment names must be 1-63 lowercase letters, digits, or hyphens, start with a letter, and end with a letter or digit''"

fun validate_imports :: "nat \<Rightarrow> (string \<times> string) set \<Rightarrow> import_input list \<Rightarrow> validation_error list" where
  "validate_imports index imported [] = []"
| "validate_imports index imported (i # imports) =
     (let path = indexed ''spec.imports'' index
      in validate_name (ii_application i) (path @ ''.application'')
         @ validate_name (ii_service i) (path @ ''.service'')
         @ push_when ((ii_application i, ii_service i) \<in> imported) ''import_duplicate'' (path @ ''.service'')
             ''the service is already imported''
         @ push_when (is_some_and (\<lambda>e. parse_logical_name e = None) (Option.bind (ii_environment i) as_literal))
             ''name_invalid'' (path @ ''.environment'') ENVIRONMENT_NAME_MESSAGE
         @ validate_imports (Suc index) (insert (ii_application i, ii_service i) imported) imports)"

definition validate_links :: "application_spec \<Rightarrow> validation_error list" where
  "validate_links spec =
     validate_exports (set (map svi_name (as_services spec))) 0 {} (as_exports spec)
     @ validate_imports 0 {} (as_imports spec)"

section \<open>Variables (variables.rs)\<close>

definition MAX_VARIABLES :: nat where "MAX_VARIABLES = 128"
definition MAX_ENVIRONMENTS :: nat where "MAX_ENVIRONMENTS = 64"
definition MAX_VALUE_BYTES :: nat where "MAX_VALUE_BYTES = 65536"

text \<open>\<open>Reference::unavailable\<close>\<close>

definition reference_unavailable :: "bool \<Rightarrow> reference \<Rightarrow> (string \<times> string) option" where
  "reference_unavailable repository r =
     (case r of
        Ref_System v \<Rightarrow>
          if needs_repository v \<and> \<not> repository
          then Some (''variable_unavailable'', show_reference r @ '' is only set when spec.manifest is configured'')
          else None
      | Ref_Variable _ \<Rightarrow> None)"

fun value_problem :: "bool \<Rightarrow> reference \<Rightarrow> (string \<times> string) option" where
  "value_problem repository (Ref_Variable name) =
     Some (''variable_not_allowed'',
           ''variables may reference system variables, but not '' @ show_reference (Ref_Variable name))"
| "value_problem repository (Ref_System v) = reference_unavailable repository (Ref_System v)"

definition reference_problem :: "bool \<Rightarrow> string set \<Rightarrow> reference \<Rightarrow> (string \<times> string) option" where
  "reference_problem repository declared r =
     (case r of
        Ref_Variable name \<Rightarrow>
          if name \<notin> declared
          then Some (''variable_undeclared'',
                 ''vars.'' @ name @ '' is not declared in [spec.variables], any [spec.environments.<name>.variables], or [spec.previews.variables]'')
          else reference_unavailable repository r
      | _ \<Rightarrow> reference_unavailable repository r)"

definition check_declaration :: "bool \<Rightarrow> string \<times> string \<times> variable \<Rightarrow> validation_error list" where
  "check_declaration repository =
     (\<lambda>(path, name, v).
        push_when (\<not> valid_identifier name) ''variable_name_invalid'' path
          (''variable names start with a letter or '' @ quoted ''_'' @ '' and use letters, digits, '' @ quoted ''_''
           @ '', or '' @ quoted ''-'' @ '', at most 63 bytes'')
        @ (case v of
             Var_String t \<Rightarrow>
               push_when (MAX_VALUE_BYTES < length t) ''variable_value_excessive'' path
                 (''variable values must be at most '' @ show_nat MAX_VALUE_BYTES @ '' bytes'')
               @ template_check (value_problem repository) path t []
           | _ \<Rightarrow> []))"

text \<open>The closure of \<open>check_references\<close> as a visitor: it changes no value.\<close>

definition check_visitor :: "(string \<Rightarrow> template \<Rightarrow> 'e list \<Rightarrow> 'e list) \<Rightarrow> 'e list visitor" where
  "check_visitor check =
     \<lparr>on_text = \<lambda>path t errors. (t, check path t errors),
      on_u16 = \<lambda>path x errors. (x, case typed_template x of None \<Rightarrow> errors | Some t \<Rightarrow> check path t errors),
      on_u32 = \<lambda>path x errors. (x, case typed_template x of None \<Rightarrow> errors | Some t \<Rightarrow> check path t errors),
      on_u64 = \<lambda>path x errors. (x, case typed_template x of None \<Rightarrow> errors | Some t \<Rightarrow> check path t errors),
      on_order = \<lambda>path x errors. (x, case typed_template x of None \<Rightarrow> errors | Some t \<Rightarrow> check path t errors)\<rparr>"

definition check_references :: "application_spec \<Rightarrow> validation_error list" where
  "check_references spec =
     (let repository = as_manifest spec \<noteq> None;
          declared = set (map (\<lambda>(_, name, _). name) (declarations spec))
      in snd (visit_values (check_visitor (template_check (reference_problem repository declared))) spec []))"

definition check_variables :: "application_spec \<Rightarrow> validation_error list" where
  "check_variables spec =
     push_when
       (MAX_VARIABLES < length (sorted_keys (as_variables spec))
        \<or> MAX_VARIABLES < length (sorted_keys (pc_variables (as_previews spec)))
        \<or> list_ex (\<lambda>name. is_some_and (\<lambda>config. MAX_VARIABLES < length (sorted_keys (ec_variables config)))
              (Mapping.lookup (as_environments spec) name)) (sorted_keys (as_environments spec)))
       ''variable_count_excessive'' ''spec.variables''
       (''each variables table may declare at most '' @ show_nat MAX_VARIABLES @ '' variables'')
     @ push_when (MAX_ENVIRONMENTS < length (sorted_keys (as_environments spec))) ''variable_count_excessive''
         ''spec.environments'' (''at most '' @ show_nat MAX_ENVIRONMENTS @ '' environments may be configured'')
     @ concat (map (check_declaration (as_manifest spec \<noteq> None)) (declarations spec))
     @ check_references spec"

section \<open>The manifest (mod.rs)\<close>

definition APPLICATION_API_VERSION :: string where "APPLICATION_API_VERSION = ''piqueld.dev/v1alpha1''"
definition APPLICATION_KIND :: string where "APPLICATION_KIND = ''Application''"

definition validate_header :: "application_manifest \<Rightarrow> validation_error list" where
  "validate_header m =
     push_when (am_api_version m \<noteq> APPLICATION_API_VERSION) ''api_version_unsupported'' ''api_version''
       ''unsupported application API version''
     @ push_when (am_kind m \<noteq> APPLICATION_KIND) ''kind_unsupported'' ''kind'' ''resource kind must be Application''
     @ validate_name (am_name m) ''metadata.name''"

definition validate_manifest_source :: "repository_manifest \<Rightarrow> validation_error list" where
  "validate_manifest_source manifest =
     git_repository_validate (rm_repository manifest) ''spec.manifest.repository''
     @ sync_validate ''spec.manifest.sync'' (rm_sync manifest)
     @ (if mentions_reference (rm_path manifest)
        then [validation_error_new ''variable_not_allowed'' ''spec.manifest.path''
                ''the manifest path cannot reference variables'']
        else push_when (\<not> valid_repository_path (rm_path manifest)) ''repository_path_invalid''
          ''spec.manifest.path'' ''manifest path must remain within the repository root'')"

definition validate_services :: "application_spec \<Rightarrow> validation_error list" where
  "validate_services spec =
     check_list (\<lambda>index service.
       service_validate service (indexed ''spec.services'' index) (set (as_volumes spec)) (as_manifest spec \<noteq> None))
       0 (as_services spec)"

text \<open>Everything checked after the budgets, on the specification with canonical routes.\<close>

definition validate_spec :: "application_spec \<Rightarrow> validation_error list" where
  "validate_spec spec =
     unique_names (map svi_name (as_services spec)) ''spec.services'' ''service_name_duplicate''
     @ unique_names (as_volumes spec) ''spec.volumes'' ''volume_name_duplicate''
     @ validate_services spec
     @ validate_dependencies (as_services spec)
     @ validate_telemetry_receiver (as_services spec)
     @ push_when (MAX_TOTAL_FILE_BYTES < inline_file_bytes spec) ''file_total_excessive'' ''spec.services''
         (''inline file contents must total at most '' @ show_nat MAX_TOTAL_FILE_BYTES @ '' bytes'')
     @ validate_volumes (as_volumes spec)
     @ validate_generated_secrets (as_secrets spec)
     @ validate_jobs (as_services spec) (as_jobs spec)
     @ validate_links spec
     @ check_variables spec
     @ (case declared_environments spec of Inl invalid \<Rightarrow> invalid | Inr _ \<Rightarrow> [])"

fun canonical_source :: "source_input \<Rightarrow> source_input" where
  "canonical_source (Input_Image img) =
     (case as_literal img of
        None \<Rightarrow> Input_Image img
      | Some text \<Rightarrow> Input_Image (template_literal (canonicalize_image_reference text)))"
| "canonical_source (Input_Git repository build) = Input_Git repository build"

definition canonical_images :: "application_spec \<Rightarrow> application_spec" where
  "canonical_images spec =
     spec\<lparr>as_services := map (\<lambda>s. s\<lparr>svi_source := canonical_source (svi_source s)\<rparr>) (as_services spec)\<rparr>"

record validated_template =
  vt_name :: logical_name
  vt_spec :: application_spec

definition metadata_from_input :: "string \<Rightarrow> validation_errors + logical_name" where
  "metadata_from_input name =
     (case parse_logical_name name of
        None \<Rightarrow> Inl [validation_error_new ''name_invalid'' ''metadata.name''
                      ''application names must be 1-63 lowercase letters, digits, or hyphens, start with a letter, and end with a letter or digit'']
      | Some name \<Rightarrow> Inr name)"

definition validate_template :: "application_manifest \<Rightarrow> validation_errors + validated_template" where
  "validate_template m =
     (let spec = am_spec m;
          errors = validate_header m
            @ (case as_manifest spec of None \<Rightarrow> [] | Some manifest \<Rightarrow> validate_manifest_source manifest);
          over = within_budgets spec
      in if over \<noteq> [] then Inl (sorted_errors (errors @ over))
         else
           (let (spec, routes) = validate_routes spec;
                errors = errors @ routes @ validate_spec spec
            in if errors \<noteq> [] then Inl (sorted_errors errors)
               else
                 (case metadata_from_input (am_name m) of
                    Inl e \<Rightarrow> Inl e
                  | Inr name \<Rightarrow> Inr \<lparr>vt_name = name, vt_spec = canonical_images spec\<rparr>)))"

end
