(* ===== verification/Conversion.thy ===== *)
theory Conversion
  imports Validation
begin

text \<open>
  Conversion between the editable manifest and the validated values: \<open>from_input\<close> and \<open>to_input\<close> of
  \<open>crates/piqueld-core/src/manifest/domain.rs\<close>, \<open>routes.rs\<close> and \<open>links.rs\<close>, \<open>into_literal\<close> of \<open>template.rs\<close>.
  The code runs it after validation accepted the manifest, as a backstop: a field that does not
  convert is an error at its path, the first one in the order of the fields.
\<close>

section \<open>Values\<close>

definition unresolved :: "string \<Rightarrow> validation_error" where
  "unresolved path =
     validation_error_new ''variable_unresolved'' path ''references must be rendered for an environment first''"

definition invalid_name :: "string \<Rightarrow> string \<Rightarrow> validation_errors" where
  "invalid_name path message = [validation_error_new ''name_invalid'' path message]"

definition into_text :: "string \<Rightarrow> template \<Rightarrow> validation_errors + string" where
  "into_text path t = (case as_literal t of None \<Rightarrow> Inl [unresolved path] | Some text \<Rightarrow> Inr text)"

definition into_value :: "string \<Rightarrow> 'a typed \<Rightarrow> validation_errors + 'a" where
  "into_value path x = (case x of Typed_Literal v \<Rightarrow> Inr v | Typed_Template _ \<Rightarrow> Inl [unresolved path])"

text \<open>\<open>logical_name!\<close>: parsing, with the message of its error.\<close>

definition into_name :: "string \<Rightarrow> string \<Rightarrow> string \<Rightarrow> validation_errors + logical_name" where
  "into_name path subject name =
     (case parse_logical_name name of
        None \<Rightarrow> Inl (invalid_name path (subject @ '' must be 1-63 lowercase letters, digits, or hyphens, start with a letter, and end with a letter or digit''))
      | Some name \<Rightarrow> Inr name)"

text \<open>\<open>collect\<close> of results, and \<open>transpose\<close> of an optional one.\<close>

fun collect :: "(nat \<Rightarrow> 'a \<Rightarrow> 'e + 'b) \<Rightarrow> nat \<Rightarrow> 'a list \<Rightarrow> 'e + 'b list" where
  "collect f index [] = Inr []"
| "collect f index (x # xs) =
     and_then (f index x) (\<lambda>y. and_then (collect f (Suc index) xs) (\<lambda>ys. Inr (y # ys)))"

definition transpose :: "('a \<Rightarrow> 'e + 'b) \<Rightarrow> 'a option \<Rightarrow> 'e + 'b option" where
  "transpose f x = (case x of None \<Rightarrow> Inr None | Some v \<Rightarrow> and_then (f v) (\<lambda>y. Inr (Some y)))"

definition into_texts :: "string \<Rightarrow> template list \<Rightarrow> validation_errors + string list" where
  "into_texts base texts = collect (\<lambda>index. into_text (indexed base index)) 0 texts"

definition into_text_map ::
  "string \<Rightarrow> (string, template) mapping \<Rightarrow> validation_errors + (string, string) mapping" where
  "into_text_map base m =
     and_then
       (collect (\<lambda>_ key. and_then (into_text (base @ ''.'' @ key) (case Mapping.lookup m key of None \<Rightarrow> [] | Some t \<Rightarrow> t))
           (\<lambda>text. Inr (key, text))) 0 (sorted_keys m))
       (\<lambda>entries. Inr (Mapping.of_alist entries))"

definition literal_map :: "(string, string) mapping \<Rightarrow> (string, template) mapping" where
  "literal_map m = Mapping.map_values (\<lambda>_. template_literal) m"

section \<open>Services\<close>

fun source_from_input :: "string \<Rightarrow> source_input \<Rightarrow> validation_errors + validated_source" where
  "source_from_input base (Input_Image img) =
     and_then (into_text (base @ ''.image'') img) (\<lambda>img. Inr (Source_Image img))"
| "source_from_input base (Input_Git repository (Input_Docker dockerfile context args target)) =
     and_then (into_text (base @ ''.build.dockerfile'') dockerfile) (\<lambda>dockerfile.
     and_then (into_text (base @ ''.build.context'') context) (\<lambda>context.
     and_then (into_text_map (base @ ''.build.args'') args) (\<lambda>args.
     and_then (transpose (into_text (base @ ''.build.target'')) target) (\<lambda>target.
       Inr (Source_Build repository (Build_Docker dockerfile context args target))))))"

fun source_to_input :: "validated_source \<Rightarrow> source_input" where
  "source_to_input (Source_Image img) = Input_Image (template_literal img)"
| "source_to_input (Source_Build repository (Build_Docker dockerfile context args target)) =
     Input_Git repository (Input_Docker (template_literal dockerfile) (template_literal context)
       (literal_map args) (map_option template_literal target))"

fun health_from_input :: "string \<Rightarrow> health_input \<Rightarrow> validation_errors + health_check" where
  "health_from_input base (Input_Http port request_path interval timeout start retries) =
     and_then (into_value (base @ ''.port'') port) (\<lambda>port.
     and_then (into_text (base @ ''.path'') request_path) (\<lambda>request_path.
     and_then (into_value (base @ ''.interval_seconds'') interval) (\<lambda>interval.
     and_then (into_value (base @ ''.timeout_seconds'') timeout) (\<lambda>timeout.
     and_then (into_value (base @ ''.start_period_seconds'') start) (\<lambda>start.
     and_then (into_value (base @ ''.retries'') retries) (\<lambda>retries.
       Inr (Health_Http port request_path interval timeout start retries)))))))"
| "health_from_input base (Input_Command command interval timeout start retries) =
     and_then (into_texts (base @ ''.command'') command) (\<lambda>command.
     and_then (into_value (base @ ''.interval_seconds'') interval) (\<lambda>interval.
     and_then (into_value (base @ ''.timeout_seconds'') timeout) (\<lambda>timeout.
     and_then (into_value (base @ ''.start_period_seconds'') start) (\<lambda>start.
     and_then (into_value (base @ ''.retries'') retries) (\<lambda>retries.
       Inr (Health_Command command interval timeout start retries))))))"

fun health_to_input :: "health_check \<Rightarrow> health_input" where
  "health_to_input (Health_Http port request_path interval timeout start retries) =
     Input_Http (Typed_Literal port) (template_literal request_path) (Typed_Literal interval)
       (Typed_Literal timeout) (Typed_Literal start) (Typed_Literal retries)"
| "health_to_input (Health_Command command interval timeout start retries) =
     Input_Command (map template_literal command) (Typed_Literal interval) (Typed_Literal timeout)
       (Typed_Literal start) (Typed_Literal retries)"

definition limits_from_input :: "string \<Rightarrow> limits_input \<Rightarrow> validation_errors + resource_limits" where
  "limits_from_input base limits =
     and_then (transpose (into_value (base @ ''.cpu_millis'')) (li_cpu_millis limits)) (\<lambda>cpu.
     and_then (transpose (into_value (base @ ''.memory_bytes'')) (li_memory_bytes limits)) (\<lambda>memory.
       Inr \<lparr>rl_cpu_millis = cpu, rl_memory_bytes = memory\<rparr>))"

definition limits_to_input :: "resource_limits \<Rightarrow> limits_input" where
  "limits_to_input limits =
     \<lparr>li_cpu_millis = map_option Typed_Literal (rl_cpu_millis limits),
      li_memory_bytes = map_option Typed_Literal (rl_memory_bytes limits)\<rparr>"

definition rollout_from_input :: "string \<Rightarrow> rollout_input \<Rightarrow> validation_errors + validated_rollout" where
  "rollout_from_input base rollout =
     and_then (transpose (into_value (base @ ''.order'')) (ri_order rollout)) (\<lambda>order.
     and_then (transpose (into_value (base @ ''.monitor_seconds'')) (ri_monitor_seconds rollout)) (\<lambda>monitor.
       Inr \<lparr>ro_order = order, ro_monitor_seconds = monitor\<rparr>))"

definition rollout_to_input :: "validated_rollout \<Rightarrow> rollout_input" where
  "rollout_to_input rollout =
     \<lparr>ri_order = map_option Typed_Literal (ro_order rollout),
      ri_monitor_seconds = map_option Typed_Literal (ro_monitor_seconds rollout)\<rparr>"

definition secret_from_input :: "string \<Rightarrow> nat \<Rightarrow> secret_input \<Rightarrow> validation_errors + secret_mount" where
  "secret_from_input base index secret =
     and_then (into_text (indexed (base @ ''.secrets'') index @ ''.name'') (si_name secret)) (\<lambda>name.
       Inr \<lparr>sm_name = name, sm_target = si_target secret\<rparr>)"

definition secret_to_input :: "secret_mount \<Rightarrow> secret_input" where
  "secret_to_input secret = \<lparr>si_name = template_literal (sm_name secret), si_target = sm_target secret\<rparr>"

definition mount_from_input :: "string \<Rightarrow> nat \<Rightarrow> mount_input \<Rightarrow> validation_errors + validated_mount" where
  "mount_from_input base index mount =
     and_then (into_name (indexed (base @ ''.mounts'') index @ ''.volume'') ''volume names'' (mi_volume mount)) (\<lambda>volume.
       Inr \<lparr>vm_volume = volume, vm_target = mi_target mount, vm_read_only = mi_read_only mount\<rparr>)"

definition mount_to_input :: "validated_mount \<Rightarrow> mount_input" where
  "mount_to_input mount =
     \<lparr>mi_volume = vm_volume mount, mi_target = vm_target mount, mi_read_only = vm_read_only mount\<rparr>"

definition service_from_input :: "nat \<Rightarrow> service_input \<Rightarrow> validation_errors + validated_service" where
  "service_from_input index service =
     (let base = indexed ''spec.services'' index in
      and_then (into_name (base @ ''.name'') ''service names'' (svi_name service)) (\<lambda>name.
      and_then (source_from_input (base @ ''.source'') (svi_source service)) (\<lambda>source.
      and_then (into_value (base @ ''.replicas'') (svi_replicas service)) (\<lambda>replicas.
      and_then (into_text_map (base @ ''.environment'') (svi_environment service)) (\<lambda>environment.
      and_then (into_texts (base @ ''.command'') (svi_command service)) (\<lambda>command.
      and_then (into_texts (base @ ''.arguments'') (svi_arguments service)) (\<lambda>arguments.
      and_then (collect (secret_from_input base) 0 (svi_secrets service)) (\<lambda>secrets.
      and_then (collect (mount_from_input base) 0 (svi_mounts service)) (\<lambda>mounts.
      and_then (transpose (health_from_input (base @ ''.healthcheck'')) (svi_healthcheck service)) (\<lambda>healthcheck.
      and_then (transpose (limits_from_input (base @ ''.resources'')) (svi_resources service)) (\<lambda>resources.
      and_then (collect (\<lambda>i. into_name (indexed (base @ ''.depends_on'') i) ''service names'') 0
          (svi_depends_on service)) (\<lambda>depends_on.
      and_then (rollout_from_input (base @ ''.rollout'') (svi_rollout service)) (\<lambda>rollout.
        Inr \<lparr>vs_name = name, vs_source = source, vs_replicas = replicas, vs_environment = environment,
             vs_command = command, vs_arguments = arguments, vs_mounts = mounts, vs_secrets = secrets,
             vs_files = svi_files service, vs_healthcheck = healthcheck, vs_resources = resources,
             vs_depends_on = depends_on, vs_rollout = rollout,
             vs_receives_telemetry = svi_receives_telemetry service\<rparr>)))))))))))))"

definition service_to_input :: "validated_service \<Rightarrow> service_input" where
  "service_to_input s =
     \<lparr>svi_name = vs_name s, svi_source = source_to_input (vs_source s),
      svi_replicas = Typed_Literal (vs_replicas s), svi_environment = literal_map (vs_environment s),
      svi_command = map template_literal (vs_command s), svi_arguments = map template_literal (vs_arguments s),
      svi_mounts = map mount_to_input (vs_mounts s), svi_secrets = map secret_to_input (vs_secrets s),
      svi_files = vs_files s, svi_healthcheck = map_option health_to_input (vs_healthcheck s),
      svi_resources = map_option limits_to_input (vs_resources s), svi_depends_on = vs_depends_on s,
      svi_rollout = rollout_to_input (vs_rollout s), svi_receives_telemetry = vs_receives_telemetry s\<rparr>"

section \<open>Jobs, routes and links\<close>

definition job_from_input :: "nat \<Rightarrow> job_input \<Rightarrow> validation_errors + validated_job" where
  "job_from_input index job =
     (let path = indexed ''spec.jobs'' index in
      and_then (into_name (path @ ''.name'') ''job names'' (ji_name job)) (\<lambda>name.
      and_then (into_name (path @ ''.service'') ''service names'' (ji_service job)) (\<lambda>service.
      and_then (into_texts (path @ ''.command'') (ji_command job)) (\<lambda>command.
      and_then (into_text_map (path @ ''.environment'') (ji_environment job)) (\<lambda>environment.
      and_then (collect (secret_from_input path) 0 (ji_secrets job)) (\<lambda>secrets.
        Inr \<lparr>vj_name = name, vj_service = service, vj_command = command, vj_environment = environment,
             vj_secrets = secrets, vj_run = ji_run job, vj_timeout_seconds = ji_timeout_seconds job,
             vj_volume_access = ji_volume_access job, vj_stop_service = ji_stop_service job\<rparr>))))))"

definition job_to_input :: "validated_job \<Rightarrow> job_input" where
  "job_to_input j =
     \<lparr>ji_name = vj_name j, ji_service = vj_service j, ji_command = map template_literal (vj_command j),
      ji_environment = literal_map (vj_environment j), ji_secrets = map secret_to_input (vj_secrets j),
      ji_run = vj_run j, ji_timeout_seconds = vj_timeout_seconds j,
      ji_volume_access = vj_volume_access j, ji_stop_service = vj_stop_service j\<rparr>"

definition route_literal :: "string \<Rightarrow> template \<Rightarrow> validation_errors + string" where
  "route_literal path t =
     (case as_literal t of
        None \<Rightarrow> Inl (invalid_name path ''references must be rendered for an environment first'')
      | Some text \<Rightarrow> Inr text)"

definition redirect_from_input :: "string \<Rightarrow> redirect_input \<Rightarrow> validation_errors + validated_redirect" where
  "redirect_from_input path redirect =
     and_then (route_literal path (rdi_to redirect)) (\<lambda>to.
       case parse_redirect_url to of
         None \<Rightarrow> Inl (invalid_name path REDIRECT_URL_MESSAGE)
       | Some to \<Rightarrow>
           (case redirect_status_of (rdi_status redirect) of
              None \<Rightarrow> Inl (invalid_name path REDIRECT_STATUS_MESSAGE)
            | Some status \<Rightarrow>
                Inr \<lparr>vrd_to = to, vrd_status = status, vrd_preserve_path = rdi_preserve_path redirect\<rparr>))"

definition ROUTE_HOSTNAME_MESSAGE :: string where
  "ROUTE_HOSTNAME_MESSAGE =
     ''hostname must be an exact public DNS name, or '' @ quoted ''*.'' @ '' followed by one (use ASCII/Punycode, without a scheme, path, or port)''"

text \<open>\<open>RouteTarget::try_from\<close>\<close>

fun route_target_of ::
  "string \<Rightarrow> logical_name option \<times> u16 option \<times> validated_redirect option \<Rightarrow> validation_errors + route_target" where
  "route_target_of path (Some service, Some port, None) = Inr (Route_Service service port)"
| "route_target_of path (None, None, Some redirect) = Inr (Route_Redirect redirect)"
| "route_target_of path _ = Inl (invalid_name path ROUTE_TARGET_MESSAGE)"

definition route_from_input :: "nat \<Rightarrow> route_input \<Rightarrow> validation_errors + validated_route" where
  "route_from_input index route =
     (let path = indexed ''spec.routes'' index in
      and_then (transpose (into_name path ''service names'') (rti_service route)) (\<lambda>service.
      and_then (transpose (\<lambda>port. if port = 0 then Inl (invalid_name path ''port must be nonzero'') else Inr port)
          (rti_port route)) (\<lambda>port.
      and_then (transpose (redirect_from_input path) (rti_redirect route)) (\<lambda>redirect.
      and_then (transpose (into_name path ''route names'') (rti_name route)) (\<lambda>name.
      and_then (route_literal path (rti_hostname route)) (\<lambda>hostname.
      and_then (case parse_route_hostname hostname of
                  None \<Rightarrow> Inl (invalid_name path ROUTE_HOSTNAME_MESSAGE) | Some hostname \<Rightarrow> Inr hostname) (\<lambda>hostname.
      and_then (route_target_of path (service, port, redirect)) (\<lambda>target.
        Inr \<lparr>vr_hostname = hostname, vr_name = name, vr_visibility = rti_visibility route,
             vr_target = target\<rparr>))))))))"

definition route_to_input :: "validated_route \<Rightarrow> route_input" where
  "route_to_input r =
     (let (service, port, redirect) =
        (case vr_target r of
           Route_Service service port \<Rightarrow> (Some service, Some port, None)
         | Route_Redirect redirect \<Rightarrow>
             (None, None, Some \<lparr>rdi_to = template_literal (vrd_to redirect),
                rdi_status = redirect_status_code (vrd_status redirect),
                rdi_preserve_path = vrd_preserve_path redirect\<rparr>))
      in \<lparr>rti_hostname = template_literal (vr_hostname r), rti_name = vr_name r,
          rti_visibility = vr_visibility r, rti_service = service, rti_port = port, rti_redirect = redirect\<rparr>)"

definition export_from_input :: "nat \<Rightarrow> export_input \<Rightarrow> validation_errors + validated_export" where
  "export_from_input index e =
     (let path = indexed ''spec.exports'' index in
      and_then (into_name (path @ ''.service'') ''service names'' (xi_service e)) (\<lambda>service.
      and_then (collect (\<lambda>_. into_name (path @ ''.applications'') ''application names'') 0 (xi_applications e)) (\<lambda>applications.
        Inr \<lparr>ve_service = service, ve_applications = set applications, ve_previews = xi_previews e\<rparr>)))"

definition export_to_input :: "validated_export \<Rightarrow> export_input" where
  "export_to_input e =
     \<lparr>xi_service = ve_service e, xi_applications = sorted_list_of_set (ve_applications e),
      xi_previews = ve_previews e\<rparr>"

definition import_environment :: "string \<Rightarrow> template \<Rightarrow> validation_errors + logical_name" where
  "import_environment path t =
     and_then (into_text path t) (\<lambda>text.
       case parse_logical_name text of
         None \<Rightarrow> Inl (invalid_name path ENVIRONMENT_NAME_MESSAGE) | Some name \<Rightarrow> Inr name)"

definition import_from_input :: "nat \<Rightarrow> import_input \<Rightarrow> validation_errors + validated_import" where
  "import_from_input index i =
     (let path = indexed ''spec.imports'' index in
      and_then (into_name (path @ ''.application'') ''application names'' (ii_application i)) (\<lambda>application.
      and_then (into_name (path @ ''.service'') ''service names'' (ii_service i)) (\<lambda>service.
      and_then (transpose (import_environment (path @ ''.environment'')) (ii_environment i)) (\<lambda>environment.
        Inr \<lparr>vi_application = application, vi_service = service, vi_environment = environment\<rparr>))))"

definition import_to_input :: "validated_import \<Rightarrow> import_input" where
  "import_to_input i =
     \<lparr>ii_application = vi_application i, ii_service = vi_service i,
      ii_environment = map_option template_literal (vi_environment i)\<rparr>"

section \<open>The specification\<close>

definition spec_from_input :: "application_spec \<Rightarrow> validation_errors + validated_spec" where
  "spec_from_input spec =
     and_then (collect route_from_input 0 (as_routes spec)) (\<lambda>routes.
     and_then (collect job_from_input 0 (as_jobs spec)) (\<lambda>jobs.
     and_then (collect export_from_input 0 (as_exports spec)) (\<lambda>exports.
     and_then (collect import_from_input 0 (as_imports spec)) (\<lambda>imports.
     and_then (collect service_from_input 0 (as_services spec)) (\<lambda>services.
     and_then (collect (\<lambda>index. into_name (indexed ''spec.volumes'' index @ ''.name'') ''volume names'') 0
         (as_volumes spec)) (\<lambda>volumes.
       Inr \<lparr>sp_manifest = as_manifest spec, sp_services = services, sp_volumes = volumes, sp_routes = routes,
            sp_secrets = as_secrets spec, sp_jobs = jobs, sp_exports = exports, sp_imports = imports\<rparr>))))))"

definition spec_to_input :: "validated_spec \<Rightarrow> application_spec" where
  "spec_to_input s =
     \<lparr>as_manifest = sp_manifest s, as_services = map service_to_input (sp_services s),
      as_volumes = sp_volumes s, as_routes = map route_to_input (sp_routes s), as_secrets = sp_secrets s,
      as_jobs = map job_to_input (sp_jobs s), as_exports = map export_to_input (sp_exports s),
      as_imports = map import_to_input (sp_imports s), as_variables = Mapping.empty,
      as_environments = Mapping.empty, as_previews = preview_config_default\<rparr>"

text \<open>\<open>ValidatedTemplate::into_literal\<close> (template.rs)\<close>

record validated_application =
  va_name :: logical_name
  va_spec :: validated_spec

definition unresolved_check :: "string \<Rightarrow> template \<Rightarrow> validation_error list \<Rightarrow> validation_error list" where
  "unresolved_check path t errors = (if as_literal t = None then errors @ [unresolved path] else errors)"

definition into_literal :: "validated_template \<Rightarrow> validation_errors + validated_application" where
  "into_literal t =
     (let errors = snd (visit_values (check_visitor unresolved_check) (vt_spec t) [])
      in if errors \<noteq> [] then Inl (sorted_errors errors)
         else and_then (spec_from_input (vt_spec t)) (\<lambda>spec. Inr \<lparr>va_name = vt_name t, va_spec = spec\<rparr>))"

text \<open>\<open>ApplicationManifest::validate\<close>\<close>

definition manifest_validate :: "application_manifest \<Rightarrow> validation_errors + validated_application" where
  "manifest_validate m = and_then (validate_template m) into_literal"

end
