(* ===== verification/Conversion_Facts.thy ===== *)
theory Conversion_Facts
  imports Conversion
begin

text \<open>
  When an accepted manifest converts: the conversion of each part fails exactly when one of its values
  is not literal, and then reports \<open>variable_unresolved\<close>. \<open>converts ok r\<close> says so of a result; it is closed
  under the operations conversions are made of.
\<close>

section \<open>Literal slots\<close>

text \<open>A text is literal when it references nothing; a typed setting only when it is written directly.\<close>

definition slot_literal :: "slot \<Rightarrow> bool" where
  "slot_literal x = (case x of Slot_Text t \<Rightarrow> as_literal t \<noteq> None | _ \<Rightarrow> slot_template x = None)"

definition all_literal :: "slots \<Rightarrow> bool" where
  "all_literal xs = list_all (\<lambda>p. slot_literal (snd p)) xs"

named_theorems literal_simps

lemma all_literal_base [literal_simps]:
  "all_literal []" "all_literal (xs @ ys) \<longleftrightarrow> all_literal xs \<and> all_literal ys"
  "all_literal (text_slot path t) \<longleftrightarrow> as_literal t \<noteq> None"
  "all_literal (u16_slot path x) \<longleftrightarrow> typed_template x = None"
  "all_literal (u32_slot path y) \<longleftrightarrow> typed_template y = None"
  "all_literal [(path, Slot_U64 z)] \<longleftrightarrow> typed_template z = None"
  "all_literal [(path, Slot_Order w)] \<longleftrightarrow> typed_template w = None"
  by (simp_all add: all_literal_def slot_literal_def text_slot_def u16_slot_def u32_slot_def)

lemma all_literal_list [literal_simps]:
  "all_literal (slots_list g n xs) \<longleftrightarrow> (\<forall>i < length xs. all_literal (g (n + i) (xs ! i)))"
proof (induction xs arbitrary: n)
  case (Cons x xs)
  have "(\<forall>i < length (x # xs). all_literal (g (n + i) ((x # xs) ! i))) \<longleftrightarrow>
      all_literal (g n x) \<and> (\<forall>i < length xs. all_literal (g (Suc n + i) (xs ! i)))"
    by (auto simp: less_Suc_eq_0_disj)
  then show ?case using Cons by (simp add: literal_simps)
qed (simp add: literal_simps)

lemma all_literal_texts [literal_simps]:
  "all_literal (slots_texts base ts) \<longleftrightarrow> list_all (\<lambda>t. as_literal t \<noteq> None) ts"
  by (simp add: slots_texts_def literal_simps list_all_length)

lemma all_literal_map [literal_simps]:
  "all_literal (slots_map (\<lambda>k. text_slot (path k)) m) \<longleftrightarrow>
   list_all (\<lambda>k. as_literal (case Mapping.lookup m k of None \<Rightarrow> [] | Some t \<Rightarrow> t) \<noteq> None) (sorted_keys m)"
proof -
  have "as_literal [] \<noteq> None" by (simp add: as_literal_def contains_str_def OPEN_def)
  then have "all_literal (slots_keys (\<lambda>k. text_slot (path k)) ks m) \<longleftrightarrow>
      list_all (\<lambda>k. as_literal (case Mapping.lookup m k of None \<Rightarrow> [] | Some t \<Rightarrow> t) \<noteq> None) ks" for ks
    by (induction ks) (auto simp: slots_keys_def literal_simps split: option.splits)
  then show ?thesis by (simp add: slots_map_def)
qed

lemma all_literal_option [literal_simps]:
  "all_literal (slots_option g x) \<longleftrightarrow> (\<forall>v. x = Some v \<longrightarrow> all_literal (g v))"
  by (simp add: slots_option_def literal_simps split: option.splits)

section \<open>Converting\<close>

definition converts :: "bool \<Rightarrow> validation_errors + 'a \<Rightarrow> bool" where
  "converts ok r \<longleftrightarrow>
     (case r of Inr _ \<Rightarrow> ok | Inl errors \<Rightarrow> \<not> ok \<and> (\<exists>path. errors = [unresolved path]))"

named_theorems converts_intros

lemma converts_eq: "converts a r \<Longrightarrow> a = b \<Longrightarrow> converts b r"
  by simp

lemma converts_and [converts_intros]:
  "converts a r \<Longrightarrow> (\<And>x. r = Inr x \<Longrightarrow> converts b (f x)) \<Longrightarrow> converts (a \<and> b) (and_then r f)"
  by (cases r) (auto simp: converts_def split: sum.splits)

lemma converts_base [converts_intros]:
  "converts True (Inr x)"
  "converts (as_literal t \<noteq> None) (into_text path t)"
  "converts (typed_template v = None) (into_value path v)"
  by (auto simp: converts_def into_text_def into_value_def split: option.splits typed.splits)

lemma converts_name: "valid_logical_name name \<Longrightarrow> converts True (into_name path subject name)"
  by (simp add: converts_def into_name_def parse_logical_name_def validated_parse_def)

lemma converts_collect:
  "(\<And>i. i < length xs \<Longrightarrow> converts (ok (xs ! i)) (f (n + i) (xs ! i))) \<Longrightarrow>
   converts (list_all ok xs) (collect f n xs)"
proof (induction xs arbitrary: n)
  case (Cons x xs)
  have "converts (ok x) (f n x)" using Cons.prems [of 0] by simp
  moreover have "converts (list_all ok xs) (collect f (Suc n) xs)"
    using Cons.IH [of "Suc n"] Cons.prems [of "Suc _"] by simp
  ultimately have "converts (ok x \<and> list_all ok xs \<and> True)
      (and_then (f n x) (\<lambda>y. and_then (collect f (Suc n) xs) (\<lambda>ys. Inr (y # ys))))"
    by (intro converts_and) (simp_all add: converts_base)
  then show ?case by simp
qed (simp add: converts_def)

lemma converts_all: "(\<And>i x. x \<in> set xs \<Longrightarrow> converts (ok x) (f i x)) \<Longrightarrow> converts (list_all ok xs) (collect f n xs)"
  by (rule converts_collect) simp

lemma converts_transpose [converts_intros]:
  "(\<And>v. x = Some v \<Longrightarrow> converts (ok v) (f v)) \<Longrightarrow>
   converts (\<forall>v. x = Some v \<longrightarrow> ok v) (transpose f x)"
proof (cases x)
  case (Some v)
  assume "\<And>v. x = Some v \<Longrightarrow> converts (ok v) (f v)"
  then have "converts (ok v \<and> True) (and_then (f v) (\<lambda>y. Inr (Some y)))"
    using Some by (intro converts_intros) auto
  then show ?thesis by (simp add: Some transpose_def)
qed (simp add: transpose_def converts_def)

lemma converts_texts [converts_intros]:
  "converts (list_all (\<lambda>t. as_literal t \<noteq> None) ts) (into_texts base ts)"
  unfolding into_texts_def by (rule converts_all, (rule converts_intros)+)

lemma converts_text_map [converts_intros]:
  "converts (list_all (\<lambda>k. as_literal (case Mapping.lookup m k of None \<Rightarrow> [] | Some t \<Rightarrow> t) \<noteq> None) (sorted_keys m))
     (into_text_map base m)"
proof -
  let ?ok = "\<lambda>k. as_literal (case Mapping.lookup m k of None \<Rightarrow> [] | Some t \<Rightarrow> t) \<noteq> None"
  have "converts (list_all (\<lambda>k. ?ok k \<and> True) (sorted_keys m) \<and> True) (into_text_map base m)"
    unfolding into_text_map_def by (rule converts_and, rule converts_all, (rule converts_intros)+)
  then show ?thesis by simp
qed

text \<open>Each part converts exactly when its slots are literal.\<close>

definition literal_source :: "source_input \<Rightarrow> bool" where "literal_source s = all_literal (slots_source [] s)"
definition literal_health :: "health_input \<Rightarrow> bool" where "literal_health h = all_literal (slots_health [] h)"
definition literal_limits :: "limits_input \<Rightarrow> bool" where "literal_limits l = all_literal (slots_limits [] l)"
definition literal_rollout :: "rollout_input \<Rightarrow> bool" where "literal_rollout r = all_literal (slots_rollout [] r)"

lemma all_literal_parts [literal_simps]:
  "all_literal (slots_source path s) \<longleftrightarrow> literal_source s"
  "all_literal (slots_health path h) \<longleftrightarrow> literal_health h"
  "all_literal (slots_limits path l) \<longleftrightarrow> literal_limits l"
  "all_literal (slots_rollout path r) \<longleftrightarrow> literal_rollout r"
  unfolding literal_source_def literal_health_def literal_limits_def literal_rollout_def
     apply (cases "(path, s)" rule: slots_source.cases; simp add: literal_simps)
    apply (cases h; simp add: literal_simps)
   apply (simp_all add: slots_limits_def slots_rollout_def literal_simps)
  done

lemma converts_source [converts_intros]:
  "converts (literal_source s) (source_from_input base s)"
proof (induction base s rule: source_from_input.induct)
  case (1 base img)
  show ?case unfolding source_from_input.simps
    by ((rule converts_eq, (rule converts_intros)+), simp add: literal_source_def literal_health_def literal_simps)
next
  case (2 base repository dockerfile ctx args target)
  show ?case unfolding source_from_input.simps
    by ((rule converts_eq, (rule converts_intros)+), simp add: literal_source_def literal_health_def literal_simps)
qed

lemma converts_health [converts_intros]:
  "converts (literal_health h) (health_from_input base h)"
proof (cases h)
  case (Input_Http port request_path i t s r)
  show ?thesis unfolding Input_Http health_from_input.simps
    by ((rule converts_eq, (rule converts_intros)+), simp add: literal_source_def literal_health_def literal_simps)
next
  case (Input_Command command i t s r)
  show ?thesis unfolding Input_Command health_from_input.simps
    by ((rule converts_eq, (rule converts_intros)+), simp add: literal_source_def literal_health_def literal_simps)
qed

lemma converts_limits [converts_intros]:
  "converts (literal_limits l) (limits_from_input base l)"
  unfolding limits_from_input_def
  by ((rule converts_eq, (rule converts_intros)+), simp add: literal_limits_def slots_limits_def literal_simps)

lemma converts_rollout [converts_intros]:
  "converts (literal_rollout r) (rollout_from_input base r)"
  unfolding rollout_from_input_def
  by ((rule converts_eq, (rule converts_intros)+), simp add: literal_rollout_def slots_rollout_def literal_simps)

lemma converts_secrets [converts_intros]:
  "converts (list_all (\<lambda>s. as_literal (si_name s) \<noteq> None \<and> True) secrets)
     (collect (secret_from_input base) n secrets)"
  unfolding secret_from_input_def by (rule converts_all, (rule converts_intros)+)

lemma all_literal_container [literal_simps]:
  "all_literal (slots_container base environment secrets) \<longleftrightarrow>
   list_all (\<lambda>k. as_literal (case Mapping.lookup environment k of None \<Rightarrow> [] | Some t \<Rightarrow> t) \<noteq> None) (sorted_keys environment)
   \<and> list_all (\<lambda>s. as_literal (si_name s) \<noteq> None) secrets"
  by (simp add: slots_container_def literal_simps list_all_length)

text \<open>What validation leaves to the conversion: valid names, and routes that are well formed.\<close>

definition service_names_ok :: "service_input \<Rightarrow> bool" where
  "service_names_ok s \<longleftrightarrow>
     valid_logical_name (svi_name s) \<and> list_all valid_logical_name (svi_depends_on s)
     \<and> list_all (\<lambda>m. valid_logical_name (mi_volume m)) (svi_mounts s)"

lemma converts_names:
  "list_all valid_logical_name names \<Longrightarrow>
   converts (list_all (\<lambda>_. True) names) (collect (\<lambda>i. into_name (path i) subject) n names)"
  by (intro converts_all converts_name) (simp add: list_all_iff)

lemma converts_mounts:
  "list_all (\<lambda>m. valid_logical_name (mi_volume m)) mounts \<Longrightarrow>
   converts (list_all (\<lambda>_. True \<and> True) mounts) (collect (mount_from_input base) n mounts)"
  unfolding mount_from_input_def
  by (rule converts_all, rule converts_and, rule converts_name, simp add: list_all_iff, rule converts_base)

lemma converts_service:
  assumes "service_names_ok s"
  shows "converts (all_literal (slots_service i s)) (service_from_input j s)"
proof -
  note names = assms [unfolded service_names_ok_def]
  show ?thesis
    unfolding service_from_input_def Let_def
    apply (rule converts_eq)
     apply (rule converts_name [OF conjunct1 [OF names]] converts_mounts [OF conjunct2 [OF conjunct2 [OF names]]]
        converts_names [OF conjunct1 [OF conjunct2 [OF names]]] converts_intros)+
    apply (simp add: slots_service_def Let_def literal_simps list_all_iff conj_ac)
    done
qed

definition job_names_ok :: "job_input \<Rightarrow> bool" where
  "job_names_ok j \<longleftrightarrow> valid_logical_name (ji_name j) \<and> valid_logical_name (ji_service j)"

lemma converts_job:
  assumes "job_names_ok j"
  shows "converts (all_literal (slots_job i j)) (job_from_input k j)"
proof -
  note names = assms [unfolded job_names_ok_def]
  show ?thesis
    unfolding job_from_input_def Let_def
    apply (rule converts_eq)
     apply (rule converts_name [OF conjunct1 [OF names]] converts_name [OF conjunct2 [OF names]] converts_intros)+
    apply (simp add: slots_job_def literal_simps list_all_iff conj_ac)
    done
qed

definition export_names_ok :: "export_input \<Rightarrow> bool" where
  "export_names_ok e \<longleftrightarrow> valid_logical_name (xi_service e) \<and> list_all valid_logical_name (xi_applications e)"

lemma converts_export: "export_names_ok e \<Longrightarrow> converts True (export_from_input i e)"
proof -
  assume "export_names_ok e"
  note names = this [unfolded export_names_ok_def]
  show ?thesis
    unfolding export_from_input_def Let_def
    apply (rule converts_eq)
     apply (rule converts_name [OF conjunct1 [OF names]] converts_names [OF conjunct2 [OF names]] converts_intros)+
    apply (simp add: list_all_iff)
    done
qed

definition import_names_ok :: "import_input \<Rightarrow> bool" where
  "import_names_ok i \<longleftrightarrow>
     valid_logical_name (ii_application i) \<and> valid_logical_name (ii_service i)
     \<and> (case Option.bind (ii_environment i) as_literal of None \<Rightarrow> True | Some e \<Rightarrow> valid_logical_name e)"

lemma converts_import:
  assumes "import_names_ok i"
  shows "converts (all_literal (slots_import n i)) (import_from_input k i)"
proof -
  have names: "valid_logical_name (ii_application i)" "valid_logical_name (ii_service i)"
    using assms by (simp_all add: import_names_ok_def)
  have environment: "converts (as_literal t \<noteq> None) (import_environment path t)" if "ii_environment i = Some t" for path t
    using assms that
    by (cases "as_literal t")
      (auto simp: import_names_ok_def import_environment_def into_text_def converts_def parse_logical_name_def validated_parse_def)
  show ?thesis
    unfolding import_from_input_def Let_def
    apply (rule converts_eq)
     apply (rule converts_and, rule converts_name, rule names, rule converts_and, rule converts_name, rule names,
        rule converts_and, rule converts_transpose, erule environment, rule converts_base)
    apply (simp add: slots_import_def literal_simps)
    done
qed

text \<open>A route with a literal hostname and target converts.\<close>

definition redirect_ok :: "redirect_input \<Rightarrow> bool" where
  "redirect_ok r \<longleftrightarrow>
     redirect_status_of (rdi_status r) \<noteq> None
     \<and> (case as_literal (rdi_to r) of None \<Rightarrow> True | Some to \<Rightarrow> valid_redirect_url to)"

definition route_ok :: "route_input \<Rightarrow> bool" where
  "route_ok r \<longleftrightarrow>
     (case rti_name r of None \<Rightarrow> True | Some name \<Rightarrow> valid_logical_name name)
     \<and> (case as_literal (rti_hostname r) of None \<Rightarrow> True | Some h \<Rightarrow> valid_route_hostname h)
     \<and> (case (rti_service r, rti_port r, rti_redirect r) of
          (Some service, Some port, None) \<Rightarrow> valid_logical_name service \<and> port \<noteq> 0
        | (None, None, Some redirect) \<Rightarrow> redirect_ok redirect
        | _ \<Rightarrow> False)"

lemma redirect_converts:
  assumes "redirect_ok r" "as_literal (rdi_to r) \<noteq> None"
  shows "\<exists>v. redirect_from_input path r = Inr v"
  using assms by (auto simp: redirect_ok_def redirect_from_input_def route_literal_def parse_redirect_url_def validated_parse_def)

lemma route_converts:
  assumes "route_ok r" "as_literal (rti_hostname r) \<noteq> None"
    and "\<And>redirect. rti_redirect r = Some redirect \<Longrightarrow> as_literal (rdi_to redirect) \<noteq> None"
  shows "\<exists>v. route_from_input i r = Inr v"
proof -
  obtain h where h: "as_literal (rti_hostname r) = Some h" "valid_route_hostname h"
    using assms(1,2) by (auto simp: route_ok_def)
  obtain name where name: "transpose (into_name (indexed ''spec.routes'' i) ''route names'') (rti_name r) = Inr name"
    using assms(1) by (cases "rti_name r")
      (auto simp: route_ok_def transpose_def into_name_def parse_logical_name_def validated_parse_def)
  consider (service) service port where "rti_service r = Some service" "rti_port r = Some port" "rti_redirect r = None"
      "valid_logical_name service" "port \<noteq> 0"
    | (redirect) redirect where "rti_service r = None" "rti_port r = None" "rti_redirect r = Some redirect"
      "redirect_ok redirect"
    using assms(1) by (auto simp: route_ok_def split: option.splits)
  then show ?thesis
  proof cases
    case service
    then show ?thesis using h name
      by (simp add: route_from_input_def Let_def transpose_def into_name_def parse_logical_name_def
          validated_parse_def route_literal_def parse_route_hostname_def)
  next
    case redirect
    then obtain v where "redirect_from_input (indexed ''spec.routes'' i) redirect = Inr v"
      using redirect_converts assms(3) by blast
    then show ?thesis using h name redirect
      by (simp add: route_from_input_def Let_def transpose_def route_literal_def parse_route_hostname_def validated_parse_def)
  qed
qed

text \<open>The whole specification. No text of a route may be a reference: such a route is reported before.\<close>

definition conversion_ready :: "application_spec \<Rightarrow> bool" where
  "conversion_ready spec \<longleftrightarrow>
     list_all service_names_ok (as_services spec) \<and> list_all job_names_ok (as_jobs spec)
     \<and> list_all export_names_ok (as_exports spec) \<and> list_all import_names_ok (as_imports spec)
     \<and> list_all valid_logical_name (as_volumes spec) \<and> list_all route_ok (as_routes spec)"

definition texts_literal :: "slots \<Rightarrow> bool" where
  "texts_literal xs = list_all (\<lambda>p. case snd p of Slot_Text t \<Rightarrow> as_literal t \<noteq> None | _ \<Rightarrow> True) xs"

lemma texts_literal_routes:
  assumes "texts_literal (slots_list slots_route n routes)" "i < length routes"
  shows "as_literal (rti_hostname (routes ! i)) \<noteq> None"
    "rti_redirect (routes ! i) = Some redirect \<Longrightarrow> as_literal (rdi_to redirect) \<noteq> None"
  using assms
proof (induction routes arbitrary: n i)
  case (Cons r routes)
  { case 1 with Cons show ?case
      by (cases i) (auto simp: texts_literal_def slots_route_def text_slot_def) }
  { case 2 with Cons show ?case
      by (cases i) (auto simp: texts_literal_def slots_route_def text_slot_def slots_option_def) }
qed simp_all

lemma converts_spec:
  assumes "conversion_ready spec" "texts_literal (spec_slots spec)"
  shows "converts (all_literal (spec_slots spec)) (spec_from_input spec)"
proof -
  note ready = assms(1) [unfolded conversion_ready_def]
  have texts: "texts_literal (slots_list slots_route 0 (as_routes spec))"
    using assms(2) by (simp add: spec_slots_def texts_literal_def)
  have route_literal: "all_literal (slots_route (0 + i) (as_routes spec ! i))" if "i < length (as_routes spec)" for i
    using texts_literal_routes [OF texts that] by (auto simp: slots_route_def literal_simps)
  have "converts (list_all (\<lambda>_. True) (as_routes spec)) (collect route_from_input 0 (as_routes spec))"
  proof (rule converts_collect)
    fix i assume i: "i < length (as_routes spec)"
    then have "route_ok (as_routes spec ! i)" using ready by (simp add: list_all_length)
    from route_converts [OF this texts_literal_routes [OF texts i]]
    obtain v where "route_from_input i (as_routes spec ! i) = Inr v" by blast
    then show "converts True (route_from_input (0 + i) (as_routes spec ! i))" by (simp add: converts_def)
  qed
  moreover have "converts (list_all (\<lambda>j. all_literal (slots_job 0 j)) (as_jobs spec)) (collect job_from_input 0 (as_jobs spec))"
    using ready by (intro converts_all converts_job) (simp add: list_all_iff)
  moreover have "converts (list_all (\<lambda>_. True) (as_exports spec)) (collect export_from_input 0 (as_exports spec))"
    using ready by (intro converts_all converts_export) (simp add: list_all_iff)
  moreover have "converts (list_all (\<lambda>j. all_literal (slots_import 0 j)) (as_imports spec)) (collect import_from_input 0 (as_imports spec))"
    using ready by (intro converts_all converts_import) (simp add: list_all_iff)
  moreover have "converts (list_all (\<lambda>s. all_literal (slots_service 0 s)) (as_services spec)) (collect service_from_input 0 (as_services spec))"
    using ready by (intro converts_all converts_service) (simp add: list_all_iff)
  moreover have "converts (list_all (\<lambda>_. True) (as_volumes spec))
      (collect (\<lambda>index. into_name (indexed ''spec.volumes'' index @ ''.name'') ''volume names'') 0 (as_volumes spec))"
    using ready by (intro converts_names) simp
  ultimately have "converts (list_all (\<lambda>_. True) (as_routes spec) \<and> list_all (\<lambda>j. all_literal (slots_job 0 j)) (as_jobs spec)
      \<and> list_all (\<lambda>_. True) (as_exports spec) \<and> list_all (\<lambda>j. all_literal (slots_import 0 j)) (as_imports spec)
      \<and> list_all (\<lambda>s. all_literal (slots_service 0 s)) (as_services spec) \<and> list_all (\<lambda>_. True) (as_volumes spec) \<and> True)
      (spec_from_input spec)"
    unfolding spec_from_input_def by (intro converts_and converts_base)
  moreover have "all_literal (slots_service n s) = all_literal (slots_service 0 s)"
    "all_literal (slots_job n j) = all_literal (slots_job 0 j)"
    "all_literal (slots_import n m) = all_literal (slots_import 0 m)" for n s j m
    by (simp_all add: slots_service_def slots_job_def slots_import_def Let_def literal_simps)
  then have "all_literal (spec_slots spec) \<longleftrightarrow>
      list_all (\<lambda>s. all_literal (slots_service 0 s)) (as_services spec)
      \<and> list_all (\<lambda>j. all_literal (slots_job 0 j)) (as_jobs spec)
      \<and> list_all (\<lambda>j. all_literal (slots_import 0 j)) (as_imports spec)"
    using route_literal by (simp only: spec_slots_def literal_simps list_all_length) blast
  ultimately show ?thesis by (simp add: conj_ac list.pred_True)
qed

end
