(* ===== verification/Acceptance.thy ===== *)
theory Acceptance
  imports Conversion_Facts
begin

text \<open>
  What a manifest that validation accepted guarantees: the conversion to validated values fails only
  for values that are not literal, and the result is well formed, so that the code that compiles, plans
  and deploys it may rely on unique names, declared references, an acyclic startup order and routes that
  do not loop.
\<close>

section \<open>Checks that report nothing\<close>

named_theorems accepts

lemma validate_name_nil [accepts]: "validate_name name path = [] \<Longrightarrow> valid_logical_name name"
  by (simp add: validate_name_def split: if_splits)

lemma duplicate_names_nil:
  "duplicate_names path code n found names = [] \<longleftrightarrow> distinct names \<and> set names \<inter> found = {}"
  by (induction names arbitrary: n found) auto

lemma unique_names_nil [accepts]: "unique_names names path code = [] \<longleftrightarrow> distinct names"
  by (simp add: unique_names_def duplicate_names_nil)

lemma check_list_each: "check_list f n xs = [] \<Longrightarrow> i < length xs \<Longrightarrow> f (n + i) (xs ! i) = []"
  by (simp add: check_list_nil)

lemma check_list_all: "check_list f n xs = [] \<Longrightarrow> (\<And>i x. f i x = [] \<Longrightarrow> P x) \<Longrightarrow> list_all P xs"
  by (induction xs arbitrary: n) auto

lemma mount_list_nil:
  "validate_mount_list base volume_names n targets mounts = [] \<Longrightarrow>
   list_all (\<lambda>m. mi_volume m \<in> volume_names) mounts \<and> distinct (map mi_target mounts)
   \<and> set (map mi_target mounts) \<inter> targets = {}"
  by (induction mounts arbitrary: n targets) (auto simp: Let_def)

lemma dependency_list_nil:
  "validate_dependency_list names base n listed dependencies = [] \<Longrightarrow>
   set dependencies \<subseteq> names \<and> distinct dependencies \<and> set dependencies \<inter> listed = {}"
  by (induction dependencies arbitrary: n listed) (auto simp: Let_def split: if_splits)

lemma dependencies_nil:
  assumes "validate_dependencies services = []"
  shows "list_all (\<lambda>s. set (svi_depends_on s) \<subseteq> set (map svi_name services) \<and> distinct (svi_depends_on s)) services"
    and "snd (startup_order svi_name svi_depends_on services) = []"
proof -
  let ?cyclic = "snd (startup_order svi_name svi_depends_on services)"
  show "list_all (\<lambda>s. set (svi_depends_on s) \<subseteq> set (map svi_name services) \<and> distinct (svi_depends_on s)) services"
    using assms unfolding validate_dependencies_def Let_def
    by (auto elim!: check_list_all dest: dependency_list_nil)
  have "list_all (\<lambda>s. svi_name s \<notin> set (map svi_name ?cyclic)) services"
    using assms unfolding validate_dependencies_def Let_def append_is_Nil_conv
    by (elim conjE check_list_all) simp
  moreover have "mset (fst (startup_order svi_name svi_depends_on services)) + mset ?cyclic = mset services"
    by (rule startup_order_spec(1)) simp
  then have "set ?cyclic \<subseteq> set services" by (metis set_mset_mono set_mset_mset mset_subset_eq_add_right)
  ultimately show "?cyclic = []" by (cases ?cyclic) (auto simp: list_all_iff)
qed

lemma receivers_nil:
  "validate_receivers n found services = [] \<Longrightarrow>
   length (filter svi_receives_telemetry services) \<le> (if found then 0 else 1)
   \<and> list_all (\<lambda>s. svi_receives_telemetry s \<longrightarrow> \<not> is_some_and (\<lambda>r. 1 < r) (typed_literal (svi_replicas s))) services"
proof (induction services arbitrary: n found)
  case (Cons s services)
  show ?case
  proof (cases "svi_receives_telemetry s")
    case True
    with Cons.prems have "validate_receivers (Suc n) True services = []" "\<not> found"
      "\<not> is_some_and (\<lambda>r. 1 < r) (typed_literal (svi_replicas s))" by simp_all
    with Cons.IH [OF this(1)] True show ?thesis by simp
  next
    case False
    with Cons.prems have "validate_receivers (Suc n) found services = []" by simp
    from Cons.IH [OF this] False show ?thesis by simp
  qed
qed simp

text \<open>No job of a dependency comes at or after a job of the service that needs it.\<close>

fun in_order :: "(string \<Rightarrow> string set) \<Rightarrow> string list \<Rightarrow> bool" where
  "in_order dependencies [] \<longleftrightarrow> True"
| "in_order dependencies (s # ss) \<longleftrightarrow>
     list_all (\<lambda>later. later \<notin> dependencies s) (s # ss) \<and> in_order dependencies ss"

lemma job_list_nil:
  "validate_job_list services n jobs = [] \<Longrightarrow>
   list_all (\<lambda>j. valid_logical_name (ji_name j) \<and> ji_service j \<in> set (map svi_name services)) jobs
   \<and> in_order (dependencies_of svi_name svi_depends_on services) (map ji_service jobs)"
proof (induction jobs arbitrary: n)
  case (Cons j jobs)
  let ?deps = "\<lambda>j. dependencies_of svi_name svi_depends_on services (ji_service j)"
  have job: "job_validate services n j jobs = []" and rest: "validate_job_list services (Suc n) jobs = []"
    using Cons.prems by auto
  have parts: "validate_name (ji_name j) (indexed ''spec.jobs'' n @ ''.name'') = []"
    "list_ex (\<lambda>s. svi_name s = ji_service j) services"
    "job_order_errors (?deps j) (indexed ''spec.jobs'' n) j (j # jobs) = []"
    using job by (simp_all add: job_validate_def Let_def)
  have "valid_logical_name (ji_name j)" by (rule validate_name_nil [OF parts(1)])
  moreover have "ji_service j \<in> set (map svi_name services)" using parts(2) by (force simp: list_ex_iff)
  moreover have "filter (\<lambda>p. ji_service p \<in> ?deps j) (j # jobs) = []"
    using parts(3) by (simp add: job_order_errors_def)
  then have "list_all (\<lambda>later. later \<notin> ?deps j) (map ji_service (j # jobs))"
    unfolding filter_empty_conv list_all_iff set_map by blast
  ultimately show ?case using Cons.IH [OF rest] by (simp add: list_all_iff)
qed simp

lemma granted_nil:
  "validate_granted base n granted applications = [] \<Longrightarrow> list_all valid_logical_name applications"
  by (induction applications arbitrary: n granted) (auto simp: Let_def dest: validate_name_nil)

lemma exports_nil:
  "validate_exports services n exported exports = [] \<Longrightarrow>
   list_all export_names_ok exports \<and> list_all (\<lambda>e. xi_service e \<in> services) exports
   \<and> distinct (map xi_service exports) \<and> set (map xi_service exports) \<inter> exported = {}
   \<and> list_all (\<lambda>e. xi_applications e \<noteq> []) exports"
  by (induction exports arbitrary: n exported)
    (auto simp: Let_def export_names_ok_def dest: validate_name_nil granted_nil)

lemma imports_nil:
  "validate_imports n imported ims = [] \<Longrightarrow>
   list_all import_names_ok ims \<and> distinct (map (\<lambda>i. (ii_application i, ii_service i)) ims)
   \<and> set (map (\<lambda>i. (ii_application i, ii_service i)) ims) \<inter> imported = {}"
  by (induction ims arbitrary: n imported)
    (auto simp: Let_def import_names_ok_def is_some_and_def parse_logical_name_def validated_parse_def
      dest: validate_name_nil split: option.splits if_splits)

section \<open>Routes\<close>

lemma redirect_validate_nil: "redirect_validate redirect path = [] \<longleftrightarrow> redirect_ok redirect"
  by (auto simp: redirect_validate_def redirect_ok_def parse_redirect_url_def validated_parse_def
      split: option.splits)

definition target_ok :: "service_input list \<Rightarrow> route_input \<Rightarrow> bool" where
  "target_ok services r \<longleftrightarrow>
     (case (rti_service r, rti_port r, rti_redirect r) of
        (Some service, Some port, None) \<Rightarrow> service \<in> set (map svi_name services) \<and> port \<noteq> 0
      | (None, None, Some redirect) \<Rightarrow> redirect_ok redirect
      | _ \<Rightarrow> False)"

lemma route_target_nil: "route_target_validate services path r = [] \<longleftrightarrow> target_ok services r"
  by (auto simp: route_target_validate_def target_ok_def redirect_validate_nil list_ex_iff image_iff
      split: option.splits)

definition route_accepted :: "service_input list \<Rightarrow> route_input \<Rightarrow> bool" where
  "route_accepted services r \<longleftrightarrow>
     (case rti_name r of None \<Rightarrow> True | Some name \<Rightarrow> valid_logical_name name)
     \<and> (case canonical_literal (rti_hostname r) of None \<Rightarrow> True | Some h \<Rightarrow> valid_route_hostname h)
     \<and> target_ok services r"

definition literal_hostnames :: "route_input list \<Rightarrow> string list" where
  "literal_hostnames routes = List.map_filter (\<lambda>r. canonical_literal (rti_hostname r)) routes"

lemma set_literal_hostnames: "set (literal_hostnames routes) = canonical_hostnames routes"
  by (auto simp: literal_hostnames_def canonical_hostnames_def in_set_map_filter)

lemma route_validate_nil:
  "route_validate services n hostnames names r = [] \<Longrightarrow>
   route_accepted services r \<and> set_option (canonical_literal (rti_hostname r)) \<inter> hostnames = {}
   \<and> set_option (rti_name r) \<inter> names = {}"
  by (auto simp: route_validate_def route_accepted_def Let_def route_target_nil is_some_and_def
      parse_route_hostname_def validated_parse_def dest: validate_name_nil split: option.splits if_splits)

lemma route_list_nil:
  "validate_route_list services n hostnames names routes = [] \<Longrightarrow>
   list_all (route_accepted services) routes
   \<and> distinct (literal_hostnames routes) \<and> set (literal_hostnames routes) \<inter> hostnames = {}
   \<and> distinct (List.map_filter rti_name routes) \<and> set (List.map_filter rti_name routes) \<inter> names = {}"
proof (induction routes arbitrary: n hostnames names)
  case (Cons r routes)
  let ?hostnames = "hostnames \<union> set_option (canonical_literal (rti_hostname r))"
    and ?names = "names \<union> set_option (rti_name r)"
  have route: "route_validate services n hostnames names r = []"
    and rest: "validate_route_list services (Suc n) ?hostnames ?names routes = []"
    using Cons.prems by simp_all
  from Cons.IH [OF rest] route_validate_nil [OF route] show ?case
    by (cases "canonical_literal (rti_hostname r)"; cases "rti_name r")
      (auto simp: literal_hostnames_def map_filter_simps)
qed (simp add: literal_hostnames_def map_filter_simps)

text \<open>Canonical routes keep the rest of a route, and a canonical hostname is literal.\<close>

lemma canonical_route_fields [simp]:
  "rti_name (canonical_route r) = rti_name r" "rti_service (canonical_route r) = rti_service r"
  "rti_port (canonical_route r) = rti_port r" "rti_redirect (canonical_route r) = rti_redirect r"
  "rti_visibility (canonical_route r) = rti_visibility r"
  "as_literal (rti_hostname (canonical_route r)) = canonical_literal (rti_hostname r)"
  by (auto simp: canonical_route_def canonical_literal_def as_literal_literal split: option.splits)

lemma accepted_route_ok:
  "route_accepted services r \<Longrightarrow> list_all (\<lambda>s. valid_logical_name (svi_name s)) services \<Longrightarrow> route_ok (canonical_route r)"
  by (auto simp: route_accepted_def route_ok_def target_ok_def list_all_iff split: option.splits)

section \<open>Values that are not literal\<close>

lemma check_visitor_slots:
  "snd (visit_slots (check_visitor check) xs errors)
     = fold (\<lambda>(path, x) errors. case slot_template x of None \<Rightarrow> errors | Some t \<Rightarrow> check path t errors) xs errors"
proof (induction xs arbitrary: errors)
  case (Cons p xs)
  obtain path x where p: "p = (path, x)" by fastforce
  have "snd (visit_slot (check_visitor check) path x errors)
      = (case slot_template x of None \<Rightarrow> errors | Some t \<Rightarrow> check path t errors)"
    by (cases x) (simp_all add: check_visitor_def)
  then show ?case by (simp add: p Cons.IH split_def Let_def split: option.split)
qed simp

lemma check_visitor_fold:
  "snd (visit_values (check_visitor check) spec errors)
     = fold (\<lambda>(path, x) errors. case slot_template x of None \<Rightarrow> errors | Some t \<Rightarrow> check path t errors)
         (spec_slots spec) errors"
  using visit_values_slots [of "check_visitor check" spec errors] by (simp flip: check_visitor_slots)

definition slot_unresolved :: "slot \<Rightarrow> bool" where
  "slot_unresolved x = is_some_and (\<lambda>t. as_literal t = None) (slot_template x)"

lemma unresolved_errors:
  "fold (\<lambda>(path, x) errors. case slot_template x of None \<Rightarrow> errors | Some t \<Rightarrow> unresolved_check path t errors) xs errors
     = errors @ map (\<lambda>p. unresolved (fst p)) (filter (\<lambda>p. slot_unresolved (snd p)) xs)"
  by (induction xs arbitrary: errors)
    (auto simp: unresolved_check_def slot_unresolved_def is_some_and_def split: option.splits)

text \<open>The errors of \<open>into_literal\<close>: one per unresolved value, at its path.\<close>

lemma literal_errors:
  "snd (visit_values (check_visitor unresolved_check) spec [])
     = map (\<lambda>p. unresolved (fst p)) (filter (\<lambda>p. slot_unresolved (snd p)) (spec_slots spec))"
  by (simp add: check_visitor_fold unresolved_errors)

lemma unresolved_not_literal: "slot_unresolved x \<Longrightarrow> \<not> slot_literal x"
  by (cases x) (auto simp: slot_unresolved_def slot_literal_def is_some_and_def split: option.splits)

lemma resolved_texts:
  "filter (\<lambda>p. slot_unresolved (snd p)) xs = [] \<Longrightarrow> texts_literal xs"
  by (auto simp: texts_literal_def list_all_iff filter_empty_conv slot_unresolved_def split: slot.splits)

section \<open>Accepted manifests are ready for the conversion\<close>

text \<open>What acceptance says, part by part: every check reports nothing.\<close>

definition canonical_spec :: "application_spec \<Rightarrow> application_spec" where
  "canonical_spec spec = spec\<lparr>as_routes := map canonical_route (as_routes spec)\<rparr>"

lemma validate_template_accepts:
  assumes "validate_template m = Inr t"
  shows "vt_spec t = canonical_images (canonical_spec (am_spec m))"
    and "validate_route_list (as_services (am_spec m)) 0 {} {} (as_routes (am_spec m)) = []"
    and "check_list (loop_validate (canonical_hostnames (as_routes (am_spec m)))) 0 (as_routes (vt_spec t)) = []"
    and "validate_spec (canonical_spec (am_spec m)) = []"
    and "within_budgets (am_spec m) = []" and "vt_name t = am_name m" and "valid_logical_name (am_name m)"
  using assms
  by (auto simp: validate_template_def Let_def validate_routes_def canonical_spec_def canonical_images_def
      metadata_from_input_def parse_logical_name_def validated_parse_def split: if_splits option.splits)

lemma service_validate_nil:
  assumes "service_validate s base volumes backed = []"
  shows "valid_logical_name (svi_name s)" "list_all (\<lambda>m. mi_volume m \<in> volumes) (svi_mounts s)"
    "distinct (map mi_target (svi_mounts s))"
    "is_none_or (\<lambda>r. MIN_REPLICAS \<le> r \<and> r \<le> MAX_REPLICAS) (typed_literal (svi_replicas s))"
proof -
  have parts: "validate_name (svi_name s) (base @ ''.name'') = []"
    "validate_mounts (svi_mounts s) base volumes = []"
    "\<not> is_some_and (\<lambda>r. \<not> (MIN_REPLICAS \<le> r \<and> r \<le> MAX_REPLICAS)) (typed_literal (svi_replicas s))"
    using assms by (simp_all add: service_validate_def split_def Let_def)
  show "valid_logical_name (svi_name s)" by (rule validate_name_nil [OF parts(1)])
  show "list_all (\<lambda>m. mi_volume m \<in> volumes) (svi_mounts s)" "distinct (map mi_target (svi_mounts s))"
    using mount_list_nil [of base volumes 0 "{}" "svi_mounts s"] parts(2) by (simp_all add: validate_mounts_def)
  show "is_none_or (\<lambda>r. MIN_REPLICAS \<le> r \<and> r \<le> MAX_REPLICAS) (typed_literal (svi_replicas s))"
    using parts(3) by (cases "typed_literal (svi_replicas s)") simp_all
qed

lemma volumes_nil: "validate_volumes volumes = [] \<Longrightarrow> list_all valid_logical_name volumes"
  unfolding validate_volumes_def by (erule check_list_all) (rule validate_name_nil)

lemma job_names_nil:
  assumes "list_all (\<lambda>j. valid_logical_name (ji_name j) \<and> ji_service j \<in> set (map svi_name services)) jobs"
    and "list_all (\<lambda>s. valid_logical_name (svi_name s)) services"
  shows "list_all job_names_ok jobs"
  using assms by (auto simp: list_all_iff job_names_ok_def)

lemma canonical_images_parts [simp]:
  "as_volumes (canonical_images spec) = as_volumes spec" "as_routes (canonical_images spec) = as_routes spec"
  "as_jobs (canonical_images spec) = as_jobs spec" "as_exports (canonical_images spec) = as_exports spec"
  "as_imports (canonical_images spec) = as_imports spec" "as_secrets (canonical_images spec) = as_secrets spec"
  "as_manifest (canonical_images spec) = as_manifest spec"
  "map svi_name (as_services (canonical_images spec)) = map svi_name (as_services spec)"
  "map svi_depends_on (as_services (canonical_images spec)) = map svi_depends_on (as_services spec)"
  "map svi_mounts (as_services (canonical_images spec)) = map svi_mounts (as_services spec)"
  "map svi_replicas (as_services (canonical_images spec)) = map svi_replicas (as_services spec)"
  "map svi_receives_telemetry (as_services (canonical_images spec)) = map svi_receives_telemetry (as_services spec)"
  by (simp_all add: canonical_images_def comp_def)

lemma canonical_spec_parts [simp]:
  "as_volumes (canonical_spec spec) = as_volumes spec" "as_routes (canonical_spec spec) = map canonical_route (as_routes spec)"
  "as_jobs (canonical_spec spec) = as_jobs spec" "as_exports (canonical_spec spec) = as_exports spec"
  "as_imports (canonical_spec spec) = as_imports spec" "as_services (canonical_spec spec) = as_services spec"
  "as_secrets (canonical_spec spec) = as_secrets spec" "as_manifest (canonical_spec spec) = as_manifest spec"
  by (simp_all add: canonical_spec_def)

lemma canonical_service_names:
  "list_all service_names_ok (as_services (canonical_images spec)) = list_all service_names_ok (as_services spec)"
  by (simp add: canonical_images_def list_all_iff service_names_ok_def)

lemma validate_spec_nil:
  assumes "validate_spec spec = []"
  shows "unique_names (map svi_name (as_services spec)) ''spec.services'' ''service_name_duplicate'' = []"
    "unique_names (as_volumes spec) ''spec.volumes'' ''volume_name_duplicate'' = []"
    "validate_services spec = []" "validate_dependencies (as_services spec) = []"
    "validate_receivers 0 False (as_services spec) = []" "validate_volumes (as_volumes spec) = []"
    "unique_names (map ji_name (as_jobs spec)) ''spec.jobs'' ''job_name_duplicate'' = []"
    "validate_job_list (as_services spec) 0 (as_jobs spec) = []"
    "validate_exports (set (map svi_name (as_services spec))) 0 {} (as_exports spec) = []"
    "validate_imports 0 {} (as_imports spec) = []"
  using assms
  by (simp_all add: validate_spec_def validate_telemetry_receiver_def validate_jobs_def validate_links_def)

lemma accepted_services:
  assumes "validate_spec spec = []"
  shows "list_all (\<lambda>s. valid_logical_name (svi_name s)) (as_services spec)"
    "list_all (\<lambda>s. list_all (\<lambda>m. mi_volume m \<in> set (as_volumes spec)) (svi_mounts s)) (as_services spec)"
    "list_all (\<lambda>s. distinct (map mi_target (svi_mounts s))) (as_services spec)"
    "list_all (\<lambda>s. is_none_or (\<lambda>r. MIN_REPLICAS \<le> r \<and> r \<le> MAX_REPLICAS) (typed_literal (svi_replicas s))) (as_services spec)"
  by (rule check_list_all [OF validate_spec_nil(3) [OF assms, unfolded validate_services_def]], erule service_validate_nil)+

lemma accepted_names:
  assumes "validate_spec spec = []"
  shows "list_all service_names_ok (as_services spec)" "list_all valid_logical_name (as_volumes spec)"
    "list_all job_names_ok (as_jobs spec)" "list_all export_names_ok (as_exports spec)"
    "list_all import_names_ok (as_imports spec)"
proof -
  note nil = validate_spec_nil [OF assms] and services = accepted_services [OF assms]
  show volumes: "list_all valid_logical_name (as_volumes spec)" by (rule volumes_nil [OF nil(6)])
  have "list_all valid_logical_name (map svi_name (as_services spec))"
    using services(1) by (simp add: list_all_iff)
  then show "list_all service_names_ok (as_services spec)"
    using volumes services(1,2) dependencies_nil(1) [OF nil(4)]
    unfolding service_names_ok_def list_all_iff by blast
  show "list_all job_names_ok (as_jobs spec)" using job_list_nil [OF nil(8)] services(1) by (blast intro: job_names_nil)
  show "list_all export_names_ok (as_exports spec)" using exports_nil [OF nil(9)] by blast
  show "list_all import_names_ok (as_imports spec)" using imports_nil [OF nil(10)] by blast
qed

lemma accepted_ready:
  assumes "validate_template m = Inr t"
  shows "conversion_ready (vt_spec t)"
proof -
  note accepts = validate_template_accepts [OF assms]
  note names = accepted_names [OF accepts(4)]
  have "list_all (\<lambda>s. valid_logical_name (svi_name s)) (as_services (am_spec m))"
    using accepted_services(1) [OF accepts(4)] by simp
  then have "list_all route_ok (map canonical_route (as_routes (am_spec m)))"
    using route_list_nil [OF accepts(2)] accepted_route_ok
    unfolding list_all_iff set_map by blast
  then show ?thesis
    using names by (simp add: conversion_ready_def accepts(1) canonical_service_names)
qed

end
