(* ===== verification/Well_Formed.thy ===== *)
theory Well_Formed
  imports Acceptance
begin

section \<open>What the conversion keeps\<close>

lemma collect_all2: "collect f n xs = Inr ys \<Longrightarrow> list_all2 (\<lambda>x y. \<exists>i. f i x = Inr y) xs ys"
  by (induction xs arbitrary: n ys) (auto simp: and_then_Inr)

lemma collect_map:
  assumes "collect f n xs = Inr ys" and "\<And>i x y. f i x = Inr y \<Longrightarrow> g y = h x"
  shows "map g ys = map h xs"
proof -
  have "list_all2 (\<lambda>x y. h x = g y) xs ys"
    using collect_all2 [OF assms(1)] by (rule list_all2_mono) (auto dest: assms(2))
  then show ?thesis by (simp add: list_all2_conv_all_nth list_eq_iff_nth_eq)
qed

lemma transpose_Inr:
  "transpose f x = Inr y \<longleftrightarrow> (case x of None \<Rightarrow> y = None | Some v \<Rightarrow> \<exists>u. f v = Inr u \<and> y = Some u)"
  by (auto simp: transpose_def and_then_Inr split: option.splits)

lemma into_name_Inr [simp]: "into_name path subject name = Inr n \<longleftrightarrow> n = name \<and> valid_logical_name name"
  by (auto simp: into_name_def parse_logical_name_def validated_parse_def split: if_splits)

lemma into_value_Inr [simp]: "into_value path x = Inr v \<longleftrightarrow> x = Typed_Literal v"
  by (auto simp: into_value_def split: typed.splits)

lemma into_text_Inr [simp]: "into_text path t = Inr s \<longleftrightarrow> as_literal t = Some s"
  by (auto simp: into_text_def split: option.splits)

lemma collect_names: "collect (\<lambda>i. into_name (path i) subject) n names = Inr names' \<Longrightarrow> names' = names"
  by (drule collect_map [where g = id and h = id]) auto

lemma service_from_input_keeps:
  assumes "service_from_input i s = Inr v"
  shows "vs_name v = svi_name s" "vs_depends_on v = svi_depends_on s"
    "map vm_volume (vs_mounts v) = map mi_volume (svi_mounts s)"
    "map vm_target (vs_mounts v) = map mi_target (svi_mounts s)"
    "svi_replicas s = Typed_Literal (vs_replicas v)"
    "vs_receives_telemetry v = svi_receives_telemetry s"
proof -
  obtain mounts where mounts: "collect (mount_from_input (indexed ''spec.services'' i)) 0 (svi_mounts s) = Inr mounts"
    and v: "vs_mounts v = mounts" "vs_name v = svi_name s" "vs_depends_on v = svi_depends_on s"
      "svi_replicas s = Typed_Literal (vs_replicas v)" "vs_receives_telemetry v = svi_receives_telemetry s"
    using assms by (auto simp: service_from_input_def Let_def and_then_Inr dest: collect_names)
  show "map vm_volume (vs_mounts v) = map mi_volume (svi_mounts s)"
    "map vm_target (vs_mounts v) = map mi_target (svi_mounts s)"
    unfolding v by (rule collect_map [OF mounts]; auto simp: mount_from_input_def and_then_Inr)+
qed (use assms in \<open>auto simp: service_from_input_def Let_def and_then_Inr dest: collect_names\<close>)

lemma job_from_input_keeps:
  "job_from_input i j = Inr v \<Longrightarrow> vj_name v = ji_name j \<and> vj_service v = ji_service j"
  by (auto simp: job_from_input_def Let_def and_then_Inr)

lemma export_from_input_keeps:
  "export_from_input i e = Inr v \<Longrightarrow> ve_service v = xi_service e \<and> ve_applications v = set (xi_applications e)"
  by (auto simp: export_from_input_def Let_def and_then_Inr dest: collect_names)

lemma import_from_input_keeps:
  "import_from_input i e = Inr v \<Longrightarrow> vi_application v = ii_application e \<and> vi_service v = ii_service e"
  by (auto simp: import_from_input_def Let_def and_then_Inr)

lemma route_from_input_keeps:
  assumes "route_from_input i r = Inr v"
  shows "as_literal (rti_hostname r) = Some (vr_hostname v)" "vr_name v = rti_name r"
    "(case vr_target v of
        Route_Service service port \<Rightarrow> rti_service r = Some service \<and> rti_port r = Some port \<and> port \<noteq> 0 \<and> rti_redirect r = None
      | Route_Redirect redirect \<Rightarrow> (\<exists>d. rti_redirect r = Some d \<and> as_literal (rdi_to d) = Some (vrd_to redirect)
           \<and> valid_redirect_url (vrd_to redirect)))"
    "valid_route_hostname (vr_hostname v)"
proof -
  obtain service port redirect target where parts:
    "transpose (into_name (indexed ''spec.routes'' i) ''service names'') (rti_service r) = Inr service"
    "transpose (\<lambda>port. if port = 0 then Inl (invalid_name (indexed ''spec.routes'' i) ''port must be nonzero'') else Inr port) (rti_port r) = Inr port"
    "transpose (redirect_from_input (indexed ''spec.routes'' i)) (rti_redirect r) = Inr redirect"
    "route_target_of (indexed ''spec.routes'' i) (service, port, redirect) = Inr target" "vr_target v = target"
    and hostname: "as_literal (rti_hostname r) = Some (vr_hostname v)" "valid_route_hostname (vr_hostname v)"
    and name: "vr_name v = rti_name r"
    using assms
    by (auto simp: route_from_input_def Let_def and_then_Inr route_literal_def transpose_Inr
        parse_route_hostname_def validated_parse_def split: option.splits if_splits)
  show "as_literal (rti_hostname r) = Some (vr_hostname v)" "vr_name v = rti_name r" "valid_route_hostname (vr_hostname v)"
    by (rule hostname name)+
  show "case vr_target v of
        Route_Service service port \<Rightarrow> rti_service r = Some service \<and> rti_port r = Some port \<and> port \<noteq> 0 \<and> rti_redirect r = None
      | Route_Redirect redirect \<Rightarrow> (\<exists>d. rti_redirect r = Some d \<and> as_literal (rdi_to d) = Some (vrd_to redirect)
           \<and> valid_redirect_url (vrd_to redirect))"
    using parts
    by (cases "(indexed ''spec.routes'' i, service, port, redirect)" rule: route_target_of.cases)
      (auto simp: transpose_Inr redirect_from_input_def and_then_Inr route_literal_def parse_redirect_url_def
        validated_parse_def split: option.splits if_splits)
qed

text \<open>The startup order and the transitive dependencies only read names and dependencies.\<close>

lemma startup_pass_map:
  "startup_pass name deps known started (map h ordered) (map h pending)
     = map_prod id (map_prod (map h) (map h))
         (startup_pass (name \<circ> h) (deps \<circ> h) known started ordered pending)"
proof (induction pending arbitrary: started ordered)
  case (Cons s pending)
  have "map h ordered @ [h s] = map h (ordered @ [s])" by simp
  then show ?case
    using Cons [of "insert (name (h s)) started" "ordered @ [s]"] Cons [of started ordered]
    by (simp add: ready_def split_def Let_def prod_eq_iff)
qed simp

lemma startup_loop_map:
  "startup_loop name deps known started (map h ordered) (map h pending)
     = map_prod (map h) (map h) (startup_loop (name \<circ> h) (deps \<circ> h) known started ordered pending)"
proof (induction "name \<circ> h" "deps \<circ> h" known started ordered pending rule: startup_loop.induct)
  case (1 known started ordered pending)
  obtain a b c where pass: "startup_pass (name \<circ> h) (deps \<circ> h) known started ordered pending = (a, b, c)"
    by (cases "startup_pass (name \<circ> h) (deps \<circ> h) known started ordered pending") auto
  show ?case
    using 1 [OF pass [symmetric] refl]
    by (subst (1 2) startup_loop.simps) (simp add: startup_pass_map pass)
qed

lemma startup_order_map:
  "startup_order name deps (map h xs) = map_prod (map h) (map h) (startup_order (name \<circ> h) (deps \<circ> h) xs)"
  using startup_loop_map [where ordered = "[]" and pending = xs] by (simp add: startup_order_def image_comp)

lemma startup_order_acyclic:
  assumes "map (\<lambda>x. (name x, deps x)) xs = map (\<lambda>y. (name' y, deps' y)) ys"
  shows "snd (startup_order name deps xs) = [] \<longleftrightarrow> snd (startup_order name' deps' ys) = []"
proof -
  have "map (\<lambda>x. (name x, deps x)) (snd (startup_order name deps xs))
      = map (\<lambda>y. (name' y, deps' y)) (snd (startup_order name' deps' ys))"
    using startup_order_map [of fst snd "\<lambda>x. (name x, deps x)" xs]
      startup_order_map [of fst snd "\<lambda>y. (name' y, deps' y)" ys] assms
    by (simp add: comp_def map_prod_def split_def)
  from map_eq_imp_length_eq [OF this] show ?thesis by (simp flip: length_0_conv)
qed

lemma dependencies_of_map:
  assumes "map (\<lambda>x. (name x, deps x)) xs = map (\<lambda>y. (name' y, deps' y)) ys"
  shows "dependencies_of name deps xs = dependencies_of name' deps' ys"
proof -
  have "depends name deps xs = depends fst snd (map (\<lambda>x. (name x, deps x)) xs)" for name deps and xs :: "'c list"
  proof -
    have "find_service fst (map (\<lambda>x. (name x, deps x)) xs) n = map_option (\<lambda>x. (name x, deps x)) (find_service name xs n)" for n
      by (induction xs) (auto simp: find_service_def)
    then show ?thesis by (auto simp: depends_def)
  qed
  note this [of name deps xs] this [of name' deps' ys]
  then show ?thesis using assms by (simp add: dependencies_of_trancl fun_eq_iff)
qed

section \<open>Well-formed specifications\<close>

definition service_well_formed :: "validated_spec \<Rightarrow> validated_service \<Rightarrow> bool" where
  "service_well_formed spec s \<longleftrightarrow>
     valid_logical_name (vs_name s) \<and> MIN_REPLICAS \<le> vs_replicas s \<and> vs_replicas s \<le> MAX_REPLICAS
     \<and> (vs_receives_telemetry s \<longrightarrow> vs_replicas s = 1)
     \<and> distinct (vs_depends_on s) \<and> set (vs_depends_on s) \<subseteq> set (map vs_name (sp_services spec))
     \<and> distinct (map vm_target (vs_mounts s)) \<and> set (map vm_volume (vs_mounts s)) \<subseteq> set (sp_volumes spec)"

definition route_well_formed :: "validated_spec \<Rightarrow> validated_route \<Rightarrow> bool" where
  "route_well_formed spec r \<longleftrightarrow>
     valid_route_hostname (vr_hostname r)
     \<and> (case vr_target r of
          Route_Service service port \<Rightarrow> service \<in> set (map vs_name (sp_services spec)) \<and> port \<noteq> 0
        | Route_Redirect redirect \<Rightarrow>
            valid_redirect_url (vrd_to redirect)
            \<and> \<not> redirect_loops (vr_hostname r) (vrd_to redirect) (set (map vr_hostname (sp_routes spec))))"

definition spec_well_formed :: "validated_spec \<Rightarrow> bool" where
  "spec_well_formed spec \<longleftrightarrow>
     distinct (map vs_name (sp_services spec)) \<and> list_all (service_well_formed spec) (sp_services spec)
     \<and> snd (startup_order vs_name vs_depends_on (sp_services spec)) = []
     \<and> length (filter vs_receives_telemetry (sp_services spec)) \<le> 1
     \<and> distinct (sp_volumes spec) \<and> list_all valid_logical_name (sp_volumes spec)
     \<and> distinct (map vj_name (sp_jobs spec))
     \<and> list_all (\<lambda>j. vj_service j \<in> set (map vs_name (sp_services spec))) (sp_jobs spec)
     \<and> in_order (dependencies_of vs_name vs_depends_on (sp_services spec)) (map vj_service (sp_jobs spec))
     \<and> distinct (map vr_hostname (sp_routes spec)) \<and> distinct (List.map_filter vr_name (sp_routes spec))
     \<and> list_all (route_well_formed spec) (sp_routes spec)
     \<and> distinct (map ve_service (sp_exports spec))
     \<and> list_all (\<lambda>e. ve_service e \<in> set (map vs_name (sp_services spec)) \<and> ve_applications e \<noteq> {}) (sp_exports spec)
     \<and> distinct (map (\<lambda>i. (vi_application i, vi_service i)) (sp_imports spec))"

section \<open>Accepted specifications are well formed\<close>

lemma list_all2_map_filter:
  "list_all2 (\<lambda>x y. f x = Some (g y)) xs ys \<Longrightarrow> List.map_filter f xs = map g ys"
  by (induction rule: list_all2_induct) (simp_all add: map_filter_simps)

lemma list_all2_map_filter_eq:
  "list_all2 (\<lambda>x y. f x = g y) xs ys \<Longrightarrow> List.map_filter f xs = List.map_filter g ys"
  by (induction rule: list_all2_induct) (simp_all add: map_filter_simps split: option.split)

lemma list_all2_all:
  "list_all2 R xs ys \<Longrightarrow> list_all P xs \<Longrightarrow> (\<And>x y. R x y \<Longrightarrow> P x \<Longrightarrow> Q y) \<Longrightarrow> list_all Q ys"
  by (induction rule: list_all2_induct) auto

definition service_accepted :: "string set \<Rightarrow> string set \<Rightarrow> service_input \<Rightarrow> bool" where
  "service_accepted names volumes s \<longleftrightarrow>
     valid_logical_name (svi_name s)
     \<and> is_none_or (\<lambda>r. MIN_REPLICAS \<le> r \<and> r \<le> MAX_REPLICAS) (typed_literal (svi_replicas s))
     \<and> (svi_receives_telemetry s \<longrightarrow> \<not> is_some_and (\<lambda>r. 1 < r) (typed_literal (svi_replicas s)))
     \<and> distinct (svi_depends_on s) \<and> set (svi_depends_on s) \<subseteq> names
     \<and> distinct (map mi_target (svi_mounts s)) \<and> set (map mi_volume (svi_mounts s)) \<subseteq> volumes"

lemma accepted_service:
  assumes "validate_spec spec = []"
  shows "list_all (service_accepted (set (map svi_name (as_services spec))) (set (as_volumes spec))) (as_services spec)"
  using accepted_services [OF assms] dependencies_nil(1) [OF validate_spec_nil(4) [OF assms]]
    receivers_nil [OF validate_spec_nil(5) [OF assms]]
  unfolding service_accepted_def list_all_iff by auto

lemma accepted_service_images:
  "list_all (service_accepted names volumes) (as_services (canonical_images spec))
     = list_all (service_accepted names volumes) (as_services spec)"
  by (simp add: canonical_images_def list_all_iff service_accepted_def)

lemma converted_service:
  assumes "service_from_input i s = Inr v" "service_accepted names volumes s"
    and "names = set (map vs_name (sp_services spec))" "volumes = set (sp_volumes spec)"
  shows "service_well_formed spec v"
proof -
  note keeps = service_from_input_keeps [OF assms(1)]
  have "MIN_REPLICAS \<le> vs_replicas v" "vs_replicas v \<le> MAX_REPLICAS"
    "vs_receives_telemetry v \<longrightarrow> vs_replicas v \<le> 1"
    using assms(2) by (auto simp: service_accepted_def keeps not_less)
  moreover from this have "vs_receives_telemetry v \<longrightarrow> vs_replicas v = 1"
    unfolding MIN_REPLICAS_def using order.antisym by blast
  moreover have "valid_logical_name (vs_name v)" "distinct (vs_depends_on v)" "set (vs_depends_on v) \<subseteq> names"
    "distinct (map vm_target (vs_mounts v))" "set (map vm_volume (vs_mounts v)) \<subseteq> volumes"
    using assms(2) unfolding service_accepted_def keeps by blast+
  ultimately show ?thesis unfolding service_well_formed_def assms(3,4) by blast
qed

definition route_loops :: "string set \<Rightarrow> route_input \<Rightarrow> bool" where
  "route_loops hostnames r \<longleftrightarrow>
     (\<exists>hostname to. as_literal (rti_hostname r) = Some hostname
        \<and> Option.bind (rti_redirect r) (\<lambda>d. as_literal (rdi_to d)) = Some to \<and> redirect_loops hostname to hostnames)"

lemma loop_validate_nil: "loop_validate hostnames i r = [] \<Longrightarrow> \<not> route_loops hostnames r"
  by (auto simp: loop_validate_def route_loops_def)

lemma converted_route:
  assumes "route_from_input i r = Inr v" "target_ok services r" "\<not> route_loops hostnames r"
    and "set (map svi_name services) = set (map vs_name (sp_services spec))"
    and "hostnames = set (map vr_hostname (sp_routes spec))"
  shows "route_well_formed spec v"
proof (cases "vr_target v")
  case (Route_Service service port)
  then show ?thesis
    using route_from_input_keeps [OF assms(1)] assms(2) unfolding route_well_formed_def
    by (auto simp: target_ok_def assms(4) simp del: set_map)
next
  case (Route_Redirect redirect)
  then show ?thesis
    using route_from_input_keeps [OF assms(1)] assms(3) unfolding route_well_formed_def route_loops_def assms(5)
    by (auto simp del: set_map)
qed

lemma spec_from_input_parts:
  assumes "spec_from_input spec = Inr v"
  shows "collect service_from_input 0 (as_services spec) = Inr (sp_services v)"
    "collect job_from_input 0 (as_jobs spec) = Inr (sp_jobs v)"
    "collect route_from_input 0 (as_routes spec) = Inr (sp_routes v)"
    "collect export_from_input 0 (as_exports spec) = Inr (sp_exports v)"
    "collect import_from_input 0 (as_imports spec) = Inr (sp_imports v)"
    "sp_volumes v = as_volumes spec"
  using assms by (auto simp: spec_from_input_def and_then_Inr dest: collect_names)

lemma canonical_images_pairs:
  "map (\<lambda>s. (svi_name s, svi_depends_on s)) (as_services (canonical_images spec))
     = map (\<lambda>s. (svi_name s, svi_depends_on s)) (as_services spec)"
  by (simp add: canonical_images_def comp_def)

lemma target_ok_canonical: "target_ok services (canonical_route r) = target_ok services r"
  by (simp add: target_ok_def)

lemma manifest_validate_parts:
  assumes "manifest_validate m = Inr a"
  obtains t where "validate_template m = Inr t" "spec_from_input (vt_spec t) = Inr (va_spec a)" "va_name a = vt_name t"
  using assms by (auto simp: manifest_validate_def and_then_Inr into_literal_def Let_def split: if_splits)

lemma accepted_spec_services:
  assumes "validate_spec (canonical_spec spec) = []"
    and "spec_from_input (canonical_images (canonical_spec spec)) = Inr v"
  shows "map (\<lambda>s. (svi_name s, svi_depends_on s)) (as_services spec) = map (\<lambda>s. (vs_name s, vs_depends_on s)) (sp_services v)"
    and "list_all (service_well_formed v) (sp_services v)" and "distinct (map vs_name (sp_services v))"
    and "snd (startup_order vs_name vs_depends_on (sp_services v)) = []"
    and "length (filter vs_receives_telemetry (sp_services v)) \<le> 1"
    and "map vs_name (sp_services v) = map svi_name (as_services spec)"
proof -
  note nil = validate_spec_nil [OF assms(1), simplified] and parts = spec_from_input_parts [OF assms(2)]
  show pairs: "map (\<lambda>s. (svi_name s, svi_depends_on s)) (as_services spec) = map (\<lambda>s. (vs_name s, vs_depends_on s)) (sp_services v)"
    using collect_map [OF parts(1), where g = "\<lambda>s. (vs_name s, vs_depends_on s)" and h = "\<lambda>s. (svi_name s, svi_depends_on s)"]
    by (simp add: canonical_images_pairs service_from_input_keeps)
  from arg_cong [OF this, of "map fst"] show names: "map vs_name (sp_services v) = map svi_name (as_services spec)"
    by (simp add: comp_def)
  show "distinct (map vs_name (sp_services v))" using nil(1) by (simp add: names unique_names_def duplicate_names_nil)
  show "snd (startup_order vs_name vs_depends_on (sp_services v)) = []"
    using dependencies_nil(2) [OF nil(4)] startup_order_acyclic [OF pairs] by simp
  have "list_all (service_accepted (set (map vs_name (sp_services v))) (set (sp_volumes v)))
      (as_services (canonical_images (canonical_spec spec)))"
    using accepted_service [OF assms(1)] by (simp add: accepted_service_images names parts(6) del: set_map)
  then show "list_all (service_well_formed v) (sp_services v)"
    by (rule list_all2_all [OF collect_all2 [OF parts(1)]]) (auto intro: converted_service)
  have "map vs_receives_telemetry (sp_services v) = map svi_receives_telemetry (as_services spec)"
    using collect_map [OF parts(1), where g = vs_receives_telemetry and h = svi_receives_telemetry]
    by (simp add: service_from_input_keeps)
  from arg_cong [OF this, of "filter (\<lambda>b. b)"]
  have "map vs_receives_telemetry (filter vs_receives_telemetry (sp_services v))
      = map svi_receives_telemetry (filter svi_receives_telemetry (as_services spec))"
    by (simp add: filter_map comp_def)
  from map_eq_imp_length_eq [OF this]
  have "length (filter vs_receives_telemetry (sp_services v)) = length (filter svi_receives_telemetry (as_services spec))" .
  then show "length (filter vs_receives_telemetry (sp_services v)) \<le> 1"
    using receivers_nil [OF nil(5)] by simp
qed

lemma literal_hostnames_canonical:
  "List.map_filter (\<lambda>r. as_literal (rti_hostname r)) (map canonical_route routes) = literal_hostnames routes"
  by (induction routes) (simp_all add: literal_hostnames_def map_filter_simps split: option.split)

lemma map_filter_canonical: "List.map_filter rti_name (map canonical_route routes) = List.map_filter rti_name routes"
  by (induction routes) (simp_all add: map_filter_simps split: option.split)

lemma accepted_spec_routes:
  assumes "validate_route_list (as_services spec) 0 {} {} (as_routes spec) = []"
    and "check_list (loop_validate (canonical_hostnames (as_routes spec))) 0 (map canonical_route (as_routes spec)) = []"
    and "spec_from_input (canonical_images (canonical_spec spec)) = Inr v"
    and "map vs_name (sp_services v) = map svi_name (as_services spec)"
  shows "distinct (map vr_hostname (sp_routes v))" "distinct (List.map_filter vr_name (sp_routes v))"
    "list_all (route_well_formed v) (sp_routes v)"
proof -
  let ?routes = "map canonical_route (as_routes spec)"
  note parts = spec_from_input_parts(3) [OF assms(3), simplified] and nil = route_list_nil [OF assms(1)]
  note pairs = collect_all2 [OF parts]
  have "List.map_filter (\<lambda>r. as_literal (rti_hostname r)) ?routes = map vr_hostname (sp_routes v)"
    by (rule list_all2_map_filter [OF list_all2_mono [OF pairs]]) (auto dest: route_from_input_keeps)
  then have hostnames: "literal_hostnames (as_routes spec) = map vr_hostname (sp_routes v)"
    by (simp add: literal_hostnames_canonical)
  then show "distinct (map vr_hostname (sp_routes v))" using nil by simp
  have "List.map_filter rti_name ?routes = List.map_filter vr_name (sp_routes v)"
    by (rule list_all2_map_filter_eq [OF list_all2_mono [OF pairs]]) (auto dest: route_from_input_keeps)
  then show "distinct (List.map_filter vr_name (sp_routes v))"
    using nil by (simp add: map_filter_canonical)
  have set_hostnames: "canonical_hostnames (as_routes spec) = set (map vr_hostname (sp_routes v))"
    by (simp flip: set_literal_hostnames add: hostnames)
  have targets: "list_all (target_ok (as_services spec)) ?routes"
    using nil by (auto simp: list_all_iff route_accepted_def target_ok_canonical)
  have loops: "list_all (\<lambda>r. \<not> route_loops (canonical_hostnames (as_routes spec)) r) ?routes"
    by (rule check_list_all [OF assms(2)]) (rule loop_validate_nil)
  have "list_all (\<lambda>r. target_ok (as_services spec) r \<and> \<not> route_loops (canonical_hostnames (as_routes spec)) r) ?routes"
    using targets loops by (simp add: list_all_iff)
  then show "list_all (route_well_formed v) (sp_routes v)"
  proof (rule list_all2_all [OF pairs], elim exE conjE)
    fix r u i
    assume "route_from_input i r = Inr u" "target_ok (as_services spec) r"
      "\<not> route_loops (canonical_hostnames (as_routes spec)) r"
    then show "route_well_formed v u"
      by (rule converted_route) (simp_all only: set_hostnames assms(4))
  qed
qed

lemma accepted_spec_links:
  assumes "validate_spec (canonical_spec spec) = []"
    and "spec_from_input (canonical_images (canonical_spec spec)) = Inr v"
    and "map vs_name (sp_services v) = map svi_name (as_services spec)"
  shows "distinct (map ve_service (sp_exports v))"
    "list_all (\<lambda>e. ve_service e \<in> set (map vs_name (sp_services v)) \<and> ve_applications e \<noteq> {}) (sp_exports v)"
    "distinct (map (\<lambda>i. (vi_application i, vi_service i)) (sp_imports v))"
proof -
  note nil = validate_spec_nil [OF assms(1), simplified] and parts = spec_from_input_parts [OF assms(2), simplified]
  have "map ve_service (sp_exports v) = map xi_service (as_exports spec)"
    by (rule collect_map [OF parts(4)]) (simp add: export_from_input_keeps)
  then show "distinct (map ve_service (sp_exports v))"
    using exports_nil [OF nil(9) [folded set_map]] by simp
  have "list_all (\<lambda>e. xi_service e \<in> set (map vs_name (sp_services v)) \<and> xi_applications e \<noteq> []) (as_exports spec)"
    using exports_nil [OF nil(9) [folded set_map]] by (simp add: assms(3) list_all_iff del: set_map)
  then show "list_all (\<lambda>e. ve_service e \<in> set (map vs_name (sp_services v)) \<and> ve_applications e \<noteq> {}) (sp_exports v)"
    by (rule list_all2_all [OF collect_all2 [OF parts(4)]]) (auto dest: export_from_input_keeps)
  have "map (\<lambda>i. (vi_application i, vi_service i)) (sp_imports v) = map (\<lambda>i. (ii_application i, ii_service i)) (as_imports spec)"
    by (rule collect_map [OF parts(5)]) (simp add: import_from_input_keeps)
  then show "distinct (map (\<lambda>i. (vi_application i, vi_service i)) (sp_imports v))"
    using imports_nil [OF nil(10)] by simp
qed

lemma accepted_spec_jobs:
  assumes "validate_spec (canonical_spec spec) = []"
    and "spec_from_input (canonical_images (canonical_spec spec)) = Inr v"
    and pairs: "map (\<lambda>s. (svi_name s, svi_depends_on s)) (as_services spec) = map (\<lambda>s. (vs_name s, vs_depends_on s)) (sp_services v)"
    and "map vs_name (sp_services v) = map svi_name (as_services spec)"
  shows "distinct (map vj_name (sp_jobs v))"
    "list_all (\<lambda>j. vj_service j \<in> set (map vs_name (sp_services v))) (sp_jobs v)"
    "in_order (dependencies_of vs_name vs_depends_on (sp_services v)) (map vj_service (sp_jobs v))"
proof -
  note nil = validate_spec_nil [OF assms(1), simplified] and parts = spec_from_input_parts [OF assms(2), simplified]
  have names: "map vj_name (sp_jobs v) = map ji_name (as_jobs spec)"
    and services: "map vj_service (sp_jobs v) = map ji_service (as_jobs spec)"
    by (rule collect_map [OF parts(2)]; simp add: job_from_input_keeps)+
  show "distinct (map vj_name (sp_jobs v))" using nil(7) by (simp add: names unique_names_def duplicate_names_nil)
  have "list_all (\<lambda>s. s \<in> set (map vs_name (sp_services v))) (map vj_service (sp_jobs v))"
    using job_list_nil [OF nil(8)] by (auto simp: services assms(4) list_all_iff)
  then show "list_all (\<lambda>j. vj_service j \<in> set (map vs_name (sp_services v))) (sp_jobs v)"
    by (simp add: list_all_iff)
  show "in_order (dependencies_of vs_name vs_depends_on (sp_services v)) (map vj_service (sp_jobs v))"
    using job_list_nil [OF nil(8)] by (simp add: services dependencies_of_map [OF pairs])
qed

lemma accepted_well_formed:
  assumes "manifest_validate m = Inr a"
  shows "spec_well_formed (va_spec a)"
proof -
  obtain t where t: "validate_template m = Inr t" "spec_from_input (vt_spec t) = Inr (va_spec a)"
    using assms by (rule manifest_validate_parts)
  note accepts = validate_template_accepts [OF t(1)]
  note converted = t(2) [unfolded accepts(1)]
  note services = accepted_spec_services [OF accepts(4) converted]
  have loops: "check_list (loop_validate (canonical_hostnames (as_routes (am_spec m)))) 0
      (map canonical_route (as_routes (am_spec m))) = []"
    using accepts(3) by (simp add: accepts(1))
  note routes = accepted_spec_routes [OF accepts(2) loops converted services(6)]
  note nil = validate_spec_nil [OF accepts(4), simplified]
  have "sp_volumes (va_spec a) = as_volumes (am_spec m)"
    using spec_from_input_parts(6) [OF converted] by simp
  moreover have "distinct (as_volumes (am_spec m))"
    using nil(2) by (simp add: unique_names_def duplicate_names_nil)
  moreover have "list_all valid_logical_name (as_volumes (am_spec m))" by (rule volumes_nil [OF nil(6)])
  ultimately show ?thesis
    unfolding spec_well_formed_def
    using services(2-5) routes accepted_spec_jobs [OF accepts(4) converted services(1,6)]
      accepted_spec_links [OF accepts(4) converted services(6)] by simp
qed

end
