(* ===== verification/Accepted_Manifests.thy ===== *)
theory Accepted_Manifests
  imports Well_Formed
begin

text \<open>
  What acceptance guarantees: the conversion of an accepted manifest fails only for unresolved values
  (\<open>ValidatedTemplate::into_literal\<close>), and the validated application is well formed, so that its
  services can be started in an order that respects every dependency.
\<close>

section \<open>An example\<close>

definition shop_service :: "string \<Rightarrow> string list \<Rightarrow> mount_input list \<Rightarrow> service_input" where
  "shop_service name deps mounts =
     \<lparr>svi_name = name, svi_source = Input_Image (''registry/'' @ name @ '':1''),
      svi_replicas = Typed_Literal 1, svi_environment = Mapping.empty,
      svi_command = [], svi_arguments = [], svi_mounts = mounts, svi_secrets = [], svi_files = [],
      svi_healthcheck = None, svi_resources = None, svi_depends_on = deps,
      svi_rollout = \<lparr>ri_order = None, ri_monitor_seconds = None\<rparr>, svi_receives_telemetry = False\<rparr>"

definition shop_spec :: application_spec where
  "shop_spec =
     \<lparr>as_manifest = None,
      as_services = [shop_service ''web'' [''db''] [],
        shop_service ''db'' [] [\<lparr>mi_volume = ''data'', mi_target = ''/data'', mi_read_only = False\<rparr>]],
      as_volumes = [''data''],
      as_routes =
        [\<lparr>rti_hostname = ''Shop.example.org'', rti_name = Some ''main'', rti_visibility = Public,
          rti_service = Some ''web'', rti_port = Some 80, rti_redirect = None\<rparr>,
         \<lparr>rti_hostname = ''www.example.org'', rti_name = None, rti_visibility = Public,
          rti_service = None, rti_port = None,
          rti_redirect = Some \<lparr>rdi_to = ''https://shop.example.org'', rdi_status = 308, rdi_preserve_path = True\<rparr>\<rparr>],
      as_secrets = [],
      as_jobs = [\<lparr>ji_name = ''migrate'', ji_service = ''web'', ji_command = [''migrate''], ji_environment = Mapping.empty,
         ji_secrets = [], ji_run = BeforeRollout, ji_timeout_seconds = 60, ji_volume_access = Access_ReadOnly,
         ji_stop_service = False\<rparr>],
      as_exports = [\<lparr>xi_service = ''db'', xi_applications = [''billing''], xi_previews = False\<rparr>], as_imports = [],
      as_variables = Mapping.empty, as_environments = Mapping.empty, as_previews = preview_config_default\<rparr>"

definition shop_manifest :: application_manifest where
  "shop_manifest = \<lparr>am_api_version = APPLICATION_API_VERSION, am_kind = APPLICATION_KIND, am_name = ''shop'', am_spec = shop_spec\<rparr>"

text \<open>The example is evaluated part by part, without its messages.\<close>

lemma push_when_cong: "b = b' \<Longrightarrow> push_when b code path message = push_when b' code path message"
  by simp

lemmas shop_simps = validate_process_arguments_def as_literal_def contains_str_def OPEN_def
  MAX_PROCESS_ELEMENTS_def MAX_PROCESS_ELEMENT_BYTES_def validate_secrets_def validate_files_def
  validate_mounts_def rollout_validate_def MAX_MOUNTS_PER_SERVICE_def MIN_REPLICAS_def MAX_REPLICAS_def Let_def

lemma shop_names:
  "valid_logical_name ''web''" "valid_logical_name ''db''" "valid_logical_name ''data''" "valid_logical_name ''migrate''"
  "valid_image_reference ''registry/web:1''" "valid_image_reference ''registry/db:1''"
  by code_simp+

lemma shop_variables: "variable_map_validate rules Mapping.empty path = []"
  by (simp add: variable_map_validate_def check_map_def sorted_keys_def Let_def)

lemma shop_mount: "validate_absolute_path ''/data'' path = []"
proof -
  have "drop 1 (split_on (CHR ''/'') ''/data'') = [''data'']" "\<not> any_control ''/data''"
    "BACKSLASH \<notin> set ''/data''" "\<not> mentions_reference ''/data''" "\<not> suffix ''/'' ''/data''" by code_simp+
  then show ?thesis by (simp add: validate_absolute_path_def cong: push_when_cong)
qed

lemma shop_services:
  "service_validate (shop_service ''web'' [''db''] []) path volumes False = []"
  "service_validate (shop_service ''db'' [] [\<lparr>mi_volume = ''data'', mi_target = ''/data'', mi_read_only = False\<rparr>])
     path {''data''} False = []"
  by (simp_all add: service_validate_def shop_service_def shop_simps shop_names shop_variables shop_mount validate_name_def
      mentions_reference_def reserved_mounts_def PROBE_CONTAINER_PATH_def TELEMETRY_DIRECTORY_def
      cong: push_when_cong)

lemma shop_jobs: "validate_jobs (as_services shop_spec) (as_jobs shop_spec) = []"
proof -
  have "dependencies_of svi_name svi_depends_on (as_services shop_spec) ''web'' = {''db''}"
    "\<not> blank_literal ''migrate''" "nul \<notin> set ''migrate''" by code_simp+
  then show ?thesis
    by (simp add: validate_jobs_def job_validate_def shop_spec_def shop_service_def shop_simps shop_names shop_variables
        validate_name_def mentions_reference_def unique_names_def job_order_errors_def validate_additions_def find_service_def
        MAX_TIMEOUT_SECONDS_def sorted_keys_def cong: push_when_cong)
qed

lemma shop_checks:
  "validate_header shop_manifest = []" "within_budgets shop_spec = []"  "validate_links shop_spec = []"
  "check_variables shop_spec = []" "as_manifest shop_spec = None"
  "unique_names (map svi_name (as_services shop_spec)) ''spec.services'' ''service_name_duplicate'' = []"
  "unique_names (as_volumes shop_spec) ''spec.volumes'' ''volume_name_duplicate'' = []"
  "validate_telemetry_receiver (as_services shop_spec) = []" "inline_file_bytes shop_spec = 0"
  "validate_volumes (as_volumes shop_spec) = []" "validate_generated_secrets (as_secrets shop_spec) = []"
  by code_simp+

lemma shop_environments: "case declared_environments shop_spec of Inl invalid \<Rightarrow> False | Inr _ \<Rightarrow> True" by code_simp

lemma shop_order: "map svi_name (snd (startup_order svi_name svi_depends_on (as_services shop_spec))) = []"
  by code_simp

lemma shop_dependencies: "validate_dependencies (as_services shop_spec) = []"
  unfolding validate_dependencies_def shop_order Let_def by code_simp

lemma shop_routes: "validate_route_list (as_services shop_spec) 0 {} {} (as_routes shop_spec) = []"
  by code_simp

lemma shop_hostnames:
  "canonical_hostnames (as_routes shop_spec) = {''shop.example.org'', ''www.example.org''}"
proof -
  have "map (canonical_literal \<circ> rti_hostname) (as_routes shop_spec) = [Some ''shop.example.org'', Some ''www.example.org'']"
    by code_simp
  then have "(\<Union>h \<in> set (map (canonical_literal \<circ> rti_hostname) (as_routes shop_spec)). set_option h)
      = {''shop.example.org'', ''www.example.org''}" by auto
  then show ?thesis by (simp add: canonical_hostnames_def)
qed

lemma shop_loops:
  "check_list (loop_validate {''shop.example.org'', ''www.example.org''}) 0 (map canonical_route (as_routes shop_spec)) = []"
  by code_simp

definition shop_template :: validated_template where
  "shop_template = \<lparr>vt_name = ''shop'', vt_spec = canonical_images (canonical_spec shop_spec)\<rparr>"

lemma shop_validates: "validate_spec (canonical_spec shop_spec) = []"
proof -
  have "validate_services (canonical_spec shop_spec) = []"
    using shop_services by (simp add: validate_services_def canonical_spec_def shop_spec_def)
  moreover have "validate_links (canonical_spec shop_spec) = []" "check_variables (canonical_spec shop_spec) = []"
    "inline_file_bytes (canonical_spec shop_spec) = 0"
    by code_simp+
  moreover have "case declared_environments (canonical_spec shop_spec) of Inl invalid \<Rightarrow> False | Inr _ \<Rightarrow> True"
    by code_simp
  ultimately show ?thesis
    using shop_checks shop_dependencies shop_jobs by (simp add: validate_spec_def split: sum.splits)
qed

lemma shop_accepted: "validate_template shop_manifest = Inr shop_template"
proof -
  have spec: "am_spec shop_manifest = shop_spec" "am_name shop_manifest = ''shop''"
    by (simp_all add: shop_manifest_def)
  have "metadata_from_input ''shop'' = Inr ''shop''" by code_simp
  moreover have "validate_routes shop_spec = (canonical_spec shop_spec, [])"
    using shop_routes shop_loops by (simp add: validate_routes_def canonical_spec_def shop_hostnames)
  ultimately show ?thesis
    using shop_checks(1,2,5) shop_validates by (simp add: validate_template_def spec shop_template_def)
qed

lemma shop_literal: "all_literal (spec_slots (vt_spec shop_template))"
  by code_simp

lemma shop_converts: "\<exists>a. manifest_validate shop_manifest = Inr a"
proof -
  have "filter (\<lambda>p. slot_unresolved (snd p)) (spec_slots (vt_spec shop_template)) = []"
    using shop_literal unresolved_not_literal unfolding all_literal_def list_all_iff filter_empty_conv by blast
  moreover from this have "converts True (spec_from_input (vt_spec shop_template))"
    using converts_spec [OF accepted_ready [OF shop_accepted] resolved_texts] shop_literal by simp
  ultimately show ?thesis
    by (auto simp: manifest_validate_def shop_accepted into_literal_def literal_errors converts_def split: sum.splits)
qed

section \<open>Properties\<close>

text \<open>C2: A manifest that validation accepted converts to validated values exactly when all its values are
  literal. When it does not, the only errors are unresolved values: no name, route, hostname, port, link
  or export is refused by the conversion, so validation covers everything the conversion checks.\<close>

theorem accepted_manifests_convert:
  assumes "validate_template m = Inr t"
  shows "case into_literal t of
     Inr a \<Rightarrow> all_literal (spec_slots (vt_spec t)) \<and> va_name a = vt_name t
   | Inl errors \<Rightarrow>
       \<not> all_literal (spec_slots (vt_spec t)) \<and> errors \<noteq> []
       \<and> list_all (\<lambda>e. ve_code e = ''variable_unresolved'') errors"
proof (cases "filter (\<lambda>p. slot_unresolved (snd p)) (spec_slots (vt_spec t)) = []")
  case True
  from converts_spec [OF accepted_ready [OF assms] resolved_texts [OF True]] show ?thesis
    by (auto simp: into_literal_def literal_errors True converts_def unresolved_def validation_error_new_def
        split: sum.splits)
next
  case False
  let ?errors = "map (\<lambda>p. unresolved (fst p)) (filter (\<lambda>p. slot_unresolved (snd p)) (spec_slots (vt_spec t)))"
  have "into_literal t = Inl (sorted_errors ?errors)"
    using False by (simp add: into_literal_def literal_errors)
  moreover have "\<not> all_literal (spec_slots (vt_spec t))"
    using False unresolved_not_literal unfolding all_literal_def list_all_iff filter_empty_conv by blast
  moreover have "set (sorted_errors ?errors) = set ?errors" by (simp add: sorted_errors_def)
  then have "list_all (\<lambda>e. ve_code e = ''variable_unresolved'') (sorted_errors ?errors)" "sorted_errors ?errors \<noteq> []"
    using False by (auto simp: list_all_iff unresolved_def validation_error_new_def simp flip: set_empty)
  ultimately show ?thesis by simp
qed

theorem accepted_manifests_convert_witness:
  "\<exists>a. into_literal shop_template = Inr a \<and> va_name a = ''shop''"
proof -
  have "vt_name shop_template = ''shop''" by (simp add: shop_template_def)
  with accepted_manifests_convert [OF shop_accepted] shop_literal show ?thesis
    by (cases "into_literal shop_template") auto
qed

text \<open>C1: A manifest that \<open>ApplicationManifest::validate\<close> accepts is well formed: services, volumes, jobs,
  route names, hostnames, exports and imports are unique; every dependency, mount, job, export and route
  names something declared; the services can be ordered for startup; replicas are between 1 and 100, and
  exactly 1 for the only service that receives telemetry; no job of a dependency comes after the jobs that
  need it; and no redirect leads to a hostname its route serves.\<close>

theorem accepted_manifests_are_well_formed:
  assumes "manifest_validate m = Inr a"
  shows "spec_well_formed (va_spec a)"
  using assms by (rule accepted_well_formed)

theorem accepted_manifests_are_well_formed_witness:
  "\<exists>a. manifest_validate shop_manifest = Inr a \<and> spec_well_formed (va_spec a)"
  using shop_converts accepted_manifests_are_well_formed by blast

text \<open>C4: The startup order of an accepted application starts every service exactly once, each one only
  after all the services it depends on.\<close>

theorem accepted_services_start_in_order:
  assumes "manifest_validate m = Inr a"
  shows "case startup_order vs_name vs_depends_on (sp_services (va_spec a)) of (ordered, cyclic) \<Rightarrow>
     cyclic = [] \<and> mset ordered = mset (sp_services (va_spec a))
     \<and> (\<forall>i < length ordered. set (vs_depends_on (ordered ! i)) \<subseteq> set (map vs_name (take i ordered)))"
proof -
  let ?services = "sp_services (va_spec a)"
  obtain ordered where order: "startup_order vs_name vs_depends_on ?services = (ordered, [])"
    using accepted_well_formed [OF assms] unfolding spec_well_formed_def by (metis prod.collapse)
  have services: "mset ordered = mset ?services" using startup_order_spec(1) [OF order] by simp
  have declared: "set (vs_depends_on s) \<subseteq> vs_name ` set ?services" if "s \<in> set ?services" for s
    using accepted_well_formed [OF assms] that
    by (auto simp: spec_well_formed_def service_well_formed_def list_all_iff)
  have "set (vs_depends_on (ordered ! i)) \<subseteq> set (map vs_name (take i ordered))" if i: "i < length ordered" for i
  proof -
    have split: "fst (startup_order vs_name vs_depends_on ?services) = take i ordered @ ordered ! i # drop (Suc i) ordered"
      using i by (simp add: order flip: id_take_nth_drop)
    have "ordered ! i \<in> set ?services" using i services by (metis mset_eq_setD nth_mem)
    from declared [OF this] show ?thesis
      using startup.dependency_before [OF split] unfolding set_map by blast
  qed
  then show ?thesis by (simp add: order services)
qed

theorem accepted_services_start_in_order_witness:
  "\<exists>a. manifest_validate shop_manifest = Inr a
     \<and> mset (fst (startup_order vs_name vs_depends_on (sp_services (va_spec a)))) = mset (sp_services (va_spec a))"
  using shop_converts accepted_services_start_in_order by (fastforce simp: split_def)

text \<open>A typed setting written as an escape, such as \<open>replicas = "$${{"\<close>, references nothing, so the check for
  unresolved values passes it, but it is not a literal either, so the conversion refuses it.\<close>

lemma escaped_settings_are_refused:
  "\<not> slot_unresolved (Slot_U16 (Typed_Template ''$${{''))"
  "into_value path (Typed_Template ''$${{'' :: u16 typed) = Inl [unresolved path]"
proof -
  have "as_literal ''$${{'' = Some ''${{''" by code_simp
  then show "\<not> slot_unresolved (Slot_U16 (Typed_Template ''$${{''))" by (simp add: slot_unresolved_def)
qed (simp add: into_value_def)

end
