(* ===== verification/Normalization.thy ===== *)
theory Normalization
  imports Well_Formed "HOL-Library.Option_ord"
begin

text \<open>
  Canonical order: \<open>sort_unordered!\<close> of \<open>crates/piqueld-core/src/manifest/mod.rs\<close> and the derived
  orders it sorts by. A derived \<open>Ord\<close> of a struct compares its fields in order, that of an enum the
  variant and then its fields: a key into a lexicographic product says so for each type.
\<close>

section \<open>Derived orders\<close>

definition mount_key :: "validated_mount \<Rightarrow> string \<times> string \<times> bool" where
  "mount_key m = (vm_volume m, vm_target m, vm_read_only m)"

definition secret_key :: "secret_mount \<Rightarrow> string \<times> string" where
  "secret_key s = (sm_name s, sm_target s)"

fun file_source_key :: "file_source \<Rightarrow> bool \<times> string" where
  "file_source_key (File_Path path) = (False, path)"
| "file_source_key (File_Content content) = (True, content)"

definition file_key :: "service_file \<Rightarrow> string \<times> (bool \<times> string) \<times> u32" where
  "file_key f = (sf_target f, file_source_key (sf_source f), sf_mode f)"

fun encoding_key :: "secret_encoding \<Rightarrow> bool" where
  "encoding_key Encoding_Hex = False"
| "encoding_key Encoding_Base64url = True"

fun generator_key :: "secret_generator \<Rightarrow> bool \<times> u16 \<times> bool" where
  "generator_key (Generate_Random bytes encoding) = (False, bytes, encoding_key encoding)"
| "generator_key (Generate_Rsa bits) = (True, bits, False)"

definition declaration_key :: "secret_declaration \<Rightarrow> string \<times> bool \<times> u16 \<times> bool" where
  "declaration_key d = (sd_name d, generator_key (sd_generate d))"

fun visibility_key :: "visibility \<Rightarrow> bool" where
  "visibility_key Public = False"
| "visibility_key Private = True"

fun target_key :: "route_target \<Rightarrow> bool \<times> string \<times> u16 \<times> bool" where
  "target_key (Route_Service service port) = (False, service, port, False)"
| "target_key (Route_Redirect r) = (True, vrd_to r, redirect_status_code (vrd_status r), vrd_preserve_path r)"

definition route_key ::
  "validated_route \<Rightarrow> string \<times> string option \<times> bool \<times> bool \<times> string \<times> u16 \<times> bool" where
  "route_key r = (vr_hostname r, vr_name r, visibility_key (vr_visibility r), target_key (vr_target r))"

text \<open>The order of a \<open>BTreeSet\<close> is that of its elements in order.\<close>

definition export_key :: "validated_export \<Rightarrow> string \<times> string list \<times> bool" where
  "export_key e = (ve_service e, sorted_list_of_set (ve_applications e), ve_previews e)"

definition import_key :: "validated_import \<Rightarrow> string \<times> string \<times> string option" where
  "import_key i = (vi_application i, vi_service i, vi_environment i)"

lemma keys_inject:
  "mount_key m = mount_key m' \<Longrightarrow> m = m'" "secret_key s = secret_key s' \<Longrightarrow> s = s'"
  "file_source_key fs = file_source_key fs' \<Longrightarrow> fs = fs'" "file_key f = file_key f' \<Longrightarrow> f = f'"
  "generator_key g = generator_key g' \<Longrightarrow> g = g'" "declaration_key d = declaration_key d' \<Longrightarrow> d = d'"
  "visibility_key v = visibility_key v' \<Longrightarrow> v = v'" "target_key t = target_key t' \<Longrightarrow> t = t'"
  "route_key r = route_key r' \<Longrightarrow> r = r'" "import_key i = import_key i' \<Longrightarrow> i = i'"
proof -
  have code: "redirect_status_code a = redirect_status_code b \<Longrightarrow> a = b" for a b
    by (metis redirect_status_round_trip option.inject)
  show "mount_key m = mount_key m' \<Longrightarrow> m = m'" "secret_key s = secret_key s' \<Longrightarrow> s = s'"
    "import_key i = import_key i' \<Longrightarrow> i = i'"
    by (simp_all add: mount_key_def secret_key_def import_key_def)
  show source: "file_source_key fs = file_source_key fs' \<Longrightarrow> fs = fs'" for fs fs'
    by (cases fs; cases fs') simp_all
  then show "file_key f = file_key f' \<Longrightarrow> f = f'" by (simp add: file_key_def)
  have "encoding_key a = encoding_key b \<Longrightarrow> a = b" for a b by (cases a; cases b) simp_all
  then show generator: "generator_key g = generator_key g' \<Longrightarrow> g = g'" for g g'
    by (cases g; cases g') auto
  then show "declaration_key d = declaration_key d' \<Longrightarrow> d = d'" by (simp add: declaration_key_def)
  show visibility: "visibility_key v = visibility_key v' \<Longrightarrow> v = v'" for v v'
    by (cases v; cases v') simp_all
  show target: "target_key t = target_key t' \<Longrightarrow> t = t'" for t t'
    by (cases t; cases t') (auto dest: code)
  show "r = r'" if "route_key r = route_key r'"
  proof -
    from that have "visibility_key (vr_visibility r) = visibility_key (vr_visibility r')"
      "target_key (vr_target r) = target_key (vr_target r')"
      and rest: "vr_hostname r = vr_hostname r'" "vr_name r = vr_name r'"
      by (simp_all only: route_key_def prod.inject)
    from visibility [OF this(1)] target [OF this(2)] rest show ?thesis by simp
  qed
qed

lemma export_key_inject:
  "finite (ve_applications e) \<Longrightarrow> finite (ve_applications e') \<Longrightarrow> export_key e = export_key e' \<Longrightarrow> e = e'"
  by (auto simp: export_key_def dest: arg_cong [where f = set])

text \<open>Sorting by an injective key is canonical: lists with the same elements sort alike.\<close>

lemma sort_key_canonical:
  assumes "\<And>x y. x \<in> set xs \<Longrightarrow> y \<in> set xs \<Longrightarrow> key x = key y \<Longrightarrow> x = y"
  shows "sort_key key xs = sort_key key ys \<longleftrightarrow> mset xs = mset ys"
proof
  assume "mset xs = mset ys"
  then show "sort_key key xs = sort_key key ys"
    by (intro sort_key_inj_key_eq) (auto intro: inj_onI assms)
qed (metis mset_sort)

section \<open>Sorting a specification\<close>

definition normalize_service :: "validated_service \<Rightarrow> validated_service" where
  "normalize_service s =
     s\<lparr>vs_mounts := sort_key mount_key (vs_mounts s), vs_secrets := sort_key secret_key (vs_secrets s),
       vs_files := sort_key file_key (vs_files s), vs_depends_on := sort (vs_depends_on s)\<rparr>"

definition normalize_job :: "validated_job \<Rightarrow> validated_job" where
  "normalize_job j = j\<lparr>vj_secrets := sort_key secret_key (vj_secrets j)\<rparr>"

definition normalize_spec :: "validated_spec \<Rightarrow> validated_spec" where
  "normalize_spec spec =
     spec\<lparr>sp_services := map normalize_service (sort_key vs_name (sp_services spec)),
          sp_jobs := map normalize_job (sp_jobs spec), sp_volumes := sort (sp_volumes spec),
          sp_routes := sort_key route_key (sp_routes spec), sp_secrets := sort_key declaration_key (sp_secrets spec),
          sp_exports := sort_key export_key (sp_exports spec), sp_imports := sort_key import_key (sp_imports spec)\<rparr>"

text \<open>Two specifications are the same up to the order of what has no order.\<close>

definition same_service :: "validated_service \<Rightarrow> validated_service \<Rightarrow> bool" where
  "same_service s t \<longleftrightarrow>
     s\<lparr>vs_mounts := [], vs_secrets := [], vs_files := [], vs_depends_on := []\<rparr>
       = t\<lparr>vs_mounts := [], vs_secrets := [], vs_files := [], vs_depends_on := []\<rparr>
     \<and> mset (vs_mounts s) = mset (vs_mounts t) \<and> mset (vs_secrets s) = mset (vs_secrets t)
     \<and> mset (vs_files s) = mset (vs_files t) \<and> mset (vs_depends_on s) = mset (vs_depends_on t)"

definition same_job :: "validated_job \<Rightarrow> validated_job \<Rightarrow> bool" where
  "same_job j k \<longleftrightarrow> j\<lparr>vj_secrets := []\<rparr> = k\<lparr>vj_secrets := []\<rparr> \<and> mset (vj_secrets j) = mset (vj_secrets k)"

definition same_spec :: "validated_spec \<Rightarrow> validated_spec \<Rightarrow> bool" where
  "same_spec s t \<longleftrightarrow>
     sp_manifest s = sp_manifest t
     \<and> (\<exists>services. mset services = mset (sp_services t) \<and> list_all2 same_service (sp_services s) services)
     \<and> list_all2 same_job (sp_jobs s) (sp_jobs t)
     \<and> mset (sp_volumes s) = mset (sp_volumes t) \<and> mset (sp_routes s) = mset (sp_routes t)
     \<and> mset (sp_secrets s) = mset (sp_secrets t) \<and> mset (sp_exports s) = mset (sp_exports t)
     \<and> mset (sp_imports s) = mset (sp_imports t)"

lemma record_split:
  "(s :: validated_service)\<lparr>vs_mounts := a, vs_secrets := b, vs_files := c, vs_depends_on := d\<rparr>
     = t\<lparr>vs_mounts := a', vs_secrets := b', vs_files := c', vs_depends_on := d'\<rparr> \<longleftrightarrow>
   s\<lparr>vs_mounts := [], vs_secrets := [], vs_files := [], vs_depends_on := []\<rparr>
     = t\<lparr>vs_mounts := [], vs_secrets := [], vs_files := [], vs_depends_on := []\<rparr>
   \<and> a = a' \<and> b = b' \<and> c = c' \<and> d = d'"
  by (cases s; cases t) auto

lemma normalize_service_same: "normalize_service s = normalize_service t \<longleftrightarrow> same_service s t"
proof -
  have "sort_key mount_key (vs_mounts s) = sort_key mount_key (vs_mounts t) \<longleftrightarrow> mset (vs_mounts s) = mset (vs_mounts t)"
    "sort_key secret_key (vs_secrets s) = sort_key secret_key (vs_secrets t) \<longleftrightarrow> mset (vs_secrets s) = mset (vs_secrets t)"
    "sort_key file_key (vs_files s) = sort_key file_key (vs_files t) \<longleftrightarrow> mset (vs_files s) = mset (vs_files t)"
    "sort (vs_depends_on s) = sort (vs_depends_on t) \<longleftrightarrow> mset (vs_depends_on s) = mset (vs_depends_on t)"
    by (rule sort_key_canonical, simp add: keys_inject)+
  then show ?thesis unfolding normalize_service_def same_service_def by (subst record_split) blast
qed

lemma normalize_job_same: "normalize_job j = normalize_job k \<longleftrightarrow> same_job j k"
proof -
  have "sort_key secret_key (vj_secrets j) = sort_key secret_key (vj_secrets k) \<longleftrightarrow> mset (vj_secrets j) = mset (vj_secrets k)"
    by (rule sort_key_canonical) (simp add: keys_inject)
  moreover have "j\<lparr>vj_secrets := a\<rparr> = k\<lparr>vj_secrets := b\<rparr> \<longleftrightarrow> j\<lparr>vj_secrets := []\<rparr> = k\<lparr>vj_secrets := []\<rparr> \<and> a = b" for a b
    by (cases j; cases k) auto
  ultimately show ?thesis unfolding normalize_job_def same_job_def by blast
qed

lemma same_service_name: "same_service s t \<Longrightarrow> vs_name s = vs_name t"
  unfolding same_service_def by (cases s; cases t) simp

text \<open>Services with distinct names sort to the same list exactly when they are the same up to order.\<close>

lemma normalize_services_same:
  assumes "distinct (map vs_name xs)" "distinct (map vs_name ys)"
  shows "map normalize_service (sort_key vs_name xs) = map normalize_service (sort_key vs_name ys) \<longleftrightarrow>
    (\<exists>zs. mset zs = mset ys \<and> list_all2 same_service xs zs)"
proof
  assume eq: "map normalize_service (sort_key vs_name xs) = map normalize_service (sort_key vs_name ys)"
  then have "list_all2 (=) (map normalize_service (sort_key vs_name xs)) (map normalize_service (sort_key vs_name ys))"
    by (simp add: list.rel_eq)
  then have "list_all2 same_service (sort_key vs_name xs) (sort_key vs_name ys)"
    by (simp only: list.rel_map normalize_service_same)
  moreover have "mset xs = mset (sort_key vs_name xs)" by simp
  ultimately have "\<exists>zs. list_all2 same_service xs zs \<and> mset zs = mset (sort_key vs_name ys)"
    by (rule list_all2_reorder_left_invariance)
  then show "\<exists>zs. mset zs = mset ys \<and> list_all2 same_service xs zs" by auto
next
  assume "\<exists>zs. mset zs = mset ys \<and> list_all2 same_service xs zs"
  then obtain zs where zs: "mset zs = mset ys" "list_all2 same_service xs zs" by blast
  have names: "map vs_name xs = map vs_name zs"
    using zs(2) by (induction rule: list_all2_induct) (simp_all add: same_service_name)
  have normal: "map normalize_service xs = map normalize_service zs"
    using zs(2) by (induction rule: list_all2_induct) (simp_all add: normalize_service_same)
  have inj: "inj_on vs_name (set zs)" using assms(1) by (simp add: names distinct_map)
  have swap: "sort_key vs_name (map normalize_service us) = map normalize_service (sort_key vs_name us)" for us
  proof -
    have "insort_key vs_name (normalize_service x) (map normalize_service us) = map normalize_service (insort_key vs_name x us)"
      for x us by (induction us) (simp_all add: normalize_service_def)
    then show ?thesis by (induction us) simp_all
  qed
  have "sort_key vs_name zs = sort_key vs_name ys" by (rule sort_key_inj_key_eq [OF _ inj]) (simp_all add: zs(1))
  then show "map normalize_service (sort_key vs_name xs) = map normalize_service (sort_key vs_name ys)"
    using swap [of xs] swap [of zs] normal by simp
qed

lemma normalize_spec_same:
  assumes "distinct (map vs_name (sp_services s))" "distinct (map vs_name (sp_services t))"
    and "\<forall>e \<in> set (sp_exports s) \<union> set (sp_exports t). finite (ve_applications e)"
  shows "normalize_spec s = normalize_spec t \<longleftrightarrow> same_spec s t"
proof -
  have lists: "sort (sp_volumes s) = sort (sp_volumes t) \<longleftrightarrow> mset (sp_volumes s) = mset (sp_volumes t)"
    "sort_key route_key (sp_routes s) = sort_key route_key (sp_routes t) \<longleftrightarrow> mset (sp_routes s) = mset (sp_routes t)"
    "sort_key declaration_key (sp_secrets s) = sort_key declaration_key (sp_secrets t)
       \<longleftrightarrow> mset (sp_secrets s) = mset (sp_secrets t)"
    "sort_key import_key (sp_imports s) = sort_key import_key (sp_imports t) \<longleftrightarrow> mset (sp_imports s) = mset (sp_imports t)"
    by (rule sort_key_canonical, simp add: keys_inject)+
  have exports: "sort_key export_key (sp_exports s) = sort_key export_key (sp_exports t)
      \<longleftrightarrow> mset (sp_exports s) = mset (sp_exports t)"
    by (rule sort_key_canonical) (use assms(3) in \<open>blast intro: export_key_inject\<close>)
  have jobs: "map normalize_job (sp_jobs s) = map normalize_job (sp_jobs t) \<longleftrightarrow> list_all2 same_job (sp_jobs s) (sp_jobs t)"
  proof -
    have "map normalize_job (sp_jobs s) = map normalize_job (sp_jobs t) \<longleftrightarrow>
        list_all2 (=) (map normalize_job (sp_jobs s)) (map normalize_job (sp_jobs t))"
      by (simp add: list.rel_eq)
    then show ?thesis by (simp only: list.rel_map normalize_job_same)
  qed
  note services = normalize_services_same [OF assms(1,2)]
  have "normalize_spec s = normalize_spec t \<longleftrightarrow>
      sp_manifest s = sp_manifest t
      \<and> map normalize_service (sort_key vs_name (sp_services s)) = map normalize_service (sort_key vs_name (sp_services t))
      \<and> map normalize_job (sp_jobs s) = map normalize_job (sp_jobs t)
      \<and> sort (sp_volumes s) = sort (sp_volumes t) \<and> sort_key route_key (sp_routes s) = sort_key route_key (sp_routes t)
      \<and> sort_key declaration_key (sp_secrets s) = sort_key declaration_key (sp_secrets t)
      \<and> sort_key export_key (sp_exports s) = sort_key export_key (sp_exports t)
      \<and> sort_key import_key (sp_imports s) = sort_key import_key (sp_imports t)"
    unfolding normalize_spec_def by (cases s; cases t) auto
  then show ?thesis unfolding services jobs lists exports same_spec_def .
qed

lemma same_spec_refl: "same_spec s s"
proof -
  have "list_all2 same_service (sp_services s) (sp_services s)" "list_all2 same_job (sp_jobs s) (sp_jobs s)"
    by (auto simp: list_all2_conv_all_nth same_service_def same_job_def)
  then show ?thesis unfolding same_spec_def by blast
qed

text \<open>Sorting again changes nothing.\<close>

lemma sort_key_idem [simp]: "sort_key key (sort_key key xs) = sort_key key xs"
  by (simp add: sort_key_id_if_sorted)

lemma normalize_service_idem: "normalize_service (normalize_service s) = normalize_service s"
  by (simp add: normalize_service_def)

lemma normalize_spec_idem: "normalize_spec (normalize_spec s) = normalize_spec s"
proof -
  have "vs_name \<circ> normalize_service = vs_name" by (auto simp: normalize_service_def)
  then have "sorted (map vs_name (map normalize_service (sort_key vs_name (sp_services s))))" by simp
  then have "sort_key vs_name (map normalize_service (sort_key vs_name (sp_services s)))
      = map normalize_service (sort_key vs_name (sp_services s))"
    by (rule sort_key_id_if_sorted)
  then show ?thesis by (simp add: normalize_spec_def normalize_job_def normalize_service_idem comp_def)
qed

end
