(* ===== verification/Applications.thy ===== *)
theory Applications
  imports Normalization
begin

text \<open>
  Applications and templates of \<open>crates/piqueld-core/src/manifest/mod.rs\<close> and \<open>template.rs\<close>: canonical
  order of the editable specification, captured repository files (\<open>files.rs\<close>) and the rendering of a
  template into a validated, normalized application. \<open>hash\<close> stands for the SHA-256 digest of the JSON
  of a specification with its files.
\<close>

section \<open>Canonical order of the editable specification\<close>

definition mount_input_key :: "mount_input \<Rightarrow> string \<times> string \<times> bool" where
  "mount_input_key m = (mi_volume m, mi_target m, mi_read_only m)"

definition secret_input_key :: "secret_input \<Rightarrow> string \<times> string" where
  "secret_input_key s = (si_name s, si_target s)"

definition redirect_input_key :: "redirect_input \<Rightarrow> string \<times> u16 \<times> bool" where
  "redirect_input_key r = (rdi_to r, rdi_status r, rdi_preserve_path r)"

definition route_input_key ::
  "route_input \<Rightarrow> string \<times> string option \<times> bool \<times> string option \<times> u16 option \<times> (string \<times> u16 \<times> bool) option" where
  "route_input_key r =
     (rti_hostname r, rti_name r, visibility_key (rti_visibility r), rti_service r, rti_port r,
      map_option redirect_input_key (rti_redirect r))"

definition export_input_key :: "export_input \<Rightarrow> string \<times> string list \<times> bool" where
  "export_input_key e = (xi_service e, xi_applications e, xi_previews e)"

definition import_input_key :: "import_input \<Rightarrow> string \<times> string \<times> string option" where
  "import_input_key i = (ii_application i, ii_service i, ii_environment i)"

definition normalize_service_input :: "service_input \<Rightarrow> service_input" where
  "normalize_service_input s =
     s\<lparr>svi_mounts := sort_key mount_input_key (svi_mounts s), svi_secrets := sort_key secret_input_key (svi_secrets s),
       svi_files := sort_key file_key (svi_files s), svi_depends_on := sort (svi_depends_on s)\<rparr>"

definition normalize_job_input :: "job_input \<Rightarrow> job_input" where
  "normalize_job_input j = j\<lparr>ji_secrets := sort_key secret_input_key (ji_secrets j)\<rparr>"

definition normalize_input :: "application_spec \<Rightarrow> application_spec" where
  "normalize_input spec =
     spec\<lparr>as_services := map normalize_service_input (sort_key svi_name (as_services spec)),
          as_jobs := map normalize_job_input (as_jobs spec), as_volumes := sort (as_volumes spec),
          as_routes := sort_key route_input_key (as_routes spec), as_secrets := sort_key declaration_key (as_secrets spec),
          as_exports := sort_key export_input_key (as_exports spec), as_imports := sort_key import_input_key (as_imports spec)\<rparr>"

section \<open>Repository files (files.rs)\<close>

type_synonym repository_files = "(string, string) mapping"

definition files_bytes :: "repository_files \<Rightarrow> nat" where
  "files_bytes files =
     sum_list (map (\<lambda>path. length (case Mapping.lookup files path of None \<Rightarrow> [] | Some content \<Rightarrow> content)) (sorted_keys files))"

datatype file_capture_error = Capture_Empty string | Capture_Too_Large string | Capture_Total_Too_Large

definition repository_file_paths :: "application_spec \<Rightarrow> string list" where
  "repository_file_paths spec =
     sorted_list_of_set (set (List.map_filter (\<lambda>file. case sf_source file of File_Path path \<Rightarrow> Some path | File_Content _ \<Rightarrow> None)
       (concat (map svi_files (as_services spec)))))"

definition check_captured :: "application_spec \<Rightarrow> repository_files \<Rightarrow> file_capture_error + unit" where
  "check_captured spec files =
     (let content = (\<lambda>path. case Mapping.lookup files path of None \<Rightarrow> [] | Some content \<Rightarrow> content) in
      case List.find (\<lambda>path. content path = []) (sorted_keys files) of
        Some path \<Rightarrow> Inl (Capture_Empty path)
      | None \<Rightarrow>
          (case List.find (\<lambda>path. MAX_FILE_BYTES < length (content path)) (sorted_keys files) of
             Some path \<Rightarrow> Inl (Capture_Too_Large path)
           | None \<Rightarrow>
               if MAX_TOTAL_FILE_BYTES < inline_file_bytes spec + files_bytes files
               then Inl Capture_Total_Too_Large else Inr ()))"

section \<open>Normalized applications (mod.rs)\<close>

record normalized_application =
  na_id :: application_id
  na_api_version :: string
  na_kind :: string
  na_name :: logical_name
  na_spec :: validated_spec
  na_files :: repository_files

definition validated_normalize :: "validated_application \<Rightarrow> application_id \<Rightarrow> normalized_application" where
  "validated_normalize a i =
     \<lparr>na_id = i, na_api_version = APPLICATION_API_VERSION, na_kind = APPLICATION_KIND, na_name = va_name a,
      na_spec = normalize_spec (va_spec a), na_files = Mapping.empty\<rparr>"

definition na_with_files :: "normalized_application \<Rightarrow> repository_files \<Rightarrow> normalized_application" where
  "na_with_files app files = app\<lparr>na_files := files\<rparr>"

definition na_with_id :: "normalized_application \<Rightarrow> application_id \<Rightarrow> normalized_application" where
  "na_with_id app i = app\<lparr>na_id := i\<rparr>"

definition na_with_name :: "normalized_application \<Rightarrow> logical_name \<Rightarrow> normalized_application" where
  "na_with_name app name = app\<lparr>na_name := name\<rparr>"

definition na_with_manifest_revision ::
  "normalized_application \<Rightarrow> manifest_revision \<Rightarrow> validation_errors + normalized_application" where
  "na_with_manifest_revision app revision =
     and_then (revision_apply revision (sp_manifest (na_spec app)))
       (\<lambda>manifest. Inr (app\<lparr>na_spec := (na_spec app)\<lparr>sp_manifest := manifest\<rparr>\<rparr>))"

definition pin_manifest_sources :: "normalized_application \<Rightarrow> string \<Rightarrow> normalized_application" where
  "pin_manifest_sources app commit =
     (case sp_manifest (na_spec app) of
        None \<Rightarrow> app
      | Some manifest \<Rightarrow>
          (let repository = repository_at (rm_repository manifest) (Revision_Commit commit)
           in app\<lparr>na_spec := (na_spec app)\<lparr>sp_services :=
                map (\<lambda>s. s\<lparr>vs_source := resolve_manifest_repository repository (vs_source s)\<rparr>)
                  (sp_services (na_spec app))\<rparr>\<rparr>))"

definition na_normalize :: "normalized_application \<Rightarrow> normalized_application" where
  "na_normalize app = app\<lparr>na_spec := normalize_spec (na_spec app)\<rparr>"

definition na_spec_hash :: "(validated_spec \<Rightarrow> repository_files \<Rightarrow> string) \<Rightarrow> normalized_application \<Rightarrow> string" where
  "na_spec_hash hash app =
     ''sha256:'' @ hash ((na_spec (na_normalize app))\<lparr>sp_manifest := None\<rparr>) (na_files app)"

definition na_to_manifest :: "normalized_application \<Rightarrow> application_manifest" where
  "na_to_manifest app =
     \<lparr>am_api_version = na_api_version app, am_kind = na_kind app, am_name = na_name app,
      am_spec = spec_to_input (na_spec app)\<rparr>"

section \<open>Templates (template.rs)\<close>

record application_template =
  at_id :: application_id
  at_api_version :: string
  at_kind :: string
  at_name :: logical_name
  at_spec :: application_spec
  at_files :: repository_files

record rendering =
  rd_application :: normalized_application
  rd_values :: "(string, variable_value) mapping"

definition template_normalize :: "validated_template \<Rightarrow> application_id \<Rightarrow> application_template" where
  "template_normalize t i =
     \<lparr>at_id = i, at_api_version = APPLICATION_API_VERSION, at_kind = APPLICATION_KIND, at_name = vt_name t,
      at_spec = normalize_input (vt_spec t), at_files = Mapping.empty\<rparr>"

definition at_with_files ::
  "application_template \<Rightarrow> repository_files \<Rightarrow> file_capture_error + application_template" where
  "at_with_files t files = and_then (check_captured (at_spec t) files) (\<lambda>_. Inr (t\<lparr>at_files := files\<rparr>))"

definition at_without_files :: "application_template \<Rightarrow> application_template" where
  "at_without_files t = t\<lparr>at_files := Mapping.empty\<rparr>"

definition at_with_id :: "application_template \<Rightarrow> application_id \<Rightarrow> application_template" where
  "at_with_id t i = t\<lparr>at_id := i\<rparr>"

definition at_with_name :: "application_template \<Rightarrow> logical_name \<Rightarrow> application_template" where
  "at_with_name t name = t\<lparr>at_name := name\<rparr>"

definition at_with_manifest :: "application_template \<Rightarrow> repository_manifest option \<Rightarrow> application_template" where
  "at_with_manifest t manifest = t\<lparr>at_spec := (at_spec t)\<lparr>as_manifest := manifest\<rparr>\<rparr>"

definition at_with_manifest_revision ::
  "application_template \<Rightarrow> manifest_revision \<Rightarrow> validation_errors + application_template" where
  "at_with_manifest_revision t revision =
     and_then (revision_apply revision (as_manifest (at_spec t)))
       (\<lambda>manifest. Inr (t\<lparr>at_spec := (at_spec t)\<lparr>as_manifest := manifest\<rparr>\<rparr>))"

definition at_to_manifest :: "application_template \<Rightarrow> application_manifest" where
  "at_to_manifest t =
     \<lparr>am_api_version = at_api_version t, am_kind = at_kind t, am_name = at_name t, am_spec = at_spec t\<rparr>"

definition template_render ::
  "json_api \<Rightarrow> application_template \<Rightarrow> render_context \<Rightarrow> validation_errors + rendering" where
  "template_render json t context =
     (let manifest = at_to_manifest t;
          (spec, vals, errors) = spec_render json (at_name t) context (am_spec manifest) []
      in if errors \<noteq> [] then Inl (sorted_errors errors)
         else and_then (manifest_validate (manifest\<lparr>am_spec := spec\<rparr>)) (\<lambda>validated.
           Inr \<lparr>rd_application = na_with_files (validated_normalize validated (at_id t)) (at_files t),
                rd_values = vals\<rparr>))"

text \<open>\<open>saved\<close>: rendered outside any deployment; errors are dropped and what does not render stays.\<close>

definition template_saved :: "json_api \<Rightarrow> application_template \<Rightarrow> render_target \<Rightarrow> application_spec" where
  "template_saved json t target = fst (spec_render json (at_name t) (saved_context target) (at_spec t) [])"

definition template_hostnames :: "json_api \<Rightarrow> application_template \<Rightarrow> render_target \<Rightarrow> string list" where
  "template_hostnames json t target =
     List.map_filter (\<lambda>route. Option.bind (as_literal (rti_hostname route))
         (\<lambda>hostname. parse_route_hostname (canonicalize_hostname hostname)))
       (as_routes (template_saved json t target))"

definition template_previewed :: "json_api \<Rightarrow> application_template \<Rightarrow> render_target \<Rightarrow> validated_spec option" where
  "template_previewed json t target =
     (case template_render json t (preview_context target (as_manifest (at_spec t))) of
        Inl _ \<Rightarrow> None | Inr r \<Rightarrow> Some (na_spec (rd_application r)))"

definition renders_like ::
  "json_api \<Rightarrow> application_template \<Rightarrow> render_target \<Rightarrow> application_template \<Rightarrow> render_target \<Rightarrow> bool" where
  "renders_like json t target other renamed \<longleftrightarrow>
     is_some_and (\<lambda>spec. template_previewed json other renamed = Some spec) (template_previewed json t target)"

definition template_values ::
  "application_template \<Rightarrow> render_target \<Rightarrow> (string \<times> variable_value option) list" where
  "template_values t target = spec_values (at_name t) (saved_context target) (at_spec t)"

definition template_configures :: "application_template \<Rightarrow> logical_name \<Rightarrow> bool" where
  "template_configures t environment \<longleftrightarrow> Mapping.lookup (as_environments (at_spec t)) environment \<noteq> None"

text \<open>Secret mounts of services, then of jobs (\<open>ApplicationSpec::secret_mounts\<close>).\<close>

definition declared_source_of :: "secret_declaration list \<Rightarrow> string \<Rightarrow> secret_source" where
  "declared_source_of declared name =
     (if list_ex (\<lambda>secret. sd_name secret = name) declared then Generated else Stored)"

definition template_mounted_secrets ::
  "json_api \<Rightarrow> application_template \<Rightarrow> render_target \<Rightarrow> (string, secret_source) mapping" where
  "template_mounted_secrets json t target =
     (let spec = template_saved json t target in
      fold (\<lambda>secret m.
          (let name = (case as_literal (si_name secret) of None \<Rightarrow> si_name secret | Some name \<Rightarrow> name)
           in Mapping.update name (declared_source_of (as_secrets spec) name) m))
        (input_secret_mounts spec) Mapping.empty)"

end
