(* ===== verification/Application_Facts.thy ===== *)
theory Application_Facts
  imports Applications
begin

text \<open>
  Canonical order keeps an application well formed, so that what a template renders is well formed,
  and its startup order is complete exactly when the dependencies are acyclic.
\<close>

section \<open>Complete startup orders\<close>

lemma startup_complete_acyclic:
  assumes "snd (startup_order name deps services) = []" "distinct (map name services)"
    and "\<forall>s \<in> set services. set (deps s) \<subseteq> name ` set services"
  shows "acyclic (depends name deps services)"
proof -
  obtain ordered where order: "startup_order name deps services = (ordered, [])"
    using assms(1) by (metis prod.collapse)
  have elems: "mset ordered = mset services" using startup_order_spec(1) [OF order] by simp
  then have dist: "distinct (map name ordered)" using assms(2) by (metis mset_eq_imp_distinct_iff mset_map)
  define rank where "rank a = (LEAST i. i < length ordered \<and> name (ordered ! i) = a)" for a
  have rank: "rank (name (ordered ! i)) = i" if "i < length ordered" for i
    unfolding rank_def using that dist
    by (intro Least_equality) (auto simp: distinct_conv_nth nth_eq_iff_index_eq dest: nth_eq_iff_index_eq [OF dist, THEN iffD1, rotated -1])
  have "rank b < rank a" if "(a, b) \<in> depends name deps services" for a b
  proof -
    from that obtain s where s: "s \<in> set services" "name s = a" "b \<in> set (deps s)"
      unfolding depends_def by (auto dest: find_service_mem)
    from s(1) elems obtain i where i: "i < length ordered" "ordered ! i = s"
      by (metis in_set_conv_nth mset_eq_setD)
    have split: "fst (startup_order name deps services) = take i ordered @ s # drop (Suc i) ordered"
      using id_take_nth_drop [OF i(1)] i(2) by (simp add: order)
    have "b \<in> name ` set services" using assms(3) s by blast
    from startup.dependency_before [OF split s(3) this] obtain k where "k < i" "name (ordered ! k) = b"
      using i by (auto simp: in_set_conv_nth)
    then show ?thesis using rank [of k] rank [of i] i s(2) by auto
  qed
  then show ?thesis by (rule acyclicI_order)
qed

lemma depends_permuted:
  assumes "mset (map (\<lambda>s. (name s, set (deps s))) xs) = mset (map (\<lambda>s. (name' s, set (deps' s))) ys)"
    and "distinct (map name xs)"
  shows "depends name deps xs = depends name' deps' ys"
proof -
  have found: "(\<exists>s. find_service name zs a = Some s \<and> b \<in> set (deps s)) \<longleftrightarrow> (\<exists>d. (a, d) \<in> (\<lambda>s. (name s, set (deps s))) ` set zs \<and> b \<in> d)"
    if "distinct (map name zs)" for a b name deps and zs :: "'c list"
    using that
  proof (induction zs)
    case (Cons z zs)
    then show ?case by (cases "name z = a") (force simp: find_service_def)+
  qed (simp add: find_service_def)
  have names: "mset (map name xs) = mset (map name' ys)"
    using arg_cong [OF assms(1), of "image_mset fst"] by (simp add: image_mset.compositionality comp_def)
  then have "distinct (map name' ys)" using assms(2) mset_eq_imp_distinct_iff by blast
  moreover have "(\<lambda>s. (name s, set (deps s))) ` set xs = (\<lambda>s. (name' s, set (deps' s))) ` set ys"
    using mset_eq_setD [OF assms(1)] by simp
  ultimately show ?thesis
    using found [OF assms(2), of _ _ deps] found [of name' ys _ _ deps'] by (simp add: depends_def)
qed

section \<open>Canonical order keeps specifications well formed\<close>

lemma normalize_service_fields [simp]:
  "vs_name (normalize_service s) = vs_name s" "vs_replicas (normalize_service s) = vs_replicas s"
  "vs_receives_telemetry (normalize_service s) = vs_receives_telemetry s"
  "set (vs_depends_on (normalize_service s)) = set (vs_depends_on s)"
  "distinct (vs_depends_on (normalize_service s)) = distinct (vs_depends_on s)"
  "mset (vs_mounts (normalize_service s)) = mset (vs_mounts s)"
  by (simp_all add: normalize_service_def)

lemma normalize_job_fields [simp]:
  "vj_name (normalize_job j) = vj_name j" "vj_service (normalize_job j) = vj_service j"
  by (simp_all add: normalize_job_def)

lemma normalize_spec_sets:
  "mset (sp_services (normalize_spec s)) = image_mset normalize_service (mset (sp_services s))"
  "mset (sp_volumes (normalize_spec s)) = mset (sp_volumes s)"
  "mset (sp_routes (normalize_spec s)) = mset (sp_routes s)"
  "mset (sp_exports (normalize_spec s)) = mset (sp_exports s)"
  "mset (sp_imports (normalize_spec s)) = mset (sp_imports s)"
  "sp_jobs (normalize_spec s) = map normalize_job (sp_jobs s)"
  by (simp_all add: normalize_spec_def)

lemma distinct_mset_map: "mset xs = mset ys \<Longrightarrow> distinct (map f xs) = distinct (map f ys)"
  by (metis mset_eq_imp_distinct_iff mset_map)

lemma distinct_mset_filter: "mset xs = mset ys \<Longrightarrow> distinct (List.map_filter f xs) = distinct (List.map_filter f ys)"
  unfolding map_filter_def by (metis mset_eq_imp_distinct_iff mset_map mset_filter)

lemma list_all_mset: "mset xs = mset ys \<Longrightarrow> list_all P xs = list_all P ys"
  by (metis list_all_iff mset_eq_setD)

lemma normalize_spec_names:
  "mset (map vs_name (sp_services (normalize_spec s))) = mset (map vs_name (sp_services s))"
  by (simp add: normalize_spec_sets image_mset.compositionality comp_def)

lemma normalize_service_well_formed:
  assumes "service_well_formed spec s"
  shows "service_well_formed (normalize_spec spec) (normalize_service s)"
proof -
  have mounts: "distinct (map vm_target (vs_mounts (normalize_service s))) = distinct (map vm_target (vs_mounts s))"
    "set (map vm_volume (vs_mounts (normalize_service s))) = set (map vm_volume (vs_mounts s))"
    using distinct_mset_map [of "vs_mounts (normalize_service s)" "vs_mounts s" vm_target]
      mset_eq_setD [of "vs_mounts (normalize_service s)" "vs_mounts s"] by simp_all
  have sets: "set (map vs_name (sp_services (normalize_spec spec))) = set (map vs_name (sp_services spec))"
    "set (sp_volumes (normalize_spec spec)) = set (sp_volumes spec)"
    by (rule mset_eq_setD [OF normalize_spec_names] mset_eq_setD [OF normalize_spec_sets(2)])+
  show ?thesis
    using assms unfolding service_well_formed_def mounts sets normalize_service_fields .
qed

lemma depends_normalized:
  assumes "distinct (map vs_name (sp_services s))"
  shows "depends vs_name vs_depends_on (sp_services (normalize_spec s)) = depends vs_name vs_depends_on (sp_services s)"
proof (rule depends_permuted [OF _ assms, symmetric])
  show "mset (map (\<lambda>s. (vs_name s, set (vs_depends_on s))) (sp_services s))
      = mset (map (\<lambda>s. (vs_name s, set (vs_depends_on s))) (sp_services (normalize_spec s)))"
    by (simp add: normalize_spec_sets image_mset.compositionality comp_def)
qed

lemma well_formed_acyclic:
  assumes "spec_well_formed spec"
  shows "acyclic (depends vs_name vs_depends_on (sp_services spec))"
  using assms unfolding spec_well_formed_def
  by (intro startup_complete_acyclic) (auto simp: service_well_formed_def list_all_iff)

lemma normalize_spec_well_formed:
  assumes "spec_well_formed spec"
  shows "spec_well_formed (normalize_spec spec)"
proof -
  let ?n = "normalize_spec spec"
  note wf = assms [unfolded spec_well_formed_def]
  have names: "set (map vs_name (sp_services ?n)) = set (map vs_name (sp_services spec))"
    by (rule mset_eq_setD [OF normalize_spec_names])
  have distinct_names: "distinct (map vs_name (sp_services ?n))"
    using wf mset_eq_imp_distinct_iff [OF normalize_spec_names] by blast
  have services: "list_all (service_well_formed ?n) (sp_services ?n)"
    using wf normalize_service_well_formed by (auto simp: normalize_spec_def list_all_iff)
  have order: "snd (startup_order vs_name vs_depends_on (sp_services ?n)) = []"
    by (rule startup.acyclic_complete [OF distinct_names])
      (use well_formed_acyclic [OF assms] wf in \<open>simp add: depends_normalized\<close>)
  have telemetry: "length (filter vs_receives_telemetry (sp_services ?n)) = length (filter vs_receives_telemetry (sp_services spec))"
  proof -
    have "filter_mset vs_receives_telemetry (image_mset normalize_service (mset (sp_services spec)))
        = image_mset normalize_service (filter_mset vs_receives_telemetry (mset (sp_services spec)))"
      by (simp add: filter_mset_image_mset)
    then have "size (filter_mset vs_receives_telemetry (mset (sp_services ?n)))
        = size (filter_mset vs_receives_telemetry (mset (sp_services spec)))"
      by (simp add: normalize_spec_sets)
    then show ?thesis by (metis mset_filter size_mset)
  qed
  have volumes: "distinct (sp_volumes ?n) = distinct (sp_volumes spec)"
    "list_all valid_logical_name (sp_volumes ?n) = list_all valid_logical_name (sp_volumes spec)"
    by (rule mset_eq_imp_distinct_iff [OF normalize_spec_sets(2)] list_all_mset [OF normalize_spec_sets(2)])+
  have jobs: "map vj_name (sp_jobs ?n) = map vj_name (sp_jobs spec)" "map vj_service (sp_jobs ?n) = map vj_service (sp_jobs spec)"
    "list_all (\<lambda>j. vj_service j \<in> set (map vs_name (sp_services spec))) (sp_jobs ?n)
      = list_all (\<lambda>j. vj_service j \<in> set (map vs_name (sp_services spec))) (sp_jobs spec)"
    by (simp_all add: normalize_spec_sets comp_def list_all_iff)
  have dependencies: "dependencies_of vs_name vs_depends_on (sp_services ?n) = dependencies_of vs_name vs_depends_on (sp_services spec)"
    using wf by (simp add: fun_eq_iff dependencies_of_trancl depends_normalized)
  have hostnames: "set (map vr_hostname (sp_routes ?n)) = set (map vr_hostname (sp_routes spec))"
    by (simp add: mset_eq_setD [OF normalize_spec_sets(3)])
  have route: "route_well_formed ?n r = route_well_formed spec r" for r
    unfolding route_well_formed_def names hostnames ..
  show ?thesis
    unfolding spec_well_formed_def names jobs dependencies telemetry volumes route [abs_def]
      distinct_mset_map [OF normalize_spec_sets(3)] distinct_mset_filter [OF normalize_spec_sets(3)]
      list_all_mset [OF normalize_spec_sets(3)] distinct_mset_map [OF normalize_spec_sets(4)]
      list_all_mset [OF normalize_spec_sets(4)] distinct_mset_map [OF normalize_spec_sets(5)]
    using wf distinct_names services order by blast
qed

lemma template_render_parts:
  assumes "template_render json t context = Inr r"
  obtains m a where "manifest_validate m = Inr a"
    and "rd_application r = na_with_files (validated_normalize a (at_id t)) (at_files t)"
  using assms by (auto simp: template_render_def Let_def split_def and_then_Inr split: if_splits)

end
