(* ===== verification/Compilation.thy ===== *)
theory Compilation
  imports Application_Facts Planner
begin

text \<open>
  Compilation of an application to desired resources: \<open>ResolutionSet\<close>, \<open>DesiredService::compile\<close>,
  \<open>DesiredJob::compile\<close> and \<open>ResolvedApplication::compile\<close> of \<open>crates/piqueld-core/src/resource.rs\<close>, the
  build inputs and releases of \<open>release.rs\<close>, file modes (\<open>files.rs\<close>) and the limits of previews
  (\<open>limits.rs\<close>). \<open>sha\<close> and \<open>hash\<close> are digests, as in \<open>Names\<close> and \<open>Applications\<close>. Indexing a map
  panics on a missing key, which is the result \<open>None\<close>.
\<close>

section \<open>File modes (files.rs)\<close>

function octal :: "nat \<Rightarrow> string" where
  "octal n = (if n < 8 then show_nat n else octal (n div 8) @ show_nat (n mod 8))"
  by pat_completeness auto
termination by (relation "measure id") auto

declare octal.simps [simp del]

definition show_file_mode :: "file_mode \<Rightarrow> string" where
  "show_file_mode mode = (let digits = octal (unat mode) in replicate (4 - length digits) (CHR ''0'') @ digits)"

definition from_octal :: "string \<Rightarrow> nat" where
  "from_octal digits = fold (\<lambda>c n. n * 8 + (byte c - 48)) digits 0"

definition parse_file_mode :: "string \<Rightarrow> file_mode option" where
  "parse_file_mode text =
     (case (if length text = 4 then strip_prefix ''0'' text else Some text) of
        None \<Rightarrow> None
      | Some digits \<Rightarrow>
          if length digits \<noteq> 3 \<or> \<not> list_all (\<lambda>c. CHR ''0'' \<le> c \<and> c \<le> CHR ''7'') digits then None
          else Some (word_of_nat (from_octal digits)))"

definition config_name_for :: "(string \<Rightarrow> string) \<Rightarrow> environment_id \<Rightarrow> string \<Rightarrow> file_mode \<Rightarrow> string" where
  "config_name_for sha environment content mode =
     docker_resource_name sha environment File (Some (sha content @ ''-'' @ show_file_mode mode))"

section \<open>Image references (resource.rs)\<close>

definition immutable_digest_reference :: "string \<Rightarrow> bool" where
  "immutable_digest_reference reference \<longleftrightarrow>
     valid_image_reference reference
     \<and> is_some_and (\<lambda>(_, digest). valid_sha256 digest) (split_once (CHR ''@'') reference)"

definition valid_immutable_image :: "string \<Rightarrow> bool" where
  "valid_immutable_image img \<longleftrightarrow> immutable_digest_reference img \<or> valid_sha256 img"

definition image_repository :: "string \<Rightarrow> string option" where
  "image_repository reference =
     (if \<not> valid_image_reference reference then None
      else
        (let without_digest = (case split_once (CHR ''@'') reference of None \<Rightarrow> reference | Some (name, _) \<Rightarrow> name);
             repository = fst (split_tag without_digest);
             hub = (\<lambda>path. if CHR ''/'' \<in> set path then ''docker.io/'' @ path else ''docker.io/library/'' @ path);
             registered = (case registry_component repository of
                Some registry \<Rightarrow> map to_ascii_lowercase registry @ drop (length registry) repository
              | None \<Rightarrow> hub repository)
         in if repository = [] then None
            else
              Some (case split_once (CHR ''/'') repository of
                 Some (host, path) \<Rightarrow>
                   if map to_ascii_lowercase host \<in> {''docker.io'', ''index.docker.io''} then hub path else registered
               | None \<Rightarrow> registered)))"

definition resolves :: "resolved_source \<Rightarrow> validated_source \<Rightarrow> bool" where
  "resolves resolved source \<longleftrightarrow>
     (case (source, resolved) of
        (Source_Image img, Resolved_Image requested digest_reference) \<Rightarrow>
          img = requested
          \<and> is_some_and (\<lambda>repository. image_repository digest_reference = Some repository) (image_repository img)
      | (Source_Build (Source_Git repository) build, Resolved_Git requested commit _) \<Rightarrow>
          source = requested \<and> valid_git_commit commit
          \<and> is_none_or (\<lambda>pinned. pinned = commit) (gr_commit repository)
      | _ \<Rightarrow> False)"

section \<open>Build inputs (release.rs)\<close>

type_synonym build_inputs = "(string, string) mapping"

text \<open>\<open>rendered_inputs\<close>: the literal values of the source's fields, by path.\<close>

definition rendered_inputs :: "validated_source \<Rightarrow> build_inputs" where
  "rendered_inputs source =
     fold (\<lambda>(path, x) inputs.
         (case x of
            Slot_Text t \<Rightarrow> (case as_literal t of None \<Rightarrow> inputs | Some v \<Rightarrow> Mapping.update path v inputs)
          | _ \<Rightarrow> inputs))
       (slots_source ''source'' (source_to_input source)) Mapping.empty"

fun repository_url :: "source_repository \<Rightarrow> string" where
  "repository_url (Source_Git repository) = gr_url repository"
| "repository_url Source_Manifest = ''self''"

definition build_inputs_new :: "validated_source \<Rightarrow> string option \<Rightarrow> build_inputs" where
  "build_inputs_new source commit =
     (case source of
        Source_Image _ \<Rightarrow> rendered_inputs source
      | Source_Build repository _ \<Rightarrow>
          (let inputs = Mapping.update ''source.repository'' (repository_url repository) (rendered_inputs source)
           in case commit of None \<Rightarrow> inputs | Some commit \<Rightarrow> Mapping.update ''source.commit'' commit inputs))"

definition source_build_inputs :: "resolved_source \<Rightarrow> build_inputs" where
  "source_build_inputs resolved = build_inputs_new (requested_source resolved) (resolved_commit resolved)"

text \<open>\<open>changed_keys\<close> (changes.rs)\<close>

definition changed_keys :: "(string, 'v) mapping \<Rightarrow> (string, 'v) mapping \<Rightarrow> string list" where
  "changed_keys old new =
     filter (\<lambda>key. Mapping.lookup old key \<noteq> Mapping.lookup new key)
       (sorted_list_of_set (Mapping.keys old \<union> Mapping.keys new))"

definition input_differences :: "build_inputs \<Rightarrow> build_inputs \<Rightarrow> string list" where
  "input_differences inputs other = changed_keys inputs other"

section \<open>Resolutions (resource.rs)\<close>

record resolution_set =
  rn_sources :: "(logical_name, resolved_source) mapping"
  rn_secret_names :: "(string, string) mapping"

record compile_error =
  ce_code :: string
  ce_resource :: string
  ce_message :: string

definition compile_error_new :: "string \<Rightarrow> string \<Rightarrow> string \<Rightarrow> compile_error" where
  "compile_error_new code resource message = \<lparr>ce_code = code, ce_resource = resource, ce_message = message\<rparr>"

definition compile_validation_errors :: "compile_error list \<Rightarrow> validation_errors" where
  "compile_validation_errors errors =
     map (\<lambda>e. validation_error_new (ce_code e) (ce_resource e) (ce_message e)) errors"

datatype source_origin = Origin_Prepared | Origin_Release

fun source_requirement :: "logical_name \<Rightarrow> validated_source \<Rightarrow> resolution_requirement" where
  "source_requirement service (Source_Image img) = Require_Image service img"
| "source_requirement service (Source_Build repository build) = Require_Build service (Source_Build repository build)"

definition preview_resolution :: "normalized_application \<Rightarrow> resolution_set \<Rightarrow> resolution_requirement list" where
  "preview_resolution app resolutions =
     map (\<lambda>service. source_requirement (vs_name service) (vs_source service))
       (filter (\<lambda>service. Mapping.lookup (rn_sources resolutions) (vs_name service) = None) (sp_services (na_spec app)))"

fun requirement_service :: "resolution_requirement \<Rightarrow> logical_name" where
  "requirement_service (Require_Image service _) = service"
| "requirement_service (Require_Build service _) = service"

definition unresolved_source_errors :: "normalized_application \<Rightarrow> resolution_set \<Rightarrow> compile_error list" where
  "unresolved_source_errors app resolutions =
     map (\<lambda>requirement. compile_error_new ''source_unresolved'' (requirement_service requirement)
            ''service source has not been resolved to an immutable image'')
       (preview_resolution app resolutions)"

definition file_errors :: "normalized_application \<Rightarrow> compile_error list" where
  "file_errors app =
     concat (map (\<lambda>service. concat (map (\<lambda>file.
         (case sf_source file of
            File_Path path \<Rightarrow>
              if Mapping.lookup (na_files app) path = None
              then [compile_error_new ''file_unresolved'' (vs_name service)
                      (''repository file '' @ path @ '' was not captured with the manifest'')]
              else []
          | File_Content _ \<Rightarrow> [])) (vs_files service))) (sp_services (na_spec app)))"

definition secret_errors :: "normalized_application \<Rightarrow> resolution_set \<Rightarrow> compile_error list" where
  "secret_errors app resolutions =
     concat (map (\<lambda>(owner, secrets). concat (map (\<lambda>secret.
         if Mapping.lookup (rn_secret_names resolutions) (sm_name secret) = None
         then [compile_error_new ''secret_unresolved'' owner (''secret '' @ sm_name secret @ '' has not been pinned'')]
         else []) secrets))
       (map (\<lambda>s. (vs_name s, vs_secrets s)) (sp_services (na_spec app))
        @ map (\<lambda>j. (vj_name j, vj_secrets j)) (sp_jobs (na_spec app))))"

definition source_errors ::
  "source_origin \<Rightarrow> resolution_set \<Rightarrow> validated_service \<Rightarrow> compile_error list" where
  "source_errors origin resolutions service =
     (case Mapping.lookup (rn_sources resolutions) (vs_name service) of
        None \<Rightarrow> []
      | Some resolved \<Rightarrow>
          (let incompatible =
                 (case origin of
                    Origin_Prepared \<Rightarrow> []
                  | Origin_Release \<Rightarrow> input_differences (source_build_inputs resolved)
                      (build_inputs_new (vs_source service) (resolved_commit resolved)))
           in if incompatible \<noteq> []
              then map (\<lambda>field. compile_error_new ''release_incompatible'' (vs_name service @ ''.'' @ field)
                     ''renders differently in this environment than in the release, whose images were built from it'')
                   incompatible
              else if \<not> resolves resolved (vs_source service)
              then [compile_error_new ''source_resolution_mismatch'' (vs_name service)
                      ''resolved source does not immutably resolve the normalized service source'']
              else []))"

definition resolution_errors ::
  "normalized_application \<Rightarrow> source_origin \<Rightarrow> resolution_set \<Rightarrow> compile_error list" where
  "resolution_errors app origin resolutions =
     unresolved_source_errors app resolutions @ file_errors app @ secret_errors app resolutions
     @ concat (map (source_errors origin resolutions) (sp_services (na_spec app)))"

section \<open>Services and jobs\<close>

text \<open>\<open>collect\<close> of values that may panic.\<close>

fun option_list :: "'a option list \<Rightarrow> 'a list option" where
  "option_list [] = Some []"
| "option_list (x # xs) = Option.bind x (\<lambda>y. map_option ((#) y) (option_list xs))"

definition compile_secrets :: "resolution_set \<Rightarrow> secret_mount list \<Rightarrow> secret_file list option" where
  "compile_secrets resolutions secrets =
     option_list (map (\<lambda>secret. map_option (\<lambda>name. Secret_File name (sm_target secret))
         (Mapping.lookup (rn_secret_names resolutions) (sm_name secret))) secrets)"

definition compile_file ::
  "(string \<Rightarrow> string) \<Rightarrow> repository_files \<Rightarrow> environment_id \<Rightarrow> service_file \<Rightarrow> desired_file option" where
  "compile_file sha files environment file =
     map_option (\<lambda>content. \<lparr>df_config_name = config_name_for sha environment content (sf_mode file),
         df_target = sf_target file, df_mode = sf_mode file, df_content = content\<rparr>)
       (case sf_source file of File_Content content \<Rightarrow> Some content | File_Path path \<Rightarrow> Mapping.lookup files path)"

definition compile_mount :: "(string \<Rightarrow> string) \<Rightarrow> environment_id \<Rightarrow> validated_mount \<Rightarrow> desired_mount" where
  "compile_mount sha environment mount =
     \<lparr>dm_volume_name = volume_name_for sha environment (vm_volume mount), dm_target = vm_target mount,
      dm_read_only = vm_read_only mount\<rparr>"

definition compile_service ::
  "(string \<Rightarrow> string) \<Rightarrow> resolution_set \<Rightarrow> repository_files \<Rightarrow> ownership \<Rightarrow> string \<Rightarrow> validated_service \<Rightarrow> desired_service option" where
  "compile_service sha resolutions files owner private_network service =
     (let environment = ow_environment_id owner in
      Option.bind (Mapping.lookup (rn_sources resolutions) (vs_name service)) (\<lambda>source.
      Option.bind (compile_secrets resolutions (vs_secrets service)) (\<lambda>secrets.
      Option.bind (option_list (map (compile_file sha files environment) (vs_files service))) (\<lambda>files.
        Some \<lparr>ds_logical_name = vs_name service, ds_name = service_name_for sha environment (vs_name service),
          ds_source = source, ds_image = resolved_image source, ds_replicas = vs_replicas service,
          ds_environment = vs_environment service, ds_command = vs_command service,
          ds_arguments = vs_arguments service, ds_mounts = map (compile_mount sha environment) (vs_mounts service),
          ds_secrets = secrets, ds_files = files, ds_healthcheck = vs_healthcheck service,
          ds_resources = vs_resources service, ds_networks = [private_network], ds_link_aliases = Mapping.empty,
          ds_labels = ownership_labels (owner\<lparr>ow_service := Some (vs_name service)\<rparr>),
          ds_depends_on = vs_depends_on service, ds_rollout = vs_rollout service,
          ds_receives_telemetry = vs_receives_telemetry service, ds_telemetry = None\<rparr>))))"

definition extend_map :: "(string, 'v) mapping \<Rightarrow> (string, 'v) mapping \<Rightarrow> (string, 'v) mapping" where
  "extend_map m added =
     fold (\<lambda>key m. case Mapping.lookup added key of None \<Rightarrow> m | Some v \<Rightarrow> Mapping.update key v m) (sorted_keys added) m"

definition compile_job ::
  "(string \<Rightarrow> string) \<Rightarrow> resolution_set \<Rightarrow> desired_service list \<Rightarrow> ownership \<Rightarrow> validated_job \<Rightarrow> desired_job option" where
  "compile_job sha resolutions services owner job =
     Option.bind (find_service ds_logical_name services (vj_service job)) (\<lambda>container.
     Option.bind (compile_secrets resolutions (vj_secrets job)) (\<lambda>secrets.
       Some \<lparr>dj_logical_name = vj_name job, dj_run = vj_run job, dj_timeout_seconds = vj_timeout_seconds job,
         dj_volume_access = vj_volume_access job, dj_stop_service = vj_stop_service job,
         dj_container = container\<lparr>
           ds_name := job_name_for sha (ow_environment_id owner) (vj_name job), ds_replicas := 1,
           ds_command := vj_command job, ds_arguments := [],
           ds_environment := extend_map (ds_environment container) (vj_environment job),
           ds_secrets := ds_secrets container @ secrets, ds_healthcheck := None, ds_depends_on := [],
           ds_rollout := rollout_default, ds_receives_telemetry := False,
           ds_labels := Mapping.update JOB_LABEL (vj_name job) (ownership_labels owner)\<rparr>\<rparr>))"

section \<open>Applications\<close>

definition owner_of ::
  "(validated_spec \<Rightarrow> repository_files \<Rightarrow> string) \<Rightarrow> normalized_application \<Rightarrow> environment_id \<Rightarrow> instance_id \<Rightarrow> ownership" where
  "owner_of hash app environment instance_id =
     \<lparr>ow_instance_id = instance_id, ow_environment_id = environment, ow_service = None,
      ow_spec_hash = na_spec_hash hash app\<rparr>"

definition compiled_target ::
  "(string \<Rightarrow> string) \<Rightarrow> normalized_application \<Rightarrow> ownership \<Rightarrow> resolution_set
   \<Rightarrow> desired_service list \<Rightarrow> desired_job list \<Rightarrow> resolved_application" where
  "compiled_target sha app owner resolutions services jobs =
     (let spec = na_spec app; environment = ow_environment_id owner
      in \<lparr>ra_secret_names = rn_secret_names resolutions, ra_id = environment, ra_name = na_name app,
          ra_instance_id = ow_instance_id owner, ra_spec_hash = ow_spec_hash owner,
          ra_networks = (if sp_services spec = [] then []
            else [\<lparr>dn_name = network_for_application sha environment, dn_labels = ownership_labels owner\<rparr>]),
          ra_volumes = map (\<lambda>volume. \<lparr>dv_logical_name = volume, dv_name = volume_name_for sha environment volume,
            dv_labels = ownership_labels owner\<rparr>) (sp_volumes spec),
          ra_services = services, ra_routes = sp_routes spec, ra_jobs = jobs, ra_exports = sp_exports spec,
          ra_imports = sp_imports spec, ra_bindings = Mapping.empty\<rparr>)"

definition compile ::
  "(string \<Rightarrow> string) \<Rightarrow> (validated_spec \<Rightarrow> repository_files \<Rightarrow> string) \<Rightarrow> normalized_application \<Rightarrow> environment_id
   \<Rightarrow> instance_id \<Rightarrow> resolution_set \<Rightarrow> source_origin \<Rightarrow> (compile_error list + resolved_application) option" where
  "compile sha hash app environment instance_id resolutions origin =
     (let errors = resolution_errors app origin resolutions in
      if errors \<noteq> [] then Some (Inl errors)
      else
        (let spec = na_spec app;
             owner = owner_of hash app environment instance_id;
             private_network = network_for_application sha environment
         in Option.bind (option_list (map (compile_service sha resolutions (na_files app) owner private_network) (sp_services spec))) (\<lambda>services.
            Option.bind (option_list (map (compile_job sha resolutions services owner) (sp_jobs spec))) (\<lambda>jobs.
              Some (Inr (compiled_target sha app owner resolutions services jobs))))))"

definition compile_application ::
  "(string \<Rightarrow> string) \<Rightarrow> (validated_spec \<Rightarrow> repository_files \<Rightarrow> string) \<Rightarrow> normalized_application \<Rightarrow> environment_id
   \<Rightarrow> instance_id \<Rightarrow> resolution_set \<Rightarrow> (compile_error list + resolved_application) option" where
  "compile_application sha hash app environment instance_id resolutions =
     compile sha hash app environment instance_id resolutions Origin_Prepared"

definition reusable_resolutions :: "resolved_application \<Rightarrow> normalized_application \<Rightarrow> resolution_set" where
  "reusable_resolutions target app =
     \<lparr>rn_sources = fold (\<lambda>service sources.
          (case find_service ds_logical_name (ra_services target) (vs_name service) of
             None \<Rightarrow> sources
           | Some prior \<Rightarrow>
               if resolves (ds_source prior) (vs_source service)
               then Mapping.update (vs_name service) (ds_source prior) sources else sources))
        (sp_services (na_spec app)) Mapping.empty,
      rn_secret_names = ra_secret_names target\<rparr>"

section \<open>Releases (release.rs)\<close>

record app_release =
  rls_template :: application_template
  rls_commit :: "string option"
  rls_sources :: "(logical_name, resolved_source) mapping"

definition release_new :: "application_template \<Rightarrow> string option \<Rightarrow> resolved_application \<Rightarrow> app_release" where
  "release_new template commit target =
     \<lparr>rls_template = template, rls_commit = commit,
      rls_sources = fold (\<lambda>service. Mapping.update (ds_logical_name service) (ds_source service))
        (ra_services target) Mapping.empty\<rparr>"

definition release_fingerprint :: "app_release \<Rightarrow> (logical_name, build_inputs) mapping" where
  "release_fingerprint r = Mapping.map_values (\<lambda>_. source_build_inputs) (rls_sources r)"

definition release_render ::
  "json_api \<Rightarrow> app_release \<Rightarrow> logical_name \<Rightarrow> string option \<Rightarrow> validation_errors + rendering" where
  "release_render json r environment deployment =
     (let git = (case (as_manifest (at_spec (rls_template r)), rls_commit r) of
             (Some manifest, Some commit) \<Rightarrow> Some \<lparr>gv_branch = gr_branch (rm_repository manifest), gv_sha = commit\<rparr>
           | _ \<Rightarrow> None)
      in and_then (template_render json (rls_template r)
            \<lparr>rx_target = Target_Environment environment, rx_git = git, rx_deployment = deployment\<rparr>) (\<lambda>rendering.
          Inr (case rls_commit r of
                 None \<Rightarrow> rendering
               | Some commit \<Rightarrow> rendering\<lparr>rd_application := pin_manifest_sources (rd_application rendering) commit\<rparr>)))"

definition compile_release ::
  "(string \<Rightarrow> string) \<Rightarrow> (validated_spec \<Rightarrow> repository_files \<Rightarrow> string) \<Rightarrow> normalized_application \<Rightarrow> environment_id
   \<Rightarrow> instance_id \<Rightarrow> app_release \<Rightarrow> (string, string) mapping \<Rightarrow> (compile_error list + resolved_application) option" where
  "compile_release sha hash app environment instance_id r secret_names =
     compile sha hash app environment instance_id
       \<lparr>rn_sources = rls_sources r, rn_secret_names = secret_names\<rparr> Origin_Release"

section \<open>Limits of previews (limits.rs, environment.rs)\<close>

record preview_limits =
  pv_max_per_application :: u32
  pv_max_total :: u32
  pv_default_cpu_millis :: u32
  pv_default_memory_bytes :: u64
  pv_max_replicas :: u16

definition preview_limits_default :: preview_limits where
  "preview_limits_default =
     \<lparr>pv_max_per_application = 10, pv_max_total = 30, pv_default_cpu_millis = 500,
      pv_default_memory_bytes = 512 * 1024 * 1024, pv_max_replicas = 1\<rparr>"

datatype preview_limits_error = Limits_Cpu | Limits_Memory | Limits_Replicas

definition preview_limits_validate :: "preview_limits \<Rightarrow> preview_limits_error + unit" where
  "preview_limits_validate limits =
     (if \<not> (1 \<le> pv_default_cpu_millis limits \<and> pv_default_cpu_millis limits \<le> MAX_CPU_MILLIS) then Inl Limits_Cpu
      else if pv_default_memory_bytes limits = 0 \<or> 2 ^ 63 \<le> unat (pv_default_memory_bytes limits) then Inl Limits_Memory
      else if \<not> (MIN_REPLICAS \<le> pv_max_replicas limits \<and> pv_max_replicas limits \<le> MAX_REPLICAS) then Inl Limits_Replicas
      else Inr ())"

definition bound_service ::
  "preview_limits \<Rightarrow> validated_service \<Rightarrow> validated_service \<times> plan_diagnostic list" where
  "bound_service limits service =
     (let resources = (case vs_resources service of
             None \<Rightarrow> \<lparr>rl_cpu_millis = None, rl_memory_bytes = None\<rparr> | Some r \<Rightarrow> r);
          cpu = (case rl_cpu_millis resources of
             None \<Rightarrow> [show_nat (unat (pv_default_cpu_millis limits)) @ '' millicores of CPU''] | Some _ \<Rightarrow> []);
          memory = (case rl_memory_bytes resources of
             None \<Rightarrow> [show_nat (unat (pv_default_memory_bytes limits)) @ '' bytes of memory''] | Some _ \<Rightarrow> []);
          bounded = \<lparr>rl_cpu_millis = Some (case rl_cpu_millis resources of None \<Rightarrow> pv_default_cpu_millis limits | Some v \<Rightarrow> v),
                     rl_memory_bytes = Some (case rl_memory_bytes resources of None \<Rightarrow> pv_default_memory_bytes limits | Some v \<Rightarrow> v)\<rparr>;
          defaulted = cpu @ memory;
          warning = (\<lambda>code message. new_diagnostic code Warning (vs_name service) message);
          capped = pv_max_replicas limits < vs_replicas service
      in (service\<lparr>vs_resources := Some bounded,
                  vs_replicas := (if capped then pv_max_replicas limits else vs_replicas service)\<rparr>,
          (if defaulted \<noteq> []
           then [warning ''preview_limits_defaulted''
                   (vs_name service @ '' runs with the [previews] default of '' @ join '' and '' defaulted
                    @ '', since its manifest sets no limit'')]
           else [])
          @ (if capped
             then [warning ''preview_replicas_capped''
                     (vs_name service @ '' asks for '' @ show_nat (unat (vs_replicas service))
                      @ '' replicas; previews run at most '' @ show_nat (unat (pv_max_replicas limits))
                      @ '' ([previews] max_replicas)'')]
             else [])))"

definition preview_bound ::
  "preview_limits \<Rightarrow> normalized_application \<Rightarrow> normalized_application \<times> plan_diagnostic list" where
  "preview_bound limits app =
     (let bounded = map (bound_service limits) (sp_services (na_spec app))
      in (app\<lparr>na_spec := (na_spec app)\<lparr>sp_services := map fst bounded\<rparr>\<rparr>, concat (map snd bounded)))"

definition kind_bound ::
  "view_kind \<Rightarrow> preview_limits \<Rightarrow> normalized_application \<Rightarrow> normalized_application \<times> plan_diagnostic list" where
  "kind_bound kind limits app =
     (case kind of Kind_Environment \<Rightarrow> (app, []) | Kind_Preview _ \<Rightarrow> preview_bound limits app)"

end
