(* ===== verification/Compilation_Facts.thy ===== *)
theory Compilation_Facts
  imports Compilation Plan_Safety Accepted_Manifests
begin

text \<open>
  What compilation guarantees: it never indexes a missing key, its errors name every input that
  is missing, its targets carry canonical names and labels in a startable order, releases run
  what they were built from, and previews stay within their limits.
\<close>

section \<open>Panic-free compilation\<close>

lemma option_list_Some: "option_list xs = Some ys \<longleftrightarrow> xs = map Some ys"
  by (induction xs arbitrary: ys) (auto simp: bind_eq_Some_conv Cons_eq_map_conv)

lemma option_list_None: "option_list xs = None \<longleftrightarrow> None \<in> set xs"
  by (induction xs) (auto simp: bind_eq_None_conv)

lemma option_list_map: "option_list (map f xs) = Some ys \<longleftrightarrow> list_all2 (\<lambda>x y. f x = Some y) xs ys"
  by (auto simp: option_list_Some list_all2_conv_all_nth list_eq_iff_nth_eq)

definition pinned :: "resolution_set \<Rightarrow> secret_mount list \<Rightarrow> bool" where
  "pinned resolutions secrets \<longleftrightarrow> (\<forall>s \<in> set secrets. Mapping.lookup (rn_secret_names resolutions) (sm_name s) \<noteq> None)"

definition captured :: "repository_files \<Rightarrow> service_file list \<Rightarrow> bool" where
  "captured files mounted \<longleftrightarrow> (\<forall>f \<in> set mounted. \<forall>path. sf_source f = File_Path path \<longrightarrow> Mapping.lookup files path \<noteq> None)"

lemma file_case_none:
  "(case source of File_Path path \<Rightarrow> (if P path then [e path] else []) | File_Content c \<Rightarrow> []) = []
     \<longleftrightarrow> (\<forall>path. source = File_Path path \<longrightarrow> \<not> P path)"
  by (cases source) simp_all

lemma secret_errors_pinned:
  "concat (map (\<lambda>secret. if Mapping.lookup (rn_secret_names resolutions) (sm_name secret) = None then [e secret] else []) secrets) = []
     \<longleftrightarrow> pinned resolutions secrets"
  by (induction secrets) (auto simp: pinned_def)

lemma resolution_errors_none:
  "resolution_errors app origin resolutions = [] \<longleftrightarrow>
     (\<forall>s \<in> set (sp_services (na_spec app)).
        Mapping.lookup (rn_sources resolutions) (vs_name s) \<noteq> None \<and> source_errors origin resolutions s = []
        \<and> captured (na_files app) (vs_files s) \<and> pinned resolutions (vs_secrets s))
     \<and> (\<forall>j \<in> set (sp_jobs (na_spec app)). pinned resolutions (vj_secrets j))"
proof -
  have "unresolved_source_errors app resolutions = [] \<longleftrightarrow>
      (\<forall>s \<in> set (sp_services (na_spec app)). Mapping.lookup (rn_sources resolutions) (vs_name s) \<noteq> None)"
    by (auto simp: unresolved_source_errors_def preview_resolution_def filter_empty_conv)
  moreover have "file_errors app = [] \<longleftrightarrow> (\<forall>s \<in> set (sp_services (na_spec app)). captured (na_files app) (vs_files s))"
    by (simp add: file_errors_def captured_def file_case_none)
  moreover have "secret_errors app resolutions = [] \<longleftrightarrow>
      (\<forall>s \<in> set (sp_services (na_spec app)). pinned resolutions (vs_secrets s))
      \<and> (\<forall>j \<in> set (sp_jobs (na_spec app)). pinned resolutions (vj_secrets j))"
    by (simp add: secret_errors_def pinned_def ball_Un) blast
  ultimately show ?thesis by (auto simp: resolution_errors_def)
qed

lemma compile_secrets_pinned:
  assumes "pinned resolutions secrets"
  obtains mounted where "compile_secrets resolutions secrets = Some mounted"
proof (cases "compile_secrets resolutions secrets")
  case None
  then show ?thesis using assms by (force simp: compile_secrets_def option_list_None pinned_def)
qed (use that in blast)

lemma compile_file_captured:
  assumes "captured files mounted"
  obtains compiled where "option_list (map (compile_file sha files environment) mounted) = Some compiled"
proof (cases "option_list (map (compile_file sha files environment) mounted)")
  case None
  then obtain f where "f \<in> set mounted" "compile_file sha files environment f = None"
    by (force simp: option_list_None)
  then show ?thesis using assms by (auto simp: compile_file_def captured_def split: file_source.splits)
qed (use that in blast)

lemma compile_service_resolved:
  assumes "Mapping.lookup (rn_sources resolutions) (vs_name s) \<noteq> None" "captured files (vs_files s)"
    and "pinned resolutions (vs_secrets s)"
  obtains d where "compile_service sha resolutions files owner network s = Some d"
proof -
  obtain source where "Mapping.lookup (rn_sources resolutions) (vs_name s) = Some source" using assms(1) by blast
  moreover obtain mounted where "compile_secrets resolutions (vs_secrets s) = Some mounted"
    using compile_secrets_pinned [OF assms(3)] .
  moreover obtain compiled where "option_list (map (compile_file sha files (ow_environment_id owner)) (vs_files s)) = Some compiled"
    using compile_file_captured [OF assms(2)] .
  ultimately show thesis using that by (simp add: compile_service_def Let_def)
qed

lemma compile_service_fields:
  assumes "compile_service sha resolutions files owner network s = Some d"
  shows "ds_logical_name d = vs_name s" "ds_name d = service_name_for sha (ow_environment_id owner) (vs_name s)"
    "Mapping.lookup (rn_sources resolutions) (vs_name s) = Some (ds_source d)" "ds_image d = resolved_image (ds_source d)"
    "ds_labels d = ownership_labels (owner\<lparr>ow_service := Some (vs_name s)\<rparr>)" "ds_depends_on d = vs_depends_on s"
    "ds_replicas d = vs_replicas s" "ds_networks d = [network]" "ds_environment d = vs_environment s"
    "ds_mounts d = map (compile_mount sha (ow_environment_id owner)) (vs_mounts s)"
    "ds_resources d = vs_resources s"
  using assms by (auto simp: compile_service_def Let_def bind_eq_Some_conv)

lemma compile_job_fields:
  assumes "compile_job sha resolutions services owner j = Some d"
  shows "dj_logical_name d = vj_name j"
    "ds_name (dj_container d) = job_name_for sha (ow_environment_id owner) (vj_name j)"
    "ds_labels (dj_container d) = Mapping.update JOB_LABEL (vj_name j) (ownership_labels owner)"
    "\<exists>c \<in> set services. ds_logical_name c = vj_service j \<and> ds_logical_name (dj_container d) = vj_service j
      \<and> ds_source (dj_container d) = ds_source c \<and> ds_image (dj_container d) = ds_image c"
  using assms by (auto simp: compile_job_def bind_eq_Some_conv dest!: find_service_mem)

lemma compile_total:
  assumes "spec_well_formed (na_spec app)" and "resolution_errors app origin resolutions = []"
  obtains r where "compile sha hash app environment instance_id resolutions origin = Some (Inr r)"
proof -
  let ?owner = "owner_of hash app environment instance_id"
  let ?compile = "compile_service sha resolutions (na_files app) ?owner (network_for_application sha environment)"
  note none = assms(2) [unfolded resolution_errors_none]
  have "?compile s \<noteq> None" if "s \<in> set (sp_services (na_spec app))" for s
    using compile_service_resolved none that by (metis option.discI)
  then obtain services where services: "option_list (map ?compile (sp_services (na_spec app))) = Some services"
    by (cases "option_list (map ?compile (sp_services (na_spec app)))") (force simp: option_list_None)+
  have names: "map ds_logical_name services = map vs_name (sp_services (na_spec app))"
    using services unfolding option_list_map
    by (auto simp: list_all2_conv_all_nth compile_service_fields intro!: nth_equalityI)
  have "compile_job sha resolutions services ?owner j \<noteq> None" if j: "j \<in> set (sp_jobs (na_spec app))" for j
  proof -
    have "vj_service j \<in> set (map ds_logical_name services)"
      using assms(1) j unfolding names by (auto simp: spec_well_formed_def list_all_iff)
    then obtain c where "find_service ds_logical_name services (vj_service j) = Some c"
      by (cases "find_service ds_logical_name services (vj_service j)") (auto simp: find_service_def find_None_iff)
    moreover obtain mounted where "compile_secrets resolutions (vj_secrets j) = Some mounted"
      using compile_secrets_pinned none j by blast
    ultimately show ?thesis by (simp add: compile_job_def)
  qed
  then obtain jobs where "option_list (map (compile_job sha resolutions services ?owner) (sp_jobs (na_spec app))) = Some jobs"
    by (cases "option_list (map (compile_job sha resolutions services ?owner) (sp_jobs (na_spec app)))") (force simp: option_list_None)+
  then show thesis
    using that services assms(2) by (simp add: compile_def Let_def)
qed

lemma compile_Inr:
  assumes "compile sha hash app environment instance_id resolutions origin = Some (Inr r)"
  shows "resolution_errors app origin resolutions = []"
    and "list_all2 (\<lambda>s d. compile_service sha resolutions (na_files app) (owner_of hash app environment instance_id)
           (network_for_application sha environment) s = Some d) (sp_services (na_spec app)) (ra_services r)"
    and "list_all2 (\<lambda>j d. compile_job sha resolutions (ra_services r) (owner_of hash app environment instance_id) j = Some d)
           (sp_jobs (na_spec app)) (ra_jobs r)"
    and "ra_networks r = (if sp_services (na_spec app) = [] then []
      else [\<lparr>dn_name = network_for_application sha environment,
             dn_labels = ownership_labels (owner_of hash app environment instance_id)\<rparr>])"
    and "ra_volumes r = map (\<lambda>v. \<lparr>dv_logical_name = v, dv_name = volume_name_for sha environment v,
             dv_labels = ownership_labels (owner_of hash app environment instance_id)\<rparr>) (sp_volumes (na_spec app))"
    and "ra_id r = environment" "ra_instance_id r = instance_id" "ra_spec_hash r = na_spec_hash hash app"
proof -
  show none: "resolution_errors app origin resolutions = []"
    by (rule ccontr) (use assms in \<open>simp add: compile_def\<close>)
  let ?owner = "owner_of hash app environment instance_id"
  from assms none obtain services jobs
    where services: "option_list (map (compile_service sha resolutions (na_files app) ?owner
          (network_for_application sha environment)) (sp_services (na_spec app))) = Some services"
      and jobs: "option_list (map (compile_job sha resolutions services ?owner) (sp_jobs (na_spec app))) = Some jobs"
      and r: "r = compiled_target sha app ?owner resolutions services jobs"
    by (simp add: compile_def Let_def bind_eq_Some_conv) blast
  have fields: "ow_environment_id ?owner = environment" "ow_instance_id ?owner = instance_id"
    "ow_spec_hash ?owner = na_spec_hash hash app"
    by (simp_all add: owner_of_def)
  show "list_all2 (\<lambda>s d. compile_service sha resolutions (na_files app) ?owner
           (network_for_application sha environment) s = Some d) (sp_services (na_spec app)) (ra_services r)"
    "list_all2 (\<lambda>j d. compile_job sha resolutions (ra_services r) ?owner j = Some d) (sp_jobs (na_spec app)) (ra_jobs r)"
    using services jobs by (simp_all add: r option_list_map compiled_target_def Let_def)
  show "ra_networks r = (if sp_services (na_spec app) = [] then []
      else [\<lparr>dn_name = network_for_application sha environment, dn_labels = ownership_labels ?owner\<rparr>])"
    "ra_volumes r = map (\<lambda>v. \<lparr>dv_logical_name = v, dv_name = volume_name_for sha environment v,
             dv_labels = ownership_labels ?owner\<rparr>) (sp_volumes (na_spec app))"
    "ra_id r = environment" "ra_instance_id r = instance_id" "ra_spec_hash r = na_spec_hash hash app"
    by (simp_all add: r compiled_target_def Let_def fields)
qed

section \<open>Targets\<close>

lemma compile_services:
  assumes "compile sha hash app environment instance_id resolutions origin = Some (Inr r)"
  shows "map ds_logical_name (ra_services r) = map vs_name (sp_services (na_spec app))"
    and "map (\<lambda>d. (ds_logical_name d, ds_depends_on d)) (ra_services r)
      = map (\<lambda>s. (vs_name s, vs_depends_on s)) (sp_services (na_spec app))"
  using compile_Inr(2) [OF assms]
  by (auto simp: list_all2_conv_all_nth compile_service_fields intro!: nth_equalityI)

lemma list_all2_member: "list_all2 P xs ys \<Longrightarrow> y \<in> set ys \<Longrightarrow> \<exists>x \<in> set xs. P x y"
  by (induction rule: list_all2_induct) auto

lemma list_all2_flip_rel: "list_all2 P xs ys \<Longrightarrow> list_all2 (\<lambda>y x. P x y) ys xs"
  by (simp add: list_all2_conv_all_nth)

lemma compile_service_of:
  assumes "compile sha hash app environment instance_id resolutions origin = Some (Inr r)" and "d \<in> set (ra_services r)"
  obtains s where "s \<in> set (sp_services (na_spec app))"
    and "compile_service sha resolutions (na_files app) (owner_of hash app environment instance_id)
      (network_for_application sha environment) s = Some d"
  using list_all2_member [OF compile_Inr(2) [OF assms(1)] assms(2)] that by blast

lemma compile_job_of:
  assumes "compile sha hash app environment instance_id resolutions origin = Some (Inr r)" and "d \<in> set (ra_jobs r)"
  obtains j where "j \<in> set (sp_jobs (na_spec app))"
    and "compile_job sha resolutions (ra_services r) (owner_of hash app environment instance_id) j = Some d"
  using list_all2_member [OF compile_Inr(3) [OF assms(1)] assms(2)] that by blast

lemma labelled_environment_job:
  "labelled_environment (Mapping.update JOB_LABEL name labels) = labelled_environment labels"
  by (simp add: labelled_environment_def managed_hash_invalid_def lookup_update_if label_simps split: option.split)

lemma compile_acyclic:
  assumes "spec_well_formed (na_spec app)"
    and "compile sha hash app environment instance_id resolutions origin = Some (Inr r)"
  shows "distinct (map ds_logical_name (ra_services r))"
    and "acyclic (depends ds_logical_name ds_depends_on (ra_services r))"
proof -
  show names: "distinct (map ds_logical_name (ra_services r))"
    using assms(1) by (simp add: compile_services [OF assms(2)] spec_well_formed_def)
  have "map (\<lambda>d. (ds_logical_name d, set (ds_depends_on d))) (ra_services r)
      = map (\<lambda>s. (vs_name s, set (vs_depends_on s))) (sp_services (na_spec app))"
    using arg_cong [OF compile_services(2) [OF assms(2)], of "map (\<lambda>(n, d). (n, set d))"] by (simp add: comp_def)
  then have "depends ds_logical_name ds_depends_on (ra_services r) = depends vs_name vs_depends_on (sp_services (na_spec app))"
    by (intro depends_permuted names) simp
  then show "acyclic (depends ds_logical_name ds_depends_on (ra_services r))"
    using well_formed_acyclic [OF assms(1)] by simp
qed

section \<open>Releases\<close>

lemma changed_keys_none:
  assumes "finite (Mapping.keys old)" "finite (Mapping.keys new)"
  shows "changed_keys old new = [] \<longleftrightarrow> old = new"
proof -
  have "changed_keys old new = [] \<longleftrightarrow> (\<forall>k \<in> Mapping.keys old \<union> Mapping.keys new. Mapping.lookup old k = Mapping.lookup new k)"
    using assms by (simp add: changed_keys_def filter_empty_conv)
  also have "\<dots> \<longleftrightarrow> Mapping.lookup old = Mapping.lookup new"
    by (auto simp: fun_eq_iff mapping_keys_iff)
  finally show ?thesis by (simp add: Mapping.lookup.rep_eq rep_inject)
qed

lemma rendered_inputs_finite: "finite (Mapping.keys (rendered_inputs source))"
proof -
  have "finite (Mapping.keys (fold (\<lambda>(path, x) inputs.
         (case x of
            Slot_Text t \<Rightarrow> (case as_literal t of None \<Rightarrow> inputs | Some v \<Rightarrow> Mapping.update path v inputs)
          | _ \<Rightarrow> inputs)) slots inputs))" if "finite (Mapping.keys inputs)" for slots and inputs :: build_inputs
    using that by (induction slots arbitrary: inputs) (auto split: slot.split option.split)
  then show ?thesis by (simp add: rendered_inputs_def)
qed

lemma build_inputs_finite: "finite (Mapping.keys (build_inputs_new source commit))"
  by (auto simp: build_inputs_new_def Let_def rendered_inputs_finite split: validated_source.split option.split)

lemma source_errors_none:
  assumes "source_errors origin resolutions s = []" and "Mapping.lookup (rn_sources resolutions) (vs_name s) = Some resolved"
  shows "resolves resolved (vs_source s)"
    and "origin = Origin_Release \<Longrightarrow> source_build_inputs resolved = build_inputs_new (vs_source s) (resolved_commit resolved)"
  using assms
  by (auto simp: source_errors_def Let_def input_differences_def source_build_inputs_def
      changed_keys_none build_inputs_finite split: if_splits source_origin.splits)

lemma resolves_requested: "resolves resolved source \<Longrightarrow> requested_source resolved = source"
  by (cases source; cases resolved) (auto simp: resolves_def split: source_repository.splits)

lemma resolves_source_errors:
  assumes "Mapping.lookup (rn_sources resolutions) (vs_name s) = Some resolved" "resolves resolved (vs_source s)"
  shows "source_errors origin resolutions s = []"
  using assms resolves_requested [OF assms(2)]
  by (simp add: source_errors_def Let_def input_differences_def source_build_inputs_def changed_keys_def split: source_origin.split)

lemma release_sources:
  assumes "distinct (map ds_logical_name services)"
  shows "Mapping.lookup (fold (\<lambda>d. Mapping.update (ds_logical_name d) (ds_source d)) services m) name
    = (case find_service ds_logical_name services name of None \<Rightarrow> Mapping.lookup m name | Some d \<Rightarrow> Some (ds_source d))"
  using assms
proof (induction services arbitrary: m)
  case (Cons d services)
  show ?case
  proof (cases "ds_logical_name d = name")
    case True
    then have "find_service ds_logical_name services name = None"
      using Cons.prems by (simp add: find_service_def find_None_iff) (metis image_eqI)
    then show ?thesis using Cons True by (simp add: find_service_def)
  next
    case False
    then show ?thesis using Cons by (simp add: find_service_def lookup_update_if cong: option.case_cong)
  qed
qed (simp add: find_service_def)

lemma release_new_sources:
  assumes "distinct (map ds_logical_name (ra_services r))" and "d \<in> set (ra_services r)"
  shows "Mapping.lookup (rls_sources (release_new template commit r)) (ds_logical_name d) = Some (ds_source d)"
proof -
  obtain e where e: "find_service ds_logical_name (ra_services r) (ds_logical_name d) = Some e"
    using assms(2) by (cases "find_service ds_logical_name (ra_services r) (ds_logical_name d)") (auto simp: find_service_def find_None_iff)
  then have "e = d" using find_service_mem [OF e] assms by (auto simp: distinct_map dest: inj_onD)
  then show ?thesis using release_sources [OF assms(1)] e by (simp add: release_new_def)
qed

section \<open>Limits of previews\<close>

lemma bound_service_fields [simp]:
  "vs_name (fst (bound_service limits s)) = vs_name s" "vs_depends_on (fst (bound_service limits s)) = vs_depends_on s"
  "vs_receives_telemetry (fst (bound_service limits s)) = vs_receives_telemetry s"
  "vs_mounts (fst (bound_service limits s)) = vs_mounts s"
  "vs_replicas (fst (bound_service limits s)) = min (vs_replicas s) (pv_max_replicas limits)"
  by (auto simp: bound_service_def Let_def min_def)

text \<open>Replacing services by others of the same names, dependencies, mounts and receivers, with replicas within
  their bounds, keeps a specification well formed.\<close>

lemma well_formed_services:
  assumes "spec_well_formed spec"
    and same: "\<And>s. vs_name (f s) = vs_name s" "\<And>s. vs_depends_on (f s) = vs_depends_on s" "\<And>s. vs_mounts (f s) = vs_mounts s"
      "\<And>s. vs_receives_telemetry (f s) = vs_receives_telemetry s"
    and replicas: "\<And>s. MIN_REPLICAS \<le> vs_replicas s \<Longrightarrow> vs_replicas s \<le> MAX_REPLICAS \<Longrightarrow>
      MIN_REPLICAS \<le> vs_replicas (f s) \<and> vs_replicas (f s) \<le> vs_replicas s"
  shows "spec_well_formed (spec\<lparr>sp_services := map f (sp_services spec)\<rparr>)"
proof -
  let ?spec = "spec\<lparr>sp_services := map f (sp_services spec)\<rparr>"
  have one: "vs_replicas (f s) = 1" if "vs_replicas s = 1" for s
  proof -
    have "vs_replicas (f s) \<le> 1" "1 \<le> vs_replicas (f s)"
      using replicas [of s] that by (simp_all add: MIN_REPLICAS_def MAX_REPLICAS_def)
    then show ?thesis by (rule order_antisym)
  qed
  have pairs: "map (\<lambda>s. (vs_name s, vs_depends_on s)) (map f (sp_services spec)) = map (\<lambda>s. (vs_name s, vs_depends_on s)) (sp_services spec)"
    by (simp add: same)
  have names: "map vs_name (sp_services ?spec) = map vs_name (sp_services spec)" by (simp add: same)
  have service: "service_well_formed ?spec (f s)" if "service_well_formed spec s" for s
    using that replicas [of s] one [of s] by (auto simp: service_well_formed_def same)
  have route: "route_well_formed ?spec = route_well_formed spec"
    by (intro ext) (simp add: route_well_formed_def same image_image split: route_target.split)
  have telemetry: "length (filter vs_receives_telemetry (sp_services ?spec)) = length (filter vs_receives_telemetry (sp_services spec))"
    by (simp add: filter_map comp_def same)
  have "list_all (service_well_formed ?spec) (sp_services ?spec)"
    using assms(1) service by (auto simp: spec_well_formed_def list_all_iff)
  moreover have "snd (startup_order vs_name vs_depends_on (sp_services ?spec)) = []"
    using assms(1) startup_order_acyclic [OF pairs] by (simp add: spec_well_formed_def)
  moreover have "dependencies_of vs_name vs_depends_on (sp_services ?spec) = dependencies_of vs_name vs_depends_on (sp_services spec)"
    using dependencies_of_map [OF pairs] by simp
  ultimately show ?thesis
    using assms(1) unfolding spec_well_formed_def names route telemetry by simp
qed

lemma bounded_well_formed:
  assumes "spec_well_formed (na_spec app)" and "preview_limits_validate limits = Inr ()"
  shows "spec_well_formed (na_spec (fst (kind_bound kind limits app)))"
proof -
  have "MIN_REPLICAS \<le> pv_max_replicas limits"
    using assms(2) by (auto simp: preview_limits_validate_def split: if_splits)
  then have "spec_well_formed ((na_spec app)\<lparr>sp_services := map (fst \<circ> bound_service limits) (sp_services (na_spec app))\<rparr>)"
    by (intro well_formed_services [OF assms(1)]) simp_all
  then show ?thesis
    using assms(1) by (simp add: kind_bound_def preview_bound_def Let_def split: view_kind.split)
qed

lemma pinned_well_formed:
  assumes "spec_well_formed (na_spec app)"
  shows "spec_well_formed (na_spec (pin_manifest_sources app commit))"
  using well_formed_services [OF assms, of "\<lambda>s. s\<lparr>vs_source := _ s\<rparr>"] assms
  by (simp add: pin_manifest_sources_def Let_def split: option.split)

section \<open>Example\<close>

definition notes_source :: "logical_name \<Rightarrow> validated_source" where
  "notes_source name =
     Source_Build (Source_Git \<lparr>gr_url = ''https://example.org/notes.git'', gr_branch = ''main'', gr_commit = None\<rparr>)
       (Build_Docker (''docker/'' @ name) ''.'' Mapping.empty None)"

definition notes_service :: "logical_name \<Rightarrow> logical_name list \<Rightarrow> validated_mount list \<Rightarrow> validated_service" where
  "notes_service name dependencies mounts =
     \<lparr>vs_name = name, vs_source = notes_source name, vs_replicas = 1, vs_environment = Mapping.empty,
      vs_command = [], vs_arguments = [], vs_mounts = mounts, vs_secrets = [], vs_files = [], vs_healthcheck = None,
      vs_resources = None, vs_depends_on = dependencies, vs_rollout = rollout_default, vs_receives_telemetry = False\<rparr>"

definition notes_spec :: validated_spec where
  "notes_spec =
     \<lparr>sp_manifest = None,
      sp_services = [notes_service ''web'' [''db''] [],
        notes_service ''db'' [] [\<lparr>vm_volume = ''data'', vm_target = ''/data'', vm_read_only = False\<rparr>]],
      sp_volumes = [''data''], sp_routes = [], sp_secrets = [],
      sp_jobs = [\<lparr>vj_name = ''migrate'', vj_service = ''web'', vj_command = [''migrate''], vj_environment = Mapping.empty,
        vj_secrets = [], vj_run = BeforeRollout, vj_timeout_seconds = 60, vj_volume_access = Access_ReadOnly,
        vj_stop_service = False\<rparr>],
      sp_exports = [], sp_imports = []\<rparr>"

definition notes_application :: normalized_application where
  "notes_application =
     \<lparr>na_id = ''app-notes-0001'', na_api_version = APPLICATION_API_VERSION, na_kind = APPLICATION_KIND, na_name = ''notes'',
      na_spec = notes_spec, na_files = Mapping.empty\<rparr>"

definition notes_built :: "logical_name \<Rightarrow> resolved_source" where
  "notes_built name = Resolved_Git (notes_source name) (replicate 40 (CHR ''0'')) example_hash"

definition notes_resolutions :: resolution_set where
  "notes_resolutions =
     \<lparr>rn_sources = Mapping.update ''web'' (notes_built ''web'') (Mapping.update ''db'' (notes_built ''db'') Mapping.empty),
      rn_secret_names = Mapping.empty\<rparr>"

definition notes_release :: app_release where
  "notes_release =
     \<lparr>rls_template = template_normalize shop_template ''app-notes-0001'', rls_commit = None,
      rls_sources = rn_sources notes_resolutions\<rparr>"

definition notes_hash :: "validated_spec \<Rightarrow> repository_files \<Rightarrow> string" where
  "notes_hash spec files = replicate 64 (CHR ''0'')"

lemma notes_well_formed: "spec_well_formed (na_spec notes_application)"
proof -
  let ?pairs = "[(''web'', [''db'']), (''db'', [])]"
  have pairs: "map (\<lambda>s. (vs_name s, vs_depends_on s)) (sp_services notes_spec) = map (\<lambda>s. (fst s, snd s)) ?pairs"
    by (simp add: notes_spec_def notes_service_def)
  have "snd (startup_order fst snd ?pairs) = []" "''web'' \<notin> dependencies_of fst snd ?pairs ''web''" by code_simp+
  then have "snd (startup_order vs_name vs_depends_on (sp_services notes_spec)) = []"
    "''web'' \<notin> dependencies_of vs_name vs_depends_on (sp_services notes_spec) ''web''"
    unfolding startup_order_acyclic [OF pairs] dependencies_of_map [OF pairs] .
  moreover have "valid_logical_name ''web''" "valid_logical_name ''db''" "valid_logical_name ''data''" by code_simp+
  ultimately show ?thesis
    by (simp add: spec_well_formed_def service_well_formed_def notes_application_def notes_spec_def notes_service_def
        MIN_REPLICAS_def MAX_REPLICAS_def)
qed

lemma notes_resolves: "resolves (notes_built name) (notes_source name)"
  by (simp add: resolves_def notes_built_def notes_source_def valid_git_commit_def list_all_iff ascii_defs less_eq_char_def)

lemma notes_resolved: "resolution_errors notes_application origin notes_resolutions = []"
proof -
  have "source_errors origin notes_resolutions s = []" if "s \<in> set (sp_services notes_spec)" for s
  proof (rule resolves_source_errors)
    show "Mapping.lookup (rn_sources notes_resolutions) (vs_name s) = Some (notes_built (vs_name s))"
      "resolves (notes_built (vs_name s)) (vs_source s)"
      using that notes_resolves by (auto simp: notes_spec_def notes_service_def notes_resolutions_def lookup_update_if)
  qed
  then show ?thesis
    unfolding resolution_errors_none
    by (auto simp: notes_application_def notes_spec_def notes_service_def notes_resolutions_def captured_def pinned_def lookup_update_if)
qed

lemma notes_compiled:
  obtains r where "compile sha hash notes_application environment instance_id notes_resolutions origin = Some (Inr r)"
    and "map ds_logical_name (ra_services r) = [''web'', ''db'']"
proof -
  obtain r where r: "compile sha hash notes_application environment instance_id notes_resolutions origin = Some (Inr r)"
    using compile_total [OF notes_well_formed notes_resolved] .
  then show thesis
    using that compile_services(1) [OF r] by (simp add: notes_application_def notes_spec_def notes_service_def)
qed

lemma notes_identity:
  "valid_sha256 (na_spec_hash notes_hash app)" "valid_instance_id ''main''" "valid_id ''env-notes-0001''"
proof -
  show "valid_sha256 (na_spec_hash notes_hash app)"
    using example_hash_valid by (simp add: na_spec_hash_def notes_hash_def example_hash_def)
qed code_simp+

section \<open>Properties\<close>

text \<open>C8: Compiling a well-formed application never panics on a missing resolution, secret, file or
  service: it reports the errors of the resolutions when there are any, and otherwise returns a target.\<close>

theorem compilation_never_panics:
  assumes "spec_well_formed (na_spec app)"
  shows "case compile sha hash app environment instance_id resolutions origin of
      None \<Rightarrow> False
    | Some (Inl errors) \<Rightarrow> errors = resolution_errors app origin resolutions \<and> errors \<noteq> []
    | Some (Inr r) \<Rightarrow> resolution_errors app origin resolutions = []"
proof (cases "resolution_errors app origin resolutions = []")
  case True
  obtain r where "compile sha hash app environment instance_id resolutions origin = Some (Inr r)"
    using compile_total [OF assms True] .
  then show ?thesis by (simp add: True)
next
  case False
  then show ?thesis by (simp add: compile_def)
qed


theorem compilation_never_panics_witness:
  "\<exists>errors. compile example_sha notes_hash notes_application ''env-notes-0001'' ''main''
      \<lparr>rn_sources = Mapping.empty, rn_secret_names = Mapping.empty\<rparr> Origin_Prepared = Some (Inl errors)"
proof -
  have "resolution_errors notes_application Origin_Prepared \<lparr>rn_sources = Mapping.empty, rn_secret_names = Mapping.empty\<rparr> \<noteq> []"
    by (auto simp: resolution_errors_none notes_application_def notes_spec_def notes_service_def)
  then show ?thesis
    using compilation_never_panics [OF notes_well_formed, where sha = example_sha and hash = notes_hash
        and environment = "''env-notes-0001''" and instance_id = "''main''" and origin = Origin_Prepared
        and resolutions = "\<lparr>rn_sources = Mapping.empty, rn_secret_names = Mapping.empty\<rparr>"]
    by (auto split: option.splits sum.splits)
qed

text \<open>C7: Every network, volume, service and job of a compiled target has the name and labels the planner
  and the Docker adapter require of it, and its services are owned by the environment it was
  compiled for.\<close>

theorem compiled_targets_are_canonical:
  assumes "spec_well_formed (na_spec app)" and "valid_sha256 (na_spec_hash hash app)"
    and "valid_instance_id instance_id" and "valid_id environment"
    and "compile sha hash app environment instance_id resolutions origin = Some (Inr r)"
  shows "list_all (network_identity sha) (ra_networks r) \<and> list_all (volume_identity sha) (ra_volumes r)
    \<and> list_all (service_identity sha) (ra_services r) \<and> list_all (job_identity sha) (ra_jobs r)
    \<and> list_all (\<lambda>s. for_resource sha (ds_labels s) instance_id environment Service (ds_name s) = Owned) (ra_services r)"
proof -
  let ?owner = "owner_of hash app environment instance_id"
  have labels: "labelled_environment (ownership_labels (?owner\<lparr>ow_service := service\<rparr>)) = Some environment" for service
    using assms(2-4) by (simp add: labelled_environment_labels owner_of_def)
  from labels [of None] have shared: "labelled_environment (ownership_labels ?owner) = Some environment"
    by (simp add: owner_of_def)
  have unserved: "\<not> has_label (ownership_labels ?owner) SERVICE_LABEL"
    by (simp add: has_label_def label_simps owner_of_def)
  have fields: "ow_environment_id ?owner = environment" by (simp add: owner_of_def)
  have networks: "list_all (network_identity sha) (ra_networks r)"
    by (simp add: compile_Inr(4) [OF assms(5)] network_identity_def shared unserved is_canonical_def is_for_application_def)
  have volumes: "list_all (volume_identity sha) (ra_volumes r)"
    using assms(1) by (simp add: compile_Inr(5) [OF assms(5)] list_all_iff volume_identity_def shared unserved spec_well_formed_def)
  have services: "service_identity sha d \<and> for_resource sha (ds_labels d) instance_id environment Service (ds_name d) = Owned"
    if d: "d \<in> set (ra_services r)" for d
  proof -
    obtain s where s: "s \<in> set (sp_services (na_spec app))"
      and c: "compile_service sha resolutions (na_files app) ?owner (network_for_application sha environment) s = Some d"
      using compile_service_of [OF assms(5) d] .
    have name: "valid_logical_name (vs_name s)"
      using assms(1) s by (auto simp: spec_well_formed_def service_well_formed_def list_all_iff)
    then have "valid_role sha (ds_labels d) environment Service (ds_name d)"
      by (simp add: valid_role_def compile_service_fields [OF c] label_simps service_name_for_def fields
          parse_logical_name_def validated_parse_def)
    moreover have "from_labels (ds_labels d) instance_id environment = Owned"
      using assms(2) by (simp add: compile_service_fields [OF c] from_ownership_labels owner_of_def)
    ultimately show ?thesis
      using name by (simp add: for_resource_owned service_identity_def compile_service_fields [OF c] labels fields label_simps)
  qed
  have jobs: "job_identity sha d" if d: "d \<in> set (ra_jobs r)" for d
  proof -
    obtain j where "compile_job sha resolutions (ra_services r) ?owner j = Some d"
      using compile_job_of [OF assms(5) d] by blast
    from compile_job_fields(1-3) [OF this] show ?thesis
      using unserved by (simp add: job_identity_def Let_def labelled_environment_job shared has_label_def fields lookup_update_if label_simps)
  qed
  show ?thesis using networks volumes services jobs by (simp add: list_all_iff)
qed

theorem compiled_targets_are_canonical_witness:
  "\<exists>r. compile example_sha notes_hash notes_application ''env-notes-0001'' ''main'' notes_resolutions Origin_Prepared = Some (Inr r)
     \<and> map ds_logical_name (ra_services r) = [''web'', ''db''] \<and> list_all (service_identity example_sha) (ra_services r)"
proof -
  obtain r where r: "compile example_sha notes_hash notes_application ''env-notes-0001'' ''main'' notes_resolutions Origin_Prepared = Some (Inr r)"
    and names: "map ds_logical_name (ra_services r) = [''web'', ''db'']"
    using notes_compiled .
  have "list_all (service_identity example_sha) (ra_services r)"
    using compiled_targets_are_canonical [OF notes_well_formed notes_identity r] by (elim conjE)
  with r names show ?thesis by (intro exI conjI)
qed

text \<open>C6: A target compiled from a well-formed application can be planned in dependency order: its services
  are those of the application under distinct names, their dependencies are acyclic and among
  them, and in every plan towards it each ensure is guarded by the waits of its dependencies.\<close>

theorem compiled_targets_are_plannable:
  assumes "spec_well_formed (na_spec app)"
    and "compile sha hash app environment instance_id resolutions origin = Some (Inr r)"
  shows "map ds_logical_name (ra_services r) = map vs_name (sp_services (na_spec app))
    \<and> distinct (map ds_logical_name (ra_services r)) \<and> acyclic (depends ds_logical_name ds_depends_on (ra_services r))
    \<and> (\<forall>d \<in> set (ra_services r). set (ds_depends_on d) \<subseteq> set (map ds_logical_name (ra_services r)))
    \<and> guarded (map service_wait (filter (pending sha r observed) (ra_services r))) (pl_actions (reconcile sha r observed))"
proof -
  have "set (ds_depends_on d) \<subseteq> set (map ds_logical_name (ra_services r))" if d: "d \<in> set (ra_services r)" for d
  proof -
    obtain s where s: "s \<in> set (sp_services (na_spec app))" "ds_depends_on d = vs_depends_on s"
      using compile_service_of [OF assms(2) d] compile_service_fields(6) by metis
    then show ?thesis
      using assms(1) unfolding compile_services(1) [OF assms(2)]
      by (auto simp: spec_well_formed_def service_well_formed_def list_all_iff)
  qed
  then show ?thesis
    using compile_services(1) [OF assms(2)] compile_acyclic [OF assms] reconcile_guarded [OF compile_acyclic [OF assms]] by blast
qed

theorem compiled_targets_are_plannable_witness:
  "\<exists>r. compile example_sha notes_hash notes_application ''env-notes-0001'' ''main'' notes_resolutions Origin_Prepared = Some (Inr r)
     \<and> acyclic (depends ds_logical_name ds_depends_on (ra_services r))"
proof -
  obtain r where r: "compile example_sha notes_hash notes_application ''env-notes-0001'' ''main'' notes_resolutions Origin_Prepared = Some (Inr r)"
    using notes_compiled .
  from r compiled_targets_are_plannable [OF notes_well_formed r] show ?thesis by blast
qed

text \<open>C9: An environment runs a release only as it was built. Each service of a compiled release runs the
  release's own image, and renders the same build inputs as the source that image came from.\<close>

theorem releases_run_what_they_built:
  assumes "compile_release sha hash app environment instance_id release secrets = Some (Inr r)"
    and "d \<in> set (ra_services r)"
  shows "Mapping.lookup (rls_sources release) (ds_logical_name d) = Some (ds_source d)
    \<and> ds_image d = resolved_image (ds_source d)
    \<and> (\<exists>s \<in> set (sp_services (na_spec app)). vs_name s = ds_logical_name d \<and> resolves (ds_source d) (vs_source s)
        \<and> build_inputs_new (vs_source s) (resolved_commit (ds_source d)) = source_build_inputs (ds_source d))"
proof -
  note compiled = assms(1) [unfolded compile_release_def]
  obtain s where s: "s \<in> set (sp_services (na_spec app))"
    and c: "compile_service sha \<lparr>rn_sources = rls_sources release, rn_secret_names = secrets\<rparr> (na_files app)
      (owner_of hash app environment instance_id) (network_for_application sha environment) s = Some d"
    using compile_service_of [OF compiled assms(2)] .
  have "source_errors Origin_Release \<lparr>rn_sources = rls_sources release, rn_secret_names = secrets\<rparr> s = []"
    using compile_Inr(1) [OF compiled] s by (simp add: resolution_errors_none)
  from source_errors_none [OF this compile_service_fields(3) [OF c]] show ?thesis
    using s compile_service_fields(1,3,4) [OF c] by auto
qed

theorem releases_run_what_they_built_witness:
  "\<exists>r. compile_release example_sha notes_hash notes_application ''env-notes-0001'' ''main'' notes_release Mapping.empty = Some (Inr r)
     \<and> (\<exists>d \<in> set (ra_services r). ds_logical_name d = ''web'' \<and> Some (ds_source d) = Mapping.lookup (rls_sources notes_release) ''web'')"
proof -
  have "notes_resolutions = \<lparr>rn_sources = rls_sources notes_release, rn_secret_names = Mapping.empty\<rparr>"
    by (simp add: notes_release_def notes_resolutions_def)
  then obtain r where r: "compile_release example_sha notes_hash notes_application ''env-notes-0001'' ''main'' notes_release Mapping.empty = Some (Inr r)"
    and names: "map ds_logical_name (ra_services r) = [''web'', ''db'']"
    using notes_compiled unfolding compile_release_def by metis
  then obtain d where d: "d \<in> set (ra_services r)" "ds_logical_name d = ''web''"
    by (metis list.set_intros(1) imageE list.set_map)
  show ?thesis using r d releases_run_what_they_built [OF r d(1)] by metis
qed

lemma pinned_keys: "pinned \<lparr>rn_sources = sources, rn_secret_names = names\<rparr> secrets \<longleftrightarrow> sm_name ` set secrets \<subseteq> Mapping.keys names"
  by (auto simp: pinned_def keys_dom_lookup dom_def subset_iff)

text \<open>C10: A release reproduces the target it was recorded from. Take an application with the same services
  on the same sources as the target's, as another environment renders it, and any Swarm names for the
  secrets there. Compiling it with the release, for any environment, succeeds exactly when every secret its
  services and jobs mount is pinned and the files they mount are captured, and then runs the same services,
  in order, on the same sources and images; otherwise it is refused with errors.\<close>

theorem releases_reproduce_their_target:
  assumes "spec_well_formed (na_spec app)" and "spec_well_formed (na_spec app')"
    and "compile_application sha hash app environment instance_id resolutions = Some (Inr r)"
    and "map (\<lambda>s. (vs_name s, vs_source s)) (sp_services (na_spec app'))
      = map (\<lambda>s. (vs_name s, vs_source s)) (sp_services (na_spec app))"
  shows "if mounted_secret_names (na_spec app') \<subseteq> Mapping.keys secret_names
        \<and> (\<forall>s \<in> set (sp_services (na_spec app')). captured (na_files app') (vs_files s))
      then \<exists>r'. compile_release sha hash app' environment' instance_id' (release_new template commit r) secret_names
          = Some (Inr r')
        \<and> map (\<lambda>d. (ds_logical_name d, ds_source d, ds_image d)) (ra_services r')
          = map (\<lambda>d. (ds_logical_name d, ds_source d, ds_image d)) (ra_services r)
      else \<exists>e es. compile_release sha hash app' environment' instance_id' (release_new template commit r) secret_names
          = Some (Inl (e # es))"
proof -
  let ?release = "\<lparr>rn_sources = rls_sources (release_new template commit r), rn_secret_names = secret_names\<rparr>"
  let ?pinned = "mounted_secret_names (na_spec app') \<subseteq> Mapping.keys secret_names"
  let ?captured = "\<forall>s \<in> set (sp_services (na_spec app')). captured (na_files app') (vs_files s)"
  note compiled = assms(3) [unfolded compile_application_def]
  note compiled_services = compile_Inr(2) [OF compiled]
  have names: "distinct (map ds_logical_name (ra_services r))" using compile_acyclic(1) [OF assms(1) compiled] .
  note none = compile_Inr(1) [OF compiled, unfolded resolution_errors_none]
  have source: "\<exists>d. d \<in> set (ra_services r) \<and> Mapping.lookup (rn_sources ?release) (vs_name s) = Some (ds_source d)
      \<and> Mapping.lookup (rn_sources resolutions) (vs_name s) = Some (ds_source d)
      \<and> resolves (ds_source d) (vs_source s)"
    if s: "s \<in> set (sp_services (na_spec app))" for s
  proof -
    obtain d where d: "d \<in> set (ra_services r)"
      "compile_service sha resolutions (na_files app) (owner_of hash app environment instance_id)
        (network_for_application sha environment) s = Some d"
      using list_all2_member [OF list_all2_flip_rel [OF compiled_services] s] by blast
    note fields = compile_service_fields(1,3) [OF d(2)]
    have "resolves (ds_source d) (vs_source s)" using source_errors_none(1) none s fields(2) by blast
    with release_new_sources [OF names d(1)] fields d(1) show ?thesis by auto
  qed
  have same: "\<exists>s. s \<in> set (sp_services (na_spec app)) \<and> vs_name s = vs_name s' \<and> vs_source s = vs_source s'"
    if "s' \<in> set (sp_services (na_spec app'))" for s'
  proof -
    have "(vs_name s', vs_source s') \<in> set (map (\<lambda>s. (vs_name s, vs_source s)) (sp_services (na_spec app)))"
      unfolding assms(4) [symmetric] using that by simp
    then show ?thesis by auto
  qed
  have resolved: "Mapping.lookup (rn_sources ?release) (vs_name s') \<noteq> None \<and> source_errors Origin_Release ?release s' = []"
    if s': "s' \<in> set (sp_services (na_spec app'))" for s'
  proof -
    obtain s where s: "s \<in> set (sp_services (na_spec app))" "vs_name s = vs_name s'" "vs_source s = vs_source s'"
      using same [OF s'] by blast
    obtain d :: desired_service where "Mapping.lookup (rn_sources ?release) (vs_name s') = Some (ds_source d)" "resolves (ds_source d) (vs_source s')"
      using source [OF s(1)] unfolding s(2,3) by blast
    then show ?thesis using resolves_source_errors [of ?release s'] by simp
  qed
  have pins: "(\<forall>s \<in> set (sp_services (na_spec app')). pinned ?release (vs_secrets s))
      \<and> (\<forall>j \<in> set (sp_jobs (na_spec app')). pinned ?release (vj_secrets j)) \<longleftrightarrow> ?pinned"
    by (simp add: pinned_keys mounted_secret_names_def image_Un image_UN UN_subset_iff)
  have errors: "resolution_errors app' Origin_Release ?release = [] \<longleftrightarrow> ?pinned \<and> ?captured"
    unfolding resolution_errors_none pins [symmetric] using resolved by blast
  show ?thesis
  proof (cases "?pinned \<and> ?captured")
    case True
    then obtain r' where r': "compile sha hash app' environment' instance_id' ?release Origin_Release = Some (Inr r')"
      using compile_total [OF assms(2)] errors by blast
    note recompiled_services = compile_Inr(2) [OF r']
    have lengths: "length (sp_services (na_spec app')) = length (sp_services (na_spec app))"
      using arg_cong [OF assms(4), of length] by simp
    have "ds_source d' = ds_source d \<and> ds_logical_name d' = ds_logical_name d \<and> ds_image d' = ds_image d"
      if i: "i < length (sp_services (na_spec app))" and "d = ra_services r ! i" "d' = ra_services r' ! i" for i d d'
    proof -
      have i': "i < length (sp_services (na_spec app'))" using i lengths by simp
      note old = compile_service_fields [OF list_all2_nthD [OF compiled_services i]]
        and new = compile_service_fields [OF list_all2_nthD [OF recompiled_services i']]
      have "vs_name (sp_services (na_spec app') ! i) = vs_name (sp_services (na_spec app) ! i)"
        using arg_cong [OF assms(4), of "\<lambda>xs. fst (xs ! i)"] i i' by simp
      then show ?thesis using old(1,3,4) new(1,3,4) source [OF nth_mem [OF i]] that(2,3) by auto
    qed
    then have "map (\<lambda>d. (ds_logical_name d, ds_source d, ds_image d)) (ra_services r')
        = map (\<lambda>d. (ds_logical_name d, ds_source d, ds_image d)) (ra_services r)"
      using list_all2_lengthD [OF compiled_services] list_all2_lengthD [OF recompiled_services] lengths
      by (intro nth_equalityI) simp_all
    with r' True show ?thesis by (auto simp: compile_release_def)
  next
    case False
    then have "resolution_errors app' Origin_Release ?release \<noteq> []" using errors by blast
    then obtain e es where es: "resolution_errors app' Origin_Release ?release = e # es"
      unfolding neq_Nil_conv by blast
    then have "compile_release sha hash app' environment' instance_id' (release_new template commit r) secret_names
        = Some (Inl (e # es))"
      by (simp add: compile_release_def compile_def)
    with False show ?thesis by auto
  qed
qed

text \<open>The notes with a secret mounted in every service.\<close>

definition secret_notes :: normalized_application where
  "secret_notes = notes_application\<lparr>na_spec := notes_spec\<lparr>sp_services :=
     map (\<lambda>s. s\<lparr>vs_secrets := [\<lparr>sm_name = ''token'', sm_target = ''/run/secrets/token''\<rparr>]\<rparr>) (sp_services notes_spec)\<rparr>\<rparr>"

theorem releases_reproduce_their_target_witness:
  "\<exists>r r'. compile_release example_sha notes_hash secret_notes ''env-notes-0002'' ''main''
        (release_new (template_normalize shop_template ''app-notes-0001'') None r)
        (Mapping.update ''token'' ''piquel-token-0002'' Mapping.empty) = Some (Inr r')
     \<and> map ds_logical_name (ra_services r') = [''web'', ''db'']"
proof -
  obtain r where r: "compile_application example_sha notes_hash notes_application ''env-notes-0001'' ''main'' notes_resolutions = Some (Inr r)"
    and names: "map ds_logical_name (ra_services r) = [''web'', ''db'']"
    unfolding compile_application_def using notes_compiled .
  have wf: "spec_well_formed (na_spec secret_notes)"
    using well_formed_services [OF notes_well_formed, of "\<lambda>s. s\<lparr>vs_secrets := [\<lparr>sm_name = ''token'', sm_target = ''/run/secrets/token''\<rparr>]\<rparr>"]
    by (simp add: secret_notes_def notes_application_def)
  have sources: "map (\<lambda>s. (vs_name s, vs_source s)) (sp_services (na_spec secret_notes))
      = map (\<lambda>s. (vs_name s, vs_source s)) (sp_services (na_spec notes_application))"
    by (simp add: secret_notes_def notes_application_def)
  have pins: "mounted_secret_names (na_spec secret_notes) \<subseteq> Mapping.keys (Mapping.update ''token'' ''piquel-token-0002'' Mapping.empty)"
    and files: "\<forall>s \<in> set (sp_services (na_spec secret_notes)). captured (na_files secret_notes) (vs_files s)"
    by (auto simp: mounted_secret_names_def secret_notes_def notes_application_def notes_spec_def notes_service_def captured_def)
  note reproduced = releases_reproduce_their_target [OF notes_well_formed wf r sources,
    where secret_names = "Mapping.update ''token'' ''piquel-token-0002'' Mapping.empty", unfolded if_P [OF conjI [OF pins files]]]
  from reproduced
  obtain r' where again: "compile_release example_sha notes_hash secret_notes ''env-notes-0002'' ''main''
        (release_new (template_normalize shop_template ''app-notes-0001'') None r)
        (Mapping.update ''token'' ''piquel-token-0002'' Mapping.empty) = Some (Inr r')"
      and same: "map (\<lambda>d. (ds_logical_name d, ds_source d, ds_image d)) (ra_services r')
        = map (\<lambda>d. (ds_logical_name d, ds_source d, ds_image d)) (ra_services r)"
    by blast
  from arg_cong [OF same, of "map fst"] have "map ds_logical_name (ra_services r') = [''web'', ''db'']"
    by (simp add: comp_def names)
  with again show ?thesis by (intro exI [of _ r] exI [of _ r'] conjI)
qed

text \<open>C12: Every service of a preview has CPU and memory limits and runs at most the replicas previews may;
  limits it set itself are kept, the others are the configured defaults. Environments keep their
  applications as they are.\<close>

theorem previews_are_bounded:
  "fst (kind_bound Kind_Environment limits app) = app
   \<and> list_all2 (\<lambda>s b. vs_name b = vs_name s \<and> vs_replicas b = min (vs_replicas s) (pv_max_replicas limits)
        \<and> vs_resources b = Some \<lparr>
            rl_cpu_millis = Some (case Option.bind (vs_resources s) rl_cpu_millis of
              None \<Rightarrow> pv_default_cpu_millis limits | Some own \<Rightarrow> own),
            rl_memory_bytes = Some (case Option.bind (vs_resources s) rl_memory_bytes of
              None \<Rightarrow> pv_default_memory_bytes limits | Some own \<Rightarrow> own)\<rparr>)
      (sp_services (na_spec app)) (sp_services (na_spec (fst (kind_bound (Kind_Preview p) limits app))))"
  by (auto simp: kind_bound_def preview_bound_def Let_def list_all2_conv_all_nth bound_service_def min_def
      split: option.split)

end
