(* ===== verification/Deployed_Applications.thy ===== *)
theory Deployed_Applications
  imports Compilation_Facts Rendering_Facts
begin

text \<open>
  From a template to what is deployed: rendering, the limits of previews, pinning to a commit and
  canonical order together give a well-formed application, whose hash identifies its configuration.
\<close>

section \<open>Example\<close>

definition shop_saved :: application_template where
  "shop_saved =
     \<lparr>at_id = ''app-shop-0001'', at_api_version = APPLICATION_API_VERSION, at_kind = APPLICATION_KIND, at_name = ''shop'',
      at_spec = shop_spec, at_files = Mapping.empty\<rparr>"

lemma shop_renders: "\<exists>r. template_render rendered_example_json shop_saved rendered_example_context = Inr r"
proof -
  have "fst (spec_render rendered_example_json ''shop'' rendered_example_context shop_spec []) = shop_spec"
    "snd (snd (spec_render rendered_example_json ''shop'' rendered_example_context shop_spec [])) = []"
    by code_simp+
  then obtain vals where "spec_render rendered_example_json ''shop'' rendered_example_context shop_spec [] = (shop_spec, vals, [])"
    by (metis prod.collapse)
  moreover have unchanged: "shop_manifest\<lparr>am_spec := shop_spec\<rparr> = shop_manifest" by (simp add: shop_manifest_def)
  moreover obtain a where "manifest_validate (shop_manifest\<lparr>am_spec := shop_spec\<rparr>) = Inr a"
    unfolding unchanged using shop_converts by blast
  moreover have "at_to_manifest shop_saved = shop_manifest" "at_name shop_saved = ''shop''" "am_spec shop_manifest = shop_spec"
    by (simp_all add: shop_saved_def at_to_manifest_def shop_manifest_def)
  ultimately show ?thesis by (simp add: template_render_def)
qed

lemma default_limits_valid: "preview_limits_validate preview_limits_default = Inr ()"
  by (simp add: preview_limits_validate_def preview_limits_default_def MAX_CPU_MILLIS_def MIN_REPLICAS_def MAX_REPLICAS_def)

definition reordered_application :: normalized_application where
  "reordered_application = notes_application\<lparr>na_spec := notes_spec\<lparr>sp_services := rev (sp_services notes_spec)\<rparr>\<rparr>"

lemma reordered_same: "same_spec notes_spec (notes_spec\<lparr>sp_services := rev (sp_services notes_spec)\<rparr>)"
proof -
  have "mset (sp_services notes_spec) = mset (rev (sp_services notes_spec))" by simp
  moreover have "list_all2 same_service (sp_services notes_spec) (sp_services notes_spec)" "list_all2 same_job (sp_jobs notes_spec) (sp_jobs notes_spec)"
    by (auto simp: list_all2_conv_all_nth same_service_def same_job_def)
  ultimately show ?thesis by (auto simp: same_spec_def)
qed

section \<open>Properties\<close>

text \<open>C5: What a deployment compiles is well formed. Whatever a template renders, for an environment or a
  preview, bounded by valid limits and pinned to the commit of its checkout, has distinct and
  declared names, an acyclic startup order and settings within their ranges.\<close>

theorem deployed_applications_are_well_formed:
  assumes "template_render json t context = Inr r" and "preview_limits_validate limits = Inr ()"
  shows "spec_well_formed (na_spec (pin_manifest_sources (fst (kind_bound kind limits (rd_application r))) commit))"
proof -
  obtain m a where "manifest_validate m = Inr a"
    and r: "rd_application r = na_with_files (validated_normalize a (at_id t)) (at_files t)"
    using template_render_parts [OF assms(1)] .
  then have "spec_well_formed (va_spec a)" using accepted_well_formed by blast
  then have "spec_well_formed (na_spec (rd_application r))"
    by (simp add: r na_with_files_def validated_normalize_def normalize_spec_well_formed)
  then show ?thesis by (intro pinned_well_formed bounded_well_formed assms(2))
qed

theorem deployed_applications_are_well_formed_witness:
  "\<exists>r. template_render rendered_example_json shop_saved rendered_example_context = Inr r
     \<and> spec_well_formed (na_spec (pin_manifest_sources
         (fst (kind_bound Kind_Environment preview_limits_default (rd_application r))) (replicate 40 (CHR ''0''))))"
  using shop_renders deployed_applications_are_well_formed [OF _ default_limits_valid] by blast

text \<open>C11: A spec hash identifies a configuration. Unless the digest collides on the two canonical
  configurations, two applications have the same hash exactly when their captured files are equal and
  their specifications differ at most in their manifest and in the order of what is unordered.\<close>

theorem spec_hashes_identify_configurations:
  fixes a b :: normalized_application
  defines "configured app \<equiv> (na_spec app)\<lparr>sp_manifest := None\<rparr>"
  assumes "distinct (map vs_name (sp_services (na_spec a)))" "distinct (map vs_name (sp_services (na_spec b)))"
    and "\<forall>e \<in> set (sp_exports (na_spec a)) \<union> set (sp_exports (na_spec b)). finite (ve_applications e)"
    and "hash (normalize_spec (configured a)) (na_files a) = hash (normalize_spec (configured b)) (na_files b)
      \<Longrightarrow> normalize_spec (configured a) = normalize_spec (configured b) \<and> na_files a = na_files b"
  shows "na_spec_hash hash a = na_spec_hash hash b \<longleftrightarrow> same_spec (configured a) (configured b) \<and> na_files a = na_files b"
proof -
  have hashed: "na_spec_hash hash app = ''sha256:'' @ hash (normalize_spec (configured app)) (na_files app)" for app
    by (cases "na_spec app") (simp add: na_spec_hash_def na_normalize_def configured_def normalize_spec_def)
  have "normalize_spec (configured a) = normalize_spec (configured b) \<longleftrightarrow> same_spec (configured a) (configured b)"
    using assms(2-4) by (intro normalize_spec_same) (simp_all add: configured_def)
  then show ?thesis using assms(5) unfolding hashed by auto
qed

theorem spec_hashes_identify_configurations_witness:
  "na_spec_hash notes_hash notes_application = na_spec_hash notes_hash reordered_application
   \<and> same_spec ((na_spec notes_application)\<lparr>sp_manifest := None\<rparr>) ((na_spec reordered_application)\<lparr>sp_manifest := None\<rparr>)"
proof -
  have unmanaged: "notes_spec\<lparr>sp_manifest := None\<rparr> = notes_spec" by (simp add: notes_spec_def)
  have names: "distinct (map vs_name (sp_services (na_spec notes_application)))" "distinct (map vs_name (sp_services (na_spec reordered_application)))"
    by (simp_all add: reordered_application_def notes_application_def notes_spec_def notes_service_def)
  have exports: "\<forall>e \<in> set (sp_exports (na_spec notes_application)) \<union> set (sp_exports (na_spec reordered_application)). finite (ve_applications e)"
    by (simp add: reordered_application_def notes_application_def notes_spec_def)
  have same: "same_spec ((na_spec notes_application)\<lparr>sp_manifest := None\<rparr>) ((na_spec reordered_application)\<lparr>sp_manifest := None\<rparr>)"
    using reordered_same by (simp add: reordered_application_def notes_application_def unmanaged notes_spec_def)
  then have "normalize_spec ((na_spec notes_application)\<lparr>sp_manifest := None\<rparr>) = normalize_spec ((na_spec reordered_application)\<lparr>sp_manifest := None\<rparr>)"
    using names exports by (subst normalize_spec_same) simp_all
  then have "na_spec_hash notes_hash notes_application = na_spec_hash notes_hash reordered_application"
    using same names exports by (subst spec_hashes_identify_configurations) (simp_all add: reordered_application_def notes_application_def)
  with same show ?thesis by blast
qed

end
