(* ===== verification/Spec2Isabelle.thy ===== *)
theory Spec2Isabelle
  imports Access_Checks Previews Audit_Chain Build_Queue Operation_Steps Rendering_Facts Hostnames Accepted_Manifests Deployed_Applications
begin

text \<open>
  Verification development of piqueld, a daemon that deploys applications to a single-node Docker
  Swarm from manifests (\<open>src/apps/piqueld\<close>, with the pure domain in \<open>src/crates/piqueld-core\<close>).

  \<^bold>\<open>The program.\<close> A caller's access decides what it may do (\<open>access.rs\<close>). A manifest, whose
  values may be templates over variables, is validated, rendered for an environment and converted to
  validated values, which are compiled to desired resources; the controller observes Docker, the planner (\<open>planner.rs\<close>) compares
  both and produces ordered actions, and the controller executes them until the plan is empty.
  Every change is a durable operation in the store, the trail of audited requests is a hash chain
  next to it, and image builds take turns in a queue. Core functions are pure; the store's
  transactions are atomic; only the build queue is shared between threads in the parts modelled.

  \<^bold>\<open>Theories and sources\<close> (paths below \<open>src/crates/piqueld-core/src\<close> unless they start with
  \<open>apps\<close>).
  \<^item> \<open>Prelude\<close>: strings, options, lists and maps that every theory shares, and the collections
    \<open>scope_simps\<close>, \<open>plan_simps\<close>, \<open>label_simps\<close>, \<open>char_simps\<close>.
  \<^item> \<open>Names\<close>: \<open>names.rs\<close>, \<open>identity.rs\<close>, \<open>docker_names.rs\<close>: labels, sanitized and hashed names.
  \<^item> \<open>Access\<close>, \<open>Access_Checks\<close>: \<open>access.rs\<close>: scopes, grant sets, the requests' checks, the wire list.
  \<^item> \<open>Rollout\<close>, \<open>Domain\<close>, \<open>Dependencies\<close>: \<open>manifest/rollout.rs\<close>, \<open>manifest/domain.rs\<close> and its
    siblings, \<open>manifest/dependencies.rs\<close>.
  \<^item> \<open>Str\<close>, \<open>Templates\<close>, \<open>Manifest_Input\<close>, \<open>Rendering\<close>, \<open>Rendering_Facts\<close>: \<open>manifest/variables.rs\<close> and
    \<open>manifest/input.rs\<close>: string functions of the standard library, templates and references, the
    editable manifest, its visitor and its rendering for a target.
  \<^item> \<open>Hostnames\<close>, \<open>Manifest_Checks\<close>: the syntax of hostnames, images, branches and paths.
  \<^item> \<open>Environments\<close>, \<open>Declarations\<close>: \<open>environment.rs\<close>, \<open>sync.rs\<close>, views of \<open>api.rs\<close> and
    \<open>manifest/declaration.rs\<close>: environments, their sync state, and those a manifest declares.
  \<^item> \<open>Service_Checks\<close>, \<open>Validation\<close>: \<open>manifest/validation\<close>: every check of \<open>validate_template\<close>.
  \<^item> \<open>Conversion\<close>, \<open>Conversion_Facts\<close>: \<open>from_input\<close> and \<open>to_input\<close> of \<open>manifest/domain.rs\<close>, \<open>routes.rs\<close> and
    \<open>links.rs\<close>, and which specifications convert.
  \<^item> \<open>Acceptance\<close>, \<open>Well_Formed\<close>, \<open>Accepted_Manifests\<close>: what it means that the checks report nothing, and
    what an accepted manifest guarantees.
  \<^item> \<open>Normalization\<close>, \<open>Applications\<close>, \<open>Application_Facts\<close>: \<open>manifest/mod.rs\<close>, \<open>manifest/template.rs\<close> and
    \<open>manifest/files.rs\<close>: canonical order, templates and what they render, captured files.
  \<^item> \<open>Compilation\<close>, \<open>Compilation_Facts\<close>, \<open>Deployed_Applications\<close>: the compilation of \<open>resource.rs\<close>,
    \<open>release.rs\<close> and \<open>manifest/limits.rs\<close>: resolutions, targets, releases, limits of previews, and the
    composition from a template to what is deployed.
  \<^item> \<open>Ownership\<close>, \<open>Resources\<close>, \<open>Observed\<close>, \<open>Projections\<close>: \<open>resource.rs\<close>: labels, desired resources,
    observations and drift, the projections onto a target.
  \<^item> \<open>Links\<close>: \<open>links.rs\<close>: private links between environments.
  \<^item> \<open>Plan\<close>, \<open>Planner\<close>, \<open>Preparation\<close>, \<open>Previews\<close>: \<open>planner.rs\<close>: plans, reconciliation, jobs, warnings and
    redaction. \<open>Planner_Facts\<close> states what every pass of the planner does to a plan as the locales
    \<open>plan_pass\<close> and \<open>ready_pass\<close>, interpreted on the eight passes; \<open>Planner_Services\<close> and
    \<open>Reconciliation\<close> characterise services and whole plans with them; \<open>Plan_Safety\<close> states what plans
    guarantee.
  \<^item> \<open>Store_Base\<close>: errors, 64-bit ids and the shape of updates in \<open>apps/piqueld/src/store\<close>.
  \<^item> \<open>Audit_Chain\<close>: \<open>audit.rs\<close> and \<open>apps/piqueld/src/store/audit.rs\<close>.
  \<^item> \<open>Build_Queue\<close>: \<open>apps/piqueld/src/docker/build_queue.rs\<close>.
  \<^item> \<open>Diagnostics\<close>: \<open>observability/diagnostic.rs\<close>.
  \<^item> \<open>Operations\<close>, \<open>Operation_Facts\<close>, \<open>Operation_Steps\<close>: \<open>operation.rs\<close> and
    \<open>apps/piqueld/src/store/operation.rs\<close> with what it calls in \<open>deployment.rs\<close>, \<open>jobs.rs\<close>, \<open>status.rs\<close>,
    \<open>stopped.rs\<close> and \<open>observability/event.rs\<close>: the tables, the invariant each operation keeps, and the step
    relation with its histories.

  \<^bold>\<open>Correspondence.\<close> A struct is a \<open>record\<close> whose fields carry a prefix, an enum a \<open>datatype\<close>, a
  fallible function returns \<open>error + value\<close>, a machine integer is a word (or an \<open>int\<close> with its bound
  written out where rows of the database are concerned), a \<open>BTreeMap\<close> a \<open>mapping\<close>. Database tables are
  lists of rows and statements the maps and filters they perform. Definitions keep the names of the
  code's functions, with a suffix or a prefix where HOL has the name.

  \<^bold>\<open>What is shown.\<close>
  \<^item> Access: grants never exceed their grantor's, access that permits the same compares equal,
    applications a caller cannot read answer as if they did not exist.
  \<^item> Manifests: rendering substitutes values and leaves typed literals within its bounds, literal text
    round-trips through templates, environments are declared in promotion order, an accepted manifest
    converts exactly when its values are literal and is then well formed, with a complete startup order.
  \<^item> Deployment: what a template renders is well formed after the limits of previews and pinning, compiling
    it never panics and yields canonical names and a plannable order, its hash identifies it, releases
    run what they were built from and reproduce their target wherever the secrets are pinned.
  \<^item> Plans: nothing that is not owned is touched, dependencies start first, cleanup waits for
    convergence, a reconciliation plan is complete, jobs start prepared and repair drops exactly what would
    undo that, previews that differ only in configuration are redacted to the same plan.
  \<^item> Links, labels and names: both sides must agree to a link, labels identify an owner.
  \<^item> Audit trail: recording keeps the chain, equal heads mean equal records unless the hash collides
    on the very values checked, pruning finishes and never touches the evidence of tampering. The
    lemmas show that paging verifies the same list of rows and relate the check to \<open>chain_end\<close>.
  \<^item> Build queue: the turn is neither lost nor duplicated under any interleaving of the atomic
    steps, every waiting build is overtaken a bounded number of times, stays in line until it is cancelled
    or wakes with its turn, and a run without new builds that goes on as long as it can wakes it.
  \<^item> Operations: rows keep the schema's constraints, only an environment's latest operation is active,
    states follow \<open>can_transition_to\<close>, stale transitions are refused, a new operation supersedes the others
    of its environment and stores their outcomes, every finished deployment has its outcome stored.

  \<^bold>\<open>Bounds and termination.\<close> No definition uses fuel. The work list of dependencies, the walk up a
  chain of promotions (fewer environments not yet visited), the planner's repeated passes, the pages of the audit verification (fewer rows from each cursor on) and the batches
  of pruning (fewer rows after each) are total functions with their measures. The build queue's
  liveness rests on the measure \<open>serving_work\<close>: every step of the queue or of the running build lowers it,
  and only new builds raise it, by at most six.

  \<^bold>\<open>Parameters.\<close> SHA-256, JSON serialization, the decoding of JSON values into settings (\<open>json_api\<close>) and
  generated ids (UUIDs) are arguments; what is assumed of
  them is a named hypothesis: digests of 64 hexadecimal digits, no collision on the values at
  hand, unused ids.

  \<^bold>\<open>Not modelled.\<close> The HTTP API and its wire types, the browser UI, the CLI and the generated client
  (I/O and presentation); Docker, Git, DNS, ingress, Tailscale and telemetry adapters (calls to
  external services); authentication ceremonies and sessions; configuration files. Of the store:
  repositories, releases, previews, promotion, restore, secrets, ingress and synchronization; reading
  pages; the documents of a deployment. Of the core: deserialization (derived), edits,
  changes, the content hash of releases (a digest of their JSON) and URLs.

  \<^bold>\<open>Plan.\<close> Admission limits of sign-in (\<open>apps/piqueld/src/auth/throttle.rs\<close>), edits, changes and retention;
  then the controller's loop (\<open>apps/piqueld/src/reconcile/controller.rs\<close>) over the planner with Docker as a
  parameter.
\<close>

end
